(* ===== verification/Prelude.thy ===== *)
theory Prelude
  imports Main "HOL-Library.Word" "HOL-Library.Multiset"
begin

text \<open>
  Shared vocabulary of the development: names for the fixed-width integers of the sources
  (\<open>quint8\<close> to \<open>quint64\<close> are words, which wrap as the C++ types do; a signed \<open>qint32\<close> is the
  same 32-bit word, read with \<open>sint\<close> where its sign matters), byte arrays, the collections of
  rewrite rules the components fill, and list, order and word lemmas used by several of them.
\<close>

type_synonym u8 = "8 word"
type_synonym u16 = "16 word"
type_synonym u32 = "32 word"
type_synonym u64 = "64 word"
type_synonym s32 = "32 word"
type_synonym s64 = "64 word"

text \<open>\<open>QByteArray\<close>: the bytes it holds. The null/empty distinction is not visible to the code modelled.\<close>

type_synonym bytes = "u8 list"

text \<open>The bytes of a string literal, and \<open>QByteArray::startsWith\<close>.\<close>

definition ascii :: "string \<Rightarrow> bytes" where
  "ascii s = map of_char s"

definition starts_with :: "bytes \<Rightarrow> bytes \<Rightarrow> bool" where
  "starts_with pre s \<longleftrightarrow> take (length pre) s = pre"

named_theorems elf_simps \<open>unfolding rules of the ELF map\<close>
named_theorems reader_simps \<open>evaluation rules of the data stream readers\<close>
named_theorems flush_simps \<open>evaluation rules of the event buffer\<close>
named_theorems intern_simps \<open>evaluation rules of the string and location tables\<close>

section \<open>Words\<close>

lemma unat_add_nowrap:
  fixes a b :: "'a::len word"
  assumes "unat a + unat b < 2 ^ LENGTH('a)"
  shows "unat (a + b) = unat a + unat b"
  using assms by (simp add: unat_add_lem [THEN iffD1])

lemma unat_sub_le:
  fixes a b :: "'a::len word"
  shows "b \<le> a \<Longrightarrow> unat (a - b) = unat a - unat b"
  by (rule unat_sub)

lemma unat_min_word: "unat (min a b) = min (unat a) (unat (b :: 'a::len word))"
  by (simp add: min_def word_le_nat_alt)

lemma unat_max_word: "unat (max a b) = max (unat a) (unat (b :: 'a::len word))"
  by (simp add: max_def word_le_nat_alt)

lemma add_sub_same_word: "a - b = c - d \<Longrightarrow> x - (a - b) = x - c + (d :: 'a::len word)"
  by (simp add: algebra_simps)

lemma unat_gt_0_iff: "0 < unat w \<longleftrightarrow> w \<noteq> (0 :: 'a::len word)"
  by (simp add: unat_gt_0)

lemma even_unat: "even (unat w) \<longleftrightarrow> even (w :: u64)"
  by transfer (simp add: even_nat_iff)

section \<open>Lists\<close>

text \<open>\<open>QVector::remove\<close> and \<open>QVector::insert\<close> at an index.\<close>

definition remove_at :: "nat \<Rightarrow> 'a list \<Rightarrow> 'a list" where
  "remove_at i xs = take i xs @ drop (Suc i) xs"

definition insert_at :: "nat \<Rightarrow> 'a \<Rightarrow> 'a list \<Rightarrow> 'a list" where
  "insert_at i x xs = take i xs @ x # drop i xs"

lemma set_insert_at [simp]: "set (insert_at i x xs) = insert x (set xs)"
proof -
  have "set (take i xs) \<union> set (drop i xs) = set xs"
    by (metis append_take_drop_id set_append)
  then show ?thesis by (auto simp: insert_at_def)
qed

lemma length_insert_at [simp]: "length (insert_at i x xs) = Suc (length xs)"
  by (simp add: insert_at_def)

lemma mset_insert_at [simp]: "mset (insert_at i x xs) = add_mset x (mset xs)"
  by (metis append_take_drop_id insert_at_def mset.simps(2) mset_append union_mset_add_mset_right)

lemma remove_at_append_right:
  "length xs \<le> i \<Longrightarrow> remove_at i (xs @ ys) = xs @ remove_at (i - length xs) ys"
  by (simp add: remove_at_def Suc_diff_le)

lemma remove_at_middle [simp]: "remove_at (length xs) (xs @ y # ys) = xs @ ys"
  by (simp add: remove_at_def)

lemma set_remove_at: "set (remove_at i xs) \<subseteq> set xs"
  using set_take_subset [of i xs] set_drop_subset [of "Suc i" xs] by (auto simp: remove_at_def)

lemma set_fold_remove_at: "set (fold remove_at rm xs) \<subseteq> set xs"
  using set_remove_at by (induction rm arbitrary: xs) fastforce+

text \<open>The list of the elements whose index is not removed, with the index of the head.\<close>

fun keep_except :: "nat list \<Rightarrow> nat \<Rightarrow> 'a list \<Rightarrow> 'a list" where
  "keep_except rm i [] = []"
| "keep_except rm i (x # xs) =
     (if i \<in> set rm then keep_except rm (Suc i) xs else x # keep_except rm (Suc i) xs)"

lemma keep_except_append:
  "keep_except rm i (xs @ ys) = keep_except rm i xs @ keep_except rm (i + length xs) ys"
  by (induction xs arbitrary: i) simp_all

lemma set_keep_except: "set (keep_except rm i xs) \<subseteq> set xs"
  by (induction xs arbitrary: i) auto

lemma sorted_keep_except: "sorted (map k xs) \<Longrightarrow> sorted (map k (keep_except rm i xs))"
  using set_keep_except by (induction xs arbitrary: i) fastforce+

lemma keep_except_none: "(\<forall>r \<in> set rm. r < i) \<Longrightarrow> keep_except rm i xs = xs"
proof (induction xs arbitrary: i)
  case (Cons x xs)
  have "keep_except rm (Suc i) xs = xs"
    using Cons.prems by (intro Cons.IH) (auto intro: less_SucI)
  then show ?case using Cons.prems by auto
qed simp

lemma keep_except_outside:
  "(\<forall>r \<in> set rm. r < i \<or> i + length xs \<le> r) \<Longrightarrow> keep_except rm i xs = xs"
proof (induction xs arbitrary: i)
  case (Cons x xs)
  have "keep_except rm (Suc i) xs = xs"
    using Cons.prems by (intro Cons.IH) (force intro: less_SucI)
  then show ?case using Cons.prems by force
qed simp

lemma keep_except_snoc_outside:
  "i + length xs \<le> r \<Longrightarrow> keep_except (rm @ [r]) i xs = keep_except rm i xs"
  by (induction xs arbitrary: i) auto

lemma keep_except_snoc_rm:
  assumes "\<forall>s \<in> set rm. s < r"
  shows "keep_except (rm @ [r]) 0 xs = keep_except rm 0 (remove_at r xs)"
proof (cases "r < length xs")
  case True
  then obtain x where xs: "xs = take r xs @ x # drop (Suc r) xs"
    by (metis id_take_nth_drop)
  have a: "keep_except (rm @ [r]) 0 (take r xs) = keep_except rm 0 (take r xs)"
    by (rule keep_except_snoc_outside) simp
  have b: "keep_except (rm @ [r]) (Suc r) (drop (Suc r) xs) = drop (Suc r) xs"
    using assms by (intro keep_except_none) auto
  have c: "keep_except rm r (drop (Suc r) xs) = drop (Suc r) xs"
    using assms by (intro keep_except_none) auto
  have len: "length (take r xs) = r" using True by simp
  have "keep_except (rm @ [r]) 0 xs =
      keep_except (rm @ [r]) 0 (take r xs) @ keep_except (rm @ [r]) r (x # drop (Suc r) xs)"
    using keep_except_append [of "rm @ [r]" 0 "take r xs" "x # drop (Suc r) xs"]
    by (simp only: len xs [symmetric] add_0)
  also have "\<dots> = keep_except rm 0 (take r xs) @ drop (Suc r) xs"
    by (simp add: a b)
  also have "\<dots> = keep_except rm 0 (remove_at r xs)"
    by (simp only: remove_at_def keep_except_append len c add_0)
  finally show ?thesis .
next
  case False
  then show ?thesis by (simp add: remove_at_def keep_except_snoc_outside)
qed

text \<open>Removing by descending index, as the code does, keeps exactly the other elements.\<close>

lemma fold_remove_at_rev:
  "sorted_wrt (<) rm \<Longrightarrow> fold remove_at (rev rm) xs = keep_except rm 0 xs"
proof (induction rm arbitrary: xs rule: rev_induct)
  case Nil
  then show ?case by (simp add: keep_except_none)
next
  case (snoc r rm)
  then have lt: "\<forall>s \<in> set rm. s < r" and "sorted_wrt (<) rm"
    by (auto simp: sorted_wrt_append)
  then show ?case
    by (simp add: snoc.IH keep_except_snoc_rm)
qed

lemma sorted_wrt_sym_insert_at:
  assumes sym: "\<And>x y. R x y \<Longrightarrow> R y x"
  shows "sorted_wrt R (insert_at i x xs) \<longleftrightarrow> (\<forall>y \<in> set xs. R x y) \<and> sorted_wrt R xs"
proof -
  let ?a = "take i xs" and ?b = "drop i xs"
  have u: "set xs = set ?a \<union> set ?b"
    by (metis append_take_drop_id set_append)
  have s: "sorted_wrt R xs \<longleftrightarrow> sorted_wrt R ?a \<and> sorted_wrt R ?b
      \<and> (\<forall>x \<in> set ?a. \<forall>y \<in> set ?b. R x y)"
    by (metis append_take_drop_id sorted_wrt_append)
  have c: "R x y \<longleftrightarrow> R y x" for x y using sym by blast
  have "sorted_wrt R (insert_at i x xs) \<longleftrightarrow> sorted_wrt R ?a \<and> sorted_wrt R ?b
      \<and> (\<forall>y \<in> set ?b. R x y) \<and> (\<forall>z \<in> set ?a. R x z \<and> (\<forall>y \<in> set ?b. R z y))"
    by (simp add: insert_at_def sorted_wrt_append c [of x]) blast
  also have "\<dots> \<longleftrightarrow> (\<forall>y \<in> set xs. R x y) \<and> sorted_wrt R xs"
    unfolding u s by blast
  finally show ?thesis .
qed

end
