(* ===== verification/Algorithms.thy ===== *)
theory Algorithms
  imports Prelude
begin

text \<open>
  The standard-library algorithms the sources call on sorted vectors: \<open>std::lower_bound\<close> and
  \<open>std::upper_bound\<close> as the binary search they are, \<open>std::stable_sort\<close> as the library's stable
  \<open>sort_key\<close>, \<open>std::unique\<close>, and \<open>std::sort\<close>, whose order of equal elements is not specified, as
  any function with its contract. The locale \<open>address_table\<close> is the interface the four lookup
  tables of the program share: entries sorted by a start address, searched by address.
\<close>

section \<open>Binary search\<close>

text \<open>The partition point of \<open>p\<close> in the \<open>len\<close> elements from index \<open>i\<close>, by halving.\<close>

function part_search :: "('a \<Rightarrow> bool) \<Rightarrow> 'a list \<Rightarrow> nat \<Rightarrow> nat \<Rightarrow> nat" where
  "part_search p xs i len =
     (if len = 0 then i
      else let half = len div 2; mid = i + half in
        if p (xs ! mid) then part_search p xs (Suc mid) (len - half - 1)
        else part_search p xs i half)"
  by pat_completeness auto
termination
  by (relation "measure (\<lambda>(p, xs, i, len). len)") auto

declare part_search.simps [simp del]

definition lower_bound :: "('e \<Rightarrow> 'k::linorder) \<Rightarrow> 'e list \<Rightarrow> 'k \<Rightarrow> nat" where
  "lower_bound key xs a = part_search (\<lambda>e. key e < a) xs 0 (length xs)"

definition upper_bound :: "('e \<Rightarrow> 'k::linorder) \<Rightarrow> 'e list \<Rightarrow> 'k \<Rightarrow> nat" where
  "upper_bound key xs a = part_search (\<lambda>e. \<not> a < key e) xs 0 (length xs)"

lemma part_search_point:
  assumes "i \<le> k" "k \<le> i + len" "i + len \<le> length xs"
    and "\<And>j. i \<le> j \<Longrightarrow> j < k \<Longrightarrow> p (xs ! j)"
    and "\<And>j. k \<le> j \<Longrightarrow> j < i + len \<Longrightarrow> \<not> p (xs ! j)"
  shows "part_search p xs i len = k"
  using assms
proof (induction p xs i len rule: part_search.induct)
  case (1 p xs i len)
  show ?case
  proof (cases "len = 0")
    case True
    with "1.prems"(1,2) show ?thesis by (simp add: part_search.simps [of p xs i 0])
  next
    case False
    let ?half = "len div 2"
    let ?mid = "i + ?half"
    show ?thesis
    proof (cases "p (xs ! ?mid)")
      case True
      then have "?mid < k"
        using "1.prems"(5) [of ?mid] False by force
      then have "part_search p xs (Suc ?mid) (len - ?half - 1) = k"
        using "1.IH"(1) [OF False refl refl True] "1.prems" False by simp
      then show ?thesis
        using True False by (simp add: part_search.simps [of p xs i len] Let_def)
    next
      case F: False
      then have "k \<le> ?mid"
        using "1.prems"(4) [of ?mid] False by force
      then have "part_search p xs i ?half = k"
        using "1.IH"(2) [OF False refl refl F] "1.prems" by simp
      then show ?thesis
        using F False by (simp add: part_search.simps [of p xs i len] Let_def)
    qed
  qed
qed

lemma part_search_bounds: "i \<le> part_search p xs i len \<and> part_search p xs i len \<le> i + len"
proof (induction p xs i len rule: part_search.induct)
  case (1 p xs i len)
  show ?case
  proof (cases "len = 0")
    case False
    have "len div 2 < len" using False by simp
    then show ?thesis
      using 1(1) [OF False refl refl] 1(2) [OF False refl refl] False
      by (auto simp: part_search.simps [of p xs i len] Let_def)
  qed (simp add: part_search.simps [of _ _ _ 0])
qed

lemma takeWhile_point:
  assumes "sorted_wrt (\<lambda>x y. p y \<longrightarrow> p x) xs" "length (takeWhile p xs) \<le> j" "j < length xs"
  shows "\<not> p (xs ! j)"
proof
  assume pj: "p (xs ! j)"
  have lt: "length (takeWhile p xs) < length xs" using assms by simp
  then have "\<not> p (xs ! length (takeWhile p xs))"
    by (rule nth_length_takeWhile)
  moreover have "p (xs ! length (takeWhile p xs))"
    using assms pj by (cases "j = length (takeWhile p xs)")
      (auto dest!: sorted_wrt_nth_less [of _ xs "length (takeWhile p xs)" j])
  ultimately show False by simp
qed

text \<open>On a partitioned list the binary search is the obvious linear one.\<close>

lemma part_search_eq_takeWhile:
  assumes "sorted_wrt (\<lambda>x y. p y \<longrightarrow> p x) xs"
  shows "part_search p xs 0 (length xs) = length (takeWhile p xs)"
proof (rule part_search_point)
  show "p (xs ! j)" if "j < length (takeWhile p xs)" for j
    using that by (metis nth_mem set_takeWhileD takeWhile_nth)
  show "\<not> p (xs ! j)" if "length (takeWhile p xs) \<le> j" "j < 0 + length xs" for j
    using takeWhile_point [OF assms that(1)] that(2) by simp
qed (simp_all add: length_takeWhile_le)

lemma sorted_key_partitioned:
  assumes "sorted (map key xs)"
  shows "sorted_wrt (\<lambda>x y. key y < a \<longrightarrow> key x < a) xs"
    and "sorted_wrt (\<lambda>x y. \<not> a < key y \<longrightarrow> \<not> a < key x) xs"
  using assms by (auto simp: sorted_map intro: sorted_wrt_mono_rel [rotated])

lemma lower_bound_eq:
  "sorted (map key xs) \<Longrightarrow> lower_bound key xs a = length (takeWhile (\<lambda>e. key e < a) xs)"
  by (simp add: lower_bound_def part_search_eq_takeWhile sorted_key_partitioned)

lemma upper_bound_eq:
  "sorted (map key xs) \<Longrightarrow> upper_bound key xs a = length (takeWhile (\<lambda>e. \<not> a < key e) xs)"
  by (simp add: upper_bound_def part_search_eq_takeWhile sorted_key_partitioned)

lemma lower_bound_le: "sorted (map key xs) \<Longrightarrow> lower_bound key xs a \<le> length xs"
  by (simp add: lower_bound_eq length_takeWhile_le)

lemma upper_bound_le: "sorted (map key xs) \<Longrightarrow> upper_bound key xs a \<le> length xs"
  by (simp add: upper_bound_eq length_takeWhile_le)

lemma takeWhile_boundary:
  assumes "sorted_wrt (\<lambda>x y. p y \<longrightarrow> p x) xs" "j < length xs"
  shows "p (xs ! j) \<longleftrightarrow> j < length (takeWhile p xs)"
proof
  show "p (xs ! j) \<Longrightarrow> j < length (takeWhile p xs)"
    using takeWhile_point [OF assms(1) _ assms(2)] by (meson not_less)
  show "j < length (takeWhile p xs) \<Longrightarrow> p (xs ! j)"
    by (metis nth_mem set_takeWhileD takeWhile_nth)
qed

lemma lower_bound_nth:
  assumes "sorted (map key xs)" "j < length xs"
  shows "key (xs ! j) < a \<longleftrightarrow> j < lower_bound key xs a"
  unfolding lower_bound_eq [OF assms(1)]
  by (rule takeWhile_boundary [OF sorted_key_partitioned(1) [OF assms(1)] assms(2)])

lemma upper_bound_nth:
  assumes "sorted (map key xs)" "j < length xs"
  shows "key (xs ! j) \<le> a \<longleftrightarrow> j < upper_bound key xs a"
  unfolding upper_bound_eq [OF assms(1)]
  using takeWhile_boundary [OF sorted_key_partitioned(2) [OF assms(1)] assms(2)]
  by (simp add: not_less)

lemma sorted_insert_lower_bound:
  assumes "sorted (map key xs)"
  shows "sorted (map key (insert_at (lower_bound key xs (key x)) x xs))"
proof -
  let ?n = "lower_bound key xs (key x)"
  have "sorted (map key (take ?n xs) @ map key (drop ?n xs))"
    using assms by (simp flip: map_append)
  then have split: "sorted (map key (take ?n xs))" "sorted (map key (drop ?n xs))"
    "\<And>a b. a \<in> set (take ?n xs) \<Longrightarrow> b \<in> set (drop ?n xs) \<Longrightarrow> key a \<le> key b"
    unfolding sorted_append by auto
  have "key y \<le> key x" if y: "y \<in> set (take ?n xs)" for y
  proof -
    obtain j where "j < length (take ?n xs)" "y = take ?n xs ! j"
      using y unfolding in_set_conv_nth by blast
    then have "j < ?n" "j < length xs" "y = xs ! j" by simp_all
    then show ?thesis
      using lower_bound_nth [OF assms, of j "key x"] by simp
  qed
  moreover have "key x \<le> key y" if y: "y \<in> set (drop ?n xs)" for y
  proof -
    obtain j where "j < length (drop ?n xs)" "y = drop ?n xs ! j"
      using y unfolding in_set_conv_nth by blast
    then have j: "j < length xs - ?n" "y = xs ! (?n + j)" by simp_all
    then have "\<not> key y < key x"
      using lower_bound_nth [OF assms, of "?n + j" "key x"] by auto
    then show ?thesis by simp
  qed
  ultimately show ?thesis
    using split by (auto simp: insert_at_def sorted_append)
qed

section \<open>Sorting and removing duplicates\<close>

text \<open>\<open>std::unique\<close>: of each run of equivalent elements the first stays.\<close>

fun std_unique :: "('a \<Rightarrow> 'a \<Rightarrow> bool) \<Rightarrow> 'a list \<Rightarrow> 'a list" where
  "std_unique eq [] = []"
| "std_unique eq [x] = [x]"
| "std_unique eq (x # y # xs) =
     (if eq x y then std_unique eq (x # xs) else x # std_unique eq (y # xs))"

lemma set_std_unique: "set (std_unique eq xs) \<subseteq> set xs"
  by (induction eq xs rule: std_unique.induct) auto

lemma std_unique_Cons_hd: "\<exists>ys. std_unique eq (x # xs) = x # ys"
proof (induction xs)
  case (Cons y xs)
  then show ?case by (cases "eq x y") auto
qed auto

lemma sorted_std_unique: "sorted (map key xs) \<Longrightarrow> sorted (map key (std_unique eq xs))"
proof (induction eq xs rule: std_unique.induct)
  case (3 eq x y xs)
  then show ?case using set_std_unique [of eq "y # xs"] by auto
qed auto

text \<open>The contract of \<open>std::sort\<close> with a comparison by key.\<close>

definition is_std_sort :: "('e \<Rightarrow> 'k::linorder) \<Rightarrow> ('e list \<Rightarrow> 'e list) \<Rightarrow> bool" where
  "is_std_sort key srt \<longleftrightarrow> (\<forall>xs. sorted (map key (srt xs)) \<and> mset (srt xs) = mset xs)"

lemma is_std_sort_sort_key: "is_std_sort key (sort_key key)"
  by (simp add: is_std_sort_def)

lemma std_sort_Nil: "is_std_sort key srt \<Longrightarrow> srt [] = []"
  by (metis is_std_sort_def mset_zero_iff)

section \<open>Tables searched by address\<close>

locale address_table =
  fixes entries :: "'t \<Rightarrow> 'e list"
    and start :: "'e \<Rightarrow> u64"
    and invar :: "'t \<Rightarrow> bool"
  assumes entries_sorted: "invar t \<Longrightarrow> sorted (map start (entries t))"
begin

lemma floor_start_le:
  assumes "invar t" "upper_bound start (entries t) a = Suc n"
  shows "start (entries t ! n) \<le> a" and "n < length (entries t)"
proof -
  show "n < length (entries t)"
    using upper_bound_le [OF entries_sorted [OF assms(1)], of a] assms(2) by simp
  then show "start (entries t ! n) \<le> a"
    using upper_bound_nth [OF entries_sorted [OF assms(1)], of n a] assms(2) by simp
qed

lemma floor_greatest:
  assumes "invar t" "upper_bound start (entries t) a = Suc n"
    and "e \<in> set (entries t)" "start e \<le> a"
  shows "start e \<le> start (entries t ! n)"
proof -
  obtain j where j: "j < length (entries t)" "e = entries t ! j"
    using assms(3) by (auto simp: in_set_conv_nth)
  then have "j \<le> n"
    using upper_bound_nth [OF entries_sorted [OF assms(1)], of j a] assms by simp
  then show ?thesis
    using sorted_nth_mono [OF entries_sorted [OF assms(1)], of j n] j
      floor_start_le(2) [OF assms(1,2)] by simp
qed

lemma floor_none:
  assumes "invar t" "upper_bound start (entries t) a = 0" "e \<in> set (entries t)"
  shows "a < start e"
  using assms upper_bound_nth [OF entries_sorted [OF assms(1)], of _ a]
  by (fastforce simp: in_set_conv_nth not_le)

end

end
