(* ===== verification/ElfMap.thy ===== *)
theory ElfMap
  imports Algorithms
begin

text \<open>
  \<open>app/perfelfmap.h\<close>, \<open>app/perfelfmap.cpp\<close>: the mapped binaries of one process, a vector of
  \<open>ElfInfo\<close> sorted by start address. Registering an mmap extends a mapping of the same file in
  the same place, splits or removes what the new range overwrites, and derives the base address of
  the segments of one file from the last mapping with offset zero. Addresses are 64-bit words.
  A \<open>QFileInfo\<close> is the record of the answers the code asks of it. The signal
  \<open>aboutToInvalidate\<close> is returned as the list of the entries it was emitted for, in order.
\<close>

section \<open>ElfInfo\<close>

record qfileinfo =
  fi_isFile :: bool
  fi_fileName :: bytes
  fi_absoluteFilePath :: bytes

definition no_file :: qfileinfo where
  "no_file = \<lparr>fi_isFile = False, fi_fileName = [], fi_absoluteFilePath = []\<rparr>"

record elf_info =
  localFile :: qfileinfo
  originalFileName :: bytes
  originalPath :: bytes
  elf_addr :: u64
  elf_length :: u64
  elf_pgoff :: u64
  baseAddr :: u64
  dwflStart :: u64
  dwflEnd :: u64

definition INVALID_BASE_ADDR :: u64 where
  "INVALID_BASE_ADDR = - 1"

text \<open>The constructor: an empty name or path is taken from the local file.\<close>

definition ElfInfo :: "qfileinfo \<Rightarrow> u64 \<Rightarrow> u64 \<Rightarrow> u64 \<Rightarrow> bytes \<Rightarrow> bytes \<Rightarrow> elf_info" where
  "ElfInfo file addr len pgoff name path =
     \<lparr>localFile = file,
      originalFileName = (if name = [] then fi_fileName file else name),
      originalPath = (if path = [] then fi_absoluteFilePath file else path),
      elf_addr = addr, elf_length = len, elf_pgoff = pgoff,
      baseAddr = INVALID_BASE_ADDR, dwflStart = 0, dwflEnd = 0\<rparr>"

definition noElf :: elf_info where
  "noElf = ElfInfo no_file 0 0 0 [] []"

definition isValid :: "elf_info \<Rightarrow> bool" where
  "isValid e \<longleftrightarrow> elf_length e > 0"

definition isFile :: "elf_info \<Rightarrow> bool" where
  "isFile e \<longleftrightarrow> fi_isFile (localFile e)"

definition hasBaseAddr :: "elf_info \<Rightarrow> bool" where
  "hasBaseAddr e \<longleftrightarrow> baseAddr e \<noteq> INVALID_BASE_ADDR"

text \<open>\<open>operator==\<close>; \<open>sameFile\<close> is \<open>QFileInfo::operator==\<close>, which asks the file system.\<close>

definition elf_eq :: "(qfileinfo \<Rightarrow> qfileinfo \<Rightarrow> bool) \<Rightarrow> elf_info \<Rightarrow> elf_info \<Rightarrow> bool" where
  "elf_eq sameFile l r \<longleftrightarrow>
     isFile l = isFile r
     \<and> (\<not> isFile l \<or> sameFile (localFile l) (localFile r))
     \<and> originalFileName l = originalFileName r
     \<and> originalPath l = originalPath r
     \<and> elf_addr l = elf_addr r
     \<and> elf_length l = elf_length r
     \<and> elf_pgoff l = elf_pgoff r
     \<and> baseAddr l = baseAddr r"

section \<open>The map\<close>

record elf_map =
  m_elfs :: "elf_info list"
  m_lastBase :: elf_info

definition empty_map :: elf_map where
  "empty_map = \<lparr>m_elfs = [], m_lastBase = noElf\<rparr>"

definition copyDataFrom :: "elf_map \<Rightarrow> elf_map \<Rightarrow> elf_map" where
  "copyDataFrom parent m = m\<lparr>m_elfs := m_elfs parent, m_lastBase := m_lastBase parent\<rparr>"

definition elfsEmpty :: "elf_map \<Rightarrow> bool" where
  "elfsEmpty m \<longleftrightarrow> m_elfs m = []"

text \<open>
  The locals of \<open>registerElf\<close> that the scan of the old entries changes: the range, which may
  grow, the fragments to reinsert, the indices to remove and the entries reported as invalid.
\<close>

record reg_state =
  rs_addr :: u64
  rs_len :: u64
  rs_pgoff :: u64
  rs_addrEnd :: u64
  rs_newElfs :: "elf_info list"
  rs_removed :: "nat list"
  rs_invalidated :: "elf_info list"

text \<open>An entry that is overwritten: its remaining fragments are kept for reinsertion.\<close>

definition overwrite :: "nat \<Rightarrow> elf_info \<Rightarrow> reg_state \<Rightarrow> reg_state" where
  "overwrite k i st =
     (let iEnd = elf_addr i + elf_length i;
          before = (if elf_addr i < rs_addr st
            then [ElfInfo (localFile i) (elf_addr i) (rs_addr st - elf_addr i) (elf_pgoff i)
                    (originalFileName i) (originalPath i)] else []);
          after = (if iEnd > rs_addrEnd st
            then [ElfInfo (localFile i) (rs_addrEnd st) (iEnd - rs_addrEnd st)
                    (elf_pgoff i + rs_addrEnd st - elf_addr i)
                    (originalFileName i) (originalPath i)] else [])
      in st\<lparr>rs_newElfs := rs_newElfs st @ before @ after,
            rs_invalidated := rs_invalidated st @ [i],
            rs_removed := rs_removed st @ [k]\<rparr>)"

text \<open>The range grows to the hull of itself and of an entry of the same file in the same place.\<close>

definition extend_range :: "elf_info \<Rightarrow> reg_state \<Rightarrow> reg_state" where
  "extend_range i st =
     (let addr = min (rs_addr st) (elf_addr i);
          pgoff = min (rs_pgoff st) (elf_pgoff i);
          addrEnd = max (rs_addrEnd st) (elf_addr i + elf_length i)
      in st\<lparr>rs_addr := addr, rs_pgoff := pgoff, rs_addrEnd := addrEnd, rs_len := addrEnd - addr\<rparr>)"

text \<open>
  The scan loop from index \<open>k\<close>. \<open>Inl\<close> is the early return when the new mapping is contained in
  an old one, with the entries reported so far.
\<close>

fun scan_elfs :: "bytes \<Rightarrow> nat \<Rightarrow> elf_info list \<Rightarrow> reg_state \<Rightarrow> elf_info list + reg_state" where
  "scan_elfs path k [] st = Inr st"
| "scan_elfs path k (i # is) st =
     (if \<not> elf_addr i < rs_addrEnd st then Inr st
      else let iEnd = elf_addr i + elf_length i in
        if iEnd < rs_addr st then scan_elfs path (Suc k) is st
        else if rs_addr st - rs_pgoff st = elf_addr i - elf_pgoff i \<and> path = originalPath i then
          (let st' = extend_range i st in
           if rs_addr st' = elf_addr i \<and> rs_len st' = elf_length i
           then Inl (rs_invalidated st')
           else scan_elfs path (Suc k) is (overwrite k i st'))
        else if iEnd = rs_addr st then scan_elfs path (Suc k) is st
        else scan_elfs path (Suc k) is (overwrite k i st))"

text \<open>The base address of a file's segment, and the mapping remembered as the last base.\<close>

definition assignBase :: "bytes \<Rightarrow> u64 \<Rightarrow> elf_info \<Rightarrow> elf_info \<Rightarrow> elf_info \<times> elf_info" where
  "assignBase path pgoff elf lastBase =
     (if isFile elf then
        if originalPath lastBase = path \<and> elf_addr elf > elf_addr lastBase
        then (elf\<lparr>baseAddr := elf_addr lastBase\<rparr>, lastBase)
        else if pgoff = 0 then (elf, elf)
        else (elf, noElf)
      else (elf, lastBase))"

definition insert_elf :: "elf_info \<Rightarrow> elf_info list \<Rightarrow> elf_info list" where
  "insert_elf e es = insert_at (lower_bound elf_addr es (elf_addr e)) e es"

definition start_state :: "u64 \<Rightarrow> u64 \<Rightarrow> u64 \<Rightarrow> reg_state" where
  "start_state addr len pgoff =
     \<lparr>rs_addr = addr, rs_len = len, rs_pgoff = pgoff, rs_addrEnd = addr + len,
      rs_newElfs = [], rs_removed = [], rs_invalidated = []\<rparr>"

definition registerElf ::
  "u64 \<Rightarrow> u64 \<Rightarrow> u64 \<Rightarrow> qfileinfo \<Rightarrow> bytes \<Rightarrow> bytes \<Rightarrow> elf_map \<Rightarrow> elf_map \<times> elf_info list" where
  "registerElf addr len pgoff fullPath name path m =
     (case scan_elfs path 0 (m_elfs m) (start_state addr len pgoff) of
        Inl invalidated \<Rightarrow> (m, invalidated)
      | Inr st \<Rightarrow>
          (let kept = fold remove_at (rev (rs_removed st)) (m_elfs m);
               elf = ElfInfo fullPath (rs_addr st) (rs_len st) (rs_pgoff st) name path;
               (elf', lastBase) = assignBase path (rs_pgoff st) elf (m_lastBase m)
           in (m\<lparr>m_elfs := fold insert_elf (rs_newElfs st @ [elf']) kept,
                 m_lastBase := lastBase\<rparr>,
               rs_invalidated st)))"

definition findElf :: "u64 \<Rightarrow> elf_map \<Rightarrow> elf_info" where
  "findElf ip m =
     (case upper_bound elf_addr (m_elfs m) ip of
        0 \<Rightarrow> noElf
      | Suc n \<Rightarrow>
          (let i = m_elfs m ! n in
           if dwflStart i < dwflEnd i
           then (if dwflStart i \<le> ip \<and> dwflEnd i > ip then i else noElf)
           else (if elf_addr i + elf_length i > ip then i else noElf)))"

text \<open>\<open>None\<close>: decrementing the begin iterator, which the code only rules out by an assertion.\<close>

definition updateElf :: "u64 \<Rightarrow> u64 \<Rightarrow> u64 \<Rightarrow> elf_map \<Rightarrow> elf_map option" where
  "updateElf addr start end' m =
     (case upper_bound elf_addr (m_elfs m) addr of
        0 \<Rightarrow> None
      | Suc n \<Rightarrow> Some (m\<lparr>m_elfs :=
          (m_elfs m)[n := (m_elfs m ! n)\<lparr>dwflStart := start, dwflEnd := end'\<rparr>]\<rparr>))"

definition isAddressInRange :: "u64 \<Rightarrow> elf_map \<Rightarrow> bool" where
  "isAddressInRange addr m =
     (if m_elfs m = [] then False
      else elf_addr (hd (m_elfs m)) \<le> addr
        \<and> addr < elf_addr (last (m_elfs m)) + elf_length (last (m_elfs m)))"

section \<open>What the map promises\<close>

text \<open>
  The contract of the map: each address is mapped to at most one byte of one file, given by the
  file's path and the offset in it; a registration overwrites the addresses of its range.
\<close>

type_synonym file_map = "u64 \<rightharpoonup> bytes \<times> u64"

definition covers :: "elf_info \<Rightarrow> u64 \<Rightarrow> bool" where
  "covers e a \<longleftrightarrow> elf_addr e \<le> a \<and> a < elf_addr e + elf_length e"

definition file_at :: "elf_info list \<Rightarrow> file_map" where
  "file_at es a =
     (case find (\<lambda>e. covers e a) es of
        None \<Rightarrow> None
      | Some e \<Rightarrow> Some (originalPath e, a - elf_addr e + elf_pgoff e))"

definition map_file :: "u64 \<Rightarrow> u64 \<Rightarrow> u64 \<Rightarrow> bytes \<Rightarrow> file_map \<Rightarrow> file_map" where
  "map_file addr len pgoff path F =
     (\<lambda>a. if addr \<le> a \<and> a < addr + len then Some (path, a - addr + pgoff) else F a)"

text \<open>
  A range the kernel can report: not empty, and neither the addresses nor the file offsets wrap
  around.
\<close>

definition wf_range :: "u64 \<Rightarrow> u64 \<Rightarrow> u64 \<Rightarrow> bool" where
  "wf_range addr len pgoff \<longleftrightarrow>
     len \<noteq> 0 \<and> unat addr + unat len < 2 ^ 64 \<and> unat pgoff + unat len < 2 ^ 64"

definition elf_lo :: "elf_info \<Rightarrow> nat" where
  "elf_lo e = unat (elf_addr e)"

definition elf_hi :: "elf_info \<Rightarrow> nat" where
  "elf_hi e = unat (elf_addr e) + unat (elf_length e)"

text \<open>An entry as the constructor builds it from a kernel range.\<close>

definition wf_elf :: "elf_info \<Rightarrow> bool" where
  "wf_elf e \<longleftrightarrow> wf_range (elf_addr e) (elf_length e) (elf_pgoff e)
     \<and> (originalPath e = [] \<longrightarrow> fi_absoluteFilePath (localFile e) = [])"

text \<open>The invariant of the vector: well-formed entries, in address order, that do not overlap.\<close>

definition elfs_inv :: "elf_info list \<Rightarrow> bool" where
  "elfs_inv es \<longleftrightarrow> (\<forall>e \<in> set es. wf_elf e) \<and> sorted_wrt (\<lambda>a b. elf_hi a \<le> elf_lo b) es"

text \<open>One request to \<open>registerElf\<close>, and a sequence of them on an empty map.\<close>

record elf_request =
  rq_addr :: u64
  rq_len :: u64
  rq_pgoff :: u64
  rq_file :: qfileinfo
  rq_name :: bytes
  rq_path :: bytes

definition wf_request :: "elf_request \<Rightarrow> bool" where
  "wf_request r \<longleftrightarrow> wf_range (rq_addr r) (rq_len r) (rq_pgoff r)
     \<and> (rq_path r = [] \<longrightarrow> fi_absoluteFilePath (rq_file r) = [])"

definition register_request :: "elf_request \<Rightarrow> elf_map \<Rightarrow> elf_map" where
  "register_request r m =
     fst (registerElf (rq_addr r) (rq_len r) (rq_pgoff r) (rq_file r) (rq_name r) (rq_path r) m)"

definition map_request :: "elf_request \<Rightarrow> file_map \<Rightarrow> file_map" where
  "map_request r = map_file (rq_addr r) (rq_len r) (rq_pgoff r) (rq_path r)"

definition register_all :: "elf_request list \<Rightarrow> elf_map \<Rightarrow> elf_map" where
  "register_all rs m = fold register_request rs m"

text \<open>A base address lies below the entry it belongs to.\<close>

definition base_inv :: "elf_map \<Rightarrow> bool" where
  "base_inv m \<longleftrightarrow> (\<forall>e \<in> set (m_elfs m). hasBaseAddr e \<longrightarrow> baseAddr e < elf_addr e)"

end
