(* ===== verification/AddressCache.thy ===== *)
theory AddressCache
  imports ElfMap
begin

text \<open>
  \<open>app/perfaddresscache.h\<close>, \<open>app/perfaddresscache.cpp\<close>: the cache of resolved addresses, keyed by a
  binary's path and the address relative to its base, and the cache of symbol tables, one sorted
  vector per binary whose names are demangled when first looked up. \<open>QHash\<close> is a map; the
  symbols libdwfl reports and the demangler are parameters.
\<close>

unbundle bit_operations_syntax

definition symbolAddress :: "u64 \<Rightarrow> bool \<Rightarrow> u64" where
  "symbolAddress addr isArmArch =
     (if \<not> isArmArch \<or> addr AND 1 \<noteq> 0 then addr else addr + 1)"

definition alignedAddress :: "u64 \<Rightarrow> bool \<Rightarrow> u64" where
  "alignedAddress addr isArmArch =
     (if isArmArch \<and> addr AND 1 \<noteq> 0 then addr - 1 else addr)"

record address_cache_entry =
  locationId :: int
  isInterworking :: bool

definition noLocation :: address_cache_entry where
  "noLocation = \<lparr>locationId = - 1, isInterworking = False\<rparr>"

definition locationValid :: "address_cache_entry \<Rightarrow> bool" where
  "locationValid e \<longleftrightarrow> locationId e \<ge> 0"

type_synonym offset_address_cache = "u64 \<rightharpoonup> address_cache_entry"

record symbol_cache_entry =
  sym_offset :: u64
  sym_value :: u64
  sym_size :: u64
  symname :: bytes
  demangled :: bool

definition noSymbol :: symbol_cache_entry where
  "noSymbol = \<lparr>sym_offset = 0, sym_value = 0, sym_size = 0, symname = [], demangled = False\<rparr>"

definition symbolValid :: "symbol_cache_entry \<Rightarrow> bool" where
  "symbolValid e \<longleftrightarrow> symname e \<noteq> []"

type_synonym symbol_cache = "symbol_cache_entry list"

record address_cache =
  m_cache :: "bytes \<rightharpoonup> offset_address_cache"
  m_symbolCache :: "bytes \<rightharpoonup> symbol_cache"

definition emptyCache :: address_cache where
  "emptyCache = \<lparr>m_cache = Map.empty, m_symbolCache = Map.empty\<rparr>"

section \<open>Resolved addresses\<close>

definition elfBase :: "elf_info \<Rightarrow> u64" where
  "elfBase elf = (if hasBaseAddr elf then baseAddr elf else elf_addr elf)"

definition relativeAddress :: "elf_info \<Rightarrow> u64 \<Rightarrow> u64" where
  "relativeAddress elf addr = addr - elfBase elf"

text \<open>The assertions of \<open>relativeAddress\<close>.\<close>

definition relativeAddress_asserts :: "elf_info \<Rightarrow> u64 \<Rightarrow> bool" where
  "relativeAddress_asserts elf addr \<longleftrightarrow>
     isValid elf \<and> elfBase elf \<le> addr \<and> elf_addr elf + elf_length elf > addr"

definition hash_value :: "('k \<rightharpoonup> 'v) \<Rightarrow> 'k \<Rightarrow> 'v \<Rightarrow> 'v" where
  "hash_value m k d = (case m k of None \<Rightarrow> d | Some v \<Rightarrow> v)"

definition findAddress ::
  "elf_info \<Rightarrow> u64 \<Rightarrow> offset_address_cache \<Rightarrow> address_cache \<Rightarrow> address_cache_entry" where
  "findAddress elf addr invalidAddressCache c =
     (if isValid elf
      then hash_value (hash_value (m_cache c) (originalPath elf) Map.empty)
             (relativeAddress elf addr) noLocation
      else hash_value invalidAddressCache addr noLocation)"

definition cacheAddress ::
  "elf_info \<Rightarrow> u64 \<Rightarrow> address_cache_entry \<Rightarrow> offset_address_cache \<Rightarrow> address_cache
    \<Rightarrow> address_cache \<times> offset_address_cache" where
  "cacheAddress elf addr entry invalidAddressCache c =
     (if isValid elf
      then (c\<lparr>m_cache := (m_cache c)(originalPath elf \<mapsto>
              (hash_value (m_cache c) (originalPath elf) Map.empty)
                (relativeAddress elf addr \<mapsto> entry))\<rparr>, invalidAddressCache)
      else (c, invalidAddressCache(addr \<mapsto> entry)))"

section \<open>Symbol tables\<close>

definition hasSymbolCache :: "bytes \<Rightarrow> address_cache \<Rightarrow> bool" where
  "hasSymbolCache filePath c \<longleftrightarrow> m_symbolCache c filePath \<noteq> None"

text \<open>The equality \<open>std::unique\<close> compares with.\<close>

definition sym_eq :: "symbol_cache_entry \<Rightarrow> symbol_cache_entry \<Rightarrow> bool" where
  "sym_eq l r \<longleftrightarrow> sym_offset l = sym_offset r \<and> sym_size l = sym_size r"

definition setSymbolCache :: "bytes \<Rightarrow> symbol_cache \<Rightarrow> address_cache \<Rightarrow> address_cache" where
  "setSymbolCache filePath cache c =
     c\<lparr>m_symbolCache := (m_symbolCache c)(filePath \<mapsto> std_unique sym_eq (sort_key sym_offset cache))\<rparr>"

definition lazyDemangle :: "(bytes \<Rightarrow> bytes) \<Rightarrow> symbol_cache_entry \<Rightarrow> symbol_cache_entry" where
  "lazyDemangle demangle entry =
     (if \<not> demangled entry then entry\<lparr>symname := demangle (symname entry), demangled := True\<rparr>
      else entry)"

text \<open>
  The index of the entry the search settles on, if any. An exact start address wins; otherwise
  the entry before it counts when it has no size or contains the address.
\<close>

definition symbolIndex :: "symbol_cache \<Rightarrow> u64 \<Rightarrow> nat option" where
  "symbolIndex symbols relAddr =
     (let it = lower_bound sym_offset symbols relAddr in
      if it \<noteq> length symbols \<and> sym_offset (symbols ! it) = relAddr then Some it
      else if it = 0 then None
      else let s = symbols ! (it - 1) in
        if sym_offset s \<le> relAddr \<and> (sym_offset s + sym_size s > relAddr \<or> sym_size s = 0)
        then Some (it - 1) else None)"

text \<open>The lookup stores the demangled name, and creates an empty table for an unknown path.\<close>

definition findSymbol ::
  "(bytes \<Rightarrow> bytes) \<Rightarrow> bytes \<Rightarrow> u64 \<Rightarrow> address_cache \<Rightarrow> symbol_cache_entry \<times> address_cache" where
  "findSymbol demangle filePath relAddr c =
     (let symbols = hash_value (m_symbolCache c) filePath [] in
      case symbolIndex symbols relAddr of
        None \<Rightarrow> (noSymbol, c\<lparr>m_symbolCache := (m_symbolCache c)(filePath \<mapsto> symbols)\<rparr>)
      | Some n \<Rightarrow>
          (let entry = lazyDemangle demangle (symbols ! n)
           in (entry, c\<lparr>m_symbolCache := (m_symbolCache c)(filePath \<mapsto> symbols[n := entry])\<rparr>)))"

text \<open>
  The symbols of a module: \<open>dwfl_module_getsym_info\<close> gives for each index nothing, or the
  symbol's value, size, adjusted address and name.
\<close>

record dwfl_sym =
  st_value :: u64
  st_size :: u64
  symAddr :: u64
  st_name :: bytes

definition extractSymbols :: "dwfl_sym option list \<Rightarrow> u64 \<Rightarrow> bool \<Rightarrow> symbol_cache" where
  "extractSymbols syms elfStart isArmArch =
     map (\<lambda>s. \<lparr>sym_offset = symAddr s - elfStart,
               sym_value = alignedAddress (st_value s) isArmArch,
               sym_size = st_size s, symname = st_name s, demangled = False\<rparr>)
       (List.map_filter id syms)"

end
