(* ===== verification/ElfMapFacts.thy ===== *)
theory ElfMapFacts
  imports ElfMap
begin

text \<open>
  The ELF map meets its contract: the scan of \<open>registerElf\<close> keeps an invariant that says which
  addresses the entries seen so far, their fragments and the growing range account for, the
  vector's invariant is preserved, and lookups agree with the abstract file map.
\<close>

section \<open>Ranges and entries\<close>

lemma ElfInfo_sel [simp]:
  "localFile (ElfInfo f a l p n q) = f" "elf_addr (ElfInfo f a l p n q) = a"
  "elf_length (ElfInfo f a l p n q) = l" "elf_pgoff (ElfInfo f a l p n q) = p"
  "originalPath (ElfInfo f a l p n q) = (if q = [] then fi_absoluteFilePath f else q)"
  "originalFileName (ElfInfo f a l p n q) = (if n = [] then fi_fileName f else n)"
  "baseAddr (ElfInfo f a l p n q) = INVALID_BASE_ADDR"
  "dwflStart (ElfInfo f a l p n q) = 0" "dwflEnd (ElfInfo f a l p n q) = 0"
  by (simp_all add: ElfInfo_def)

lemma no_file_sel [simp]:
  "fi_isFile no_file = False" "fi_fileName no_file = []" "fi_absoluteFilePath no_file = []"
  by (simp_all add: no_file_def)

definition elf_disj :: "elf_info \<Rightarrow> elf_info \<Rightarrow> bool" where
  "elf_disj a b \<longleftrightarrow> elf_hi a \<le> elf_lo b \<or> elf_hi b \<le> elf_lo a"

definition holds :: "elf_info \<Rightarrow> u64 \<Rightarrow> bool" where
  "holds e a \<longleftrightarrow> elf_lo e \<le> unat a \<and> unat a < elf_hi e"

definition elf_value :: "elf_info \<Rightarrow> u64 \<Rightarrow> bytes \<times> u64" where
  "elf_value e a = (originalPath e, a - elf_addr e + elf_pgoff e)"

definition maps_to :: "elf_info list \<Rightarrow> u64 \<Rightarrow> bytes \<times> u64 \<Rightarrow> bool" where
  "maps_to es a v \<longleftrightarrow> (\<exists>e \<in> set es. holds e a \<and> v = elf_value e a)"

lemma disj_sym: "elf_disj a b \<Longrightarrow> elf_disj b a"
  by (auto simp: elf_disj_def)

lemma maps_to_simps [simp]:
  "\<not> maps_to [] a v"
  "maps_to (es @ fs) a v \<longleftrightarrow> maps_to es a v \<or> maps_to fs a v"
  "maps_to (e # es) a v \<longleftrightarrow> holds e a \<and> v = elf_value e a \<or> maps_to es a v"
  by (auto simp: maps_to_def)

lemma wf_range_unat:
  assumes "wf_range a l p"
  shows "unat (a + l) = unat a + unat l" "unat a < unat a + unat l" "0 < unat l"
  using assms by (auto simp: wf_range_def unat_add_nowrap unat_gt_0)

lemma wf_elf_nonempty: "wf_elf e \<Longrightarrow> elf_lo e < elf_hi e"
  using wf_range_unat by (auto simp: wf_elf_def elf_lo_def elf_hi_def)

lemma wf_elf_end: "wf_elf e \<Longrightarrow> unat (elf_addr e + elf_length e) = elf_hi e"
  using wf_range_unat by (auto simp: wf_elf_def elf_hi_def)

lemma covers_iff_holds: "wf_elf e \<Longrightarrow> covers e a \<longleftrightarrow> holds e a"
  using wf_elf_end by (simp add: covers_def holds_def word_le_nat_alt word_less_nat_alt elf_lo_def)

lemma in_range_unat:
  "wf_range addr len p \<Longrightarrow>
    addr \<le> a \<and> a < addr + len \<longleftrightarrow> unat addr \<le> unat a \<and> unat a < unat addr + unat len"
  using wf_range_unat(1) by (simp add: word_le_nat_alt word_less_nat_alt)

text \<open>Two ranges that touch and lie in the same place of a file start at matching offsets.\<close>

lemma touch_pgoff:
  fixes a b l p q :: u64
  assumes "wf_range a l p" "a \<le> b" "unat b \<le> unat a + unat l" "a - p = b - q"
  shows "unat q = unat p + (unat b - unat a)"
proof -
  have q: "q = p + (b - a)" using assms(4) by (simp add: algebra_simps)
  have d: "unat (b - a) = unat b - unat a" using assms(2) by (rule unat_sub)
  have "unat p + unat (b - a) < 2 ^ LENGTH(64)"
    using assms(1,3) unfolding d wf_range_def by simp linarith
  then show ?thesis unfolding q by (simp add: unat_add_nowrap d)
qed

section \<open>Invariant of the vector\<close>

lemma elfs_inv_Nil [simp]: "elfs_inv []"
  by (simp add: elfs_inv_def)

lemma elfs_inv_append:
  "elfs_inv (xs @ ys) \<longleftrightarrow> elfs_inv xs \<and> elfs_inv ys
     \<and> (\<forall>x \<in> set xs. \<forall>y \<in> set ys. elf_hi x \<le> elf_lo y)"
  by (auto simp: elfs_inv_def sorted_wrt_append)

lemma elfs_inv_Cons:
  "elfs_inv (x # xs) \<longleftrightarrow> wf_elf x \<and> elfs_inv xs \<and> (\<forall>y \<in> set xs. elf_hi x \<le> elf_lo y)"
  by (auto simp: elfs_inv_def)

lemma elfs_inv_sorted: "elfs_inv es \<Longrightarrow> sorted (map elf_addr es)"
proof (induction es)
  case (Cons e es)
  then have "elf_addr e \<le> elf_addr y" if "y \<in> set es" for y
    using that wf_elf_nonempty [of e] by (force simp: elfs_inv_Cons word_le_nat_alt elf_lo_def)
  with Cons show ?case by (simp add: elfs_inv_Cons)
qed simp

lemma elfs_inv_disj: "elfs_inv es \<Longrightarrow> sorted_wrt elf_disj es"
  by (auto simp: elfs_inv_def elf_disj_def elim: sorted_wrt_mono_rel [rotated])

lemma elfs_inv_of_disj:
  assumes wf: "\<forall>e \<in> set es. wf_elf e" and "sorted_wrt elf_disj es" "sorted (map elf_addr es)"
  shows "elfs_inv es"
  using assms
proof (induction es)
  case (Cons e es)
  have "elf_hi e \<le> elf_lo y" if y: "y \<in> set es" for y
  proof -
    have "elf_lo e \<le> elf_lo y"
      using Cons.prems(3) y by (simp add: word_le_nat_alt elf_lo_def)
    moreover have "elf_lo y < elf_hi y" using Cons.prems(1) y by (simp add: wf_elf_nonempty)
    moreover have "elf_disj e y" using Cons.prems(2) y by simp
    ultimately show ?thesis by (auto simp: elf_disj_def)
  qed
  with Cons show ?case by (simp add: elfs_inv_Cons)
qed simp

lemma holds_unique:
  assumes "elfs_inv es" "e \<in> set es" "e' \<in> set es" "holds e a" "holds e' a"
  shows "e = e'"
  using assms
proof (induction es)
  case (Cons x xs)
  then show ?case by (fastforce simp: elfs_inv_Cons holds_def)
qed simp

lemma file_at_iff:
  assumes "elfs_inv es"
  shows "file_at es a = Some v \<longleftrightarrow> maps_to es a v"
proof -
  have h: "covers e a \<longleftrightarrow> holds e a" if "e \<in> set es" for e
    using assms that by (intro covers_iff_holds) (simp add: elfs_inv_def)
  show ?thesis
  proof (cases "find (\<lambda>e. covers e a) es")
    case None
    then have "file_at es a = None" by (simp add: file_at_def)
    moreover have "\<not> maps_to es a v"
      using None h by (simp add: maps_to_def find_None_iff)
    ultimately show ?thesis by simp
  next
    case (Some e)
    then have "e \<in> set es" "holds e a"
      using h by (auto simp: find_Some_iff in_set_conv_nth)
    then show ?thesis
      using Some holds_unique [OF assms]
      by (auto simp: file_at_def maps_to_def elf_value_def)
  qed
qed

lemma file_at_eqI:
  assumes "elfs_inv es" "elfs_inv fs" "\<And>v. maps_to es a v \<longleftrightarrow> maps_to fs a v"
  shows "file_at es a = file_at fs a"
  using assms(3) file_at_iff [OF assms(1)] file_at_iff [OF assms(2)]
  by (metis not_None_eq)

section \<open>Insertion\<close>

lemma set_fold_insert_elf: "set (fold insert_elf xs es) = set xs \<union> set es"
  by (induction xs arbitrary: es) (auto simp: insert_elf_def)

lemma fold_insert_elf_inv:
  assumes "\<forall>e \<in> set (xs @ es). wf_elf e" "sorted_wrt elf_disj (es @ xs)" "sorted (map elf_addr es)"
  shows "elfs_inv (fold insert_elf xs es)"
  using assms
proof (induction xs arbitrary: es)
  case Nil
  then show ?case by (simp add: elfs_inv_of_disj)
next
  case (Cons x xs)
  have "sorted_wrt elf_disj (insert_elf x es @ xs)"
    using Cons.prems(2) disj_sym
    by (auto simp: insert_elf_def sorted_wrt_append sorted_wrt_sym_insert_at [of elf_disj, OF disj_sym])
  then have "elfs_inv (fold insert_elf xs (insert_elf x es))"
    using Cons.prems by (intro Cons.IH)
      (auto simp: insert_elf_def intro: sorted_insert_lower_bound)
  then show ?case by simp
qed

lemma maps_to_fold_insert:
  "maps_to (fold insert_elf xs es) a v \<longleftrightarrow> maps_to xs a v \<or> maps_to es a v"
  by (auto simp: maps_to_def set_fold_insert_elf)

section \<open>The scan\<close>

definition rs_lo :: "reg_state \<Rightarrow> nat" where
  "rs_lo st = unat (rs_addr st)"

definition rs_hi :: "reg_state \<Rightarrow> nat" where
  "rs_hi st = unat (rs_addr st) + unat (rs_len st)"

definition in_rs :: "reg_state \<Rightarrow> u64 \<Rightarrow> bool" where
  "in_rs st a \<longleftrightarrow> rs_lo st \<le> unat a \<and> unat a < rs_hi st"

text \<open>The entries that stay, with the fragments, after the entries \<open>ps\<close> have been scanned.\<close>

definition pieces :: "elf_info list \<Rightarrow> reg_state \<Rightarrow> elf_info list" where
  "pieces ps st = keep_except (rs_removed st) 0 ps @ rs_newElfs st"

text \<open>
  The invariant of the scan that started from \<open>st0\<close>: the range is a kernel range at the place
  \<open>D\<close> of the file, the pieces are disjoint from it and from each other and map what the scanned
  entries mapped outside it, and what it has grown by was mapped to the same place before.
\<close>

definition scan_inv ::
  "bytes \<Rightarrow> u64 \<Rightarrow> reg_state \<Rightarrow> elf_info list \<Rightarrow> elf_info list \<Rightarrow> reg_state \<Rightarrow> bool" where
  "scan_inv path D st0 ps rest st \<longleftrightarrow>
     sorted_wrt (<) (rs_removed st) \<and> (\<forall>r \<in> set (rs_removed st). r < length ps)
     \<and> wf_range (rs_addr st) (rs_len st) (rs_pgoff st)
     \<and> rs_addrEnd st = rs_addr st + rs_len st
     \<and> rs_addr st - rs_pgoff st = D
     \<and> (\<forall>e \<in> set (pieces ps st). wf_elf e \<and> (elf_hi e \<le> rs_lo st \<or> rs_hi st \<le> elf_lo e)
          \<and> (\<forall>i \<in> set rest. elf_hi e \<le> elf_lo i))
     \<and> sorted_wrt elf_disj (pieces ps st)
     \<and> (\<forall>a v. \<not> in_rs st a \<longrightarrow> maps_to (pieces ps st) a v = maps_to ps a v)
     \<and> (\<forall>a. in_rs st a \<longrightarrow> \<not> in_rs st0 a \<longrightarrow> maps_to ps a (path, a - D))
     \<and> rs_lo st \<le> rs_lo st0 \<and> rs_hi st0 \<le> rs_hi st"

lemma scan_inv_start:
  "wf_range addr len pgoff \<Longrightarrow>
    scan_inv path (addr - pgoff) (start_state addr len pgoff) [] rest (start_state addr len pgoff)"
  by (simp add: scan_inv_def start_state_def pieces_def)

lemma pieces_keep:
  assumes "\<forall>r \<in> set (rs_removed st). r < length ps"
  shows "pieces (ps @ [i]) st = keep_except (rs_removed st) 0 ps @ i # rs_newElfs st"
  using assms by (auto simp: pieces_def keep_except_append)

lemma sorted_wrt_disj_middle:
  "sorted_wrt elf_disj (xs @ i # ys) \<longleftrightarrow> sorted_wrt elf_disj (xs @ ys) \<and> (\<forall>z \<in> set (xs @ ys). elf_disj i z)"
  using sorted_wrt_sym_insert_at [of elf_disj "length xs" i "xs @ ys", OF disj_sym]
  by (auto simp: insert_at_def)

lemma scan_keep:
  assumes inv: "scan_inv path D st0 ps (i # rest) st"
    and i: "wf_elf i" "\<forall>j \<in> set rest. elf_hi i \<le> elf_lo j" "elf_hi i \<le> rs_lo st"
  shows "scan_inv path D st0 (ps @ [i]) rest st"
proof -
  let ?K = "keep_except (rs_removed st) 0 ps" and ?N = "rs_newElfs st"
  have rm: "\<forall>r \<in> set (rs_removed st). r < length ps"
    using inv by (simp add: scan_inv_def)
  have P: "pieces (ps @ [i]) st = ?K @ i # ?N" "pieces ps st = ?K @ ?N"
    using pieces_keep [OF rm] by (simp_all add: pieces_def)
  have old: "wf_elf e \<and> (elf_hi e \<le> rs_lo st \<or> rs_hi st \<le> elf_lo e)
      \<and> elf_hi e \<le> elf_lo i \<and> (\<forall>j \<in> set rest. elf_hi e \<le> elf_lo j)" if "e \<in> set (?K @ ?N)" for e
    using inv that by (auto simp: scan_inv_def P)
  have "sorted_wrt elf_disj (?K @ i # ?N)"
    using inv old by (auto simp: scan_inv_def P sorted_wrt_disj_middle elf_disj_def)
  moreover have "maps_to (?K @ i # ?N) a v \<longleftrightarrow> maps_to (ps @ [i]) a v" if "\<not> in_rs st a" for a v
  proof -
    have "maps_to (?K @ ?N) a v \<longleftrightarrow> maps_to ps a v"
      using inv that unfolding scan_inv_def P by blast
    then show ?thesis by auto
  qed
  moreover have "\<forall>e \<in> set (?K @ i # ?N). wf_elf e \<and> (elf_hi e \<le> rs_lo st \<or> rs_hi st \<le> elf_lo e)
      \<and> (\<forall>j \<in> set rest. elf_hi e \<le> elf_lo j)"
    using old i by auto
  ultimately show ?thesis
    using inv unfolding scan_inv_def P(1) by (auto intro: less_SucI)
qed

text \<open>An entry that overlaps the range is replaced by its fragments outside it.\<close>

definition fragments :: "elf_info \<Rightarrow> reg_state \<Rightarrow> elf_info list" where
  "fragments i st =
     (if elf_addr i < rs_addr st
      then [ElfInfo (localFile i) (elf_addr i) (rs_addr st - elf_addr i) (elf_pgoff i)
              (originalFileName i) (originalPath i)] else [])
     @ (if elf_addr i + elf_length i > rs_addrEnd st
        then [ElfInfo (localFile i) (rs_addrEnd st) (elf_addr i + elf_length i - rs_addrEnd st)
                (elf_pgoff i + rs_addrEnd st - elf_addr i)
                (originalFileName i) (originalPath i)] else [])"

lemma overwrite_sel [simp]:
  "rs_addr (overwrite k i st) = rs_addr st" "rs_len (overwrite k i st) = rs_len st"
  "rs_pgoff (overwrite k i st) = rs_pgoff st" "rs_addrEnd (overwrite k i st) = rs_addrEnd st"
  "rs_removed (overwrite k i st) = rs_removed st @ [k]"
  "rs_newElfs (overwrite k i st) = rs_newElfs st @ fragments i st"
  "rs_invalidated (overwrite k i st) = rs_invalidated st @ [i]"
  by (simp_all add: overwrite_def fragments_def Let_def)

lemma overwrite_range [simp]:
  "rs_lo (overwrite k i st) = rs_lo st" "rs_hi (overwrite k i st) = rs_hi st"
  "in_rs (overwrite k i st) = in_rs st"
  by (auto simp: rs_lo_def rs_hi_def in_rs_def)

lemma pieces_overwrite:
  "pieces (ps @ [i]) (overwrite (length ps) i st) = pieces ps st @ fragments i st"
  by (simp add: pieces_def keep_except_append keep_except_snoc_outside)

lemma rs_end_unat:
  assumes "wf_range (rs_addr st) (rs_len st) (rs_pgoff st)" "rs_addrEnd st = rs_addr st + rs_len st"
  shows "unat (rs_addrEnd st) = rs_hi st" "rs_lo st < rs_hi st"
  using wf_range_unat [OF assms(1)] by (simp_all add: assms(2) rs_hi_def rs_lo_def)

lemma left_fragment:
  assumes i: "wf_elf i" and le: "elf_addr i < b" "unat b \<le> elf_hi i"
    and f: "f = ElfInfo (localFile i) (elf_addr i) (b - elf_addr i) (elf_pgoff i)
      (originalFileName i) (originalPath i)"
  shows "wf_elf f" "elf_lo f = elf_lo i" "elf_hi f = unat b" "elf_value f a = elf_value i a"
proof -
  have d: "unat (b - elf_addr i) = unat b - unat (elf_addr i)"
    using le by (simp add: unat_sub word_less_nat_alt word_le_nat_alt)
  have lt: "unat (elf_addr i) < unat b" using le by (simp add: word_less_nat_alt)
  show hi: "elf_hi f = unat b" "elf_lo f = elf_lo i"
    using lt d by (simp_all add: f elf_hi_def elf_lo_def)
  have "b - elf_addr i \<noteq> 0" using lt by auto
  moreover have "unat (b - elf_addr i) \<le> unat (elf_length i)"
    using le(2) lt by (simp add: d elf_hi_def)
  moreover have "wf_range (elf_addr i) (elf_length i) (elf_pgoff i)"
    using i by (simp add: wf_elf_def)
  ultimately have "wf_range (elf_addr i) (b - elf_addr i) (elf_pgoff i)"
    unfolding wf_range_def by linarith
  then show "wf_elf f" using i by (auto simp: f wf_elf_def)
  show "elf_value f a = elf_value i a"
    using i by (auto simp: f elf_value_def wf_elf_def)
qed

lemma right_fragment:
  assumes i: "wf_elf i" and le: "unat b < elf_hi i" "elf_addr i \<le> b"
    and f: "f = ElfInfo (localFile i) b (elf_addr i + elf_length i - b) (elf_pgoff i + b - elf_addr i)
      (originalFileName i) (originalPath i)"
  shows "wf_elf f" "elf_lo f = unat b" "elf_hi f = elf_hi i" "elf_value f a = elf_value i a"
proof -
  have e: "unat (elf_addr i + elf_length i) = elf_hi i" by (rule wf_elf_end [OF i])
  have d: "unat (elf_addr i + elf_length i - b) = elf_hi i - unat b"
    using le by (subst unat_sub) (simp_all add: e word_le_nat_alt)
  show hi: "elf_hi f = elf_hi i" "elf_lo f = unat b"
    using le(1) by (simp_all add: f elf_hi_def [of f, unfolded f] elf_lo_def d)
  have w: "wf_range (elf_addr i) (elf_length i) (elf_pgoff i)" using i by (simp add: wf_elf_def)
  have p: "unat (elf_pgoff i + b - elf_addr i) = unat (elf_pgoff i) + (unat b - unat (elf_addr i))"
    using le by (intro touch_pgoff [OF w]) (simp_all add: elf_hi_def)
  have "elf_addr i + elf_length i - b \<noteq> 0" using le(1) d by auto
  moreover have "unat (elf_addr i) \<le> unat b" using le(2) by (simp add: word_le_nat_alt)
  ultimately have "wf_range b (elf_addr i + elf_length i - b) (elf_pgoff i + b - elf_addr i)"
    using w le(1) unfolding wf_range_def d p elf_hi_def by linarith
  then show "wf_elf f" using i by (auto simp: f wf_elf_def)
  show "elf_value f a = elf_value i a"
    using i by (auto simp: f elf_value_def wf_elf_def)
qed

lemma fragments_facts:
  assumes st: "wf_range (rs_addr st) (rs_len st) (rs_pgoff st)" "rs_addrEnd st = rs_addr st + rs_len st"
    and i: "wf_elf i" "elf_lo i < rs_hi st" "rs_lo st < elf_hi i"
  shows "f \<in> set (fragments i st) \<Longrightarrow> wf_elf f \<and> (elf_hi f \<le> rs_lo st \<or> rs_hi st \<le> elf_lo f)
      \<and> elf_lo i \<le> elf_lo f \<and> elf_hi f \<le> elf_hi i"
    and "maps_to (fragments i st) a v \<longleftrightarrow> holds i a \<and> \<not> in_rs st a \<and> v = elf_value i a"
    and "sorted_wrt elf_disj (fragments i st)"
proof -
  note E = rs_end_unat [OF st]
  note l = left_fragment [OF i(1), of "rs_addr st"]
  note r = right_fragment [OF i(1), of "rs_addrEnd st"]
  have L: "elf_addr i < rs_addr st \<longleftrightarrow> elf_lo i < rs_lo st" "unat (rs_addr st) = rs_lo st"
    by (simp_all add: word_less_nat_alt elf_lo_def rs_lo_def)
  have R: "elf_addr i + elf_length i > rs_addrEnd st \<longleftrightarrow> rs_hi st < elf_hi i"
    "elf_addr i \<le> rs_addrEnd st"
    using i(2) by (simp_all add: word_less_nat_alt word_le_nat_alt wf_elf_end [OF i(1)] E elf_lo_def)
  note L' = l [OF _ _ refl] and R' = r [OF _ R(2) refl]
  show "f \<in> set (fragments i st) \<Longrightarrow> wf_elf f \<and> (elf_hi f \<le> rs_lo st \<or> rs_hi st \<le> elf_lo f)
      \<and> elf_lo i \<le> elf_lo f \<and> elf_hi f \<le> elf_hi i"
    using L' R' L R E i by (auto simp: fragments_def split: if_splits)
  show "maps_to (fragments i st) a v \<longleftrightarrow> holds i a \<and> \<not> in_rs st a \<and> v = elf_value i a"
    using L' R' L R E i by (auto simp: fragments_def holds_def in_rs_def)
  show "sorted_wrt elf_disj (fragments i st)"
    using L' R' L R E i by (auto simp: fragments_def elf_disj_def)
qed

lemma scan_overlap:
  assumes inv: "scan_inv path D st0 ps (i # rest) st"
    and i: "wf_elf i" "\<forall>j \<in> set rest. elf_hi i \<le> elf_lo j"
    and touch: "elf_lo i < rs_hi st" "rs_lo st < elf_hi i"
  shows "scan_inv path D st0 (ps @ [i]) rest (overwrite (length ps) i st)"
proof -
  have st: "wf_range (rs_addr st) (rs_len st) (rs_pgoff st)" "rs_addrEnd st = rs_addr st + rs_len st"
    using inv by (simp_all add: scan_inv_def)
  note F = fragments_facts [OF st i(1) touch]
  have old: "wf_elf e \<and> (elf_hi e \<le> rs_lo st \<or> rs_hi st \<le> elf_lo e)
      \<and> elf_hi e \<le> elf_lo i \<and> (\<forall>j \<in> set rest. elf_hi e \<le> elf_lo j)" if "e \<in> set (pieces ps st)" for e
    using inv that by (auto simp: scan_inv_def)
  have "\<forall>e \<in> set (pieces ps st @ fragments i st). wf_elf e \<and> (elf_hi e \<le> rs_lo st \<or> rs_hi st \<le> elf_lo e)
      \<and> (\<forall>j \<in> set rest. elf_hi e \<le> elf_lo j)"
    using old F(1) i(2) by (fastforce dest: bspec)
  moreover have "sorted_wrt elf_disj (pieces ps st @ fragments i st)"
    using inv old F(1,3) by (fastforce simp: scan_inv_def sorted_wrt_append elf_disj_def)
  moreover have "maps_to (pieces ps st @ fragments i st) a v \<longleftrightarrow> maps_to (ps @ [i]) a v"
    if "\<not> in_rs st a" for a v
  proof -
    have "maps_to (pieces ps st) a v \<longleftrightarrow> maps_to ps a v"
      using inv that unfolding scan_inv_def by blast
    then show ?thesis using F(2) that by auto
  qed
  ultimately show ?thesis
    using inv unfolding scan_inv_def pieces_overwrite
    by (auto simp: sorted_wrt_append intro: less_SucI)
qed

lemma extend_range_facts:
  assumes st: "wf_range (rs_addr st) (rs_len st) (rs_pgoff st)" "rs_addrEnd st = rs_addr st + rs_len st"
    and i: "wf_elf i" "elf_lo i < rs_hi st" "rs_lo st \<le> elf_hi i"
    and D: "rs_addr st - rs_pgoff st = elf_addr i - elf_pgoff i"
  shows "wf_range (rs_addr (extend_range i st)) (rs_len (extend_range i st)) (rs_pgoff (extend_range i st))"
    and "rs_addrEnd (extend_range i st) = rs_addr (extend_range i st) + rs_len (extend_range i st)"
    and "rs_addr (extend_range i st) - rs_pgoff (extend_range i st) = elf_addr i - elf_pgoff i"
    and "rs_lo (extend_range i st) = min (rs_lo st) (elf_lo i)"
    and "rs_hi (extend_range i st) = max (rs_hi st) (elf_hi i)"
proof -
  let ?s = "extend_range i st"
  note E = rs_end_unat [OF st] and ei = wf_elf_end [OF i(1)] and ni = wf_elf_nonempty [OF i(1)]
  have wi: "wf_range (elf_addr i) (elf_length i) (elf_pgoff i)" using i(1) by (simp add: wf_elf_def)
  have p: "rs_addr ?s = min (rs_addr st) (elf_addr i)" "rs_pgoff ?s = min (rs_pgoff st) (elf_pgoff i)"
    "rs_addrEnd ?s = max (rs_addrEnd st) (elf_addr i + elf_length i)"
    "rs_len ?s = rs_addrEnd ?s - rs_addr ?s"
    by (simp_all add: extend_range_def Let_def)
  show lo: "rs_lo ?s = min (rs_lo st) (elf_lo i)"
    by (simp add: rs_lo_def p unat_min_word elf_lo_def)
  have hi: "unat (rs_addrEnd ?s) = max (rs_hi st) (elf_hi i)"
    by (simp add: p unat_max_word E ei)
  have "rs_addr ?s \<le> rs_addrEnd ?s"
    using hi lo E(2) by (simp add: word_le_nat_alt rs_lo_def)
  then have len: "unat (rs_len ?s) = max (rs_hi st) (elf_hi i) - min (rs_lo st) (elf_lo i)"
    unfolding p(4) using lo by (simp add: unat_sub hi rs_lo_def [of "extend_range i st"])
  show end': "rs_addrEnd ?s = rs_addr ?s + rs_len ?s" by (simp add: p(4))
  have lo': "unat (rs_addr ?s) = min (rs_lo st) (elf_lo i)"
    using lo by (simp add: rs_lo_def)
  show hi': "rs_hi ?s = max (rs_hi st) (elf_hi i)"
    using E(2) unfolding rs_hi_def [of ?s] lo' len by linarith
  have big: "max (rs_hi st) (elf_hi i) < 2 ^ 64"
    using st(1) wi by (simp add: wf_range_def rs_hi_def elf_hi_def)
  have "rs_len ?s \<noteq> 0" using len E(2) by auto
  moreover have "unat (rs_addr ?s) + unat (rs_len ?s) < 2 ^ 64"
    using hi' big by (simp add: rs_hi_def)
  moreover have "rs_addr ?s - rs_pgoff ?s = elf_addr i - elf_pgoff i
      \<and> unat (rs_pgoff ?s) + unat (rs_len ?s) < 2 ^ 64"
  proof (cases "rs_addr st \<le> elf_addr i")
    case True
    then have q: "unat (elf_pgoff i) = unat (rs_pgoff st) + (unat (elf_addr i) - unat (rs_addr st))"
      using i(2) by (intro touch_pgoff [OF st(1)]) (simp_all add: D rs_hi_def elf_lo_def)
    have "rs_pgoff st \<le> elf_pgoff i" using q by (simp add: word_le_nat_alt)
    then show ?thesis
      using True q st(1) wi D unfolding len p(1,2)
      by (auto simp: min_def wf_range_def rs_hi_def elf_hi_def rs_lo_def elf_lo_def word_le_nat_alt max_def)
  next
    case False
    then have q: "unat (rs_pgoff st) = unat (elf_pgoff i) + (unat (rs_addr st) - unat (elf_addr i))"
      using i(3) by (intro touch_pgoff [OF wi]) (simp_all add: D rs_lo_def elf_hi_def)
    have "elf_pgoff i \<le> rs_pgoff st" using q by (simp add: word_le_nat_alt)
    then show ?thesis
      using False q st(1) wi D unfolding len p(1,2)
      by (auto simp: min_def wf_range_def rs_hi_def elf_hi_def rs_lo_def elf_lo_def word_le_nat_alt max_def)
  qed
  ultimately show "wf_range (rs_addr ?s) (rs_len ?s) (rs_pgoff ?s)"
    and "rs_addr ?s - rs_pgoff ?s = elf_addr i - elf_pgoff i"
    by (simp_all add: wf_range_def)
qed

text \<open>An entry of the same file in the same place joins the range without a gap.\<close>

lemma scan_merge:
  assumes inv: "scan_inv path D st0 ps (i # rest) st"
    and i: "wf_elf i" "\<forall>j \<in> set rest. elf_hi i \<le> elf_lo j"
    and touch: "elf_lo i < rs_hi st" "rs_lo st \<le> elf_hi i"
    and same: "rs_addr st - rs_pgoff st = elf_addr i - elf_pgoff i" "path = originalPath i"
  shows "scan_inv path D st0 (ps @ [i]) rest (overwrite (length ps) i (extend_range i st))"
proof -
  let ?s = "extend_range i st"
  have st: "wf_range (rs_addr st) (rs_len st) (rs_pgoff st)" "rs_addrEnd st = rs_addr st + rs_len st"
    "rs_addr st - rs_pgoff st = D"
    using inv by (simp_all add: scan_inv_def)
  note X = extend_range_facts [OF st(1,2) i(1) touch same(1)]
  have sel: "pieces ps ?s = pieces ps st" "rs_removed ?s = rs_removed st"
    by (simp_all add: pieces_def extend_range_def Let_def)
  have old: "wf_elf e \<and> (elf_hi e \<le> rs_lo st \<or> rs_hi st \<le> elf_lo e)
      \<and> elf_hi e \<le> elf_lo i \<and> (\<forall>j \<in> set rest. elf_hi e \<le> elf_lo j)" if "e \<in> set (pieces ps st)" for e
    using inv that by (auto simp: scan_inv_def)
  have none: "fragments i ?s = []"
    using X(4,5) rs_end_unat(1) [OF X(1,2)] wf_elf_end [OF i(1)]
    by (auto simp: fragments_def word_less_nat_alt rs_lo_def elf_lo_def)
  have val: "elf_value i a = (path, a - D)" for a
    using same st(3) by (simp add: elf_value_def algebra_simps)
  have grow: "in_rs ?s a \<longleftrightarrow> in_rs st a \<or> holds i a" for a
    using X(4,5) touch rs_end_unat(2) [OF st(1,2)] wf_elf_nonempty [OF i(1)]
    by (auto simp: in_rs_def holds_def)
  have "\<forall>e \<in> set (pieces ps st). wf_elf e \<and> (elf_hi e \<le> rs_lo ?s \<or> rs_hi ?s \<le> elf_lo e)
      \<and> (\<forall>j \<in> set rest. elf_hi e \<le> elf_lo j)"
  proof
    fix e assume e: "e \<in> set (pieces ps st)"
    have "elf_hi e \<le> rs_lo st"
      using old [OF e] touch(1) wf_elf_nonempty [of e] by linarith
    then show "wf_elf e \<and> (elf_hi e \<le> rs_lo ?s \<or> rs_hi ?s \<le> elf_lo e)
        \<and> (\<forall>j \<in> set rest. elf_hi e \<le> elf_lo j)"
      using old [OF e] X(4) by simp
  qed
  moreover have "maps_to (pieces ps st) a v \<longleftrightarrow> maps_to (ps @ [i]) a v" if "\<not> in_rs ?s a" for a v
  proof -
    have "maps_to (pieces ps st) a v \<longleftrightarrow> maps_to ps a v"
      using inv that grow unfolding scan_inv_def by blast
    then show ?thesis using that grow by auto
  qed
  moreover have "maps_to (ps @ [i]) a (path, a - D)" if "in_rs ?s a" "\<not> in_rs st0 a" for a
    using that inv grow val unfolding scan_inv_def maps_to_simps by metis
  moreover have "sorted_wrt (<) (rs_removed st @ [length ps])"
    "\<forall>r \<in> set (rs_removed st @ [length ps]). r < length (ps @ [i])"
    using inv by (auto simp: scan_inv_def sorted_wrt_append intro: less_SucI)
  moreover have "rs_lo ?s \<le> rs_lo st0" "rs_hi st0 \<le> rs_hi ?s" "sorted_wrt elf_disj (pieces ps st)"
    using inv by (simp_all add: scan_inv_def X(4,5) min.coboundedI1 max.coboundedI1)
  moreover have "rs_addr ?s - rs_pgoff ?s = D" using X(3) same(1) st(3) by simp
  ultimately show ?thesis
    using X(1,2) unfolding scan_inv_def pieces_overwrite none sel overwrite_sel overwrite_range
      append_Nil2 by blast
qed

lemma scan_contained:
  assumes inv: "scan_inv path D st0 ps (i # rest) st"
    and i: "wf_elf i" and touch: "elf_lo i < rs_hi st" "rs_lo st \<le> elf_hi i"
    and same: "rs_addr st - rs_pgoff st = elf_addr i - elf_pgoff i" "path = originalPath i"
    and c: "rs_addr (extend_range i st) = elf_addr i" "rs_len (extend_range i st) = elf_length i"
    and a: "in_rs st0 a"
  shows "holds i a \<and> elf_value i a = (path, a - D)"
proof -
  have st: "wf_range (rs_addr st) (rs_len st) (rs_pgoff st)" "rs_addrEnd st = rs_addr st + rs_len st"
    "rs_addr st - rs_pgoff st = D" "rs_lo st \<le> rs_lo st0" "rs_hi st0 \<le> rs_hi st"
    using inv by (simp_all add: scan_inv_def)
  note X = extend_range_facts [OF st(1,2) i touch same(1)]
  have "elf_lo i = min (rs_lo st) (elf_lo i)" "elf_hi i = max (rs_hi st) (elf_hi i)"
    using X(4,5) c by (simp_all add: rs_lo_def rs_hi_def elf_lo_def elf_hi_def)
  then have "holds i a" using a st(4,5) unfolding holds_def in_rs_def by linarith
  then show ?thesis
    using same st(3) by (simp add: elf_value_def algebra_simps)
qed

text \<open>The whole scan.\<close>

lemma scan_elfs_sound:
  assumes "scan_inv path D st0 ps is st" "elfs_inv (ps @ is)"
  shows "case scan_elfs path (length ps) is st of
      Inl _ \<Rightarrow> \<forall>a. in_rs st0 a \<longrightarrow> maps_to (ps @ is) a (path, a - D)
    | Inr st' \<Rightarrow> \<exists>qs rest. ps @ is = qs @ rest \<and> scan_inv path D st0 qs rest st'
        \<and> (\<forall>i \<in> set rest. rs_hi st' \<le> elf_lo i)"
  using assms
proof (induction "is" arbitrary: ps st)
  case Nil
  then show ?case by (auto intro: exI [of _ ps])
next
  case (Cons i is')
  have st: "wf_range (rs_addr st) (rs_len st) (rs_pgoff st)" "rs_addrEnd st = rs_addr st + rs_len st"
    using Cons.prems(1) by (simp_all add: scan_inv_def)
  have i: "wf_elf i" and rest: "\<forall>j \<in> set is'. elf_hi i \<le> elf_lo j"
    using Cons.prems(2) by (auto simp: elfs_inv_append elfs_inv_Cons)
  have w: "elf_addr i < rs_addrEnd st \<longleftrightarrow> elf_lo i < rs_hi st"
    "elf_addr i + elf_length i < rs_addr st \<longleftrightarrow> elf_hi i < rs_lo st"
    "elf_addr i + elf_length i = rs_addr st \<longleftrightarrow> elf_hi i = rs_lo st"
    using rs_end_unat(1) [OF st] wf_elf_end [OF i]
    by (simp_all add: word_less_nat_alt elf_lo_def rs_lo_def word_unat_eq_iff)
  have step: ?case if "scan_inv path D st0 (ps @ [i]) is' st'"
      "scan_elfs path (length ps) (i # is') st = scan_elfs path (Suc (length ps)) is' st'" for st'
    using Cons.IH [OF that(1)] Cons.prems(2)
    unfolding that(2) append_assoc append_Cons append_Nil by simp
  let ?same = "rs_addr st - rs_pgoff st = elf_addr i - elf_pgoff i \<and> path = originalPath i"
  let ?s = "extend_range i st"
  let ?contained = "rs_addr ?s = elf_addr i \<and> rs_len ?s = elf_length i"
  consider (stop) "\<not> elf_lo i < rs_hi st"
    | (before) "elf_lo i < rs_hi st" "elf_hi i < rs_lo st"
    | (contained) "elf_lo i < rs_hi st" "\<not> elf_hi i < rs_lo st" ?same ?contained
    | (merge) "elf_lo i < rs_hi st" "\<not> elf_hi i < rs_lo st" ?same "\<not> ?contained"
    | (adjacent) "elf_lo i < rs_hi st" "elf_hi i = rs_lo st" "\<not> ?same"
    | (over) "elf_lo i < rs_hi st" "rs_lo st < elf_hi i" "\<not> ?same"
    by linarith
  then show ?case
  proof cases
    case stop
    then have "rs_hi st \<le> elf_lo j" if "j \<in> set (i # is')" for j
      using that rest wf_elf_nonempty [OF i] by force
    then have J: "ps @ i # is' = ps @ (i # is') \<and> scan_inv path D st0 ps (i # is') st
        \<and> (\<forall>j \<in> set (i # is'). rs_hi st \<le> elf_lo j)"
      using Cons.prems(1) by blast
    have eq: "scan_elfs path (length ps) (i # is') st = Inr st"
      using stop by (simp add: w)
    show ?thesis unfolding eq sum.case
      by (intro exI [of _ ps] exI [of _ "i # is'"]) (rule J)
  next
    case before
    then show ?thesis
      using scan_keep [OF Cons.prems(1) i rest] by (intro step) (simp_all add: w)
  next
    case contained
    then have "scan_elfs path (length ps) (i # is') st = Inl (rs_invalidated ?s)"
      by (simp add: w Let_def)
    moreover have "maps_to (ps @ i # is') a (path, a - D)" if "in_rs st0 a" for a
      using scan_contained [OF Cons.prems(1) i contained(1) _ _ _ _ _ that] contained by simp
    ultimately show ?thesis by simp
  next
    case merge
    then show ?thesis
      using scan_merge [OF Cons.prems(1) i rest merge(1)] by (intro step) (auto simp: w Let_def)
  next
    case adjacent
    then show ?thesis
      using scan_keep [OF Cons.prems(1) i rest] by (intro step) (auto simp: w Let_def)
  next
    case over
    then show ?thesis
      using scan_overlap [OF Cons.prems(1) i rest over(1,2)] by (intro step) (auto simp: w Let_def)
  qed
qed

section \<open>Registration and lookup\<close>

lemma assignBase_sel:
  "fst (assignBase path p e b) = e\<lparr>baseAddr := baseAddr (fst (assignBase path p e b))\<rparr>"
  by (simp add: assignBase_def)

lemma baseAddr_update_irrelevant [simp]:
  "wf_elf (e\<lparr>baseAddr := x\<rparr>) = wf_elf e" "holds (e\<lparr>baseAddr := x\<rparr>) = holds e"
  "elf_value (e\<lparr>baseAddr := x\<rparr>) = elf_value e" "elf_lo (e\<lparr>baseAddr := x\<rparr>) = elf_lo e"
  "elf_hi (e\<lparr>baseAddr := x\<rparr>) = elf_hi e"
  by (auto simp: wf_elf_def holds_def elf_value_def elf_lo_def elf_hi_def)

lemma registerElf_spec:
  assumes inv: "elfs_inv (m_elfs m)" and wf: "wf_range addr len pgoff"
    and path: "path = [] \<longrightarrow> fi_absoluteFilePath f = []"
    and m': "m' = fst (registerElf addr len pgoff f name path m)"
  shows "elfs_inv (m_elfs m')"
    and "maps_to (m_elfs m') a v \<longleftrightarrow>
      (if unat addr \<le> unat a \<and> unat a < unat addr + unat len
       then v = (path, a - addr + pgoff) else maps_to (m_elfs m) a v)"
proof -
  let ?st0 = "start_state addr len pgoff"
  let ?es = "m_elfs m"
  have in0: "in_rs ?st0 a \<longleftrightarrow> unat addr \<le> unat a \<and> unat a < unat addr + unat len" for a
    by (simp add: in_rs_def rs_lo_def rs_hi_def start_state_def)
  have off: "a - (addr - pgoff) = a - addr + pgoff" for a by simp
  note S = scan_elfs_sound [OF scan_inv_start [OF wf, where path = path and rest = ?es],
      simplified, OF inv]
  have "elfs_inv (m_elfs m') \<and> (maps_to (m_elfs m') a v \<longleftrightarrow>
      (if in_rs ?st0 a then v = (path, a - addr + pgoff) else maps_to ?es a v))"
  proof (cases "scan_elfs path 0 ?es ?st0")
    case (Inl x)
    then have "m' = m" by (simp add: m' registerElf_def)
    moreover have "maps_to ?es a v \<longleftrightarrow> v = (path, a - addr + pgoff)" if "in_rs ?st0 a"
    proof -
      have "maps_to ?es a (path, a - addr + pgoff)" using S Inl that unfolding off by simp
      then show ?thesis using file_at_iff [OF inv] by (metis option.inject)
    qed
    ultimately show ?thesis using inv by simp
  next
    case (Inr st)
    then obtain qs rest where qr: "?es = qs @ rest"
      and I: "scan_inv path (addr - pgoff) ?st0 qs rest st" and R: "\<forall>i \<in> set rest. rs_hi st \<le> elf_lo i"
      using S by auto
    let ?elf = "ElfInfo f (rs_addr st) (rs_len st) (rs_pgoff st) name path"
    let ?new = "fst (assignBase path (rs_pgoff st) ?elf (m_lastBase m))"
    let ?kept = "keep_except (rs_removed st) 0 ?es"
    have rm: "sorted_wrt (<) (rs_removed st)" "\<forall>r \<in> set (rs_removed st). r < length qs"
      and wr: "wf_range (rs_addr st) (rs_len st) (rs_pgoff st)"
      and D: "rs_addr st - rs_pgoff st = addr - pgoff"
      and P: "\<forall>e \<in> set (pieces qs st). wf_elf e \<and> (elf_hi e \<le> rs_lo st \<or> rs_hi st \<le> elf_lo e)
            \<and> (\<forall>i \<in> set rest. elf_hi e \<le> elf_lo i)" "sorted_wrt elf_disj (pieces qs st)"
      and out: "\<And>a v. \<not> in_rs st a \<Longrightarrow> maps_to (pieces qs st) a v = maps_to qs a v"
      and inn: "\<And>a. in_rs st a \<Longrightarrow> \<not> in_rs ?st0 a \<Longrightarrow> maps_to qs a (path, a - (addr - pgoff))"
      and le: "rs_lo st \<le> rs_lo ?st0" "rs_hi ?st0 \<le> rs_hi st"
      using I unfolding scan_inv_def by blast+
    have "m_elfs m' = fold insert_elf (rs_newElfs st @ [?new]) (fold remove_at (rev (rs_removed st)) ?es)"
      by (simp add: m' registerElf_def Inr Let_def split_beta)
    then have es': "m_elfs m' = fold insert_elf (rs_newElfs st @ [?new]) ?kept"
      by (simp only: fold_remove_at_rev [OF rm(1)])
    have kept: "?kept = keep_except (rs_removed st) 0 qs @ rest"
      using rm(2) by (simp add: qr keep_except_append keep_except_none)
    note base = assignBase_sel [of path "rs_pgoff st" ?elf "m_lastBase m"]
    have new: "wf_elf ?new" "elf_lo ?new = rs_lo st" "elf_hi ?new = rs_hi st"
      "holds ?new a = in_rs st a" "elf_value ?new a = (path, a - addr + pgoff)"
      using wr path D
      by (subst base; simp add: wf_elf_def elf_lo_def elf_hi_def rs_lo_def rs_hi_def holds_def
          in_rs_def elf_value_def algebra_simps)+
    have rest: "elfs_inv rest" using inv by (simp add: qr elfs_inv_append)
    have all: "sorted_wrt elf_disj (?kept @ rs_newElfs st @ [?new])"
    proof -
      have "sorted_wrt elf_disj (keep_except (rs_removed st) 0 qs @ rest @ rs_newElfs st @ [?new])"
        using P R elfs_inv_disj [OF rest] new(2,3)
        by (fastforce simp: pieces_def sorted_wrt_append elf_disj_def)
      then show ?thesis by (simp add: kept)
    qed
    have "sorted (map elf_addr ?kept)"
      by (rule sorted_keep_except [OF elfs_inv_sorted [OF inv]])
    then have inv': "elfs_inv (m_elfs m')"
      unfolding es' using P(1) rest new(1) all
      by (intro fold_insert_elf_inv) (auto simp: kept pieces_def elfs_inv_def)
    have eq: "maps_to (m_elfs m') a v \<longleftrightarrow> maps_to (pieces qs st) a v
        \<or> (in_rs st a \<and> v = (path, a - addr + pgoff)) \<or> maps_to rest a v"
      unfolding es' maps_to_fold_insert kept by (auto simp: new(4,5) pieces_def)
    have no: "\<not> maps_to (pieces qs st) a v" "\<not> maps_to rest a v" if "in_rs st a"
      using that P(1) R by (fastforce simp: maps_to_def holds_def in_rs_def)+
    have "maps_to (m_elfs m') a v \<longleftrightarrow>
        (if in_rs ?st0 a then v = (path, a - addr + pgoff) else maps_to ?es a v)"
    proof (cases "in_rs st a")
      case False
      then have "\<not> in_rs ?st0 a" using le by (auto simp: in_rs_def)
      then show ?thesis using False by (simp add: eq out qr)
    next
      case True
      have "maps_to ?es a v \<longleftrightarrow> v = (path, a - addr + pgoff)" if "\<not> in_rs ?st0 a"
      proof -
        have "maps_to ?es a (path, a - addr + pgoff)"
          using inn [OF True that] unfolding off by (simp add: qr)
        then show ?thesis using file_at_iff [OF inv] by (metis option.inject)
      qed
      then show ?thesis using True no by (auto simp: eq)
    qed
    then show ?thesis using inv' by blast
  qed
  then show "elfs_inv (m_elfs m')" and "maps_to (m_elfs m') a v \<longleftrightarrow>
      (if unat addr \<le> unat a \<and> unat a < unat addr + unat len
       then v = (path, a - addr + pgoff) else maps_to (m_elfs m) a v)"
    by (simp_all add: in0)
qed

lemma file_at_registerElf:
  assumes inv: "elfs_inv (m_elfs m)" and wf: "wf_range addr len pgoff"
    and path: "path = [] \<longrightarrow> fi_absoluteFilePath f = []"
  shows "file_at (m_elfs (fst (registerElf addr len pgoff f name path m)))
    = map_file addr len pgoff path (file_at (m_elfs m))"
proof
  fix a
  let ?m' = "fst (registerElf addr len pgoff f name path m)"
  note S = registerElf_spec(1) [OF inv wf path refl, of name]
    registerElf_spec(2) [OF inv wf path refl, where name = name and a = a]
  have "file_at (m_elfs ?m') a = Some v \<longleftrightarrow> map_file addr len pgoff path (file_at (m_elfs m)) a = Some v"
    for v
    unfolding file_at_iff [OF S(1)] S(2) map_file_def in_range_unat [OF wf]
    using file_at_iff [OF inv, of a v] by auto
  then show "file_at (m_elfs ?m') a = map_file addr len pgoff path (file_at (m_elfs m)) a"
    by (metis option.exhaust)
qed

lemma register_all_refines:
  assumes "\<forall>r \<in> set rs. wf_request r" "elfs_inv (m_elfs m)"
  shows "elfs_inv (m_elfs (register_all rs m))
    \<and> file_at (m_elfs (register_all rs m)) = fold map_request rs (file_at (m_elfs m))"
  using assms
proof (induction rs arbitrary: m)
  case Nil
  then show ?case by (simp add: register_all_def)
next
  case (Cons r rs)
  have r: "wf_range (rq_addr r) (rq_len r) (rq_pgoff r)"
    "rq_path r = [] \<longrightarrow> fi_absoluteFilePath (rq_file r) = []"
    using Cons.prems(1) by (simp_all add: wf_request_def)
  have "elfs_inv (m_elfs (register_request r m))"
    using registerElf_spec(1) [OF Cons.prems(2) r refl] by (simp add: register_request_def)
  moreover have "file_at (m_elfs (register_request r m)) = map_request r (file_at (m_elfs m))"
    using file_at_registerElf [OF Cons.prems(2) r] by (simp add: register_request_def map_request_def)
  ultimately show ?case
    using Cons.IH [of "register_request r m"] Cons.prems(1) by (simp add: register_all_def)
qed

lemma base_inv_empty [simp]: "base_inv empty_map"
  by (simp add: base_inv_def empty_map_def)

text \<open>What holds of every entry the code constructs holds of every entry of the map.\<close>

lemma scan_new_entries:
  assumes Q: "\<And>f a l p n q. Q (ElfInfo f a l p n q)"
  shows "scan_elfs path k es st = Inr st' \<Longrightarrow> \<forall>e \<in> set (rs_newElfs st). Q e
    \<Longrightarrow> \<forall>e \<in> set (rs_newElfs st'). Q e"
proof (induction es arbitrary: k st)
  case (Cons i es)
  have steps: "rs_newElfs (extend_range i st) = rs_newElfs st"
    "\<forall>e \<in> set (rs_newElfs u). Q e \<Longrightarrow> \<forall>e \<in> set (rs_newElfs (overwrite k i u)). Q e" for u
    using Q by (auto simp: extend_range_def fragments_def Let_def)
  from Cons.prems consider "st = st'" | "scan_elfs path (Suc k) es st = Inr st'"
    | "scan_elfs path (Suc k) es (overwrite k i st) = Inr st'"
    | "scan_elfs path (Suc k) es (overwrite k i (extend_range i st)) = Inr st'"
    by (simp add: Let_def split: if_splits)
  then show ?case
    using Cons.IH Cons.prems(2) steps by cases metis+
qed simp

lemma registerElf_entries:
  assumes Q: "\<And>f a l p n q. Q (ElfInfo f a l p n q)"
    and B: "\<And>f a l p n q b. Q (fst (assignBase path p (ElfInfo f a l p n q) b))"
    and old: "\<forall>e \<in> set (m_elfs m). Q e"
  shows "\<forall>e \<in> set (m_elfs (fst (registerElf addr len pgoff f name path m))). Q e"
proof (cases "scan_elfs path 0 (m_elfs m) (start_state addr len pgoff)")
  case (Inr st)
  let ?new = "fst (assignBase path (rs_pgoff st)
    (ElfInfo f (rs_addr st) (rs_len st) (rs_pgoff st) name path) (m_lastBase m))"
  have "\<forall>e \<in> set (rs_newElfs st). Q e"
    using scan_new_entries [of Q, OF Q Inr] by (simp add: start_state_def)
  moreover have "set (m_elfs (fst (registerElf addr len pgoff f name path m)))
      = set (rs_newElfs st @ [?new]) \<union> set (fold remove_at (rev (rs_removed st)) (m_elfs m))"
  proof -
    have "m_elfs (fst (registerElf addr len pgoff f name path m))
        = fold insert_elf (rs_newElfs st @ [?new]) (fold remove_at (rev (rs_removed st)) (m_elfs m))"
      by (simp add: registerElf_def Inr Let_def split_beta)
    then show ?thesis by (simp only: set_fold_insert_elf)
  qed
  ultimately show ?thesis
    using set_fold_remove_at [of "rev (rs_removed st)" "m_elfs m"] old B by auto
qed (use old in \<open>simp add: registerElf_def\<close>)

lemma base_inv_registerElf:
  "base_inv m \<Longrightarrow> base_inv (fst (registerElf addr len pgoff f name path m))"
  unfolding base_inv_def
  by (rule registerElf_entries) (auto simp: assignBase_def hasBaseAddr_def)

lemma base_inv_register_all: "base_inv m \<Longrightarrow> base_inv (register_all rs m)"
  by (induction rs arbitrary: m)
    (simp_all add: register_all_def register_request_def base_inv_registerElf)

definition no_dwfl :: "elf_map \<Rightarrow> bool" where
  "no_dwfl m \<longleftrightarrow> (\<forall>e \<in> set (m_elfs m). dwflEnd e \<le> dwflStart e)"

lemma no_dwfl_registerElf:
  "no_dwfl m \<Longrightarrow> no_dwfl (fst (registerElf addr len pgoff f name path m))"
  unfolding no_dwfl_def by (rule registerElf_entries) (auto simp: assignBase_def)

lemma no_dwfl_register_all: "no_dwfl m \<Longrightarrow> no_dwfl (register_all rs m)"
  by (induction rs arbitrary: m)
    (simp_all add: register_all_def register_request_def no_dwfl_registerElf)

text \<open>The entries the scan removes are the ones it reports.\<close>

lemma scan_reported:
  "scan_elfs path (length ps) es st = Inr st'
    \<Longrightarrow> sorted_wrt (<) (rs_removed st)
    \<Longrightarrow> \<forall>r \<in> set (rs_removed st). r < length ps \<and> ps ! r \<in> set (rs_invalidated st)
    \<Longrightarrow> sorted_wrt (<) (rs_removed st')
      \<and> (\<forall>r \<in> set (rs_removed st'). (ps @ es) ! r \<in> set (rs_invalidated st'))"
proof (induction es arbitrary: ps st)
  case (Cons i es)
  have ext: "rs_removed (extend_range i st) = rs_removed st"
    "rs_invalidated (extend_range i st) = rs_invalidated st"
    by (simp_all add: extend_range_def Let_def)
  have ov: "sorted_wrt (<) (rs_removed (overwrite (length ps) i u))"
    "\<forall>r \<in> set (rs_removed (overwrite (length ps) i u)). r < Suc (length ps)
      \<and> (ps @ [i]) ! r \<in> set (rs_invalidated (overwrite (length ps) i u))"
    if "rs_removed u = rs_removed st" "rs_invalidated u = rs_invalidated st" for u
    using Cons.prems(2,3) that
    by (auto simp: overwrite_def Let_def sorted_wrt_append nth_append less_Suc_eq)
  have keep: "\<forall>r \<in> set (rs_removed st). r < Suc (length ps) \<and> (ps @ [i]) ! r \<in> set (rs_invalidated st)"
    using Cons.prems(3) by (auto simp: nth_append)
  note IH = Cons.IH [of "ps @ [i]", simplified]
  from Cons.prems(1) consider "st = st'" | "scan_elfs path (Suc (length ps)) es st = Inr st'"
    | "scan_elfs path (Suc (length ps)) es (overwrite (length ps) i st) = Inr st'"
    | "scan_elfs path (Suc (length ps)) es (overwrite (length ps) i (extend_range i st)) = Inr st'"
    by (simp add: Let_def split: if_splits)
  then show ?case
  proof cases
    case 1
    then show ?thesis using Cons.prems(2,3) by (auto simp: nth_append)
  next
    case 2
    then show ?thesis using IH Cons.prems(2) keep by simp
  next
    case 3
    then show ?thesis using IH ov [OF refl refl] by simp
  next
    case 4
    then show ?thesis using IH ov [OF ext] by simp
  qed
qed (auto simp: nth_append)

lemma set_keep_except_iff:
  "x \<in> set (keep_except rm i xs) \<longleftrightarrow> (\<exists>j < length xs. i + j \<notin> set rm \<and> xs ! j = x)"
proof (induction xs arbitrary: i)
  case (Cons y ys)
  have "(\<exists>j < length (y # ys). i + j \<notin> set rm \<and> (y # ys) ! j = x)
      \<longleftrightarrow> (i \<notin> set rm \<and> y = x) \<or> (\<exists>j < length ys. Suc i + j \<notin> set rm \<and> ys ! j = x)"
    by (simp add: Ex_less_Suc2)
  then show ?case by (auto simp: Cons.IH)
qed simp

text \<open>Nothing has been overwritten when the scan finds the range contained in an entry.\<close>

lemma scan_early_return:
  "scan_elfs path k es st = Inl x \<Longrightarrow> elfs_inv es
    \<Longrightarrow> rs_invalidated st \<noteq> [] \<longrightarrow> (\<forall>i \<in> set es. rs_lo st < elf_lo i) \<Longrightarrow> x = []"
proof (induction es arbitrary: k st)
  case (Cons i es)
  have wf: "wf_elf i" and rest: "elfs_inv es" "\<forall>y \<in> set es. elf_hi i \<le> elf_lo y"
    using Cons.prems(2) by (simp_all add: elfs_inv_Cons)
  note nonempty = wf_elf_nonempty [OF wf]
  have ext: "rs_lo (extend_range i st) \<le> rs_lo st" "rs_lo (extend_range i st) \<le> elf_lo i"
    "rs_invalidated (extend_range i st) = rs_invalidated st"
    by (simp_all add: extend_range_def Let_def rs_lo_def elf_lo_def unat_min_word)
  have ov: "rs_lo (overwrite k i u) = rs_lo u" for u
    by (simp add: rs_lo_def overwrite_def Let_def)
  have keep: "rs_invalidated st \<noteq> [] \<longrightarrow> (\<forall>y \<in> set es. rs_lo st < elf_lo y)"
    using Cons.prems(3) by simp
  consider "scan_elfs path (Suc k) es st = Inl x"
    | "x = rs_invalidated st" "rs_addr (extend_range i st) = elf_addr i"
    | "rs_addr st < elf_addr i + elf_length i" "scan_elfs path (Suc k) es (overwrite k i st) = Inl x"
    | "scan_elfs path (Suc k) es (overwrite k i (extend_range i st)) = Inl x"
    using Cons.prems(1) ext(3) by (auto simp: Let_def split: if_splits)
  then show ?case
  proof cases
    case 1
    then show ?thesis using Cons.IH rest(1) keep by blast
  next
    case 2
    have "\<not> rs_lo st < elf_lo i" using 2(2) ext(1) by (simp add: rs_lo_def elf_lo_def)
    then show ?thesis using 2(1) Cons.prems(3) by auto
  next
    case 3
    have "rs_lo st < elf_hi i"
      using 3(1) wf_elf_end [OF wf] by (simp add: word_less_nat_alt rs_lo_def)
    then show ?thesis using Cons.IH [OF 3(2) rest(1)] rest(2) by (force simp: ov)
  next
    case 4
    then show ?thesis using Cons.IH [OF 4 rest(1)] rest(2) nonempty ext(2) by (force simp: ov)
  qed
qed simp

section \<open>Lookup\<close>

interpretation elf_table: address_table m_elfs elf_addr "\<lambda>m. elfs_inv (m_elfs m)"
  by unfold_locales (rule elfs_inv_sorted)

text \<open>The entry \<open>findElf\<close> looks at is the last one that starts at or below the address.\<close>

lemma findElf_covering:
  assumes inv: "elfs_inv (m_elfs m)" and e: "e \<in> set (m_elfs m)" "covers e ip"
    and n: "upper_bound elf_addr (m_elfs m) ip = Suc n"
  shows "m_elfs m ! n = e"
proof -
  let ?i = "m_elfs m ! n"
  have i: "?i \<in> set (m_elfs m)" using elf_table.floor_start_le(2) [OF inv n] by simp
  have wf: "wf_elf e" "wf_elf ?i" using inv e(1) i by (auto simp: elfs_inv_def)
  have "elf_addr e \<le> elf_addr ?i" "elf_addr ?i \<le> ip"
    using elf_table.floor_greatest [OF inv n e(1)] elf_table.floor_start_le(1) [OF inv n] e(2)
    by (auto simp: covers_def)
  then have le: "elf_lo e \<le> elf_lo ?i" "elf_lo ?i < elf_hi e"
    using e(2) wf(1) by (auto simp: covers_iff_holds holds_def elf_lo_def word_le_nat_alt)
  have "holds e (elf_addr ?i)" "holds ?i (elf_addr ?i)"
    using le wf_elf_nonempty [OF wf(2)] by (auto simp: holds_def elf_lo_def)
  then show ?thesis using holds_unique [OF inv i e(1)] by blast
qed

text \<open>The answer is the entry's when no other entry starts between its start and the address.\<close>

lemma findElf_floor:
  assumes inv: "elfs_inv (m_elfs m)" and e: "e \<in> set (m_elfs m)" "elf_addr e \<le> ip"
    and next_start: "\<forall>o' \<in> set (m_elfs m). elf_addr o' \<le> elf_addr e \<or> ip < elf_addr o'"
  shows "findElf ip m =
    (if dwflStart e < dwflEnd e then if dwflStart e \<le> ip \<and> ip < dwflEnd e then e else noElf
     else if ip < elf_addr e + elf_length e then e else noElf)"
proof -
  obtain k where k: "upper_bound elf_addr (m_elfs m) ip = Suc k"
    using elf_table.floor_none [OF inv _ e(1), of ip] e(2)
    by (cases "upper_bound elf_addr (m_elfs m) ip") auto
  let ?i = "m_elfs m ! k"
  have i: "?i \<in> set (m_elfs m)" using elf_table.floor_start_le(2) [OF inv k] by simp
  have "elf_addr ?i \<le> elf_addr e"
    using next_start i elf_table.floor_start_le(1) [OF inv k] by (auto simp: leD)
  moreover have "elf_addr e \<le> elf_addr ?i"
    using elf_table.floor_greatest [OF inv k e(1)] e(2) by simp
  ultimately have "elf_addr ?i = elf_addr e" by simp
  then have "holds ?i (elf_addr e)" "holds e (elf_addr e)"
    using inv i e(1) wf_elf_nonempty [of ?i] wf_elf_nonempty [of e]
    by (auto simp: holds_def elf_lo_def elfs_inv_def elf_hi_def)
  then have "?i = e" using holds_unique [OF inv i e(1)] by blast
  then show ?thesis using k by (auto simp: findElf_def Let_def)
qed

lemma findElf_result:
  assumes inv: "elfs_inv (m_elfs m)"
    and dwfl: "\<forall>e \<in> set (m_elfs m). dwflEnd e \<le> dwflStart e"
  shows "findElf ip m = (case find (\<lambda>e. covers e ip) (m_elfs m) of None \<Rightarrow> noElf | Some e \<Rightarrow> e)"
proof (cases "upper_bound elf_addr (m_elfs m) ip")
  case 0
  have "\<not> covers e ip" if "e \<in> set (m_elfs m)" for e
    using elf_table.floor_none [OF inv 0 that] by (simp add: covers_def not_le)
  then have "find (\<lambda>e. covers e ip) (m_elfs m) = None" by (simp add: find_None_iff)
  then show ?thesis by (simp add: findElf_def 0)
next
  case (Suc n)
  let ?i = "m_elfs m ! n"
  have i: "?i \<in> set (m_elfs m)" using elf_table.floor_start_le(2) [OF inv Suc] by simp
  then have F: "findElf ip m = (if covers ?i ip then ?i else noElf)"
    using dwfl elf_table.floor_start_le(1) [OF inv Suc]
    by (simp add: findElf_def Suc Let_def covers_def leD)
  show ?thesis
  proof (cases "find (\<lambda>e. covers e ip) (m_elfs m)")
    case None
    then have "\<not> covers ?i ip" using i by (simp add: find_None_iff)
    then show ?thesis using None by (simp add: F)
  next
    case (Some e)
    then have "e \<in> set (m_elfs m)" "covers e ip" by (auto simp: find_Some_iff)
    then show ?thesis using findElf_covering [OF inv _ _ Suc] by (simp add: F Some)
  qed
qed

section \<open>Properties\<close>

lemma find_covers:
  "file_at es a = (case find (\<lambda>e. covers e a) es of
     None \<Rightarrow> None | Some e \<Rightarrow> Some (elf_value e a))"
  by (simp add: file_at_def elf_value_def cong: option.case_cong)

lemma findElf_file_at:
  assumes inv: "elfs_inv (m_elfs m)" and dwfl: "no_dwfl m"
  shows "file_at (m_elfs m) ip =
    (let e = findElf ip m in if isValid e then Some (elf_value e ip) else None)"
proof (cases "find (\<lambda>e. covers e ip) (m_elfs m)")
  case None
  then show ?thesis
    using findElf_result [OF inv dwfl [unfolded no_dwfl_def]]
    by (simp add: find_covers noElf_def isValid_def)
next
  case (Some e)
  then have "wf_elf e" using inv by (auto simp: find_Some_iff elfs_inv_def)
  then have "isValid e" by (simp add: isValid_def wf_elf_def wf_range_def word_gt_0)
  then show ?thesis
    using findElf_result [OF inv dwfl [unfolded no_dwfl_def]] Some
    by (simp add: find_covers)
qed

text \<open>
  C1: \<open>PerfElfMap::registerElf\<close> implements a file map. After any sequence of registrations of
  kernel ranges on an empty map (each one extending, splitting, replacing or being absorbed by the
  earlier entries), the vector is sorted by address, its entries are well formed and do not overlap,
  and the file and offset it assigns to every address is what overwriting the ranges in their order
  assigns to it.
\<close>
theorem elf_map_refinement:
  assumes "\<forall>r \<in> set rs. wf_request r"
  shows "elfs_inv (m_elfs (register_all rs empty_map))
    \<and> file_at (m_elfs (register_all rs empty_map)) = fold map_request rs Map.empty"
  using register_all_refines [OF assms, of empty_map]
  by (simp add: empty_map_def file_at_def [abs_def])

theorem elf_map_refinement_witness:
  "file_at (m_elfs (register_all
      [\<lparr>rq_addr = 100, rq_len = 50, rq_pgoff = 0, rq_file = no_file, rq_name = [], rq_path = [1]\<rparr>,
       \<lparr>rq_addr = 110, rq_len = 10, rq_pgoff = 5, rq_file = no_file, rq_name = [], rq_path = [2]\<rparr>]
      empty_map)) 125 = Some ([1], 25)"
proof -
  let ?rs = "[\<lparr>rq_addr = 100, rq_len = 50, rq_pgoff = 0, rq_file = no_file, rq_name = [], rq_path = [1]\<rparr>,
       \<lparr>rq_addr = 110, rq_len = 10, rq_pgoff = 5, rq_file = no_file, rq_name = [], rq_path = [2]\<rparr>]"
  have "\<forall>r \<in> set ?rs. wf_request r" by (simp add: wf_request_def wf_range_def)
  from elf_map_refinement [OF this] show ?thesis
    by (simp add: map_request_def map_file_def)
qed

text \<open>
  C8: looking an address up returns the file it is mapped to. After any sequence of registrations,
  \<open>findElf\<close> returns a valid entry exactly for the addresses some registration covers, and that entry
  has the path of the last registration covering the address and places the address at the file
  offset that registration gives it.
\<close>
theorem findElf_last_mapping:
  assumes "\<forall>r \<in> set rs. wf_request r"
  shows "fold map_request rs Map.empty ip =
    (let e = findElf ip (register_all rs empty_map) in
     if isValid e then Some (originalPath e, ip - elf_addr e + elf_pgoff e) else None)"
proof -
  let ?m = "register_all rs empty_map"
  have "no_dwfl empty_map" by (simp add: no_dwfl_def empty_map_def)
  moreover have "file_at (m_elfs ?m) ip = fold map_request rs Map.empty ip"
    and "elfs_inv (m_elfs ?m)"
    using register_all_refines [OF assms, of empty_map]
    by (simp_all add: empty_map_def file_at_def [abs_def])
  ultimately show ?thesis
    using findElf_file_at [OF _ no_dwfl_register_all, of rs empty_map ip]
    by (auto simp: elf_value_def Let_def split: if_splits)
qed

theorem findElf_last_mapping_witness:
  "(let e = findElf 115 (register_all
      [\<lparr>rq_addr = 100, rq_len = 50, rq_pgoff = 0, rq_file = no_file, rq_name = [], rq_path = [1]\<rparr>,
       \<lparr>rq_addr = 110, rq_len = 10, rq_pgoff = 5, rq_file = no_file, rq_name = [], rq_path = [2]\<rparr>]
      empty_map) in isValid e \<and> originalPath e = [2])"
proof -
  let ?rs = "[\<lparr>rq_addr = 100, rq_len = 50, rq_pgoff = 0, rq_file = no_file, rq_name = [], rq_path = [1]\<rparr>,
       \<lparr>rq_addr = 110, rq_len = 10, rq_pgoff = 5, rq_file = no_file, rq_name = [], rq_path = [2]\<rparr>]"
  have "\<forall>r \<in> set ?rs. wf_request r" by (simp add: wf_request_def wf_range_def)
  from findElf_last_mapping [OF this, of 115] show ?thesis
    by (simp add: map_request_def map_file_def Let_def split: if_splits)
qed

text \<open>
  C24: \<open>registerElf\<close> reports every entry it takes out of the map. An entry \<open>aboutToInvalidate\<close> was
  not emitted for is still in the vector afterwards, unchanged; and when the new mapping is
  absorbed by an entry of the map, which then stays as it was, nothing has been reported: the
  assertions of the early return hold.
\<close>
theorem registerElf_reports:
  assumes "elfs_inv (m_elfs m)"
  shows "set (m_elfs m) - set (snd (registerElf addr len pgoff f name path m))
      \<subseteq> set (m_elfs (fst (registerElf addr len pgoff f name path m)))
    \<and> (\<forall>x. scan_elfs path 0 (m_elfs m) (start_state addr len pgoff) = Inl x \<longrightarrow> x = [])"
proof (cases "scan_elfs path 0 (m_elfs m) (start_state addr len pgoff)")
  case (Inl x)
  have "x = []" by (rule scan_early_return [OF Inl assms]) (simp add: start_state_def)
  then show ?thesis by (simp add: registerElf_def Inl)
next
  case (Inr st)
  let ?new = "fst (assignBase path (rs_pgoff st)
    (ElfInfo f (rs_addr st) (rs_len st) (rs_pgoff st) name path) (m_lastBase m))"
  have R: "sorted_wrt (<) (rs_removed st)" "\<forall>r \<in> set (rs_removed st). m_elfs m ! r \<in> set (rs_invalidated st)"
    using scan_reported [of path "[]", simplified, OF Inr] by (simp_all add: start_state_def)
  have snd: "snd (registerElf addr len pgoff f name path m) = rs_invalidated st"
    by (simp add: registerElf_def Inr Let_def split_beta)
  have "m_elfs (fst (registerElf addr len pgoff f name path m))
      = fold insert_elf (rs_newElfs st @ [?new]) (keep_except (rs_removed st) 0 (m_elfs m))"
    by (simp add: registerElf_def Inr Let_def split_beta fold_remove_at_rev [OF R(1)])
  then have "set (keep_except (rs_removed st) 0 (m_elfs m))
      \<subseteq> set (m_elfs (fst (registerElf addr len pgoff f name path m)))"
    by (simp only: set_fold_insert_elf) blast
  moreover have "e \<in> set (keep_except (rs_removed st) 0 (m_elfs m))"
    if e: "e \<in> set (m_elfs m)" "e \<notin> set (rs_invalidated st)" for e
  proof -
    obtain j where j: "j < length (m_elfs m)" "m_elfs m ! j = e"
      using e(1) unfolding in_set_conv_nth by blast
    then have "j \<notin> set (rs_removed st)" using R(2) e(2) by blast
    then show ?thesis using j unfolding set_keep_except_iff by auto
  qed
  ultimately show ?thesis using Inr by (auto simp: snd)
qed

theorem registerElf_reports_witness:
  "set (m_elfs (register_all
      [\<lparr>rq_addr = 100, rq_len = 50, rq_pgoff = 0, rq_file = no_file, rq_name = [], rq_path = [1]\<rparr>]
      empty_map)) - set (snd (registerElf 150 10 7 no_file [] [2] (register_all
      [\<lparr>rq_addr = 100, rq_len = 50, rq_pgoff = 0, rq_file = no_file, rq_name = [], rq_path = [1]\<rparr>]
      empty_map)))
    \<subseteq> set (m_elfs (fst (registerElf 150 10 7 no_file [] [2] (register_all
      [\<lparr>rq_addr = 100, rq_len = 50, rq_pgoff = 0, rq_file = no_file, rq_name = [], rq_path = [1]\<rparr>]
      empty_map))))"
proof -
  let ?rs = "[\<lparr>rq_addr = 100, rq_len = 50, rq_pgoff = 0, rq_file = no_file, rq_name = [], rq_path = [1]\<rparr>]"
  have "\<forall>r \<in> set ?rs. wf_request r" by (simp add: wf_request_def wf_range_def)
  then have "elfs_inv (m_elfs (register_all ?rs empty_map))"
    using register_all_refines [of ?rs empty_map] by (simp add: empty_map_def)
  from registerElf_reports [OF this] show ?thesis by blast
qed

text \<open>
  \<open>isAddressInRange\<close> never excludes a mapped address: in a map with the invariant every address
  that is mapped to a file lies between the first start and the last end, and an empty map has no
  address in range.
\<close>
theorem isAddressInRange_covers:
  assumes "elfs_inv (m_elfs m)" "file_at (m_elfs m) a \<noteq> None"
  shows "isAddressInRange a m"
proof -
  obtain v e where e: "e \<in> set (m_elfs m)" "holds e a"
    using assms file_at_iff [OF assms(1)] by (auto simp: maps_to_def)
  let ?h = "hd (m_elfs m)" and ?l = "last (m_elfs m)"
  have ne: "m_elfs m \<noteq> []" using e by auto
  then have wf: "wf_elf ?l" "wf_elf e" "wf_elf ?h" using assms(1) e by (auto simp: elfs_inv_def)
  have "elf_lo ?h \<le> elf_lo e"
    using assms(1) e(1) ne wf_elf_nonempty [OF wf(3)]
    by (cases "m_elfs m") (auto simp: elfs_inv_Cons intro: order.trans less_imp_le)
  moreover have "elf_hi e \<le> elf_hi ?l"
  proof -
    have "m_elfs m = butlast (m_elfs m) @ [?l]" using ne by simp
    then have "elfs_inv (butlast (m_elfs m) @ [?l])" "e \<in> set (butlast (m_elfs m) @ [?l])"
      using assms(1) e(1) by simp_all
    then show ?thesis
      using wf_elf_nonempty [OF wf(1)] by (force simp: elfs_inv_append)
  qed
  ultimately show ?thesis
    using e(2) ne wf_elf_end [OF wf(1)]
    by (simp add: isAddressInRange_def word_le_nat_alt word_less_nat_alt holds_def elf_lo_def)
qed

theorem isAddressInRange_covers_witness:
  "isAddressInRange 120 (register_all
      [\<lparr>rq_addr = 100, rq_len = 50, rq_pgoff = 0, rq_file = no_file, rq_name = [], rq_path = [1]\<rparr>]
      empty_map)"
proof -
  let ?rs = "[\<lparr>rq_addr = 100, rq_len = 50, rq_pgoff = 0, rq_file = no_file, rq_name = [], rq_path = [1]\<rparr>]"
  have "\<forall>r \<in> set ?rs. wf_request r" by (simp add: wf_request_def wf_range_def)
  then have I: "elfs_inv (m_elfs (register_all ?rs empty_map))"
    and F: "file_at (m_elfs (register_all ?rs empty_map)) = fold map_request ?rs Map.empty"
    using register_all_refines [of ?rs empty_map]
    by (simp_all add: empty_map_def file_at_def [abs_def])
  show ?thesis
    by (rule isAddressInRange_covers [OF I]) (simp add: F map_request_def map_file_def)
qed

text \<open>
  \<open>updateElf\<close> on the start address of an entry never leaves the vector, keeps its invariant and
  the files the map assigns, and from then on \<open>findElf\<close> answers for the addresses from the start of
  that entry to the start of the next with the entry exactly when libdwfl's bounds contain the
  address, whatever the mapping's own length.
\<close>
theorem updateElf_bounds:
  assumes inv: "elfs_inv (m_elfs m)" and e: "e \<in> set (m_elfs m)" and b: "start < end'"
  shows "\<exists>m'. updateElf (elf_addr e) start end' m = Some m'
    \<and> elfs_inv (m_elfs m') \<and> file_at (m_elfs m') = file_at (m_elfs m)
    \<and> (\<forall>ip. elf_addr e \<le> ip \<longrightarrow> (\<forall>o' \<in> set (m_elfs m). elf_addr o' \<le> elf_addr e \<or> ip < elf_addr o')
         \<longrightarrow> findElf ip m' = (if start \<le> ip \<and> ip < end'
             then e\<lparr>dwflStart := start, dwflEnd := end'\<rparr> else noElf))"
proof -
  have wf: "wf_elf e" using inv e by (simp add: elfs_inv_def)
  have cov: "covers e (elf_addr e)"
    using wf_elf_nonempty [OF wf] by (simp add: covers_iff_holds [OF wf] holds_def elf_lo_def)
  obtain n where n: "upper_bound elf_addr (m_elfs m) (elf_addr e) = Suc n"
    using elf_table.floor_none [OF inv _ e, of "elf_addr e"]
    by (cases "upper_bound elf_addr (m_elfs m) (elf_addr e)") auto
  have nth: "m_elfs m ! n = e" by (rule findElf_covering [OF inv e cov n])
  have len: "n < length (m_elfs m)" by (rule elf_table.floor_start_le(2) [OF inv n])
  let ?e' = "e\<lparr>dwflStart := start, dwflEnd := end'\<rparr>"
  let ?es' = "(m_elfs m)[n := ?e']"
  have same: "wf_elf ?e' = wf_elf e" "covers ?e' a = covers e a" "elf_value ?e' = elf_value e"
    "elf_lo ?e' = elf_lo e" "elf_hi ?e' = elf_hi e" for a
    by (auto simp: wf_elf_def covers_def elf_value_def elf_lo_def elf_hi_def)
  have split: "m_elfs m = take n (m_elfs m) @ e # drop (Suc n) (m_elfs m)"
    using id_take_nth_drop [OF len] by (simp add: nth)
  have upd: "?es' = take n (m_elfs m) @ ?e' # drop (Suc n) (m_elfs m)"
    by (rule upd_conv_take_nth_drop [OF len])
  have inv': "elfs_inv ?es'"
    using inv unfolding upd by (subst (asm) split) (simp add: elfs_inv_append elfs_inv_Cons same)
  have F: "file_at ?es' = file_at (m_elfs m)"
  proof (rule ext, rule file_at_eqI [OF inv' inv])
    show "maps_to ?es' a v = maps_to (m_elfs m) a v" for a v
      unfolding upd by (subst (2) split) (auto simp: same holds_def)
  qed
  have "findElf ip (m\<lparr>m_elfs := ?es'\<rparr>) = (if start \<le> ip \<and> ip < end' then ?e' else noElf)"
    if ip: "elf_addr e \<le> ip" "\<forall>o' \<in> set (m_elfs m). elf_addr o' \<le> elf_addr e \<or> ip < elf_addr o'" for ip
  proof -
    let ?m' = "m\<lparr>m_elfs := ?es'\<rparr>"
    have i': "elfs_inv (m_elfs ?m')" using inv' by simp
    have e': "?e' \<in> set (m_elfs ?m')" using len by (simp add: set_update_memI)
    have "\<forall>o' \<in> set (m_elfs ?m'). elf_addr o' \<le> elf_addr ?e' \<or> ip < elf_addr o'"
      using ip(2) e set_update_subset_insert [of "m_elfs m" n ?e'] by auto
    then show ?thesis using findElf_floor [OF i' e'] ip(1) b by auto
  qed
  then show ?thesis
    using inv' F n by (intro exI [of _ "m\<lparr>m_elfs := ?es'\<rparr>"]) (simp add: updateElf_def nth)
qed

theorem updateElf_bounds_witness:
  "let e = ElfInfo no_file 100 50 0 [] [1]; m = \<lparr>m_elfs = [e], m_lastBase = noElf\<rparr> in
   \<exists>m'. updateElf 100 90 120 m = Some m' \<and> findElf 110 m' = e\<lparr>dwflStart := 90, dwflEnd := 120\<rparr>"
proof -
  let ?e = "ElfInfo no_file 100 50 0 [] [1]"
  have "elfs_inv (m_elfs \<lparr>m_elfs = [?e], m_lastBase = noElf\<rparr>)"
    by (simp add: elfs_inv_def wf_elf_def wf_range_def)
  from updateElf_bounds [OF this, of ?e 90 120] show ?thesis by auto
qed

end
