(* ===== verification/AddressCacheFacts.thy ===== *)
theory AddressCacheFacts
  imports AddressCache ElfMapFacts
begin

text \<open>
  Correctness of the address and symbol caches: what a lookup returns after an insertion, which
  symbol of a table a search settles on, and that the addresses the ELF map hands out meet the
  assertions of \<open>relativeAddress\<close>.
\<close>

section \<open>Sorted symbol tables\<close>

definition symbol_table :: "symbol_cache \<Rightarrow> symbol_cache" where
  "symbol_table cache = std_unique sym_eq (sort_key sym_offset cache)"

lemma setSymbolCache_table [simp]:
  "m_symbolCache (setSymbolCache p cache c) p = Some (symbol_table cache)"
  by (simp add: setSymbolCache_def symbol_table_def)

lemma sorted_symbol_table: "sorted (map sym_offset (symbol_table cache))"
  by (simp add: symbol_table_def sorted_std_unique)

lemma set_symbol_table: "set (symbol_table cache) \<subseteq> set cache"
  using set_std_unique [of sym_eq "sort_key sym_offset cache"] by (simp add: symbol_table_def)

interpretation symbols: address_table "\<lambda>t. t" sym_offset "\<lambda>t. sorted (map sym_offset t)"
  by unfold_locales

text \<open>Removing duplicates keeps the first element with a property that equal elements share.\<close>

lemma find_std_unique:
  "(\<And>x y. eq x y \<Longrightarrow> P x = P y) \<Longrightarrow> find P (std_unique eq xs) = find P xs"
  by (induction eq xs rule: std_unique.induct) auto

lemma offsets_std_unique:
  "(\<And>x y. eq x y \<Longrightarrow> k x = k y) \<Longrightarrow> k ` set (std_unique eq xs) = k ` set xs"
  by (induction eq xs rule: std_unique.induct) (auto simp: insert_absorb2)

lemma filter_std_unique:
  assumes "sorted (map k xs)" "\<And>x y. eq x y \<Longrightarrow> k x = k y"
    and "\<And>x y. x \<in> set xs \<Longrightarrow> y \<in> set xs \<Longrightarrow> k x = a \<Longrightarrow> k y = a \<Longrightarrow> eq x y"
  shows "filter (\<lambda>x. k x = a) (std_unique eq xs) = take 1 (filter (\<lambda>x. k x = a) xs)"
  using assms
proof (induction eq xs rule: std_unique.induct)
  case (3 eq x y xs)
  show ?case
  proof (cases "eq x y")
    case True
    then have k: "k x = k y" using 3(4) by blast
    have "filter (\<lambda>x. k x = a) (std_unique eq (x # xs)) = take 1 (filter (\<lambda>x. k x = a) (x # xs))"
      using 3(3,4,5) by (intro 3(1) [OF True]) auto
    then show ?thesis using True k by auto
  next
    case False
    have IH: "filter (\<lambda>x. k x = a) (std_unique eq (y # xs)) = take 1 (filter (\<lambda>x. k x = a) (y # xs))"
      using 3(3,4,5) by (intro 3(2) [OF False]) auto
    show ?thesis
    proof (cases "k x = a")
      case True
      have "k y \<noteq> a" using False True 3(5) [of x y] by auto
      then have "\<forall>z \<in> set (y # xs). k z \<noteq> a" using True 3(3) by fastforce
      then have "filter (\<lambda>x. k x = a) (y # xs) = []" by (simp add: filter_empty_conv)
      then show ?thesis using False True IH by simp
    next
      case 0: False
      then show ?thesis using False IH by simp
    qed
  qed
qed auto

lemma sym_eq_offset: "sym_eq x y \<Longrightarrow> sym_offset x = sym_offset y"
  by (simp add: sym_eq_def)

lemma offsets_symbol_table: "sym_offset ` set (symbol_table cache) = sym_offset ` set cache"
  using offsets_std_unique [of sym_eq sym_offset "sort_key sym_offset cache"]
  by (simp add: symbol_table_def sym_eq_offset)

lemma find_filter: "find P xs = (case filter P xs of [] \<Rightarrow> None | x # _ \<Rightarrow> Some x)"
  by (induction xs) auto

text \<open>The stable sort keeps the symbols of one address in symtab order.\<close>

lemma find_symbol_table:
  "find (\<lambda>s. sym_offset s = a) (symbol_table cache) = find (\<lambda>s. sym_offset s = a) cache"
proof -
  have "find (\<lambda>s. sym_offset s = a) (symbol_table cache)
      = find (\<lambda>s. sym_offset s = a) (sort_key sym_offset cache)"
    unfolding symbol_table_def by (rule find_std_unique) (simp add: sym_eq_offset)
  then show ?thesis by (simp add: find_filter sort_key_stable)
qed

lemma lower_bound_find:
  assumes "sorted (map key xs)" "find (\<lambda>x. key x = a) xs = Some x"
  shows "lower_bound key xs a < length xs" and "xs ! lower_bound key xs a = x"
proof -
  obtain i where i: "i < length xs" "key (xs ! i) = a" "x = xs ! i"
    "\<forall>j < i. key (xs ! j) \<noteq> a"
    using assms(2) by (auto simp: find_Some_iff)
  have "\<not> i < lower_bound key xs a"
    using lower_bound_nth [OF assms(1) i(1), of a] i(2) by simp
  moreover have "j < lower_bound key xs a" if "j < i" for j
  proof -
    have "key (xs ! j) \<le> key (xs ! i)"
      using sorted_nth_mono [OF assms(1), of j i] that i(1) by simp
    then have "key (xs ! j) < a" using i(2,4) that by auto
    then show ?thesis using lower_bound_nth [OF assms(1), of j a] that i(1) by simp
  qed
  ultimately have "lower_bound key xs a = i" by (meson linorder_neqE_nat less_irrefl)
  then show "lower_bound key xs a < length xs" "xs ! lower_bound key xs a = x"
    using i by simp_all
qed

text \<open>What the entry the search settles on satisfies, and when it settles on none.\<close>

definition symbol_covers :: "symbol_cache_entry \<Rightarrow> u64 \<Rightarrow> bool" where
  "symbol_covers s a \<longleftrightarrow> sym_offset s \<le> a \<and> (a < sym_offset s + sym_size s \<or> sym_size s = 0)"

lemma symbolIndex_exact:
  assumes "sorted (map sym_offset t)" "find (\<lambda>s. sym_offset s = a) t = Some s"
  shows "symbolIndex t a = Some (lower_bound sym_offset t a)"
    and "t ! lower_bound sym_offset t a = s"
  using lower_bound_find [OF assms] assms(2)
  by (auto simp: symbolIndex_def Let_def find_Some_iff)

lemma symbolIndex_before:
  assumes "sorted (map sym_offset t)" "find (\<lambda>s. sym_offset s = a) t = None"
  shows "symbolIndex t a = (case lower_bound sym_offset t a of 0 \<Rightarrow> None
    | Suc n \<Rightarrow> if symbol_covers (t ! n) a then Some n else None)"
proof -
  have "sym_offset (t ! lower_bound sym_offset t a) \<noteq> a"
    if "lower_bound sym_offset t a \<noteq> length t"
    using assms(2) that lower_bound_le [OF assms(1), of a]
    by (auto simp: find_None_iff)
  then show ?thesis
    by (auto simp: symbolIndex_def Let_def symbol_covers_def split: nat.splits)
qed

lemma lower_bound_before:
  assumes "sorted (map key xs)" "lower_bound key xs a = Suc n"
  shows "n < length xs" and "key (xs ! n) < a"
    and "x \<in> set xs \<Longrightarrow> key x < a \<Longrightarrow> key x \<le> key (xs ! n)"
proof -
  show n: "n < length xs" using lower_bound_le [OF assms(1), of a] assms(2) by simp
  show "key (xs ! n) < a" using lower_bound_nth [OF assms(1) n, of a] assms(2) by simp
  show "key x \<le> key (xs ! n)" if x: "x \<in> set xs" "key x < a"
  proof -
    obtain j where j: "j < length xs" "xs ! j = x" using x(1) unfolding in_set_conv_nth by blast
    then have "j \<le> n" using lower_bound_nth [OF assms(1) j(1), of a] assms(2) x(2) by simp
    then show ?thesis using sorted_nth_mono [OF assms(1), of j n] j n by simp
  qed
qed

lemma symbolIndex_sound:
  assumes t: "sorted (map sym_offset t)" and n: "symbolIndex t a = Some n"
  shows "n < length t" and "sym_offset (t ! n) = a \<or> symbol_covers (t ! n) a"
    and "\<forall>s \<in> set t. sym_offset s \<le> sym_offset (t ! n) \<or> a < sym_offset s"
proof -
  have "n < length t \<and> (sym_offset (t ! n) = a \<or> symbol_covers (t ! n) a)
    \<and> (\<forall>s \<in> set t. sym_offset s \<le> sym_offset (t ! n) \<or> a < sym_offset s)"
  proof (cases "find (\<lambda>s. sym_offset s = a) t")
    case None
    then have ne: "\<forall>s \<in> set t. sym_offset s \<noteq> a" by (simp add: find_None_iff)
    obtain k where k: "lower_bound sym_offset t a = Suc k" "n = k" "symbol_covers (t ! n) a"
      using n symbolIndex_before [OF t None] by (auto split: nat.splits if_splits)
    have "\<forall>s \<in> set t. sym_offset s \<le> sym_offset (t ! n) \<or> a < sym_offset s"
      using lower_bound_before(3) [OF t k(1)] ne k(2) by (metis linorder_neqE)
    then show ?thesis using lower_bound_before(1) [OF t k(1)] k(2,3) by blast
  next
    case (Some s)
    have "sym_offset s = a" using Some by (auto simp: find_Some_iff)
    then show ?thesis
      using symbolIndex_exact [OF t Some] n lower_bound_find(1) [OF t Some] by auto
  qed
  then show "n < length t" and "sym_offset (t ! n) = a \<or> symbol_covers (t ! n) a"
    and "\<forall>s \<in> set t. sym_offset s \<le> sym_offset (t ! n) \<or> a < sym_offset s"
    by blast+
qed

lemma findSymbol_set:
  "fst (findSymbol d p a (setSymbolCache p cache c)) =
    (case symbolIndex (symbol_table cache) a of None \<Rightarrow> noSymbol
     | Some n \<Rightarrow> lazyDemangle d (symbol_table cache ! n))"
  by (simp add: findSymbol_def hash_value_def Let_def split: option.splits)

lemma part_search_cong:
  assumes "i + len \<le> length xs" "\<And>j. j < length xs \<Longrightarrow> p (xs ! j) = q (ys ! j)"
  shows "part_search p xs i len = part_search q ys i len"
  using assms
proof (induction p xs i len rule: part_search.induct)
  case (1 p xs i len)
  show ?case
  proof (cases "len = 0")
    case False
    let ?half = "len div 2"
    have mid: "i + ?half < length xs" using 1(3) False by simp
    show ?thesis
      using 1(1) [OF False refl refl] 1(2) [OF False refl refl] 1(3) 1(4) [OF mid] 1(4) False
      by (simp add: part_search.simps [of p xs i len] part_search.simps [of q ys i len] Let_def)
  qed (simp add: part_search.simps [of _ _ _ 0])
qed

lemma symbolIndex_update:
  assumes n: "n < length t"
    and e: "sym_offset e = sym_offset (t ! n)" "sym_size e = sym_size (t ! n)"
  shows "symbolIndex (t[n := e]) a = symbolIndex t a"
proof -
  have same: "sym_offset (t[n := e] ! j) = sym_offset (t ! j)" "sym_size (t[n := e] ! j) = sym_size (t ! j)"
    if "j < length t" for j
    using e that by (cases "n = j"; simp)+
  have lb: "lower_bound sym_offset (t[n := e]) a = lower_bound sym_offset t a"
    unfolding lower_bound_def length_list_update
    by (rule part_search_cong) (use same in simp_all)
  have bound: "lower_bound sym_offset t a \<le> length t"
    unfolding lower_bound_def using part_search_bounds [of 0 "\<lambda>e. sym_offset e < a" t "length t"] by simp
  have before: "lower_bound sym_offset t a - 1 < length t" using bound n by simp
  show ?thesis
    using same bound before unfolding symbolIndex_def Let_def lb length_list_update
    by (simp add: le_less)
qed

lemma symbolIndex_less: "symbolIndex t a = Some n \<Longrightarrow> n < length t"
  using part_search_bounds [of 0 "\<lambda>e. sym_offset e < a" t "length t"]
  by (auto simp: symbolIndex_def Let_def lower_bound_def split: if_splits)

section \<open>Properties\<close>

text \<open>
  The address cache. \<open>find\<close> after \<open>cache\<close> returns the cached entry for exactly the lookups that
  name the same location: those in a binary with the same path and at the same relative address,
  wherever the binary is mapped, or at the same absolute address when neither has a binary; every
  other lookup answers what it answered before.
\<close>
theorem find_cache:
  "(let (c', ic') = cacheAddress elf addr entry ic c in findAddress elf' addr' ic' c') =
    (if isValid elf = isValid elf'
        \<and> (if isValid elf then originalPath elf = originalPath elf'
              \<and> relativeAddress elf addr = relativeAddress elf' addr'
           else addr = addr')
     then entry else findAddress elf' addr' ic c)"
  by (auto simp: cacheAddress_def findAddress_def hash_value_def split: option.splits)

text \<open>
  An address with an exact symbol resolves to the symbol that comes first in the symbol table.
  After \<open>setSymbolCache\<close> has stored a module's symbols in whatever order, \<open>findSymbol\<close> of an address
  at which some symbol starts returns the first of the symbols starting there in the order they were
  given, demangled, as addr2line does.
\<close>
theorem findSymbol_first_exact:
  assumes "find (\<lambda>s. sym_offset s = a) cache = Some s"
  shows "fst (findSymbol d p a (setSymbolCache p cache c)) = lazyDemangle d s"
proof -
  have "find (\<lambda>s. sym_offset s = a) (symbol_table cache) = Some s"
    using assms by (simp add: find_symbol_table)
  note symbolIndex_exact [OF sorted_symbol_table this]
  then show ?thesis by (simp add: findSymbol_set)
qed

text \<open>Two names of one routine, behind another symbol.\<close>

definition memmove_syms :: symbol_cache where
  "memmove_syms =
    [\<lparr>sym_offset = 0x130, sym_value = 0, sym_size = 0x33, symname = [109], demangled = False\<rparr>,
     \<lparr>sym_offset = 0x180, sym_value = 0, sym_size = 0x3d8, symname = [110], demangled = False\<rparr>,
     \<lparr>sym_offset = 0x180, sym_value = 0, sym_size = 0x3d8, symname = [111], demangled = False\<rparr>,
     \<lparr>sym_offset = 0x130, sym_value = 0, sym_size = 0x33, symname = [112], demangled = False\<rparr>]"

theorem findSymbol_first_exact_witness:
  "symname (fst (findSymbol rev [1] 0x180 (setSymbolCache [1] memmove_syms emptyCache))) = [110]"
proof -
  have "find (\<lambda>s. sym_offset s = 0x180) memmove_syms = Some (memmove_syms ! 1)"
    by (simp add: memmove_syms_def)
  from findSymbol_first_exact [OF this] show ?thesis
    by (simp add: lazyDemangle_def memmove_syms_def)
qed

text \<open>
  C23: what \<open>findSymbol\<close> returns encompasses the address. The result is the default symbol, or a
  symbol of the table, demangled, that starts at the address, or starts below it and either has no
  size or contains it; and no symbol of the table starts between that symbol and the address.
\<close>
theorem findSymbol_sound:
  "fst (findSymbol d p a (setSymbolCache p cache c)) = noSymbol
    \<or> (\<exists>s \<in> set cache. fst (findSymbol d p a (setSymbolCache p cache c)) = lazyDemangle d s
        \<and> (sym_offset s = a \<or> symbol_covers s a)
        \<and> \<not> (\<exists>t \<in> set cache. sym_offset s < sym_offset t \<and> sym_offset t \<le> a))"
proof (cases "symbolIndex (symbol_table cache) a")
  case None
  then show ?thesis by (simp add: findSymbol_set)
next
  case (Some n)
  note S = symbolIndex_sound [OF sorted_symbol_table Some]
  let ?s = "symbol_table cache ! n"
  have "?s \<in> set cache" using S(1) set_symbol_table by (meson nth_mem subsetD)
  moreover have "sym_offset t \<le> sym_offset ?s \<or> a < sym_offset t" if "t \<in> set cache" for t
  proof -
    have "sym_offset t \<in> sym_offset ` set (symbol_table cache)"
      using that by (simp add: offsets_symbol_table)
    then show ?thesis using S(3) by auto
  qed
  then have "\<not> (\<exists>t \<in> set cache. sym_offset ?s < sym_offset t \<and> sym_offset t \<le> a)"
    by (meson leD)
  ultimately show ?thesis using S(2) Some by (auto simp: findSymbol_set)
qed

text \<open>
  C22: \<open>findSymbol\<close> finds the symbol that encompasses an address when there is one to prefer: a symbol
  that contains the address (or has no size), when every other symbol starts at another address or
  has the same extent, and none starts between it and the address, is found, in the name that comes
  first in the symbol table.
\<close>
theorem findSymbol_complete:
  assumes s: "find (\<lambda>t. sym_offset t = sym_offset s) cache = Some s" "symbol_covers s a"
    and same: "\<forall>t \<in> set cache. sym_offset t = sym_offset s \<longrightarrow> sym_size t = sym_size s"
    and closest: "\<forall>t \<in> set cache. sym_offset t \<le> sym_offset s \<or> a < sym_offset t"
  shows "fst (findSymbol d p a (setSymbolCache p cache c)) = lazyDemangle d s"
proof (cases "sym_offset s = a")
  case True
  then show ?thesis using findSymbol_first_exact [of a cache s] s(1) by simp
next
  case False
  let ?t = "symbol_table cache"
  have lt: "sym_offset s < a" using False s(2) by (auto simp: symbol_covers_def)
  have "s \<in> set cache" using s(1) by (auto simp: find_Some_iff)
  have "filter (\<lambda>t. sym_offset t = sym_offset s) ?t
      = take 1 (filter (\<lambda>t. sym_offset t = sym_offset s) (sort_key sym_offset cache))"
    unfolding symbol_table_def
    by (rule filter_std_unique) (use same in \<open>auto simp: sym_eq_def\<close>)
  then have one: "filter (\<lambda>t. sym_offset t = sym_offset s) ?t = [s]"
    using s(1) by (auto simp: sort_key_stable find_filter split: list.splits)
  then have mem: "s \<in> set ?t" by (metis filter_is_subset list.set_intros(1) subsetD)
  have "find (\<lambda>t. sym_offset t = a) ?t = None"
    using closest lt by (auto simp: find_symbol_table find_None_iff)
  note idx = symbolIndex_before [OF sorted_symbol_table this]
  obtain n where n: "lower_bound sym_offset ?t a = Suc n"
  proof (cases "lower_bound sym_offset ?t a")
    case 0
    obtain j where "j < length ?t" "?t ! j = s" using mem unfolding in_set_conv_nth by blast
    then show ?thesis using lower_bound_nth [OF sorted_symbol_table, of j cache a] lt 0 by simp
  qed (rule that)
  note B = lower_bound_before [OF sorted_symbol_table n]
  have "?t ! n \<in> set cache" using B(1) set_symbol_table by (meson nth_mem subsetD)
  then have "sym_offset (?t ! n) \<le> sym_offset s" using closest B(2) by (meson less_asym)
  then have "sym_offset (?t ! n) = sym_offset s" using B(3) [OF mem lt] by simp
  then have "?t ! n \<in> set (filter (\<lambda>t. sym_offset t = sym_offset s) ?t)" using B(1) by simp
  then have "?t ! n = s" by (simp add: one)
  then show ?thesis using idx n s(2) by (simp add: findSymbol_set)
qed

theorem findSymbol_complete_witness:
  "symname (fst (findSymbol rev [1] 0x200 (setSymbolCache [1] memmove_syms emptyCache))) = [110]"
proof -
  have "fst (findSymbol rev [1] 0x200 (setSymbolCache [1] memmove_syms emptyCache))
      = lazyDemangle rev (memmove_syms ! 1)"
    by (rule findSymbol_complete) (simp_all add: memmove_syms_def symbol_covers_def)
  then show ?thesis by (simp add: lazyDemangle_def memmove_syms_def)
qed

text \<open>
  Symbols are demangled once. Looking the same address up again gives the same symbol and leaves
  the cache as it is, whatever the demangler would then answer.
\<close>
theorem findSymbol_again:
  "findSymbol d' p a (snd (findSymbol d p a c)) = findSymbol d p a c"
proof -
  let ?t = "hash_value (m_symbolCache c) p []"
  show ?thesis
  proof (cases "symbolIndex ?t a")
    case None
    then show ?thesis by (simp add: findSymbol_def Let_def hash_value_def)
  next
    case (Some n)
    let ?e = "lazyDemangle d (?t ! n)"
    have n: "n < length ?t" by (rule symbolIndex_less [OF Some])
    have "sym_offset ?e = sym_offset (?t ! n)" "sym_size ?e = sym_size (?t ! n)"
      by (simp_all add: lazyDemangle_def)
    then have idx: "symbolIndex (?t[n := ?e]) a = Some n" using symbolIndex_update [OF n] Some by simp
    have "lazyDemangle d' ?e = ?e" by (simp add: lazyDemangle_def)
    moreover have "hash_value ((m_symbolCache c)(p \<mapsto> ?t[n := ?e])) p [] = ?t[n := ?e]"
      by (simp add: hash_value_def)
    ultimately show ?thesis
      using Some idx n by (simp add: findSymbol_def Let_def)
  qed
qed

text \<open>
  The assertions of \<open>relativeAddress\<close>. After any sequence of registrations, whatever segments
  of whatever files were mapped in whatever order, an entry \<open>findElf\<close> returns for an address is one
  whose base address is not above the address and whose range ends above it, so no relative address
  wraps around.
\<close>
theorem relativeAddress_no_wrap:
  assumes "\<forall>r \<in> set rs. wf_request r" "isValid (findElf ip (register_all rs empty_map))"
  shows "relativeAddress_asserts (findElf ip (register_all rs empty_map)) ip
    \<and> unat (relativeAddress (findElf ip (register_all rs empty_map)) ip)
      = unat ip - unat (elfBase (findElf ip (register_all rs empty_map)))"
proof -
  let ?m = "register_all rs empty_map"
  let ?e = "findElf ip ?m"
  have inv: "elfs_inv (m_elfs ?m)"
    using register_all_refines [OF assms(1), of empty_map] by (simp add: empty_map_def)
  have "no_dwfl ?m" by (rule no_dwfl_register_all) (simp add: no_dwfl_def empty_map_def)
  then have "?e \<in> set (m_elfs ?m) \<and> covers ?e ip"
    using findElf_result [OF inv, of ip] assms(2)
    by (cases "find (\<lambda>e. covers e ip) (m_elfs ?m)")
      (auto simp: no_dwfl_def noElf_def isValid_def find_Some_iff)
  moreover have "base_inv ?m" by (rule base_inv_register_all) simp
  ultimately have "elfBase ?e \<le> ip" "ip < elf_addr ?e + elf_length ?e"
    by (auto simp: base_inv_def elfBase_def covers_def)
  then show ?thesis
    using assms(2) by (simp add: relativeAddress_asserts_def relativeAddress_def unat_sub_le)
qed

theorem relativeAddress_no_wrap_witness:
  "relativeAddress_asserts (findElf 120 (register_all
      [\<lparr>rq_addr = 100, rq_len = 50, rq_pgoff = 0, rq_file = no_file, rq_name = [], rq_path = [1]\<rparr>]
      empty_map)) 120"
proof -
  let ?rs = "[\<lparr>rq_addr = 100, rq_len = 50, rq_pgoff = 0, rq_file = no_file, rq_name = [], rq_path = [1]\<rparr>]"
  have wf: "\<forall>r \<in> set ?rs. wf_request r" by (simp add: wf_request_def wf_range_def)
  have "m_elfs (register_all ?rs empty_map) = [ElfInfo no_file 100 50 0 [] [1]]"
    by (simp add: register_all_def register_request_def registerElf_def start_state_def empty_map_def
        assignBase_def isFile_def insert_elf_def lower_bound_def insert_at_def
        part_search.simps)
  then have "isValid (findElf 120 (register_all ?rs empty_map))"
    by (simp add: findElf_def upper_bound_def part_search.simps isValid_def)
  from relativeAddress_no_wrap [OF wf this] show ?thesis by blast
qed

text \<open>
  On ARM the low bit of a symbol's address marks Thumb code. \<open>alignedAddress\<close> undoes
  \<open>symbolAddress\<close> on every aligned address, both change nothing on other architectures, and
  \<open>symbolAddress\<close> never wraps around: the address it gives is the aligned one or the one above.
\<close>
theorem symbolAddress_roundtrip:
  "alignedAddress (symbolAddress addr isArm) isArm = (if isArm then 2 * (addr div 2) else addr)
    \<and> addr \<le> symbolAddress addr isArm"
proof -
  have odd: "addr AND 1 \<noteq> 0 \<longleftrightarrow> odd addr" for addr :: u64
    by (simp add: and_one_eq mod_2_eq_odd)
  have even_next: "addr < addr + 1" if "even addr" for addr :: u64
  proof -
    have "even (unat addr)" using that by (simp add: even_unat)
    then have "unat addr + unat (1 :: u64) < 2 ^ LENGTH(64)"
      using unsigned_less [of addr, where 'a = nat] by simp presburger
    then show ?thesis by (simp add: word_less_nat_alt unat_add_nowrap)
  qed
  have half: "2 * (addr div 2) = (if odd addr then addr - 1 else addr)" for addr :: u64
  proof (cases "odd addr")
    case True
    then have "2 * (addr div 2) + 1 = addr"
      using mult_div_mod_eq [of 2 addr] by (simp add: odd_iff_mod_2_eq_one)
    then show ?thesis using True by (simp add: eq_diff_eq)
  next
    case False
    then show ?thesis using mult_div_mod_eq [of 2 addr] by (simp add: even_iff_mod_2_eq_zero)
  qed
  show ?thesis
    using even_next [of addr] by (auto simp: alignedAddress_def symbolAddress_def odd half)
qed

section \<open>Limits of the caches\<close>

text \<open>
  The fragment a partly overwritten mapping leaves behind has no base address, so its relative
  addresses count from its own start and coincide with those of the fragment before it: a location
  cached for an address of the one is found for a different address of the other.
\<close>

lemma address_cache_collision:
  fixes l :: address_cache_entry
  defines "m \<equiv> register_all
      [\<lparr>rq_addr = 100, rq_len = 50, rq_pgoff = 0, rq_file = no_file, rq_name = [], rq_path = [1]\<rparr>,
       \<lparr>rq_addr = 110, rq_len = 10, rq_pgoff = 5, rq_file = no_file, rq_name = [], rq_path = [2]\<rparr>]
      empty_map"
  shows "file_at (m_elfs m) 105 = Some ([1], 5)" "file_at (m_elfs m) 125 = Some ([1], 25)"
    "findAddress (findElf 125 m) 125 ic (fst (cacheAddress (findElf 105 m) 105 l ic c)) = l"
proof -
  note run = registerElf_def start_state_def assignBase_def isFile_def insert_elf_def
    lower_bound_def insert_at_def remove_at_def
  have one: "fst (registerElf 100 50 0 no_file [] [1] empty_map)
      = \<lparr>m_elfs = [ElfInfo no_file 100 50 0 [] [1]], m_lastBase = noElf\<rparr>"
    by (simp add: run empty_map_def part_search.simps)
  have scan: "scan_elfs [2] 0 [ElfInfo no_file 100 50 0 [] [1]] (start_state 110 10 5) =
      Inr \<lparr>rs_addr = 110, rs_len = 10, rs_pgoff = 5, rs_addrEnd = 120,
        rs_newElfs = [ElfInfo no_file 100 10 0 [] [1], ElfInfo no_file 120 30 20 [] [1]],
        rs_removed = [0], rs_invalidated = [ElfInfo no_file 100 50 0 [] [1]]\<rparr>"
    by (simp add: start_state_def overwrite_def)
  let ?a = "ElfInfo no_file 100 10 0 [] [1]" and ?b = "ElfInfo no_file 110 10 5 [] [2]"
    and ?c = "ElfInfo no_file 120 30 20 [] [1]"
  have ins: "insert_elf ?a [] = [?a]" "insert_elf ?c [?a] = [?a, ?c]" "insert_elf ?b [?a, ?c] = [?a, ?b, ?c]"
    by (simp_all add: insert_elf_def lower_bound_def insert_at_def part_search.simps)
  have two: "m_elfs (fst (registerElf 110 10 5 no_file [] [2]
      \<lparr>m_elfs = [ElfInfo no_file 100 50 0 [] [1]], m_lastBase = noElf\<rparr>)) = [?a, ?b, ?c]"
    by (simp add: registerElf_def scan ins assignBase_def isFile_def remove_at_def del: scan_elfs.simps)
  have m: "m_elfs m = [?a, ?b, ?c]"
    by (simp add: m_def register_all_def register_request_def one two)
  have "findElf 105 m = ElfInfo no_file 100 10 0 [] [1]" "findElf 125 m = ElfInfo no_file 120 30 20 [] [1]"
    by (simp_all add: findElf_def upper_bound_def part_search.simps m)
  then show "findAddress (findElf 125 m) 125 ic (fst (cacheAddress (findElf 105 m) 105 l ic c)) = l"
    by (simp add: findAddress_def cacheAddress_def isValid_def relativeAddress_def elfBase_def
        hasBaseAddr_def hash_value_def)
  show "file_at (m_elfs m) 105 = Some ([1], 5)" "file_at (m_elfs m) 125 = Some ([1], 25)"
    by (simp_all add: file_at_def m covers_def)
qed

text \<open>
  A symbol that encompasses an address is missed when a smaller symbol starts at the same address
  or between the two: the search only looks at the last one that starts below the address.
\<close>

lemma findSymbol_misses:
  defines "outer \<equiv> \<lparr>sym_offset = 16, sym_value = 16, sym_size = 64, symname = [111], demangled = False\<rparr>"
    and "small \<equiv> \<lparr>sym_offset = 16, sym_value = 16, sym_size = 4, symname = [115], demangled = False\<rparr>"
    and "inner \<equiv> \<lparr>sym_offset = 32, sym_value = 32, sym_size = 4, symname = [105], demangled = False\<rparr>"
  shows "symbol_covers outer 40"
    "fst (findSymbol d [1] 40 (setSymbolCache [1] [outer, small] emptyCache)) = noSymbol"
    "fst (findSymbol d [1] 40 (setSymbolCache [1] [outer, inner] emptyCache)) = noSymbol"
  by (simp_all add: symbol_covers_def outer_def small_def inner_def findSymbol_set symbol_table_def
      sym_eq_def symbolIndex_def lower_bound_def part_search.simps)

end
