(* ===== verification/Kallsyms.thy ===== *)
theory Kallsyms
  imports Algorithms
begin

text \<open>
  \<open>app/perfkallsyms.h\<close>, \<open>app/perfkallsyms.cpp\<close>: the kernel's symbol table. \<open>parseMapping\<close> reads one
  row per iteration from a \<open>QTextStream\<close>, which is a parameter: the list of the rows the stream's
  extraction operators yield, each with the result of \<open>toULongLong\<close> on its address field. Opening
  the file and the order \<open>std::sort\<close> gives entries of equal address are parameters too.
\<close>

record kallsym_entry =
  ks_address :: u64
  ks_symbol :: bytes
  ks_module :: bytes

definition noKallsym :: kallsym_entry where
  "noKallsym = \<lparr>ks_address = 0, ks_symbol = [], ks_module = []\<rparr>"

text \<open>
  One iteration's extractions: the address word and its value as a hexadecimal number (\<open>None\<close> when
  it is not one), the symbol, the character after it and the word that follows a tab.
\<close>

record kallsyms_row =
  row_address :: bytes
  row_value :: "u64 option"
  row_symbol :: bytes
  row_eol :: u8
  row_module :: bytes

datatype kallsyms_error = FileError bytes | InvalidAddress bytes | MappingEmpty

record kallsyms =
  ks_entries :: "kallsym_entry list"
  ks_errorString :: "kallsyms_error option"

definition emptyKallsyms :: kallsyms where
  "emptyKallsyms = \<lparr>ks_entries = [], ks_errorString = None\<rparr>"

definition kallsymsEmpty :: "kallsyms \<Rightarrow> bool" where
  "kallsymsEmpty k \<longleftrightarrow> ks_entries k = []"

definition null_address :: bytes where
  "null_address = [0x28, 0x6e, 0x75, 0x6c, 0x6c, 0x29]"

definition tab :: u8 where
  "tab = 9"

text \<open>
  The loop: the entries in the order they were read, and the invalid address that stopped it. The
  stream gives an empty address at its end. An address that is no number reads as zero.
\<close>

fun readRows :: "kallsyms_row list \<Rightarrow> kallsym_entry list \<Rightarrow> kallsym_entry list \<times> bytes option" where
  "readRows [] entries = (entries, None)"
| "readRows (r # rs) entries =
     (if row_address r = [] then (entries, None)
      else let address = (case row_value r of Some v \<Rightarrow> v | None \<Rightarrow> 0) in
        if row_value r = None \<and> row_address r \<noteq> null_address then (entries, Some (row_address r))
        else let entry = \<lparr>ks_address = address, ks_symbol = row_symbol r,
                          ks_module = (if row_eol r = tab then row_module r else [])\<rparr>
          in readRows rs (if address \<noteq> 0 then entries @ [entry] else entries))"

text \<open>\<open>input\<close> is the error string of a file that does not open, or the rows of one that does.\<close>

definition parseMapping ::
  "(kallsym_entry list \<Rightarrow> kallsym_entry list) \<Rightarrow> bytes + kallsyms_row list \<Rightarrow> bool \<times> kallsyms" where
  "parseMapping stdSort input =
     (case input of
        Inl err \<Rightarrow> (False, \<lparr>ks_entries = [], ks_errorString = Some (FileError err)\<rparr>)
      | Inr rows \<Rightarrow>
          (case readRows rows [] of
             (entries, None) \<Rightarrow>
               (if entries = [] then (False, \<lparr>ks_entries = [], ks_errorString = Some MappingEmpty\<rparr>)
                else (True, \<lparr>ks_entries = stdSort entries, ks_errorString = None\<rparr>))
           | (entries, Some bad) \<Rightarrow>
               (False, \<lparr>ks_entries = stdSort entries, ks_errorString = Some (InvalidAddress bad)\<rparr>)))"

definition findEntry :: "u64 \<Rightarrow> kallsyms \<Rightarrow> kallsym_entry" where
  "findEntry address k =
     (case upper_bound ks_address (ks_entries k) address of
        0 \<Rightarrow> noKallsym
      | Suc n \<Rightarrow> ks_entries k ! n)"

section \<open>Correctness\<close>

interpretation kallsyms: address_table ks_entries ks_address
    "\<lambda>k. sorted (map ks_address (ks_entries k))"
  by unfold_locales

lemma readRows_nonzero:
  "0 \<notin> ks_address ` set entries \<Longrightarrow> 0 \<notin> ks_address ` set (fst (readRows rs entries))"
proof (induction rs arbitrary: entries)
  case (Cons r rs)
  then show ?case
    using Cons by (cases "row_value r") (simp_all add: Let_def)
qed simp

lemma parseMapping_sorted:
  assumes "is_std_sort ks_address srt"
  shows "sorted (map ks_address (ks_entries (snd (parseMapping srt input))))"
    and "\<forall>e \<in> set (ks_entries (snd (parseMapping srt input))). ks_address e \<noteq> 0"
proof -
  have srt: "set (srt es) = set es" "sorted (map ks_address (srt es))" for es
    using assms mset_eq_setD [of "srt es" es] by (auto simp: is_std_sort_def)
  obtain es where "snd (parseMapping srt input) \<in> {k. ks_entries k = [] \<or> ks_entries k = srt es}"
    and es: "\<forall>e \<in> set es. ks_address e \<noteq> 0"
  proof (cases input)
    case (Inl err)
    then show ?thesis using that [of "[]"] by (simp add: parseMapping_def)
  next
    case (Inr rows)
    have "0 \<notin> ks_address ` set (fst (readRows rows []))" by (rule readRows_nonzero) simp
    then have "\<forall>e \<in> set (fst (readRows rows [])). ks_address e \<noteq> 0" by (metis image_eqI)
    then show ?thesis using that [of "fst (readRows rows [])"] Inr
      by (cases "readRows rows []") (auto simp: parseMapping_def split: option.splits)
  qed
  then show "sorted (map ks_address (ks_entries (snd (parseMapping srt input))))"
    "\<forall>e \<in> set (ks_entries (snd (parseMapping srt input))). ks_address e \<noteq> 0"
    using srt [of es] by auto
qed

text \<open>
  C28: kernel symbol lookup. In a table \<open>parseMapping\<close> built from any rows, with any sort that orders
  by address, \<open>findEntry\<close> returns an entry of the table that starts at or below the address and that
  no other entry of the table lies closer to; it returns the default entry exactly when every entry
  starts above the address.
\<close>
theorem findEntry_closest:
  assumes "is_std_sort ks_address srt" "k = snd (parseMapping srt input)"
  shows "if \<exists>e \<in> set (ks_entries k). ks_address e \<le> a
    then findEntry a k \<in> set (ks_entries k) \<and> ks_address (findEntry a k) \<le> a
      \<and> \<not> (\<exists>e \<in> set (ks_entries k). ks_address (findEntry a k) < ks_address e \<and> ks_address e \<le> a)
    else findEntry a k = noKallsym"
proof -
  have inv: "sorted (map ks_address (ks_entries k))"
    using parseMapping_sorted [OF assms(1)] by (simp add: assms(2))
  show ?thesis
  proof (cases "upper_bound ks_address (ks_entries k) a")
    case 0
    have "\<not> (\<exists>e \<in> set (ks_entries k). ks_address e \<le> a)"
      using kallsyms.floor_none [OF inv 0] by (meson leD)
    then show ?thesis using 0 by (simp add: findEntry_def)
  next
    case (Suc n)
    then show ?thesis
      using kallsyms.floor_start_le [OF inv Suc] kallsyms.floor_greatest [OF inv Suc]
      by (auto simp: findEntry_def leD)
  qed
qed

definition kallsyms_rows :: "kallsyms_row list" where
  "kallsyms_rows =
    [\<lparr>row_address = [0x32, 0x30], row_value = Some 0x20, row_symbol = [0x62], row_eol = 10, row_module = []\<rparr>,
     \<lparr>row_address = null_address, row_value = None, row_symbol = [0x63], row_eol = 10, row_module = []\<rparr>,
     \<lparr>row_address = [0x31, 0x30], row_value = Some 0x10, row_symbol = [0x61], row_eol = tab, row_module = [0x6d]\<rparr>]"

theorem findEntry_closest_witness:
  "ks_address (findEntry 0x18 (snd (parseMapping (sort_key ks_address) (Inr kallsyms_rows)))) = 0x10"
proof -
  have "ks_entries (snd (parseMapping (sort_key ks_address) (Inr kallsyms_rows))) =
      [\<lparr>ks_address = 0x10, ks_symbol = [0x61], ks_module = [0x6d]\<rparr>,
       \<lparr>ks_address = 0x20, ks_symbol = [0x62], ks_module = []\<rparr>]"
    by (simp add: parseMapping_def kallsyms_rows_def null_address_def tab_def Let_def)
  with findEntry_closest [OF is_std_sort_sort_key refl, where input = "Inr kallsyms_rows" and a = "0x18"] show ?thesis
    by auto
qed



end
