(* ===== verification/RegisterInfo.thy ===== *)
theory RegisterInfo
  imports Prelude
begin

text \<open>
  \<open>app/perfregisterinfo.h\<close>, \<open>app/perfregisterinfo.cpp\<close>: the register layouts of the supported
  architectures. The tables are lists indexed by architecture and ABI; a row the initialiser of the
  C++ array does not give is zero.
\<close>

datatype architecture =
  ARCH_ARM | ARCH_AARCH64 | ARCH_POWERPC | ARCH_S390 | ARCH_SH | ARCH_SPARC | ARCH_X86 | ARCH_MIPS
  | ARCH_INVALID

fun arch_index :: "architecture \<Rightarrow> nat" where
  "arch_index ARCH_ARM = 0" | "arch_index ARCH_AARCH64 = 1" | "arch_index ARCH_POWERPC = 2"
| "arch_index ARCH_S390 = 3" | "arch_index ARCH_SH = 4" | "arch_index ARCH_SPARC = 5"
| "arch_index ARCH_X86 = 6" | "arch_index ARCH_MIPS = 7" | "arch_index ARCH_INVALID = 8"

definition s_numAbis :: nat where
  "s_numAbis = 2"

definition s_numRegisters :: "int list list" where
  "s_numRegisters = [[16, 16], [33, 33], [0, 0], [0, 0], [0, 0], [0, 0], [9, 17], [0, 0]]"

definition s_wordWidth :: "int list list" where
  "s_wordWidth = [[4, 4], [8, 8], [0, 0], [0, 0], [0, 0], [0, 0], [4, 8], [0, 0]]"

definition regs_arm :: "int list" where
  "regs_arm = [0, 1, 2, 3, 4, 5, 6, 7, 8, 9, 10, 11, 12, 13, 14, 15]"

definition regs_aarch64 :: "int list" where
  "regs_aarch64 = [0, 1, 2, 3, 4, 5, 6, 7, 8, 9, 10, 11, 12, 13, 14, 15, 16, 17,
                   18, 19, 20, 21, 22, 23, 24, 25, 26, 27, 28, 29, 30, 31, 32]"

definition regs_x86 :: "int list" where
  "regs_x86 = [0, 2, 3, 1, 7, 6, 4, 5, 8]"

definition regs_x86_64 :: "int list" where
  "regs_x86_64 = [0, 3, 2, 1, 4, 5, 6, 7, 16, 17, 18, 19, 20, 21, 22, 23, 8]"

definition regs_mips :: "int list" where
  "regs_mips = [32, 1, 2, 3, 4, 5, 6, 7, 8, 9, 10, 11, 12, 13, 14, 15, 16, 17,
                18, 19, 20, 21, 22, 23, 24, 25, 28, 29, 30, 31]"

definition regs_none :: "int list" where
  "regs_none = [0]"

definition s_perfToDwarf :: "int list list list" where
  "s_perfToDwarf =
    [[regs_arm, regs_arm], [regs_aarch64, regs_aarch64], [regs_none, regs_none], [regs_none, regs_none],
     [regs_none, regs_none], [regs_none, regs_none], [regs_x86, regs_x86_64], [regs_mips, regs_mips]]"

definition s_perfIp :: "int list" where
  "s_perfIp = [15, 32, 0xffff, 0xffff, 0xffff, 0xffff, 8, 0]"

definition s_perfSp :: "int list" where
  "s_perfSp = [13, 31, 0xffff, 0xffff, 0xffff, 0xffff, 7, 0]"

definition s_dwarfLr :: "int list list" where
  "s_dwarfLr = [[14, 14], [30, 30], [0xffff, 0xffff], [0xffff, 0xffff], [0xffff, 0xffff],
    [0xffff, 0xffff], [0xffff, 0xffff], [0, 0]]"

definition s_dwarfIp :: "int list list" where
  "s_dwarfIp = [[15, 15], [32, 32], [0xffff, 0xffff], [0xffff, 0xffff], [0xffff, 0xffff],
    [0xffff, 0xffff], [8, 16], [0, 0]]"

definition s_dummyRegisters :: "int list list" where
  "s_dummyRegisters = [[0, 0], [72, 80], [0, 0], [0, 0], [0, 0], [0, 0], [0, 0], [0, 0]]"

definition archByName :: "bytes \<Rightarrow> architecture" where
  "archByName name =
     (if name = ascii ''aarch64'' \<or> name = ascii ''arm64'' then ARCH_AARCH64
      else if starts_with (ascii ''arm'') name then ARCH_ARM
      else if starts_with (ascii ''powerpc'') name then ARCH_POWERPC
      else if starts_with (ascii ''s390'') name then ARCH_S390
      else if starts_with (ascii ''sh'') name then ARCH_SH
      else if starts_with (ascii ''sparc'') name then ARCH_SPARC
      else if starts_with (ascii ''x86'') name \<or> name = ascii ''i386'' \<or> name = ascii ''i486''
        \<or> name = ascii ''i586'' \<or> name = ascii ''i686'' \<or> name = ascii ''i786'' \<or> name = ascii ''amd64''
      then ARCH_X86
      else if starts_with (ascii ''mips'') name then ARCH_MIPS
      else ARCH_INVALID)"

section \<open>Correctness\<close>

text \<open>What the unwinder relies on for an architecture and ABI it sets registers for.\<close>

definition layout_consistent :: "nat \<Rightarrow> nat \<Rightarrow> bool" where
  "layout_consistent a abi \<longleftrightarrow>
     (let n = s_numRegisters ! a ! abi; t = s_perfToDwarf ! a ! abi in
      0 < n \<longrightarrow> int (length t) = n \<and> distinct t
        \<and> (s_wordWidth ! a ! abi = 4 \<or> s_wordWidth ! a ! abi = 8)
        \<and> 0 \<le> s_perfIp ! a \<and> s_perfIp ! a < n \<and> 0 \<le> s_perfSp ! a \<and> s_perfSp ! a < n
        \<and> t ! nat (s_perfIp ! a) = s_dwarfIp ! a ! abi
        \<and> (\<forall>r \<in> set t. 0 \<le> r \<and> \<not> (s_dummyRegisters ! a ! 0 \<le> r \<and> r < s_dummyRegisters ! a ! 1)))"

text \<open>
  The register tables agree with each other. For every architecture and ABI that has registers,
  the translation from perf's to DWARF's numbering has one entry per register and is injective, the
  instruction and stack pointer are among the registers, the translation takes perf's instruction
  pointer to DWARF's, no translated register is one of the dummies, and registers are 4 or 8 bytes
  wide.
\<close>
theorem register_tables_consistent:
  "\<forall>a \<in> set [0..<8]. \<forall>abi \<in> set [0..<s_numAbis]. layout_consistent a abi"
  by code_simp

theorem register_tables_consistent_witness:
  "layout_consistent (arch_index ARCH_X86) 1 \<and> s_numRegisters ! arch_index ARCH_X86 ! 1 = 17"
  using register_tables_consistent by (simp add: s_numAbis_def s_numRegisters_def)

text \<open>
  The only architecture with a translation table but no registers: the tables of sizes and pointers
  have no row for it.
\<close>

lemma mips_has_no_registers:
  "archByName (ascii ''mips'') = ARCH_MIPS"
  "length (s_perfToDwarf ! arch_index ARCH_MIPS ! 0) = 30"
  "s_numRegisters ! arch_index ARCH_MIPS = [0, 0]"
  by code_simp+

lemma archByName_examples:
  "map (archByName \<circ> ascii) [''aarch64'', ''arm64'', ''armv7l'', ''x86_64'', ''i686'', ''shell'']
    = [ARCH_AARCH64, ARCH_AARCH64, ARCH_ARM, ARCH_X86, ARCH_X86, ARCH_SH]"
  by code_simp

end
