(* ===== verification/PerfStdin.thy ===== *)
theory PerfStdin
  imports Prelude
begin

text \<open>
  \<open>app/perfstdin.h\<close>, \<open>app/perfstdin.cpp\<close>: the device that buffers standard input. The state is the
  buffer with its read and write positions, what standard input still has to give, and whether a
  read has met its end (\<open>feof\<close> or \<open>ferror\<close>). \<open>fread\<close> delivers as many bytes as asked for, or all
  that is left, which sets the end flag. \<open>junk\<close> is the content of uninitialised memory.
\<close>

definition s_minBufferSize :: nat where
  "s_minBufferSize = 2 ^ 10"

definition s_maxBufferSize :: nat where
  "s_maxBufferSize = 2 ^ 30"

record perf_stdin =
  si_buffer :: bytes
  si_pos :: nat
  si_used :: nat
  si_rest :: bytes
  si_ended :: bool
  si_open :: bool

definition bufferedAvailable :: "perf_stdin \<Rightarrow> nat" where
  "bufferedAvailable s = si_used s - si_pos s"

definition stdinAtEnd :: "perf_stdin \<Rightarrow> bool" where
  "stdinAtEnd s \<longleftrightarrow> si_ended s"

definition uninitialised :: "(nat \<Rightarrow> u8) \<Rightarrow> nat \<Rightarrow> bytes" where
  "uninitialised junk n = map junk [0..<n]"

text \<open>\<open>QByteArray::resize\<close>, then \<open>open\<close> and \<open>close\<close>.\<close>

definition newStdin :: "bytes \<Rightarrow> perf_stdin" where
  "newStdin input = \<lparr>si_buffer = [], si_pos = 0, si_used = 0, si_rest = input, si_ended = False,
     si_open = False\<rparr>"

definition openStdin :: "(nat \<Rightarrow> u8) \<Rightarrow> bool \<Rightarrow> bool \<Rightarrow> perf_stdin \<Rightarrow> bool \<times> perf_stdin" where
  "openStdin junk readOnly writeOnly s =
     (if \<not> readOnly \<or> writeOnly then (False, s)
      else (True, s\<lparr>si_buffer := take s_minBufferSize
              (si_buffer s @ uninitialised junk (s_minBufferSize - length (si_buffer s))),
            si_open := True\<rparr>))"

definition closeStdin :: "perf_stdin \<Rightarrow> perf_stdin" where
  "closeStdin s = s\<lparr>si_open := False\<rparr>"

definition overwrite_bytes :: "nat \<Rightarrow> bytes \<Rightarrow> bytes \<Rightarrow> bytes" where
  "overwrite_bytes n new buf = take n buf @ new @ drop (n + length new) buf"

text \<open>\<open>resizeBuffer\<close>: a new buffer that starts with the bytes not yet read.\<close>

definition resizeBuffer :: "(nat \<Rightarrow> u8) \<Rightarrow> nat \<Rightarrow> perf_stdin \<Rightarrow> perf_stdin" where
  "resizeBuffer junk newSize s =
     s\<lparr>si_buffer := overwrite_bytes 0 (take (si_used s - si_pos s) (drop (si_pos s) (si_buffer s)))
          (uninitialised junk newSize),
       si_used := si_used s - si_pos s, si_pos := 0\<rparr>"

text \<open>\<open>fread\<close> into the free end of the buffer.\<close>

definition readStdin :: "perf_stdin \<Rightarrow> nat \<times> perf_stdin" where
  "readStdin s =
     (let want = length (si_buffer s) - si_used s; got = take want (si_rest s) in
      (length got, s\<lparr>si_buffer := overwrite_bytes (si_used s) got (si_buffer s),
         si_used := si_used s + length got, si_rest := drop want (si_rest s),
         si_ended := (si_ended s \<or> length got < want)\<rparr>))"

text \<open>\<open>fillBuffer\<close>: the buffer is reset, grown or compacted, then read into.\<close>

definition prepareBuffer :: "(nat \<Rightarrow> u8) \<Rightarrow> int \<Rightarrow> perf_stdin \<Rightarrow> perf_stdin" where
  "prepareBuffer junk target s =
     (let s = (if si_used s = si_pos s then s\<lparr>si_pos := 0, si_used := 0\<rparr> else s);
          target = min target (int s_maxBufferSize);
          s = (if target > int (length (si_buffer s)) then resizeBuffer junk (nat target) s else s)
      in if si_used s = length (si_buffer s)
         then (if si_pos s = 0
               then resizeBuffer junk (if si_used s \<le> s_maxBufferSize div 2
                      then si_used s * 2 else s_maxBufferSize) s
               else resizeBuffer junk (si_used s) s)
         else s)"

definition fillBuffer :: "(nat \<Rightarrow> u8) \<Rightarrow> int \<Rightarrow> perf_stdin \<Rightarrow> nat \<times> perf_stdin" where
  "fillBuffer junk target s = readStdin (prepareBuffer junk target s)"

lemma resizeBuffer_rest [simp]: "si_rest (resizeBuffer junk n s) = si_rest s"
  by (simp add: resizeBuffer_def)

lemma prepareBuffer_rest [simp]: "si_rest (prepareBuffer junk t s) = si_rest s"
  by (simp add: prepareBuffer_def Let_def)

lemma fillBuffer_rest:
  "length (si_rest (snd (fillBuffer junk t s))) + fst (fillBuffer junk t s) = length (si_rest s)"
  by (simp add: fillBuffer_def readStdin_def Let_def min_def)

text \<open>
  The loop of \<open>readData\<close>: copy what is buffered, then refill as long as that gives bytes. The
  result is the bytes copied to the caller; \<open>None\<close> is the return value -1.
\<close>

function read_loop :: "(nat \<Rightarrow> u8) \<Rightarrow> nat \<Rightarrow> bytes \<Rightarrow> perf_stdin \<Rightarrow> bytes \<times> perf_stdin" where
  "read_loop junk maxlen data s =
     (let buffered = min (bufferedAvailable s) (maxlen - length data);
          data' = data @ take buffered (drop (si_pos s) (si_buffer s));
          s' = s\<lparr>si_pos := si_pos s + buffered\<rparr>
      in if length data' < maxlen
         then (let r = fillBuffer junk (int maxlen) s' in
               if fst r > 0 then read_loop junk maxlen data' (snd r) else (data', snd r))
         else (data', s'))"
  by pat_completeness auto
termination
proof (relation "measure (\<lambda>(junk, maxlen, data, s). length (si_rest s))", goal_cases)
  case (2 junk maxlen data s buffered data' s' r)
  then show ?case using fillBuffer_rest [of junk "int maxlen" s'] by simp
qed simp

declare read_loop.simps [simp del]

definition readData :: "(nat \<Rightarrow> u8) \<Rightarrow> int \<Rightarrow> perf_stdin \<Rightarrow> bytes option \<times> perf_stdin" where
  "readData junk maxlen s =
     (if maxlen \<le> 0 then (Some [], s)
      else let (data, s') = read_loop junk (nat maxlen) [] s
        in (if data = [] \<and> stdinAtEnd s' then None else Some data, s'))"

text \<open>The timer: a signal that data is there, or the device closes itself.\<close>

datatype stdin_signal = ReadyRead | NoSignal

definition receiveData :: "(nat \<Rightarrow> u8) \<Rightarrow> perf_stdin \<Rightarrow> stdin_signal \<times> perf_stdin" where
  "receiveData junk s =
     (let (n, s') = fillBuffer junk (- 1) s in
      if n > 0 then (ReadyRead, s')
      else if stdinAtEnd s' then (NoSignal, closeStdin s')
      else (NoSignal, s'))"

text \<open>\<open>available\<close> is \<open>QIODevice::bytesAvailable\<close>.\<close>

definition stdin_bytesAvailable :: "int \<Rightarrow> perf_stdin \<Rightarrow> int" where
  "stdin_bytesAvailable available s = int (bufferedAvailable s) + available"

section \<open>The contract: a byte stream\<close>

text \<open>What has not been delivered yet, and the assertions of the code with the bound on the buffer.\<close>

definition undelivered :: "perf_stdin \<Rightarrow> bytes" where
  "undelivered s = take (si_used s - si_pos s) (drop (si_pos s) (si_buffer s)) @ si_rest s"

definition stdin_inv :: "perf_stdin \<Rightarrow> bool" where
  "stdin_inv s \<longleftrightarrow> si_pos s \<le> si_used s \<and> si_used s \<le> length (si_buffer s)
     \<and> length (si_buffer s) \<le> s_maxBufferSize \<and> (si_ended s \<longrightarrow> si_rest s = [])"

lemma length_uninitialised [simp]: "length (uninitialised junk n) = n"
  by (simp add: uninitialised_def)

lemma length_overwrite_bytes [simp]:
  "n + length new \<le> length buf \<Longrightarrow> length (overwrite_bytes n new buf) = length buf"
  by (simp add: overwrite_bytes_def)

lemma resizeBuffer_facts:
  assumes "stdin_inv s" "si_used s - si_pos s \<le> n" "n \<le> s_maxBufferSize"
  shows "stdin_inv (resizeBuffer junk n s)" "undelivered (resizeBuffer junk n s) = undelivered s"
    "length (si_buffer (resizeBuffer junk n s)) = n" "si_pos (resizeBuffer junk n s) = 0"
    "si_used (resizeBuffer junk n s) = si_used s - si_pos s"
  using assms
  by (auto simp: resizeBuffer_def stdin_inv_def undelivered_def overwrite_bytes_def min_def)

lemma undelivered_split:
  assumes "si_pos s \<le> si_used s" "si_used s \<le> length (si_buffer s)"
  shows "undelivered s = drop (si_pos s) (take (si_used s) (si_buffer s)) @ si_rest s"
  using assms by (simp add: undelivered_def drop_take)

lemma readStdin_facts:
  assumes "stdin_inv s"
  shows "stdin_inv (snd (readStdin s))" "undelivered (snd (readStdin s)) = undelivered s"
    "fst (readStdin s) = min (length (si_buffer s) - si_used s) (length (si_rest s))"
    "length (si_buffer (snd (readStdin s))) = length (si_buffer s)"
    "si_ended (snd (readStdin s)) = (si_ended s \<or> length (si_rest s) < length (si_buffer s) - si_used s)"
proof -
  define want where "want = length (si_buffer s) - si_used s"
  define got where "got = take want (si_rest s)"
  have run: "snd (readStdin s) = s\<lparr>si_buffer := overwrite_bytes (si_used s) got (si_buffer s),
         si_used := si_used s + length got, si_rest := drop want (si_rest s),
         si_ended := (si_ended s \<or> length got < want)\<rparr>"
    by (simp add: readStdin_def Let_def got_def want_def)
  have pos: "si_pos s \<le> si_used s" "si_used s \<le> length (si_buffer s)"
    using assms by (simp_all add: stdin_inv_def)
  show inv: "stdin_inv (snd (readStdin s))"
    using assms by (auto simp: readStdin_def Let_def stdin_inv_def overwrite_bytes_def)
  have rest: "got @ drop want (si_rest s) = si_rest s" by (simp add: got_def)
  have "take (si_used s + length got) (overwrite_bytes (si_used s) got (si_buffer s))
      = take (si_used s) (si_buffer s) @ got"
    using pos by (simp add: overwrite_bytes_def)
  then have "undelivered (snd (readStdin s))
      = drop (si_pos s) (take (si_used s) (si_buffer s) @ got) @ drop want (si_rest s)"
    using undelivered_split [of "snd (readStdin s)"] inv
    by (simp add: run stdin_inv_def)
  also have "\<dots> = drop (si_pos s) (take (si_used s) (si_buffer s)) @ got @ drop want (si_rest s)"
    using pos by simp
  also have "\<dots> = undelivered s"
    unfolding rest using pos by (simp add: undelivered_split)
  finally show "undelivered (snd (readStdin s)) = undelivered s" .
qed (use assms in \<open>auto simp: readStdin_def Let_def stdin_inv_def\<close>)

lemma prepareBuffer_facts:
  assumes "stdin_inv s"
  shows "stdin_inv (prepareBuffer junk t s)" "undelivered (prepareBuffer junk t s) = undelivered s"
    "bufferedAvailable s = 0 \<Longrightarrow> 0 < t
      \<Longrightarrow> si_used (prepareBuffer junk t s) < length (si_buffer (prepareBuffer junk t s))"
    "si_ended (prepareBuffer junk t s) = si_ended s"
proof -
  define s1 where "s1 = (if si_used s = si_pos s then s\<lparr>si_pos := 0, si_used := 0\<rparr> else s)"
  define s2 where "s2 = (if min t (int s_maxBufferSize) > int (length (si_buffer s1))
    then resizeBuffer junk (nat (min t (int s_maxBufferSize))) s1 else s1)"
  have s1: "stdin_inv s1" "undelivered s1 = undelivered s" "si_ended s1 = si_ended s"
    "bufferedAvailable s = 0 \<Longrightarrow> si_used s1 = 0"
    using assms by (auto simp: s1_def stdin_inv_def undelivered_def bufferedAvailable_def)
  have "si_used s1 - si_pos s1 \<le> nat (min t (int s_maxBufferSize))"
    if "min t (int s_maxBufferSize) > int (length (si_buffer s1))"
    using s1(1) that by (auto simp: stdin_inv_def)
  note R = resizeBuffer_facts [OF s1(1) this]
  have s2: "stdin_inv s2" "undelivered s2 = undelivered s" "si_ended s2 = si_ended s"
    using s1 R by (auto simp: s2_def resizeBuffer_def)
  have used2: "si_used s2 = 0" "0 < t \<Longrightarrow> 0 < length (si_buffer s2)" if "bufferedAvailable s = 0"
  proof -
    show "si_used s2 = 0" using s1(4) [OF that] by (simp add: s2_def resizeBuffer_def)
    show "0 < length (si_buffer s2)" if "0 < t"
    proof (cases "min t (int s_maxBufferSize) > int (length (si_buffer s1))")
      case True
      then have "s2 = resizeBuffer junk (nat (min t (int s_maxBufferSize))) s1"
        unfolding s2_def by (rule if_P)
      then have "length (si_buffer s2) = nat (min t (int s_maxBufferSize))"
        using R(3) [OF True] by (simp only:)
      then show ?thesis using that by (simp add: s_maxBufferSize_def)
    next
      case False
      then have "s2 = s1" unfolding s2_def by (rule if_not_P)
      then show ?thesis using False that by (auto simp: s_maxBufferSize_def)
    qed
  qed
  define sz where "sz = (if si_used s2 \<le> s_maxBufferSize div 2 then si_used s2 * 2 else s_maxBufferSize)"
  have prep: "prepareBuffer junk t s = (if si_used s2 = length (si_buffer s2)
      then (if si_pos s2 = 0 then resizeBuffer junk sz s2 else resizeBuffer junk (si_used s2) s2)
      else s2)"
    unfolding prepareBuffer_def Let_def sz_def s2_def s1_def by (rule refl)
  have le: "si_used s2 - si_pos s2 \<le> sz" "si_used s2 \<le> s_maxBufferSize" "sz \<le> s_maxBufferSize"
    using s2(1) by (auto simp: stdin_inv_def sz_def)
  note A = resizeBuffer_facts [OF s2(1) le(1) le(3), of junk]
    and B = resizeBuffer_facts [OF s2(1) diff_le_self le(2), of junk]
  show "stdin_inv (prepareBuffer junk t s)" "undelivered (prepareBuffer junk t s) = undelivered s"
    using A(1,2) B(1,2) s2(1,2) unfolding prep by (auto split: if_splits)
  show "si_ended (prepareBuffer junk t s) = si_ended s"
    using s2(3) by (simp add: prep resizeBuffer_def)
  show "si_used (prepareBuffer junk t s) < length (si_buffer (prepareBuffer junk t s))"
    if "bufferedAvailable s = 0" "0 < t"
    using used2 [OF that(1)] that(2) by (simp add: prep)
qed

lemma fillBuffer_facts:
  assumes "stdin_inv s"
  shows "stdin_inv (snd (fillBuffer junk t s))"
    "undelivered (snd (fillBuffer junk t s)) = undelivered s"
    "bufferedAvailable s = 0 \<Longrightarrow> 0 < t \<Longrightarrow> fst (fillBuffer junk t s) = 0
      \<Longrightarrow> undelivered s = [] \<and> si_ended (snd (fillBuffer junk t s))"
proof -
  note P = prepareBuffer_facts [OF assms, where junk = junk and t = t]
  note R = readStdin_facts [OF P(1)]
  show "stdin_inv (snd (fillBuffer junk t s))"
    "undelivered (snd (fillBuffer junk t s)) = undelivered s"
    using P R by (simp_all add: fillBuffer_def)
  show "undelivered s = [] \<and> si_ended (snd (fillBuffer junk t s))"
    if "bufferedAvailable s = 0" "0 < t" "fst (fillBuffer junk t s) = 0"
  proof -
    have "length (si_rest s) = 0"
      using P(3) [OF that(1,2)] that(3) R(3) by (simp add: fillBuffer_def min_def split: if_splits)
    then have "si_rest s = []" "si_ended (snd (fillBuffer junk t s))"
      using P(3) [OF that(1,2)] R(5) by (simp_all add: fillBuffer_def)
    then show ?thesis
      using that(1) by (simp add: undelivered_def bufferedAvailable_def)
  qed
qed

text \<open>The loop delivers the next bytes of the stream, as many as asked for or all there are.\<close>

lemma read_loop_facts:
  assumes "stdin_inv s" "length data < maxlen \<or> length data = maxlen" "0 < maxlen"
  shows "stdin_inv (snd (read_loop junk maxlen data s))
    \<and> fst (read_loop junk maxlen data s) = data @ take (maxlen - length data) (undelivered s)
    \<and> undelivered (snd (read_loop junk maxlen data s)) = drop (maxlen - length data) (undelivered s)
    \<and> (length (undelivered s) < maxlen - length data \<longrightarrow> si_ended (snd (read_loop junk maxlen data s)))"
  using assms
proof (induction junk maxlen data s rule: read_loop.induct)
  case (1 junk maxlen data s)
  let ?b = "min (bufferedAvailable s) (maxlen - length data)"
  let ?data = "data @ take ?b (drop (si_pos s) (si_buffer s))"
  let ?s = "s\<lparr>si_pos := si_pos s + ?b\<rparr>"
  let ?r = "fillBuffer junk (int maxlen) ?s"
  have inv: "stdin_inv ?s" using "1.prems"(1) by (auto simp: stdin_inv_def bufferedAvailable_def)
  have len: "length (take ?b (drop (si_pos s) (si_buffer s))) = ?b"
    using "1.prems"(1) by (auto simp: stdin_inv_def bufferedAvailable_def)
  have len': "length ?data = length data + ?b" by (simp only: length_append len)
  have U: "undelivered s = take ?b (drop (si_pos s) (si_buffer s)) @ undelivered ?s"
  proof -
    have "take (bufferedAvailable s) (drop (si_pos s) (si_buffer s))
        = take ?b (drop (si_pos s) (si_buffer s))
          @ take (bufferedAvailable s - ?b) (drop (si_pos s + ?b) (si_buffer s))"
      using take_add [of ?b "bufferedAvailable s - ?b" "drop (si_pos s) (si_buffer s)"]
      by (simp add: add.commute)
    then show ?thesis by (simp add: undelivered_def bufferedAvailable_def)
  qed
  have D: "take (maxlen - length data) (undelivered s)
      = take ?b (drop (si_pos s) (si_buffer s)) @ take (maxlen - length ?data) (undelivered ?s)"
    and E: "drop (maxlen - length data) (undelivered s) = drop (maxlen - length ?data) (undelivered ?s)"
    by (subst U; simp add: len len' del: length_take length_append)+
  have L: "length (undelivered s) = ?b + length (undelivered ?s)"
    using arg_cong [OF U, of length] len by (simp only: length_append)
  show ?case
  proof (cases "length ?data < maxlen")
    case False
    moreover have "?b \<le> maxlen - length data" by simp
    ultimately have full: "length ?data = maxlen" using "1.prems"(2) len' by linarith
    have "\<not> length (undelivered s) < maxlen - length data"
      using L full len' by linarith
    moreover have "read_loop junk maxlen data s = (?data, ?s)"
      using False unfolding read_loop.simps [of junk maxlen data s] Let_def by (rule if_not_P)
    ultimately show ?thesis using inv D [unfolded full] E [unfolded full] by simp
  next
    case True
    then have avail: "bufferedAvailable ?s = 0" using len' by (simp add: bufferedAvailable_def)
    note F = fillBuffer_facts [OF inv, where junk = junk and t = "int maxlen"]
    show ?thesis
    proof (cases "fst ?r > 0")
      case 0: True
      note IH = "1.IH" [OF refl refl refl True refl 0 F(1) disjI1 [OF True] "1.prems"(3)]
      have "read_loop junk maxlen data s = read_loop junk maxlen ?data (snd ?r)"
        using True 0 by (simp add: read_loop.simps [of junk maxlen data s] Let_def)
      moreover have "length (undelivered s) < maxlen - length data
          \<longleftrightarrow> length (undelivered ?s) < maxlen - length ?data"
        using L len' by linarith
      ultimately show ?thesis using IH by (simp only: F(2) D E append_assoc simp_thms) blast
    next
      case 0: False
      then have "undelivered ?s = []" "si_ended (snd ?r)"
        using F(3) [OF avail] "1.prems"(3) by simp_all
      moreover have "read_loop junk maxlen data s = (?data, snd ?r)"
        using True 0 by (simp add: read_loop.simps [of junk maxlen data s] Let_def)
      ultimately show ?thesis using F(1,2) D E by simp
    qed
  qed
qed

section \<open>Properties\<close>

text \<open>
  C12: the device is a lossless byte stream. From any state in which its assertions hold, a read of
  any size delivers the next bytes that standard input gave, in order, as many as were asked for or
  all there are, whatever the buffer held, had to grow or be compacted to; it returns -1 exactly for
  a read of at least one byte when there are none left; the rest stays deliverable; and the
  assertions on the buffer's positions and the bound on its size hold again.
\<close>
theorem readData_stream:
  assumes "stdin_inv s"
  shows "stdin_inv (snd (readData junk maxlen s))
    \<and> undelivered (snd (readData junk maxlen s)) = drop (nat maxlen) (undelivered s)
    \<and> fst (readData junk maxlen s) =
      (if 0 < maxlen \<and> undelivered s = [] then None else Some (take (nat maxlen) (undelivered s)))"
proof (cases "0 < maxlen")
  case True
  note R = read_loop_facts [OF assms, of "[]" "nat maxlen" junk]
  have "si_ended (snd (read_loop junk (nat maxlen) [] s))" if "undelivered s = []"
    using R True that by simp
  moreover have "take (nat maxlen) (undelivered s) = [] \<longleftrightarrow> undelivered s = []" using True by simp
  ultimately show ?thesis
    using R True by (auto simp: readData_def stdinAtEnd_def split_beta)
qed (use assms in \<open>simp add: readData_def\<close>)

theorem readData_stream_witness:
  "fst (readData (\<lambda>_. 0) 3 (snd (openStdin (\<lambda>_. 0) True False (newStdin [1, 2, 3, 4, 5])))) = Some [1, 2, 3]
    \<and> fst (readData (\<lambda>_. 0) 3 (snd (openStdin (\<lambda>_. 0) True False (newStdin [])))) = None"
proof -
  have "stdin_inv (snd (openStdin (\<lambda>_. 0) True False (newStdin input)))"
    "undelivered (snd (openStdin (\<lambda>_. 0) True False (newStdin input))) = input" for input
    by (simp_all add: openStdin_def newStdin_def stdin_inv_def undelivered_def s_minBufferSize_def
        s_maxBufferSize_def)
  with readData_stream [of "snd (openStdin (\<lambda>_. 0) True False (newStdin [1, 2, 3, 4, 5]))" "\<lambda>_. 0" 3]
    readData_stream [of "snd (openStdin (\<lambda>_. 0) True False (newStdin []))" "\<lambda>_. 0" 3]
  show ?thesis by simp
qed

text \<open>A sequence of reads, with what they delivered.\<close>

fun read_all :: "(nat \<Rightarrow> u8) \<Rightarrow> int list \<Rightarrow> perf_stdin \<Rightarrow> bytes \<times> perf_stdin" where
  "read_all junk [] s = ([], s)"
| "read_all junk (n # ns) s =
     (let (d, s') = readData junk n s; (ds, s'') = read_all junk ns s'
      in ((case d of None \<Rightarrow> [] | Some b \<Rightarrow> b) @ ds, s''))"

lemma read_all_stream:
  "stdin_inv s \<Longrightarrow> fst (read_all junk ns s) @ undelivered (snd (read_all junk ns s)) = undelivered s
    \<and> stdin_inv (snd (read_all junk ns s))"
proof (induction ns arbitrary: s)
  case (Cons n ns)
  have "stdin_inv (snd (readData junk n s))"
    "(case fst (readData junk n s) of None \<Rightarrow> [] | Some b \<Rightarrow> b) @ undelivered (snd (readData junk n s))
      = undelivered s"
    using Cons.prems
    by (auto simp: readData_def split_beta Let_def read_loop_facts stdinAtEnd_def split: if_splits)
  then show ?case using Cons.IH [of "snd (readData junk n s)"]
    by (auto simp: Let_def split_beta)
qed simp

text \<open>
  C25: the timer never loses data. \<open>receiveData\<close> keeps the assertions and every byte not yet
  delivered, announces data only when there is some, and closes the device only when standard input
  has ended; so what any sequence of reads delivers afterwards is a prefix of what standard input
  gave.
\<close>
theorem receiveData_keeps_data:
  assumes "stdin_inv s"
  shows "stdin_inv (snd (receiveData junk s))
    \<and> undelivered (snd (receiveData junk s)) = undelivered s
    \<and> (fst (receiveData junk s) = ReadyRead \<longrightarrow> undelivered s \<noteq> [])
    \<and> (si_open s \<and> \<not> si_open (snd (receiveData junk s)) \<longrightarrow> si_rest (snd (receiveData junk s)) = [])
    \<and> fst (read_all junk ns (snd (receiveData junk s)))
        @ undelivered (snd (read_all junk ns (snd (receiveData junk s)))) = undelivered s"
proof -
  let ?r = "fillBuffer junk (- 1) s"
  note F = fillBuffer_facts [OF assms, where junk = junk and t = "- 1"]
  have ended: "si_rest (snd ?r) = []" if "si_ended (snd ?r)"
    using F(1) that by (simp add: stdin_inv_def)
  have got: "undelivered s \<noteq> []" if "fst ?r > 0"
    using fillBuffer_rest [of junk "- 1" s] that by (auto simp: undelivered_def)
  have close: "stdin_inv (closeStdin t) = stdin_inv t" "undelivered (closeStdin t) = undelivered t"
    "si_rest (closeStdin t) = si_rest t" for t
    by (simp_all add: closeStdin_def stdin_inv_def undelivered_def)
  have keep: "stdin_inv (snd (receiveData junk s))" "undelivered (snd (receiveData junk s)) = undelivered s"
    using F(1,2) by (auto simp: receiveData_def split_beta Let_def close)
  have open_s: "si_open (snd ?r) = si_open s"
    by (simp add: fillBuffer_def readStdin_def prepareBuffer_def resizeBuffer_def Let_def)
  have "fst (receiveData junk s) = ReadyRead \<longrightarrow> undelivered s \<noteq> []"
    using got by (simp add: receiveData_def split_beta Let_def)
  moreover have "si_open s \<and> \<not> si_open (snd (receiveData junk s))
      \<longrightarrow> si_rest (snd (receiveData junk s)) = []"
    using ended open_s by (simp add: receiveData_def split_beta Let_def close stdinAtEnd_def)
  moreover note keep read_all_stream [OF keep(1), of junk ns]
  ultimately show ?thesis by metis
qed

theorem receiveData_keeps_data_witness:
  "undelivered (snd (receiveData (\<lambda>_. 0) (newStdin [1, 2, 3]))) = [1, 2, 3]"
proof -
  have "stdin_inv (newStdin [1, 2, 3])" by (simp add: newStdin_def stdin_inv_def s_maxBufferSize_def)
  from receiveData_keeps_data [OF this, of "\<lambda>_. 0" "[]"] show ?thesis
    by (simp add: newStdin_def undelivered_def)
qed

end
