(* ===== verification/DataStream.thy ===== *)
theory DataStream
  imports Prelude "HOL-Library.State_Monad"
begin

text \<open>
  \<open>QDataStream\<close> as the sources use it: a byte order and the bytes its device still has to give.
  Reading an integer takes its bytes in the stream's order; when the device has fewer it takes those,
  gives zero and sets the status. Raw reads fill a buffer from its front, and a buffer that grows has
  uninitialised memory at its end, whose content is \<open>ds_junk\<close>. A reader is a state transformer of
  the library's state monad. The locales \<open>fixed_reader\<close> and \<open>codec\<close> are the contracts of the
  readers of the record types: how many bytes one takes, and that it inverts an encoding.
\<close>

datatype byte_order = BigEndian | LittleEndian

record data_stream =
  ds_order :: byte_order
  ds_rest :: bytes
  ds_ok :: bool
  ds_junk :: "nat \<Rightarrow> u8"

type_synonym 'a reader = "(data_stream, 'a) state"

definition open_stream :: "(nat \<Rightarrow> u8) \<Rightarrow> bytes \<Rightarrow> data_stream" where
  "open_stream junk bs = \<lparr>ds_order = BigEndian, ds_rest = bs, ds_ok = True, ds_junk = junk\<rparr>"

section \<open>Bytes of integers\<close>

primrec le_int :: "bytes \<Rightarrow> int" where
  "le_int [] = 0"
| "le_int (b # bs) = uint b + 256 * le_int bs"

primrec le_bytes :: "nat \<Rightarrow> int \<Rightarrow> bytes" where
  "le_bytes 0 n = []"
| "le_bytes (Suc k) n = word_of_int n # le_bytes k (n div 256)"

definition ordered :: "byte_order \<Rightarrow> bytes \<Rightarrow> bytes" where
  "ordered order bs = (case order of LittleEndian \<Rightarrow> bs | BigEndian \<Rightarrow> rev bs)"

definition decode :: "byte_order \<Rightarrow> bytes \<Rightarrow> 'a::len word" where
  "decode order bs = word_of_int (le_int (ordered order bs))"

definition encode :: "nat \<Rightarrow> byte_order \<Rightarrow> 'a::len word \<Rightarrow> bytes" where
  "encode k order w = ordered order (le_bytes k (uint w))"

lemma length_le_bytes [simp]: "length (le_bytes k n) = k"
  by (induction k arbitrary: n) simp_all

lemma le_int_le_bytes: "0 \<le> n \<Longrightarrow> le_int (le_bytes k n) = n mod 256 ^ k"
proof (induction k arbitrary: n)
  case (Suc k)
  have "n mod 256 ^ Suc k = n mod 256 + 256 * (n div 256 mod 256 ^ k)"
    by (simp add: zmod_zmult2_eq)
  then show ?case using Suc by (simp add: uint_word_of_int)
qed simp

lemma ordered_ordered [simp]: "ordered order (ordered order bs) = bs"
  by (cases order) (simp_all add: ordered_def)

lemma length_ordered [simp]: "length (ordered order bs) = length bs"
  by (cases order) (simp_all add: ordered_def)

lemma length_encode [simp]: "length (encode k order w) = k"
  by (simp add: encode_def)

lemma decode_encode:
  assumes "LENGTH('a::len) = 8 * k"
  shows "decode order (encode k order (w :: 'a word)) = w"
proof -
  have "uint w < 256 ^ k"
    using unsigned_less [of w, where 'a = int] assms by (simp add: power_mult)
  then show ?thesis by (simp add: decode_def encode_def le_int_le_bytes)
qed

section \<open>Readers\<close>

definition setByteOrder :: "byte_order \<Rightarrow> unit reader" where
  "setByteOrder order = State (\<lambda>s. ((), s\<lparr>ds_order := order\<rparr>))"

definition read_word :: "nat \<Rightarrow> 'a::len word reader" where
  "read_word k = State (\<lambda>s. let got = take k (ds_rest s) in
     (if length got = k then decode (ds_order s) got else 0,
      s\<lparr>ds_rest := drop k (ds_rest s), ds_ok := (ds_ok s \<and> length got = k)\<rparr>))"

definition read_u8 :: "u8 reader" where "read_u8 = read_word 1"
definition read_u16 :: "u16 reader" where "read_u16 = read_word 2"
definition read_u32 :: "u32 reader" where "read_u32 = read_word 4"
definition read_u64 :: "u64 reader" where "read_u64 = read_word 8"

text \<open>\<open>QByteArray::resize\<close>, and \<open>readRawData\<close> into the array; a negative length reads nothing.\<close>

definition resize_bytes :: "(nat \<Rightarrow> u8) \<Rightarrow> nat \<Rightarrow> bytes \<Rightarrow> bytes" where
  "resize_bytes junk n buf = take n buf @ map junk [length buf..<n]"

definition readRawData :: "nat \<Rightarrow> bytes \<Rightarrow> bytes reader" where
  "readRawData n buf = State (\<lambda>s. let got = take n (ds_rest s) in
     (got @ drop (length got) buf,
      s\<lparr>ds_rest := drop n (ds_rest s), ds_ok := (ds_ok s \<and> length got = n)\<rparr>))"

definition read_bytes :: "nat \<Rightarrow> bytes \<Rightarrow> bytes reader" where
  "read_bytes n buf = do {
     s \<leftarrow> State_Monad.get;
     readRawData n (resize_bytes (ds_junk s) n buf)
   }"

definition skipRawData :: "int \<Rightarrow> unit reader" where
  "skipRawData n = State (\<lambda>s.
     if n < 0 then ((), s\<lparr>ds_ok := False\<rparr>)
     else ((), s\<lparr>ds_rest := drop (nat n) (ds_rest s),
                 ds_ok := (ds_ok s \<and> nat n \<le> length (ds_rest s))\<rparr>))"

text \<open>The counting loops of the readers, \<open>while (n-- > 0)\<close>.\<close>

primrec read_n :: "nat \<Rightarrow> 'a reader \<Rightarrow> 'a list reader" where
  "read_n 0 rd = State_Monad.return []"
| "read_n (Suc n) rd = do { x \<leftarrow> rd; xs \<leftarrow> read_n n rd; State_Monad.return (x # xs) }"

text \<open>A field that is only there under a condition keeps its old value otherwise.\<close>

definition read_if :: "bool \<Rightarrow> 'a reader \<Rightarrow> 'a \<Rightarrow> 'a reader" where
  "read_if c rd old = (if c then rd else State_Monad.return old)"

definition intMax :: int where
  "intMax = 2 ^ 31 - 1"

section \<open>Contracts\<close>

text \<open>A reader that takes \<open>n\<close> bytes and leaves the rest of the stream alone.\<close>

definition takes :: "'a reader \<Rightarrow> nat \<Rightarrow> bool" where
  "takes rd n \<longleftrightarrow> (\<forall>s. n \<le> length (ds_rest s)
     \<longrightarrow> snd (run_state rd s) = s\<lparr>ds_rest := drop n (ds_rest s)\<rparr>)"

lemma takesD:
  "takes rd n \<Longrightarrow> n \<le> length (ds_rest s)
    \<Longrightarrow> snd (run_state rd s) = s\<lparr>ds_rest := drop n (ds_rest s)\<rparr>"
  by (simp add: takes_def)

named_theorems takes_intros \<open>how many bytes a reader takes\<close>

lemma takes_return [takes_intros]: "takes (State_Monad.return x) 0"
  by (simp add: takes_def)

lemma takes_get [takes_intros]: "takes State_Monad.get 0"
  by (simp add: takes_def)

lemma takes_bind [takes_intros]:
  assumes "takes rd m" "\<And>x. takes (f x) n"
  shows "takes (State_Monad.bind rd f) (m + n)"
  unfolding takes_def
proof (intro allI impI)
  fix s :: data_stream assume len: "m + n \<le> length (ds_rest s)"
  obtain x s' where r: "run_state rd s = (x, s')" by fastforce
  then have s': "s' = s\<lparr>ds_rest := drop m (ds_rest s)\<rparr>"
    using takesD [OF assms(1), of s] len by simp
  then have "snd (run_state (f x) s') = s'\<lparr>ds_rest := drop n (ds_rest s')\<rparr>"
    using takesD [OF assms(2), of s' x] len by simp
  then show "snd (run_state (State_Monad.bind rd f) s) = s\<lparr>ds_rest := drop (m + n) (ds_rest s)\<rparr>"
    using r s' by (simp add: add.commute)
qed

lemma takes_word [takes_intros]: "takes (read_word k) k"
  by (simp add: takes_def read_word_def Let_def)

lemma takes_ints [takes_intros]:
  "takes read_u8 1" "takes read_u16 2" "takes read_u32 4" "takes read_u64 8"
  by (simp_all add: read_u8_def read_u16_def read_u32_def read_u64_def takes_word)

lemma takes_raw [takes_intros]: "takes (readRawData n buf) n"
  by (simp add: takes_def readRawData_def Let_def)

lemma takes_bytes [takes_intros]: "takes (read_bytes n buf) n"
  unfolding read_bytes_def using takes_bind [OF takes_get takes_raw] by simp

lemma takes_skip [takes_intros]: "0 \<le> n \<Longrightarrow> takes (skipRawData n) (nat n)"
  by (simp add: takes_def skipRawData_def)

lemma takes_if [takes_intros]: "takes rd n \<Longrightarrow> takes (read_if c rd old) (if c then n else 0)"
  by (simp add: read_if_def takes_return)

locale fixed_reader =
  fixes rd :: "'a reader" and n :: nat
  assumes takes_rd: "takes rd n"
begin

lemma takes_read_n: "takes (read_n k rd) (k * n)"
proof (induction k)
  case (Suc k)
  have "takes (do { xs \<leftarrow> read_n k rd; State_Monad.return (x # xs) }) (k * n + 0)" for x
    by (rule takes_bind [OF Suc takes_return])
  then have "takes (read_n (Suc k) rd) (n + k * n)"
    unfolding read_n.simps by (intro takes_bind [OF takes_rd]) simp
  then show ?case by simp
qed (simp add: takes_return)

lemma read_keeps_order: "n \<le> length (ds_rest s) \<Longrightarrow> ds_order (snd (run_state rd s)) = ds_order s"
  by (simp add: takesD [OF takes_rd])

end

interpretation u16: fixed_reader read_u16 2 by unfold_locales (rule takes_ints)
interpretation u32: fixed_reader read_u32 4 by unfold_locales (rule takes_ints)
interpretation u64: fixed_reader read_u64 8 by unfold_locales (rule takes_ints)

text \<open>A reader that inverts an encoding of the values that satisfy \<open>wf\<close>.\<close>

locale codec =
  fixes rd :: "'a reader" and enc :: "byte_order \<Rightarrow> 'a \<Rightarrow> bytes" and wf :: "'a \<Rightarrow> bool"
  assumes roundtrip:
    "wf a \<Longrightarrow> run_state rd (s\<lparr>ds_rest := enc (ds_order s) a @ r\<rparr>) = (a, s\<lparr>ds_rest := r\<rparr>)"
begin

lemma roundtrip_n:
  "list_all wf xs \<Longrightarrow>
    run_state (read_n (length xs) rd) (s\<lparr>ds_rest := concat (map (enc (ds_order s)) xs) @ r\<rparr>)
      = (xs, s\<lparr>ds_rest := r\<rparr>)"
  by (induction xs arbitrary: r) (simp_all add: roundtrip)

text \<open>A field that is only encoded under a condition.\<close>

lemma roundtrip_if:
  "wf a \<Longrightarrow> run_state (read_if c rd old) (s\<lparr>ds_rest := (if c then enc (ds_order s) a else []) @ r\<rparr>)
    = (if c then a else old, s\<lparr>ds_rest := r\<rparr>)"
  by (simp add: read_if_def roundtrip)

text \<open>Nothing follows from what comes after the encoding, and different values encode differently.\<close>

lemma enc_prefix_unique:
  assumes "wf a" "wf b" "enc o' a @ r = enc o' b @ r'"
  shows "a = b \<and> r = r'"
proof -
  let ?s = "\<lparr>ds_order = o', ds_rest = [], ds_ok = True, ds_junk = \<lambda>_. 0\<rparr>"
  have "(a, ?s\<lparr>ds_rest := r\<rparr>) = (b, ?s\<lparr>ds_rest := r'\<rparr>)"
    using roundtrip [OF assms(1), of ?s r] roundtrip [OF assms(2), of ?s r'] assms(3) by simp
  then show ?thesis by simp
qed

end

lemma read_word_encode:
  assumes "LENGTH('a::len) = 8 * k"
  shows "run_state (read_word k) (s\<lparr>ds_rest := encode k (ds_order s) (w :: 'a word) @ r\<rparr>)
    = (w, s\<lparr>ds_rest := r\<rparr>)"
  by (simp add: read_word_def Let_def decode_encode [OF assms])

interpretation u8c: codec read_u8 "encode 1" "\<lambda>_. True"
  by unfold_locales (simp add: read_u8_def read_word_encode)
interpretation u16c: codec read_u16 "encode 2" "\<lambda>_. True"
  by unfold_locales (simp add: read_u16_def read_word_encode)
interpretation u32c: codec read_u32 "encode 4" "\<lambda>_. True"
  by unfold_locales (simp add: read_u32_def read_word_encode)
interpretation u64c: codec read_u64 "encode 8" "\<lambda>_. True"
  by unfold_locales (simp add: read_u64_def read_word_encode)

lemmas read_ints [reader_simps] =
  u8c.roundtrip [OF TrueI] u16c.roundtrip [OF TrueI] u32c.roundtrip [OF TrueI] u64c.roundtrip [OF TrueI]

lemmas read_ints_if [reader_simps] =
  u16c.roundtrip_if [OF TrueI] u32c.roundtrip_if [OF TrueI] u64c.roundtrip_if [OF TrueI]

lemmas read_ints_n [reader_simps] =
  u32c.roundtrip_n [unfolded list_all_iff, simplified] u64c.roundtrip_n [unfolded list_all_iff, simplified]

lemma read_bytes_exact [reader_simps]:
  "length bs = n \<Longrightarrow> run_state (read_bytes n buf) (s\<lparr>ds_rest := bs @ r\<rparr>) = (bs, s\<lparr>ds_rest := r\<rparr>)"
  by (auto simp: read_bytes_def readRawData_def Let_def resize_bytes_def)

lemma readRawData_exact [reader_simps]:
  "length bs = n \<Longrightarrow> length buf \<le> n
    \<Longrightarrow> run_state (readRawData n buf) (s\<lparr>ds_rest := bs @ r\<rparr>) = (bs, s\<lparr>ds_rest := r\<rparr>)"
  by (auto simp: readRawData_def Let_def)

lemma skipRawData_exact [reader_simps]:
  "int (length bs) = n \<Longrightarrow> run_state (skipRawData n) (s\<lparr>ds_rest := bs @ r\<rparr>) = ((), s\<lparr>ds_rest := r\<rparr>)"
  by (auto simp: skipRawData_def)

lemma read_if_simps [reader_simps]:
  "read_if True rd old = rd" "read_if False rd old = State_Monad.return old"
  by (simp_all add: read_if_def)

end
