(* ===== verification/FileHeader.thy ===== *)
theory FileHeader
  imports DataStream
begin

text \<open>
  \<open>app/perffilesection.h\<close>, \<open>app/perffilesection.cpp\<close>, \<open>app/perfheader.h\<close>, \<open>app/perfheader.cpp\<close>: the
  header of a \<open>perf.data\<close> file or pipe. \<open>readHeader\<close> is the slot that runs whenever the device has
  new data; it takes what the device answers (whether it is sequential, its size, the bytes it has)
  and the header as the previous runs left it, and gives the signal it emits, if any, the header and
  the bytes it leaves in the device. 64-bit fields are words, read as signed where the code compares
  them.
\<close>

unbundle bit_operations_syntax

section \<open>File sections\<close>

record file_section =
  sec_offset :: s64
  sec_size :: s64

definition no_section :: file_section where
  "no_section = \<lparr>sec_offset = 0, sec_size = 0\<rparr>"

definition section_fixedLength :: nat where
  "section_fixedLength = 16"

definition read_section :: "file_section reader" where
  "read_section = do {
     off \<leftarrow> read_u64;
     sz \<leftarrow> read_u64;
     State_Monad.return \<lparr>sec_offset = off, sec_size = sz\<rparr>
   }"

definition encode_section :: "byte_order \<Rightarrow> file_section \<Rightarrow> bytes" where
  "encode_section order s = encode 8 order (sec_offset s) @ encode 8 order (sec_size s)"

interpretation section_c: codec read_section encode_section "\<lambda>_. True"
  by unfold_locales (simp add: read_section_def encode_section_def reader_simps)

interpretation section_r: fixed_reader read_section 16
  by unfold_locales
    (use takes_bind [OF takes_ints(4) takes_bind [OF takes_ints(4) takes_return]] in
      \<open>simp add: read_section_def\<close>)

declare section_c.roundtrip [OF TrueI, reader_simps]

section \<open>The header and its feature bits\<close>

datatype feature =
    RESERVED | TRACING_DATA | BUILD_ID | HOSTNAME | OSRELEASE | VERSION | ARCH | NRCPUS | CPUDESC |
    CPUID | TOTAL_MEM | CMDLINE | EVENT_DESC | CPU_TOPOLOGY | NUMA_TOPOLOGY | BRANCH_STACK |
    PMU_MAPPINGS | GROUP_DESC | AUXTRACE | STAT | CACHE | SAMPLE_TIME | MEM_TOPOLOGY | CLOCKID |
    DIR_FORMAT | BPF_PROG_INFO | BPF_BTF | COMPRESSED | CPU_PMU_CAPS

fun feature_id :: "feature \<Rightarrow> nat" where
  "feature_id RESERVED = 0" | "feature_id TRACING_DATA = 1" | "feature_id BUILD_ID = 2" |
  "feature_id HOSTNAME = 3" | "feature_id OSRELEASE = 4" | "feature_id VERSION = 5" |
  "feature_id ARCH = 6" | "feature_id NRCPUS = 7" | "feature_id CPUDESC = 8" |
  "feature_id CPUID = 9" | "feature_id TOTAL_MEM = 10" | "feature_id CMDLINE = 11" |
  "feature_id EVENT_DESC = 12" | "feature_id CPU_TOPOLOGY = 13" | "feature_id NUMA_TOPOLOGY = 14" |
  "feature_id BRANCH_STACK = 15" | "feature_id PMU_MAPPINGS = 16" | "feature_id GROUP_DESC = 17" |
  "feature_id AUXTRACE = 18" | "feature_id STAT = 19" | "feature_id CACHE = 20" |
  "feature_id SAMPLE_TIME = 21" | "feature_id MEM_TOPOLOGY = 22" | "feature_id CLOCKID = 23" |
  "feature_id DIR_FORMAT = 24" | "feature_id BPF_PROG_INFO = 25" | "feature_id BPF_BTF = 26" |
  "feature_id COMPRESSED = 27" | "feature_id CPU_PMU_CAPS = 28"

definition all_features :: "feature list" where
  "all_features =
    [RESERVED, TRACING_DATA, BUILD_ID, HOSTNAME, OSRELEASE, VERSION, ARCH, NRCPUS, CPUDESC, CPUID,
    TOTAL_MEM, CMDLINE, EVENT_DESC, CPU_TOPOLOGY, NUMA_TOPOLOGY, BRANCH_STACK, PMU_MAPPINGS,
    GROUP_DESC, AUXTRACE, STAT, CACHE, SAMPLE_TIME, MEM_TOPOLOGY, CLOCKID, DIR_FORMAT,
    BPF_PROG_INFO, BPF_BTF, COMPRESSED, CPU_PMU_CAPS]"

definition LAST_FEATURE :: nat where
  "LAST_FEATURE = 29"

record perf_header =
  h_magic :: s64
  h_size :: s64
  h_attrSize :: s64
  h_attrs :: file_section
  h_data :: file_section
  h_eventTypes :: file_section
  h_features :: "u64 list"

definition newHeader :: perf_header where
  "newHeader = \<lparr>h_magic = 0, h_size = 0, h_attrSize = 0, h_attrs = no_section, h_data = no_section,
     h_eventTypes = no_section, h_features = [0, 0, 0, 0]\<rparr>"

definition s_magicSame :: s64 where
  "s_magicSame = 0x32454c4946524550"

definition s_magicSwitched :: s64 where
  "s_magicSwitched = 0x50455246494c4532"

definition pipeHeaderFixedLength :: nat where
  "pipeHeaderFixedLength = 8 + 8"

definition fileHeaderFixedLength :: nat where
  "fileHeaderFixedLength = pipeHeaderFixedLength + 8 + 3 * section_fixedLength + 32"

definition byteOrder :: "perf_header \<Rightarrow> byte_order" where
  "byteOrder h = (if h_magic h = s_magicSame then BigEndian else LittleEndian)"

definition feature_bit :: "feature \<Rightarrow> u64" where
  "feature_bit f = push_bit (feature_id f mod 64) 1"

definition setFeature :: "feature \<Rightarrow> perf_header \<Rightarrow> perf_header" where
  "setFeature f h = h\<lparr>h_features := (h_features h)
     [feature_id f div 64 := h_features h ! (feature_id f div 64) OR feature_bit f]\<rparr>"

definition clearFeature :: "feature \<Rightarrow> perf_header \<Rightarrow> perf_header" where
  "clearFeature f h = h\<lparr>h_features := (h_features h)
     [feature_id f div 64 := h_features h ! (feature_id f div 64) AND NOT (feature_bit f)]\<rparr>"

definition hasFeature :: "feature \<Rightarrow> perf_header \<Rightarrow> bool" where
  "hasFeature f h \<longleftrightarrow> h_features h ! (feature_id f div 64) AND feature_bit f \<noteq> 0"

text \<open>Both sizes are positive where the quotient is used; C++ truncates.\<close>

definition numAttrs :: "perf_header \<Rightarrow> int" where
  "numAttrs h = (if sint (sec_size (h_attrs h)) > 0
     then sgn (sint (h_attrSize h)) * (sint (sec_size (h_attrs h)) div \<bar>sint (h_attrSize h)\<bar>) else 0)"

definition featureOffset :: "perf_header \<Rightarrow> s64" where
  "featureOffset h = sec_offset (h_data h) + sec_size (h_data h)"

definition dataOffset :: "perf_header \<Rightarrow> s64" where
  "dataOffset h = sec_offset (h_data h)"

definition dataSize :: "perf_header \<Rightarrow> s64" where
  "dataSize h = sec_size (h_data h)"

definition isPipe :: "perf_header \<Rightarrow> bool" where
  "isPipe h \<longleftrightarrow> sint (h_size h) = int pipeHeaderFixedLength"

section \<open>Reading\<close>

datatype header_signal = HeaderWaiting | HeaderError | HeaderFinished

text \<open>The magic number and the size, when they have not been read by an earlier run.\<close>

definition read_pipe_header ::
  "bool \<Rightarrow> int \<Rightarrow> perf_header \<Rightarrow> data_stream \<Rightarrow> (header_signal \<times> perf_header \<times> data_stream) + (perf_header \<times> data_stream)"
where
  "read_pipe_header sequential devSize h s =
     (if h_size h \<noteq> 0 then Inr (h, s)
      else if \<not> sequential \<and> devSize < int pipeHeaderFixedLength then Inl (HeaderError, h, s)
      else if length (ds_rest s) < pipeHeaderFixedLength then Inl (HeaderWaiting, h, s)
      else let (magic, s) = run_state read_u64 s; h = h\<lparr>h_magic := magic\<rparr> in
        if magic \<noteq> s_magicSame \<and> magic \<noteq> s_magicSwitched then Inl (HeaderError, h, s)
        else let (_, s) = run_state (setByteOrder (byteOrder h)) s;
                 (sz, s) = run_state read_u64 s
          in Inr (h\<lparr>h_size := sz\<rparr>, s))"

definition read_file_fields :: "perf_header \<Rightarrow> perf_header reader" where
  "read_file_fields h = do {
     attrSize \<leftarrow> read_u64;
     attrs \<leftarrow> read_section;
     dat \<leftarrow> read_section;
     eventTypes \<leftarrow> read_section;
     features \<leftarrow> read_n 4 read_u64;
     State_Monad.return (h\<lparr>h_attrSize := attrSize, h_attrs := attrs, h_data := dat,
       h_eventTypes := eventTypes, h_features := features\<rparr>)
   }"

text \<open>Feature bits that only make sense with the halves of each word exchanged, or not at all.\<close>

definition swap_halves :: "u64 \<Rightarrow> u64" where
  "swap_halves w = push_bit 32 w OR drop_bit 32 w"

definition fix_features :: "perf_header \<Rightarrow> perf_header" where
  "fix_features h =
     (if h_magic h = s_magicSwitched \<and> \<not> hasFeature HOSTNAME h \<and> \<not> hasFeature CMDLINE h
      then let h = h\<lparr>h_features := map swap_halves (h_features h)\<rparr>
        in if \<not> hasFeature HOSTNAME h \<and> \<not> hasFeature CMDLINE h
           then setFeature BUILD_ID (h\<lparr>h_features := map (\<lambda>_. 0) (h_features h)\<rparr>)
           else h
      else h)"

definition read_extended_header ::
  "bool \<Rightarrow> int \<Rightarrow> perf_header \<Rightarrow> data_stream \<Rightarrow> header_signal \<times> perf_header \<times> data_stream"
where
  "read_extended_header sequential devSize h s =
     (if \<not> sequential \<and> devSize < int fileHeaderFixedLength then (HeaderError, h, s)
      else if length (ds_rest s) < fileHeaderFixedLength - pipeHeaderFixedLength then (HeaderWaiting, h, s)
      else let (h, s) = run_state (read_file_fields h) s; h = fix_features h in
        if \<not> sequential \<and> devSize < sint (dataOffset h + dataSize h) then (HeaderError, h, s)
        else if sint (h_size h) > int fileHeaderFixedLength then
          (if sint (h_size h) > intMax then (HeaderError, h, s)
           else (HeaderFinished, h,
             snd (run_state (skipRawData (sint (h_size h) - int fileHeaderFixedLength)) s)))
        else (HeaderFinished, h, s))"

definition readHeader ::
  "(nat \<Rightarrow> u8) \<Rightarrow> bool \<Rightarrow> int \<Rightarrow> bytes \<Rightarrow> perf_header \<Rightarrow> header_signal \<times> perf_header \<times> bytes"
where
  "readHeader junk sequential devSize available h =
     (case read_pipe_header sequential devSize h (open_stream junk available) of
        Inl (sig, h, s) \<Rightarrow> (sig, h, ds_rest s)
      | Inr (h, s) \<Rightarrow>
          if sint (h_size h) < int pipeHeaderFixedLength then (HeaderError, h, ds_rest s)
          else if sint (h_size h) > int pipeHeaderFixedLength then
            (let (sig, h, s) = read_extended_header sequential devSize h s in (sig, h, ds_rest s))
          else (HeaderFinished, h, ds_rest s))"

section \<open>Correctness\<close>

lemma feature_id_less: "feature_id f < 29"
  by (cases f) simp_all

lemma feature_id_inject: "feature_id f = feature_id g \<longleftrightarrow> f = g"
proof
  have "\<forall>f. all_features ! feature_id f = f" by (intro allI) (case_tac f; simp add: all_features_def)
  then show "feature_id f = feature_id g \<Longrightarrow> f = g" by metis
qed simp

lemma hasFeature_bit: "hasFeature f h \<longleftrightarrow> bit (h_features h ! 0) (feature_id f)"
proof -
  have "feature_id f div 64 = 0" "feature_id f mod 64 = feature_id f"
    using feature_id_less [of f] by simp_all
  then show ?thesis by (simp add: hasFeature_def feature_bit_def bit_iff_and_push_bit_not_eq_0)
qed

text \<open>
  The feature bits are a set. \<open>setFeature\<close> adds exactly its feature and \<open>clearFeature\<close> removes
  exactly its feature, for every pair of features of the header.
\<close>
theorem feature_set:
  assumes "length (h_features h) = 4"
  shows "(hasFeature f (setFeature g h) \<longleftrightarrow> f = g \<or> hasFeature f h)
    \<and> (hasFeature f (clearFeature g h) \<longleftrightarrow> f \<noteq> g \<and> hasFeature f h)"
proof -
  have g: "feature_id g div 64 = 0" "feature_id g mod 64 = feature_id g"
    using feature_id_less [of g] by simp_all
  have "feature_id f < 64" "feature_id g < 64"
    using feature_id_less [of f] feature_id_less [of g] by simp_all
  moreover have "h_features h \<noteq> []" using assms by auto
  ultimately show ?thesis
    by (auto simp: hasFeature_bit setFeature_def clearFeature_def feature_bit_def g bit_simps
        feature_id_inject)
qed

theorem feature_set_witness:
  "hasFeature HOSTNAME (setFeature HOSTNAME newHeader) \<and> \<not> hasFeature HOSTNAME (clearFeature HOSTNAME newHeader)"
  using feature_set [of newHeader HOSTNAME HOSTNAME] by (simp add: newHeader_def)

text \<open>The bytes of a file header; the magic number tells the byte order of the rest.\<close>

definition encode_file_header :: "byte_order \<Rightarrow> perf_header \<Rightarrow> bytes" where
  "encode_file_header order h =
     encode 8 BigEndian (case order of BigEndian \<Rightarrow> s_magicSame | LittleEndian \<Rightarrow> s_magicSwitched)
     @ encode 8 order (h_size h) @ encode 8 order (h_attrSize h) @ encode_section order (h_attrs h)
     @ encode_section order (h_data h) @ encode_section order (h_eventTypes h)
     @ concat (map (encode 8 order) (h_features h))"

definition wf_file_header :: "byte_order \<Rightarrow> int \<Rightarrow> perf_header \<Rightarrow> bool" where
  "wf_file_header order devSize h \<longleftrightarrow>
     h_magic h = (case order of BigEndian \<Rightarrow> s_magicSame | LittleEndian \<Rightarrow> s_magicSwitched)
     \<and> h_size h = of_nat fileHeaderFixedLength \<and> length (h_features h) = 4
     \<and> (hasFeature HOSTNAME h \<or> hasFeature CMDLINE h)
     \<and> int fileHeaderFixedLength \<le> devSize \<and> sint (dataOffset h + dataSize h) \<le> devSize"

lemma fix_features_id:
  "hasFeature HOSTNAME h \<or> hasFeature CMDLINE h \<Longrightarrow> fix_features h = h"
  by (auto simp: fix_features_def)

lemma length_encode_section [simp]: "length (encode_section order s) = 16"
  by (simp add: encode_section_def)

lemma length_concat_encode: "length (concat (map (encode k order) ws)) = k * length ws"
  by (induction ws) simp_all

lemma read_file_fields_encoded:
  assumes "length fs = 4"
  shows "run_state (read_file_fields h) (s\<lparr>ds_rest := encode 8 (ds_order s) a
      @ encode_section (ds_order s) b @ encode_section (ds_order s) c @ encode_section (ds_order s) d
      @ concat (map (encode 8 (ds_order s)) fs) @ r\<rparr>)
    = (h\<lparr>h_attrSize := a, h_attrs := b, h_data := c, h_eventTypes := d, h_features := fs\<rparr>,
       s\<lparr>ds_rest := r\<rparr>)"
  using read_ints_n(2) [of fs s r] assms by (simp add: read_file_fields_def reader_simps)

lemma magic_distinct: "s_magicSame \<noteq> s_magicSwitched"
  by (simp add: s_magicSame_def s_magicSwitched_def)

definition magic_of :: "byte_order \<Rightarrow> s64" where
  "magic_of order = (case order of BigEndian \<Rightarrow> s_magicSame | LittleEndian \<Rightarrow> s_magicSwitched)"

lemma read_pipe_encoded:
  assumes "sequential \<or> 16 \<le> devSize"
  shows "read_pipe_header sequential devSize newHeader
      (open_stream junk (encode 8 BigEndian (magic_of order) @ encode 8 order sz @ tail))
    = Inr (newHeader\<lparr>h_magic := magic_of order, h_size := sz\<rparr>,
        (open_stream junk tail)\<lparr>ds_order := order\<rparr>)"
proof -
  define s where "s = (open_stream junk [])\<lparr>ds_order := order\<rparr>"
  have order: "byteOrder (newHeader\<lparr>h_magic := magic_of order\<rparr>) = order"
    using magic_distinct by (cases order) (simp_all add: byteOrder_def magic_of_def)
  have ok: "magic_of order = s_magicSame \<or> magic_of order = s_magicSwitched"
    by (cases order) (simp_all add: magic_of_def)
  have rd: "run_state read_u64 (open_stream junk (encode 8 BigEndian w @ bs)) = (w, open_stream junk bs)"
    for w bs
    using read_ints(4) [of "open_stream junk []" w bs] by (simp add: open_stream_def)
  have sz: "run_state read_u64 (open_stream junk (encode 8 order w @ bs)\<lparr>ds_order := order\<rparr>)
      = (w, open_stream junk bs\<lparr>ds_order := order\<rparr>)" for w bs
    using read_ints(4) [of s w bs] by (simp add: s_def open_stream_def)
  have len: "length (ds_rest (open_stream junk (encode 8 BigEndian (magic_of order) @ encode 8 order sz @ tail)))
      = 16 + length tail"
    by (simp add: open_stream_def)
  show ?thesis
    using assms ok order unfolding read_pipe_header_def len
    by (auto simp add: rd sz setByteOrder_def Let_def newHeader_def pipeHeaderFixedLength_def)
qed

lemma readHeader_encoded:
  assumes wf: "wf_file_header order devSize h"
  shows "readHeader junk sequential devSize (encode_file_header order h @ rest) newHeader
    = (HeaderFinished, h, rest)"
proof -
  define tail where "tail = encode 8 order (h_attrSize h) @ encode_section order (h_attrs h)
     @ encode_section order (h_data h) @ encode_section order (h_eventTypes h)
     @ concat (map (encode 8 order) (h_features h)) @ rest"
  let ?h = "newHeader\<lparr>h_magic := magic_of order, h_size := h_size h\<rparr>"
    and ?s = "open_stream junk tail\<lparr>ds_order := order\<rparr>"
  have enc: "encode_file_header order h @ rest
      = encode 8 BigEndian (magic_of order) @ encode 8 order (h_size h) @ tail"
    by (simp add: encode_file_header_def magic_of_def tail_def)
  have dev: "int fileHeaderFixedLength \<le> devSize" "sint (dataOffset h + dataSize h) \<le> devSize"
    and h: "h_magic h = magic_of order" "h_size h = 104" "length (h_features h) = 4"
    using wf by (simp_all add: wf_file_header_def fileHeaderFixedLength_def pipeHeaderFixedLength_def
        section_fixedLength_def magic_of_def)
  have 1: "read_pipe_header sequential devSize newHeader
      (open_stream junk (encode 8 BigEndian (magic_of order) @ encode 8 order (h_size h) @ tail))
    = Inr (?h, ?s)"
    using dev(1) by (intro read_pipe_encoded)
      (simp add: fileHeaderFixedLength_def pipeHeaderFixedLength_def section_fixedLength_def)
  have fields: "run_state (read_file_fields ?h) ?s = (h, ?s\<lparr>ds_rest := rest\<rparr>)"
    using read_file_fields_encoded [OF h(3), of ?h ?s "h_attrSize h" "h_attrs h" "h_data h"
        "h_eventTypes h" rest] h(1) by (simp add: tail_def open_stream_def)
  have fix_h: "fix_features h = h" using wf by (intro fix_features_id) (simp add: wf_file_header_def)
  have "length (ds_rest ?s) = 88 + length rest"
    by (simp add: open_stream_def tail_def length_concat_encode h)
  then have "read_extended_header sequential devSize ?h ?s = (HeaderFinished, h, ?s\<lparr>ds_rest := rest\<rparr>)"
    using dev unfolding read_extended_header_def fields
    by (simp add: fix_h h(2,3) fileHeaderFixedLength_def pipeHeaderFixedLength_def
        section_fixedLength_def)
  then show ?thesis
    unfolding readHeader_def enc 1 by (simp add: h(2) pipeHeaderFixedLength_def)
qed

text \<open>
  C13: reading a file header gives back what was written. Whatever byte order a complete, well-formed
  file header is written in, with every value of its fields, reading it in one run ends with the
  header finished, all fields equal to those written, and what follows the header left in the device.
\<close>
theorem readHeader_roundtrip:
  assumes "wf_file_header order devSize h"
  shows "readHeader junk sequential devSize (encode_file_header order h @ rest) newHeader
    = (HeaderFinished, h, rest)"
  by (rule readHeader_encoded [OF assms])

definition sample_header :: perf_header where
  "sample_header = newHeader\<lparr>h_magic := s_magicSwitched, h_size := 104, h_attrSize := 128,
     h_attrs := \<lparr>sec_offset = 104, sec_size = 128\<rparr>, h_data := \<lparr>sec_offset = 232, sec_size = 1000\<rparr>,
     h_features := [8, 0, 0, 0]\<rparr>"

lemma sample_header_wf: "wf_file_header LittleEndian 2000 sample_header"
  by (simp add: wf_file_header_def sample_header_def newHeader_def fileHeaderFixedLength_def
      pipeHeaderFixedLength_def section_fixedLength_def hasFeature_bit dataOffset_def dataSize_def)

theorem readHeader_roundtrip_witness:
  "readHeader (\<lambda>_. 0) False 2000 (encode_file_header LittleEndian sample_header @ [1, 2]) newHeader
    = (HeaderFinished, sample_header, [1, 2])"
  by (rule readHeader_roundtrip [OF sample_header_wf])



section \<open>A header that arrives in two pieces\<close>

text \<open>
  The byte order is only set in the run that reads the size. When a little-endian header of a
  sequential device arrives with its first sixteen bytes alone, the next run reads the rest in
  \<open>QDataStream\<close>'s default big-endian order and finishes with other values than were written.
\<close>

lemma header_in_two_pieces:
  defines "bs \<equiv> encode_file_header LittleEndian sample_header"
    and "h1 \<equiv> newHeader\<lparr>h_magic := s_magicSwitched, h_size := 104\<rparr>"
  shows "readHeader (\<lambda>_. 0) True 0 (take 16 bs) newHeader = (HeaderWaiting, h1, [])"
    and "\<exists>h2 rest. readHeader (\<lambda>_. 0) True 0 (drop 16 bs) h1 = (HeaderFinished, h2, rest)
      \<and> h_attrSize h2 = 0x8000000000000000"
    and "h_attrSize sample_header = 0x80"
proof -
  have "take 16 bs = encode 8 BigEndian (magic_of LittleEndian) @ encode 8 LittleEndian (104 :: u64) @ []"
    by (simp add: bs_def encode_file_header_def sample_header_def magic_of_def)
  then show "readHeader (\<lambda>_. 0) True 0 (take 16 bs) newHeader = (HeaderWaiting, h1, [])"
    unfolding readHeader_def
    by (simp only: read_pipe_encoded simp_thms)
      (simp add: h1_def magic_of_def read_extended_header_def open_stream_def pipeHeaderFixedLength_def
        fileHeaderFixedLength_def section_fixedLength_def)
  show "h_attrSize sample_header = 0x80" by code_simp
  let ?s = "open_stream (\<lambda>_. 0) (drop 16 bs)"
  obtain h s where run: "run_state (read_file_fields h1) ?s = (h, s)" by fastforce
  have "length (ds_rest ?s) = 88" unfolding bs_def by code_simp
  moreover have "h_size h = 104"
    using arg_cong [OF run, of "h_size \<circ> fst"] by (simp add: read_file_fields_def split_beta h1_def)
  moreover have "h_attrSize (fst (run_state (read_file_fields h1) ?s)) = fst (run_state read_u64 ?s)"
    by (simp add: read_file_fields_def split_beta)
  moreover have "fst (run_state read_u64 ?s) = 0x8000000000000000"
    unfolding bs_def by code_simp
  moreover have "h_attrSize (fix_features h) = h_attrSize h" "h_size (fix_features h) = h_size h"
    by (simp_all add: fix_features_def Let_def setFeature_def)
  ultimately show "\<exists>h2 rest. readHeader (\<lambda>_. 0) True 0 (drop 16 bs) h1 = (HeaderFinished, h2, rest)
      \<and> h_attrSize h2 = 0x8000000000000000"
    using run by (simp add: readHeader_def read_pipe_header_def read_extended_header_def h1_def
        pipeHeaderFixedLength_def fileHeaderFixedLength_def section_fixedLength_def)
qed

end
