(* ===== verification/Attributes.thy ===== *)
theory Attributes
  imports FileHeader
begin

text \<open>
  \<open>app/perfattributes.h\<close>, \<open>app/perfattributes.cpp\<close>: the attributes of an event, how they are read
  from a stream, their name, and the table of the attributes of the events of a file by id. The bit
  fields of the C++ class are the bits of one word, from the least significant one, as little-endian
  hosts lay them out.
\<close>

definition hostByteOrder :: byte_order where
  "hostByteOrder = LittleEndian"

datatype sample_format =
  SAMPLE_IP | SAMPLE_TID | SAMPLE_TIME | SAMPLE_ADDR | SAMPLE_READ | SAMPLE_CALLCHAIN | SAMPLE_ID
  | SAMPLE_CPU | SAMPLE_PERIOD | SAMPLE_STREAM_ID | SAMPLE_RAW | SAMPLE_BRANCH_STACK
  | SAMPLE_REGS_USER | SAMPLE_STACK_USER | SAMPLE_WEIGHT | SAMPLE_DATA_SRC | SAMPLE_IDENTIFIER
  | SAMPLE_TRANSACTION | SAMPLE_ID_ALL

fun sample_bit :: "sample_format \<Rightarrow> nat" where
  "sample_bit SAMPLE_IP = 0" | "sample_bit SAMPLE_TID = 1" | "sample_bit SAMPLE_TIME = 2"
| "sample_bit SAMPLE_ADDR = 3" | "sample_bit SAMPLE_READ = 4" | "sample_bit SAMPLE_CALLCHAIN = 5"
| "sample_bit SAMPLE_ID = 6" | "sample_bit SAMPLE_CPU = 7" | "sample_bit SAMPLE_PERIOD = 8"
| "sample_bit SAMPLE_STREAM_ID = 9" | "sample_bit SAMPLE_RAW = 10"
| "sample_bit SAMPLE_BRANCH_STACK = 11" | "sample_bit SAMPLE_REGS_USER = 12"
| "sample_bit SAMPLE_STACK_USER = 13" | "sample_bit SAMPLE_WEIGHT = 14"
| "sample_bit SAMPLE_DATA_SRC = 15" | "sample_bit SAMPLE_IDENTIFIER = 16"
| "sample_bit SAMPLE_TRANSACTION = 17" | "sample_bit SAMPLE_ID_ALL = 31"

definition has_sample :: "u64 \<Rightarrow> sample_format \<Rightarrow> bool" where
  "has_sample sampleType f \<longleftrightarrow> sampleType AND push_bit (sample_bit f) 1 \<noteq> 0"

datatype read_format =
  FORMAT_TOTAL_TIME_ENABLED | FORMAT_TOTAL_TIME_RUNNING | FORMAT_ID | FORMAT_GROUP | FORMAT_LOST

fun format_bit :: "read_format \<Rightarrow> nat" where
  "format_bit FORMAT_TOTAL_TIME_ENABLED = 0" | "format_bit FORMAT_TOTAL_TIME_RUNNING = 1"
| "format_bit FORMAT_ID = 2" | "format_bit FORMAT_GROUP = 3" | "format_bit FORMAT_LOST = 4"

definition has_format :: "u64 \<Rightarrow> read_format \<Rightarrow> bool" where
  "has_format readFormat f \<longleftrightarrow> readFormat AND push_bit (format_bit f) 1 \<noteq> 0"

record event_attributes =
  a_type :: u32
  a_size :: u32
  a_config :: u64
  a_samplePeriod :: u64
  a_sampleType :: u64
  a_readFormat :: u64
  a_flags :: u64
  a_wakeupEvents :: u32
  a_bpType :: u32
  a_bpAddr :: u64
  a_bpLen :: u64
  a_branchSampleType :: u64
  a_sampleRegsUser :: u64
  a_sampleStackUser :: u32
  a_clockid :: s32
  a_sampleRegsIntr :: u64
  a_auxWatermark :: u32
  a_sampleMaxStack :: u16
  a_reserved2 :: u16

definition noAttributes :: event_attributes where
  "noAttributes =
     \<lparr>a_type = 0, a_size = 0, a_config = 0, a_samplePeriod = 0, a_sampleType = 0, a_readFormat = 0,
      a_flags = 0, a_wakeupEvents = 0, a_bpType = 0, a_bpAddr = 0, a_bpLen = 0,
      a_branchSampleType = 0, a_sampleRegsUser = 0, a_sampleStackUser = 0, a_clockid = 0,
      a_sampleRegsIntr = 0, a_auxWatermark = 0, a_sampleMaxStack = 0, a_reserved2 = 0\<rparr>"

definition SIZE_VER0 :: u32 where "SIZE_VER0 = 64"
definition SIZE_VER1 :: u32 where "SIZE_VER1 = 72"
definition SIZE_VER2 :: u32 where "SIZE_VER2 = 80"
definition SIZE_VER3 :: u32 where "SIZE_VER3 = 96"
definition SIZE_VER4 :: u32 where "SIZE_VER4 = 104"
definition SIZE_VER5 :: u32 where "SIZE_VER5 = 112"

text \<open>The bit fields, as position and width, in the order of the class.\<close>

definition bit_fields :: "(nat \<times> nat) list" where
  "bit_fields =
    [(0, 1), (1, 1), (2, 1), (3, 1), (4, 1), (5, 1), (6, 1), (7, 1), (8, 1), (9, 1), (10, 1), (11, 1),
     (12, 1), (13, 1), (14, 1), (15, 2), (17, 1), (18, 1), (19, 1), (20, 1), (21, 1), (22, 1), (23, 41)]"

definition bit_field :: "nat \<times> nat \<Rightarrow> u64 \<Rightarrow> u64" where
  "bit_field f w = take_bit (snd f) (drop_bit (fst f) w)"

definition sampleIdAll :: "event_attributes \<Rightarrow> bool" where
  "sampleIdAll a \<longleftrightarrow> bit_field (18, 1) (a_flags a) \<noteq> 0"

definition usesFrequency :: "event_attributes \<Rightarrow> bool" where
  "usesFrequency a \<longleftrightarrow> bit_field (10, 1) (a_flags a) \<noteq> 0"

definition attributes_eq :: "event_attributes \<Rightarrow> event_attributes \<Rightarrow> bool" where
  "attributes_eq l r \<longleftrightarrow>
     a_type l = a_type r \<and> a_size l = a_size r \<and> a_config l = a_config r
     \<and> a_samplePeriod l = a_samplePeriod r \<and> a_sampleType l = a_sampleType r
     \<and> a_readFormat l = a_readFormat r
     \<and> list_all (\<lambda>f. bit_field f (a_flags l) = bit_field f (a_flags r)) bit_fields
     \<and> a_wakeupEvents l = a_wakeupEvents r \<and> a_bpType l = a_bpType r \<and> a_bpAddr l = a_bpAddr r
     \<and> a_bpLen l = a_bpLen r \<and> a_branchSampleType l = a_branchSampleType r
     \<and> a_sampleRegsUser l = a_sampleRegsUser r \<and> a_sampleStackUser l = a_sampleStackUser r
     \<and> a_clockid l = a_clockid r \<and> a_sampleRegsIntr l = a_sampleRegsIntr r
     \<and> a_auxWatermark l = a_auxWatermark r \<and> a_sampleMaxStack l = a_sampleMaxStack r
     \<and> a_reserved2 l = a_reserved2 r"

section \<open>Reading attributes\<close>

text \<open>The loop that rearranges the flags of a stream in the other byte order.\<close>

definition swap_flags :: "u64 \<Rightarrow> u64" where
  "swap_flags flags =
     fold (\<lambda>i new. if flags AND push_bit i 1 \<noteq> 0
                   then new OR push_bit (i div 8 + 7 - i mod 8) 1 else new) [0..<64] 0"

definition skip_attributes :: "u32 \<Rightarrow> unit reader" where
  "skip_attributes sz =
     (let skip = sz - SIZE_VER5 in
      if uint skip > intMax
      then do { skipRawData intMax; skipRawData (uint (skip - word_of_int intMax)) }
      else skipRawData (uint skip))"

text \<open>The part every version has, after type and size; the flags are returned beside it.\<close>

definition read_attributes_ver0 :: "event_attributes \<Rightarrow> (event_attributes \<times> u64) reader" where
  "read_attributes_ver0 a = do {
     config \<leftarrow> read_u64;
     samplePeriod \<leftarrow> read_u64;
     sampleType \<leftarrow> read_u64;
     readFormat \<leftarrow> read_u64;
     flags \<leftarrow> read_u64;
     wakeupEvents \<leftarrow> read_u32;
     bpType \<leftarrow> read_u32;
     bpAddr \<leftarrow> read_u64;
     State_Monad.return
       (a\<lparr>a_config := config, a_samplePeriod := samplePeriod, a_sampleType := sampleType,
          a_readFormat := readFormat, a_wakeupEvents := wakeupEvents, a_bpType := bpType,
          a_bpAddr := bpAddr\<rparr>, flags)
   }"

text \<open>The parts later versions added; a field that is not there keeps the value it had.\<close>

definition read_attributes_later :: "event_attributes \<Rightarrow> event_attributes reader" where
  "read_attributes_later a = do {
     bpLen \<leftarrow> read_if (a_size a > SIZE_VER0) read_u64 (a_bpLen a);
     branch \<leftarrow> read_if (a_size a > SIZE_VER1) read_u64 (a_branchSampleType a);
     regsUser \<leftarrow> read_if (a_size a > SIZE_VER2) read_u64 (a_sampleRegsUser a);
     stackUser \<leftarrow> read_if (a_size a > SIZE_VER2) read_u32 (a_sampleStackUser a);
     clock \<leftarrow> read_if (a_size a > SIZE_VER2) read_u32 (a_clockid a);
     regsIntr \<leftarrow> read_if (a_size a > SIZE_VER3) read_u64 (a_sampleRegsIntr a);
     auxWatermark \<leftarrow> read_if (a_size a > SIZE_VER4) read_u32 (a_auxWatermark a);
     maxStack \<leftarrow> read_if (a_size a > SIZE_VER4) read_u16 (a_sampleMaxStack a);
     res2 \<leftarrow> read_if (a_size a > SIZE_VER4) read_u16 (a_reserved2 a);
     State_Monad.return
       (a\<lparr>a_bpLen := bpLen, a_branchSampleType := branch, a_sampleRegsUser := regsUser,
          a_sampleStackUser := stackUser, a_clockid := clock, a_sampleRegsIntr := regsIntr,
          a_auxWatermark := auxWatermark, a_sampleMaxStack := maxStack, a_reserved2 := res2\<rparr>)
   }"

definition read_event_attributes :: "event_attributes \<Rightarrow> event_attributes reader" where
  "read_event_attributes attrs = do {
     typ \<leftarrow> read_u32;
     sz \<leftarrow> read_u32;
     let a = attrs\<lparr>a_type := typ, a_size := sz\<rparr>;
     if sz < SIZE_VER0 then State_Monad.return a
     else do {
       (a, flags) \<leftarrow> read_attributes_ver0 a;
       a \<leftarrow> read_attributes_later a;
       s \<leftarrow> State_Monad.get;
       let flags = (if ds_order s \<noteq> hostByteOrder then swap_flags flags else flags);
       let a = a\<lparr>a_flags := flags\<rparr>;
       _ \<leftarrow> (if sz > SIZE_VER5 then skip_attributes sz else State_Monad.return ());
       State_Monad.return a
     }
   }"

text \<open>Where the id of a sample lies in its content; -1 when there is none.\<close>

definition sampleIdOffset :: "event_attributes \<Rightarrow> int" where
  "sampleIdOffset a =
     (let has = has_sample (a_sampleType a) in
      if has SAMPLE_IDENTIFIER then 0
      else if \<not> has SAMPLE_ID then - 1
      else (if has SAMPLE_IP then 8 else 0)
         + (if has SAMPLE_TID then 4 + 4 else 0)
         + (if has SAMPLE_TIME then 8 else 0)
         + (if has SAMPLE_ADDR then 8 else 0))"

section \<open>The name of an event\<close>

text \<open>\<open>QByteArray::number\<close>\<close>

definition digit :: "nat \<Rightarrow> char" where
  "digit d = ''0123456789abcdef'' ! d"

function to_base :: "nat \<Rightarrow> nat \<Rightarrow> string" where
  "to_base b n = (if b < 2 \<or> n < b then [digit n] else to_base b (n div b) @ [digit (n mod b)])"
  by pat_completeness auto
termination by (relation "measure snd") (auto intro!: div_less_dividend)

declare to_base.simps [simp del]

definition hardware_names :: "string list" where
  "hardware_names = [''cpu-cycles'', ''instructions'', ''cache-references'', ''cache-misses'',
     ''branch-instructions'', ''branch-misses'', ''bus-cycles'', ''stalled-cycles-frontend'',
     ''stalled-cycles-backend'', ''ref-cycles'']"

definition software_names :: "string list" where
  "software_names = [''cpu-clock'', ''task-clock'', ''page-faults'', ''context-switches'',
     ''cpu-migrations'', ''minor-faults'', ''major-faults'', ''alignment-faults'',
     ''emulation-faults'', ''dummy'']"

definition cache_names :: "string list" where
  "cache_names = [''L1-dcache'', ''L1-icache'', ''LLC'', ''dTLB'', ''iTLB'', ''branch'', ''node'']"

definition cache_operations :: "string list" where
  "cache_operations = [''-load'', ''-store'', ''-prefetch'']"

definition cache_results :: "string list" where
  "cache_results = [''-refs'', ''-misses'']"

text \<open>A \<open>switch\<close> over consecutive cases from zero, with its default.\<close>

definition switch_name :: "string list \<Rightarrow> u64 \<Rightarrow> string option" where
  "switch_name names i = (if uint i < int (length names) then Some (names ! nat (uint i)) else None)"

definition hexConfig :: "event_attributes \<Rightarrow> string" where
  "hexConfig a = to_base 16 (unat (a_config a))"

definition hardware_cache_name :: "event_attributes \<Rightarrow> string" where
  "hardware_cache_name a =
     (case switch_name cache_names (a_config a AND 0xff) of
        None \<Rightarrow> ''hardware cache event: 0x'' @ hexConfig a
      | Some c \<Rightarrow>
          (case switch_name cache_operations (drop_bit 8 (a_config a) AND 0xff) of
             None \<Rightarrow> c @ '' event: 0x'' @ hexConfig a
           | Some op \<Rightarrow>
               (case switch_name cache_results (drop_bit 16 (a_config a) AND 0xff) of
                  None \<Rightarrow> c @ op @ '' event: 0x'' @ hexConfig a
                | Some res \<Rightarrow> c @ op @ res)))"

definition attributes_name :: "event_attributes \<Rightarrow> string" where
  "attributes_name a =
     (if a_type a = 0 then
        (case switch_name hardware_names (a_config a) of
           Some n \<Rightarrow> n | None \<Rightarrow> ''hardware event: 0x'' @ hexConfig a)
      else if a_type a = 1 then
        (case switch_name software_names (a_config a) of
           Some n \<Rightarrow> n | None \<Rightarrow> ''software event: 0x'' @ hexConfig a)
      else if a_type a = 2 then ''tracepoint: 0x'' @ hexConfig a
      else if a_type a = 3 then hardware_cache_name a
      else if a_type a = 4 then ''raw event: 0x'' @ hexConfig a
      else if a_type a = 5 then ''breakpoint: 0x'' @ hexConfig a
      else ''unknown event '' @ to_base 10 (unat (a_type a)) @ '': 0x'' @ hexConfig a)"

section \<open>The attributes of a file\<close>

record perf_attributes =
  pa_global :: event_attributes
  pa_attributes :: "u64 \<rightharpoonup> event_attributes"

definition newAttributes :: perf_attributes where
  "newAttributes = \<lparr>pa_global = noAttributes, pa_attributes = Map.empty\<rparr>"

definition setGlobalAttributes :: "event_attributes \<Rightarrow> perf_attributes \<Rightarrow> perf_attributes" where
  "setGlobalAttributes a p = p\<lparr>pa_global := a\<rparr>"

definition addAttributes :: "u64 \<Rightarrow> event_attributes \<Rightarrow> perf_attributes \<Rightarrow> perf_attributes" where
  "addAttributes i a p = p\<lparr>pa_attributes := (pa_attributes p)(i \<mapsto> a)\<rparr>"

definition attributes_of :: "u64 \<Rightarrow> perf_attributes \<Rightarrow> event_attributes" where
  "attributes_of i p = (case pa_attributes p i of Some a \<Rightarrow> a | None \<Rightarrow> pa_global p)"

text \<open>
  \<open>read\<close>: \<open>seek\<close> gives what the device has from a position on, or nothing when it cannot go there.
  The loop reads every attribute into the object the one before was read into.
\<close>

definition stream_at :: "(nat \<Rightarrow> u8) \<Rightarrow> byte_order \<Rightarrow> bytes \<Rightarrow> data_stream" where
  "stream_at junk order bs = open_stream junk bs\<lparr>ds_order := order\<rparr>"

fun read_attribute_loop ::
  "(nat \<Rightarrow> u8) \<Rightarrow> (s64 \<Rightarrow> bytes option) \<Rightarrow> perf_header \<Rightarrow> nat list \<Rightarrow> event_attributes
    \<Rightarrow> perf_attributes \<Rightarrow> bool \<times> perf_attributes"
where
  "read_attribute_loop junk seek h [] attrs p = (True, p)"
| "read_attribute_loop junk seek h (i # is) attrs p =
     (case seek (sec_offset (h_attrs h) + h_attrSize h * of_nat i) of
        None \<Rightarrow> (False, p)
      | Some bs \<Rightarrow>
          (let (attrs, s) = run_state (read_event_attributes attrs) (stream_at junk (byteOrder h) bs) in
           if a_size attrs < SIZE_VER0 then (False, p)
           else let p = (if i = 0 then setGlobalAttributes attrs p else p);
                    (ids, s) = run_state read_section s in
             if sint (sec_size ids) > 0 then
               (case seek (sec_offset ids) of
                  None \<Rightarrow> (False, p)
                | Some bs \<Rightarrow>
                    (let (xs, _) = run_state (read_n (nat (sint (sec_size ids) div 8)) read_u64)
                           (stream_at junk (byteOrder h) bs)
                     in read_attribute_loop junk seek h is attrs
                          (fold (\<lambda>i. addAttributes i attrs) xs p)))
             else read_attribute_loop junk seek h is attrs p))"

definition readAttributes ::
  "(nat \<Rightarrow> u8) \<Rightarrow> (s64 \<Rightarrow> bytes option) \<Rightarrow> perf_header \<Rightarrow> perf_attributes \<Rightarrow> bool \<times> perf_attributes"
where
  "readAttributes junk seek h p =
     (if sint (h_attrSize h) < uint SIZE_VER0 + int section_fixedLength then (False, p)
      else read_attribute_loop junk seek h [0..<nat (numAttrs h)] noAttributes p)"

end
