(* ===== verification/AttributesFacts.thy ===== *)
theory AttributesFacts
  imports Attributes
begin

text \<open>
  Correctness of the attributes: reading inverts the format of every version of the structure,
  equality is equality of all fields, names, the table of a whole file, and what the rearrangement
  of the flags loses.
\<close>

section \<open>Equality\<close>

lemma bit_fields_cover:
  assumes "list_all (\<lambda>f. bit_field f v = bit_field f w) bit_fields"
  shows "v = w"
proof (rule bit_word_eqI)
  fix n assume n: "n < LENGTH(64)"
  have cover: "\<exists>f \<in> set bit_fields. fst f \<le> n \<and> n < fst f + snd f"
  proof -
    have "\<forall>n \<in> set [0..<64]. list_ex (\<lambda>f. fst f \<le> n \<and> n < fst f + snd f) bit_fields"
      by code_simp
    then show ?thesis using n by (simp add: list_ex_iff)
  qed
  then obtain f where f: "f \<in> set bit_fields" "fst f \<le> n" "n < fst f + snd f" by blast
  then have "bit (bit_field f v) (n - fst f) = bit (bit_field f w) (n - fst f)"
    using assms by (simp add: list_all_iff)
  moreover have "n - fst f < snd f" using f(2,3) by linarith
  ultimately show "bit v n = bit w n" using f n by (simp add: bit_field_def bit_simps)
qed

text \<open>
  \<open>PerfEventAttributes::operator==\<close> compares everything. It holds exactly when the two objects
  agree in every field, every bit field and every reserved bit.
\<close>
theorem attributes_eq_iff: "attributes_eq l r \<longleftrightarrow> l = r"
proof
  show "attributes_eq l r \<Longrightarrow> l = r"
    using bit_fields_cover [of "a_flags l" "a_flags r"] by (simp add: attributes_eq_def)
qed (simp add: attributes_eq_def list_all_iff)

section \<open>The format\<close>

text \<open>The structure as it is written; a size beyond the last version ends in unknown bytes.\<close>

definition encode_ver0 :: "byte_order \<Rightarrow> event_attributes \<Rightarrow> bytes" where
  "encode_ver0 order a =
     encode 8 order (a_config a) @ encode 8 order (a_samplePeriod a) @ encode 8 order (a_sampleType a)
     @ encode 8 order (a_readFormat a) @ encode 8 order (a_flags a) @ encode 4 order (a_wakeupEvents a)
     @ encode 4 order (a_bpType a) @ encode 8 order (a_bpAddr a)"

definition encode_later :: "byte_order \<Rightarrow> event_attributes \<Rightarrow> bytes" where
  "encode_later order a =
     (if a_size a > SIZE_VER0 then encode 8 order (a_bpLen a) else [])
     @ (if a_size a > SIZE_VER1 then encode 8 order (a_branchSampleType a) else [])
     @ (if a_size a > SIZE_VER2 then encode 8 order (a_sampleRegsUser a) else [])
     @ (if a_size a > SIZE_VER2 then encode 4 order (a_sampleStackUser a) else [])
     @ (if a_size a > SIZE_VER2 then encode 4 order (a_clockid a) else [])
     @ (if a_size a > SIZE_VER3 then encode 8 order (a_sampleRegsIntr a) else [])
     @ (if a_size a > SIZE_VER4 then encode 4 order (a_auxWatermark a) else [])
     @ (if a_size a > SIZE_VER4 then encode 2 order (a_sampleMaxStack a) else [])
     @ (if a_size a > SIZE_VER4 then encode 2 order (a_reserved2 a) else [])"

definition encode_attributes :: "byte_order \<Rightarrow> event_attributes \<Rightarrow> bytes \<Rightarrow> bytes" where
  "encode_attributes order a extra =
     encode 4 order (a_type a) @ encode 4 order (a_size a) @ encode_ver0 order a
     @ encode_later order a @ extra"

text \<open>The fields a version does not have.\<close>

definition absent_zero :: "u32 \<Rightarrow> event_attributes \<Rightarrow> bool" where
  "absent_zero sz a \<longleftrightarrow>
     (sz \<le> SIZE_VER0 \<longrightarrow> a_bpLen a = 0) \<and> (sz \<le> SIZE_VER1 \<longrightarrow> a_branchSampleType a = 0)
     \<and> (sz \<le> SIZE_VER2 \<longrightarrow> a_sampleRegsUser a = 0 \<and> a_sampleStackUser a = 0 \<and> a_clockid a = 0)
     \<and> (sz \<le> SIZE_VER3 \<longrightarrow> a_sampleRegsIntr a = 0)
     \<and> (sz \<le> SIZE_VER4 \<longrightarrow> a_auxWatermark a = 0 \<and> a_sampleMaxStack a = 0 \<and> a_reserved2 a = 0)"

definition wf_attributes :: "event_attributes \<Rightarrow> bytes \<Rightarrow> bool" where
  "wf_attributes a extra \<longleftrightarrow> SIZE_VER0 \<le> a_size a \<and> absent_zero (a_size a) a
     \<and> length extra = (if a_size a > SIZE_VER5 then unat (a_size a) - 112 else 0)"

text \<open>What the reader makes of the flags.\<close>

definition as_read :: "byte_order \<Rightarrow> event_attributes \<Rightarrow> event_attributes" where
  "as_read order a =
     a\<lparr>a_flags := (if order \<noteq> hostByteOrder then swap_flags (a_flags a) else a_flags a)\<rparr>"

lemma takes_skip_attributes:
  assumes "sz > SIZE_VER5"
  shows "takes (skip_attributes sz) (unat sz - 112)"
proof -
  have skip: "uint (sz - SIZE_VER5) = uint sz - 112"
    using assms uint_sub_lt2p [of sz 112] by (simp add: SIZE_VER5_def word_less_def uint_sub_lem [THEN iffD1])
  show ?thesis
  proof (cases "uint (sz - SIZE_VER5) > intMax")
    case True
    have "uint (sz - SIZE_VER5 - word_of_int intMax) = uint sz - 112 - intMax"
      using True skip by (subst uint_sub_lem [THEN iffD1]) (simp_all add: intMax_def)
    then have "nat intMax + nat (uint (sz - SIZE_VER5 - word_of_int intMax)) = unat sz - 112"
      using True skip by (simp add: intMax_def flip: nat_uint_eq)
    moreover have "takes (do { skipRawData intMax; skipRawData (uint (sz - SIZE_VER5 - word_of_int intMax)) })
        (nat intMax + nat (uint (sz - SIZE_VER5 - word_of_int intMax)))"
      by (intro takes_bind takes_skip) (simp_all add: intMax_def)
    ultimately show ?thesis using True by (simp add: skip_attributes_def Let_def)
  next
    case False
    have "nat (uint (sz - SIZE_VER5)) = unat sz - 112"
      unfolding skip by (simp flip: nat_uint_eq)
    then show ?thesis
      using takes_skip [of "uint (sz - SIZE_VER5)"] False by (simp add: skip_attributes_def Let_def)
  qed
qed

lemma read_ver0_encoded:
  "run_state (read_attributes_ver0 b) (s\<lparr>ds_rest := encode_ver0 (ds_order s) a @ r\<rparr>)
    = ((b\<lparr>a_config := a_config a, a_samplePeriod := a_samplePeriod a, a_sampleType := a_sampleType a,
          a_readFormat := a_readFormat a, a_wakeupEvents := a_wakeupEvents a, a_bpType := a_bpType a,
          a_bpAddr := a_bpAddr a\<rparr>, a_flags a), s\<lparr>ds_rest := r\<rparr>)"
  by (simp add: read_attributes_ver0_def encode_ver0_def reader_simps)

lemma read_later_encoded:
  assumes "a_size b = a_size a"
  shows "run_state (read_attributes_later b) (s\<lparr>ds_rest := encode_later (ds_order s) a @ r\<rparr>)
    = (b\<lparr>a_bpLen := if a_size a > SIZE_VER0 then a_bpLen a else a_bpLen b,
         a_branchSampleType := if a_size a > SIZE_VER1 then a_branchSampleType a else a_branchSampleType b,
         a_sampleRegsUser := if a_size a > SIZE_VER2 then a_sampleRegsUser a else a_sampleRegsUser b,
         a_sampleStackUser := if a_size a > SIZE_VER2 then a_sampleStackUser a else a_sampleStackUser b,
         a_clockid := if a_size a > SIZE_VER2 then a_clockid a else a_clockid b,
         a_sampleRegsIntr := if a_size a > SIZE_VER3 then a_sampleRegsIntr a else a_sampleRegsIntr b,
         a_auxWatermark := if a_size a > SIZE_VER4 then a_auxWatermark a else a_auxWatermark b,
         a_sampleMaxStack := if a_size a > SIZE_VER4 then a_sampleMaxStack a else a_sampleMaxStack b,
         a_reserved2 := if a_size a > SIZE_VER4 then a_reserved2 a else a_reserved2 b\<rparr>,
       s\<lparr>ds_rest := r\<rparr>)"
  unfolding read_attributes_later_def encode_later_def assms append_assoc
  by (simp only: run_state_bind read_ints_if prod.case run_state_return)

lemma read_event_attributes_encoded:
  assumes wf: "wf_attributes a extra" and b: "absent_zero (a_size a) b"
  shows "run_state (read_event_attributes b) (s\<lparr>ds_rest := encode_attributes (ds_order s) a extra @ r\<rparr>)
    = (as_read (ds_order s) a, s\<lparr>ds_rest := r\<rparr>)"
proof -
  let ?c = "b\<lparr>a_type := a_type a, a_size := a_size a\<rparr>"
  have sz: "\<not> a_size a < SIZE_VER0" using wf by (simp add: wf_attributes_def not_less)
  have skip: "run_state (if a_size a > SIZE_VER5 then skip_attributes (a_size a) else State_Monad.return ())
      (s\<lparr>ds_rest := extra @ r\<rparr>) = ((), s\<lparr>ds_rest := r\<rparr>)"
  proof (cases "a_size a > SIZE_VER5")
    case True
    then have "snd (run_state (skip_attributes (a_size a)) (s\<lparr>ds_rest := extra @ r\<rparr>)) = s\<lparr>ds_rest := r\<rparr>"
      using takesD [OF takes_skip_attributes, of "a_size a" "s\<lparr>ds_rest := extra @ r\<rparr>"] wf
      by (simp add: wf_attributes_def)
    then show ?thesis using True by (simp add: prod_eq_iff)
  next
    case False
    then show ?thesis using wf by (simp add: wf_attributes_def)
  qed
  have a: "absent_zero (a_size a) a" using wf by (simp add: wf_attributes_def)
  note later = read_later_encoded [of "?c\<lparr>a_config := a_config a, a_samplePeriod := a_samplePeriod a,
      a_sampleType := a_sampleType a, a_readFormat := a_readFormat a, a_wakeupEvents := a_wakeupEvents a,
      a_bpType := a_bpType a, a_bpAddr := a_bpAddr a\<rparr>" a]
  show ?thesis
    using a b unfolding read_event_attributes_def encode_attributes_def append_assoc
    by (simp add: read_ints read_ver0_encoded later sz skip Let_def)
      (simp add: as_read_def absent_zero_def event_attributes.equality not_less)
qed

lemma absent_zero_none [simp]: "absent_zero sz noAttributes"
  by (simp add: absent_zero_def noAttributes_def)

lemma length_encode_attributes:
  assumes "wf_attributes a extra"
  shows "a_size a \<in> {64, 72, 80, 96, 104, 112} \<or> a_size a > 112
    \<longrightarrow> length (encode_attributes order a extra) = unat (a_size a)"
proof (intro impI, elim disjE)
  note defs = encode_attributes_def encode_ver0_def encode_later_def wf_attributes_def
    SIZE_VER0_def SIZE_VER1_def SIZE_VER2_def SIZE_VER3_def SIZE_VER4_def SIZE_VER5_def
  show "length (encode_attributes order a extra) = unat (a_size a)"
    if "a_size a \<in> {64, 72, 80, 96, 104, 112}"
    using assms that by (auto simp: defs)
  show "length (encode_attributes order a extra) = unat (a_size a)" if gt: "a_size a > 112"
  proof -
    have "a_size a > 64" "a_size a > 72" "a_size a > 80" "a_size a > 96" "a_size a > 104"
      using gt by (auto intro: less_trans [of _ 112])
    moreover have "unat (a_size a) > 112" using gt by (simp add: word_less_nat_alt)
    ultimately show ?thesis using assms gt by (simp add: defs)
  qed
qed

section \<open>Properties of the format\<close>

text \<open>
  C19: reading an attribute structure gives back what was written, in either byte order and for every
  version and size of the structure: all fields of that version, with the fields of later versions
  zero, taking exactly the bytes of the structure, unknown ones included. Only the bit fields differ,
  and only when the byte order is not the host's: then they are what the rearrangement makes of them.
\<close>
theorem attributes_roundtrip:
  assumes "wf_attributes a extra"
  shows "run_state (read_event_attributes noAttributes)
      (s\<lparr>ds_rest := encode_attributes (ds_order s) a extra @ r\<rparr>) = (as_read (ds_order s) a, s\<lparr>ds_rest := r\<rparr>)
    \<and> (a_size a \<in> {64, 72, 80, 96, 104, 112} \<or> a_size a > 112
        \<longrightarrow> length (encode_attributes (ds_order s) a extra) = unat (a_size a))"
  using read_event_attributes_encoded [OF assms absent_zero_none] length_encode_attributes [OF assms]
  by blast

definition cycles_attributes :: event_attributes where
  "cycles_attributes = noAttributes\<lparr>a_size := 72, a_samplePeriod := 4000, a_sampleType := 0x10127,
     a_flags := 0x40101, a_bpLen := 7\<rparr>"

theorem attributes_roundtrip_witness:
  "fst (run_state (read_event_attributes noAttributes)
      (open_stream (\<lambda>_. 0) (encode_attributes BigEndian cycles_attributes [] @ [1])))
    = cycles_attributes\<lparr>a_flags := swap_flags 0x40101\<rparr>"
proof -
  have "wf_attributes cycles_attributes []"
    by (simp add: wf_attributes_def cycles_attributes_def noAttributes_def absent_zero_def
        SIZE_VER0_def SIZE_VER1_def SIZE_VER2_def SIZE_VER3_def SIZE_VER4_def SIZE_VER5_def)
  from attributes_roundtrip [OF this, of "open_stream (\<lambda>_. 0) []" "[1]"] show ?thesis
    by (simp add: open_stream_def as_read_def hostByteOrder_def)
      (simp add: cycles_attributes_def)
qed

text \<open>
  The rearrangement of the flags moves bit \<open>i\<close> to \<open>i div 8 + 7 - i mod 8\<close>, where the bit of the other
  byte order is \<open>8 * (i div 8) + 7 - i mod 8\<close>: no bit above the fourteenth is ever set.
\<close>

lemma swap_flags_low:
  assumes "bit (swap_flags w) n"
  shows "n \<le> 14"
proof -
  have "bit (fold (\<lambda>i new. if w AND push_bit i 1 \<noteq> 0
      then new OR push_bit (i div 8 + 7 - i mod 8) 1 else new) is v) n \<Longrightarrow> n \<le> 14 \<or> bit v n"
    if "\<forall>i \<in> set is. i < 64" for "is" v
    using that
  proof (induction "is" arbitrary: v)
    case (Cons i "is")
    have i: "i div 8 + 7 - i mod 8 \<le> 14" using Cons.prems(2) by auto
    show ?case
      using Cons.IH [of "if w AND push_bit i 1 \<noteq> 0 then v OR push_bit (i div 8 + 7 - i mod 8) 1 else v"]
        Cons.prems i by (auto simp: bit_simps split: if_splits)
  qed simp
  from this [of "[0..<64]" 0] assms show ?thesis by (simp add: swap_flags_def)
qed

lemma sampleIdAll_bit: "sampleIdAll a \<longleftrightarrow> bit (a_flags a) 18"
proof -
  have "take_bit 1 (drop_bit 18 (a_flags a)) \<noteq> 0 \<longleftrightarrow> odd (drop_bit 18 (a_flags a))"
    by (simp add: take_bit_Suc odd_iff_mod_2_eq_one)
  then show ?thesis by (simp add: sampleIdAll_def bit_field_def bit_iff_odd_drop_bit)
qed

lemma reads_keep_order [simp]:
  "ds_order (snd (run_state (read_word k) s)) = ds_order s"
  "ds_order (snd (run_state read_u16 s)) = ds_order s"
  "ds_order (snd (run_state read_u32 s)) = ds_order s"
  "ds_order (snd (run_state read_u64 s)) = ds_order s"
  by (simp_all add: read_u16_def read_u32_def read_u64_def read_word_def Let_def)

lemma read_if_keeps_order [simp]:
  "(\<And>s. ds_order (snd (run_state rd s)) = ds_order s)
    \<Longrightarrow> ds_order (snd (run_state (read_if c rd old) s)) = ds_order s"
  by (simp add: read_if_def)

lemma sampleIdAll_lost:
  assumes "ds_order s \<noteq> hostByteOrder" "\<not> sampleIdAll b"
  shows "\<not> sampleIdAll (fst (run_state (read_event_attributes b) s))"
proof -
  have no: "\<not> bit (swap_flags w) 18" for w using swap_flags_low [of w 18] by auto
  have "ds_order (snd (run_state (read_attributes_ver0 a) s)) = ds_order s"
    "ds_order (snd (run_state (read_attributes_later a) s)) = ds_order s" for a s
    by (simp_all add: read_attributes_ver0_def read_attributes_later_def split_beta)
  then show ?thesis
    using assms no by (simp add: read_event_attributes_def Let_def split_beta sampleIdAll_bit)
qed

section \<open>The table of a file\<close>

text \<open>A section of attributes: the structure, unknown bytes at its end, and the ids it lists.\<close>

record attr_section =
  at_attr :: event_attributes
  at_extra :: bytes
  at_idOffset :: s64
  at_ids :: "u64 list"

definition encode_attr_section :: "byte_order \<Rightarrow> attr_section \<Rightarrow> bytes" where
  "encode_attr_section order t =
     encode_attributes order (at_attr t) (at_extra t)
     @ encode_section order \<lparr>sec_offset = at_idOffset t, sec_size = of_nat (8 * length (at_ids t))\<rparr>"

text \<open>The device holds a section at a position, and its ids where the section says.\<close>

definition section_at ::
  "(s64 \<Rightarrow> bytes option) \<Rightarrow> byte_order \<Rightarrow> s64 \<Rightarrow> attr_section \<Rightarrow> bool" where
  "section_at seek order pos t \<longleftrightarrow>
     (\<exists>r. seek pos = Some (encode_attr_section order t @ r))
     \<and> (at_ids t \<noteq> [] \<longrightarrow> (\<exists>r. seek (at_idOffset t) = Some (concat (map (encode 8 order) (at_ids t)) @ r)))"

definition wf_attr_section :: "u32 \<Rightarrow> attr_section \<Rightarrow> bool" where
  "wf_attr_section sz t \<longleftrightarrow> wf_attributes (at_attr t) (at_extra t) \<and> a_size (at_attr t) = sz
     \<and> 8 * length (at_ids t) < 2 ^ 63"

text \<open>What the sections make of the table.\<close>

definition add_section :: "byte_order \<Rightarrow> attr_section \<Rightarrow> (u64 \<rightharpoonup> event_attributes) \<Rightarrow> u64 \<rightharpoonup> event_attributes"
where
  "add_section order t m = fold (\<lambda>i m. m(i \<mapsto> as_read order (at_attr t))) (at_ids t) m"

lemma fold_addAttributes:
  "fold (\<lambda>i. addAttributes i a) xs p
    = p\<lparr>pa_attributes := fold (\<lambda>i m. m(i \<mapsto> a)) xs (pa_attributes p)\<rparr>"
  by (induction xs arbitrary: p) (simp_all add: addAttributes_def)

lemma as_read_sel [simp]: "a_size (as_read order a) = a_size a" "absent_zero sz (as_read order a) = absent_zero sz a"
  by (simp_all add: as_read_def absent_zero_def)

lemma stream_at_order [simp]: "ds_order (stream_at junk order bs) = order"
  "stream_at junk order bs\<lparr>ds_rest := r\<rparr> = stream_at junk order r"
  by (simp_all add: stream_at_def open_stream_def)

lemma sint_of_nat_small:
  assumes "n < 2 ^ 63"
  shows "sint (of_nat n :: s64) = int n"
proof -
  have "uint (of_nat n :: s64) = int n" using assms by (simp add: unsigned_of_nat take_bit_nat_eq_self)
  then show ?thesis using assms by (simp add: sint_uint signed_take_bit_int_eq_self)
qed

lemma read_section_step:
  assumes wf: "wf_attr_section sz t" and b: "absent_zero sz b"
    and at: "section_at seek order (sec_offset (h_attrs h) + h_attrSize h * of_nat i) t"
    and order: "byteOrder h = order"
  shows "read_attribute_loop junk seek h (i # is) b p =
    read_attribute_loop junk seek h is (as_read order (at_attr t))
      ((if i = 0 then setGlobalAttributes (as_read order (at_attr t)) p else p)
        \<lparr>pa_attributes := add_section order t (pa_attributes p)\<rparr>)"
proof -
  define ids where "ids = \<lparr>sec_offset = at_idOffset t, sec_size = of_nat (8 * length (at_ids t))\<rparr>"
  obtain r where r: "seek (sec_offset (h_attrs h) + h_attrSize h * of_nat i)
      = Some (encode_attributes order (at_attr t) (at_extra t) @ encode_section order ids @ r)"
    using at by (auto simp: section_at_def encode_attr_section_def ids_def)
  have attr: "run_state (read_event_attributes b) (stream_at junk order
      (encode_attributes order (at_attr t) (at_extra t) @ encode_section order ids @ r))
    = (as_read order (at_attr t), stream_at junk order (encode_section order ids @ r))"
    using read_event_attributes_encoded [of "at_attr t" "at_extra t" b "stream_at junk order []"] wf b
    by (simp add: wf_attr_section_def)
  have sec: "run_state read_section (stream_at junk order (encode_section order ids @ r))
      = (ids, stream_at junk order r)"
    using section_c.roundtrip [OF TrueI, where a = ids and s = "stream_at junk order []" and r = r] by simp
  have n: "sint (sec_size ids) = int (8 * length (at_ids t))"
    using wf sint_of_nat_small [of "8 * length (at_ids t)"] by (simp add: wf_attr_section_def ids_def)
  have sz: "\<not> a_size (at_attr t) < SIZE_VER0"
    using wf by (auto simp: wf_attr_section_def wf_attributes_def not_less)
  show ?thesis
  proof (cases "at_ids t = []")
    case True
    then show ?thesis
      using n by (simp add: r order attr sec sz Let_def add_section_def setGlobalAttributes_def)
  next
    case False
    then obtain r' where r': "seek (at_idOffset t) = Some (concat (map (encode 8 order) (at_ids t)) @ r')"
      using at by (auto simp: section_at_def)
    have xs: "run_state (read_n (length (at_ids t)) read_u64)
        (stream_at junk order (concat (map (encode 8 order) (at_ids t)) @ r'))
      = (at_ids t, stream_at junk order r')"
      using u64c.roundtrip_n [of "at_ids t" "stream_at junk order []" r'] by (simp add: list_all_iff)
    have "nat (sint (sec_size ids) div 8) = length (at_ids t)" "sint (sec_size ids) > 0"
      "sec_offset ids = at_idOffset t"
      unfolding n using False by (simp_all add: ids_def)
    then show ?thesis
      using r' xs by (simp add: r order attr sec sz Let_def add_section_def setGlobalAttributes_def
          fold_addAttributes)
  qed
qed

lemma read_sections:
  assumes "\<forall>t \<in> set secs. wf_attr_section sz t" "absent_zero sz b" "byteOrder h = order"
    and "\<forall>j < length secs. section_at seek order
      (sec_offset (h_attrs h) + h_attrSize h * of_nat (k + j)) (secs ! j)"
  shows "read_attribute_loop junk seek h [k..<k + length secs] b p =
    (True, (if k = 0 \<and> secs \<noteq> [] then setGlobalAttributes (as_read order (at_attr (hd secs))) p else p)
       \<lparr>pa_attributes := fold (add_section order) secs (pa_attributes p)\<rparr>)"
  using assms
proof (induction secs arbitrary: k b p)
  case (Cons t secs)
  have t: "wf_attr_section sz t" using Cons.prems(1) by simp
  then have b: "absent_zero sz (as_read order (at_attr t))"
    by (auto simp: wf_attr_section_def wf_attributes_def)
  have at: "section_at seek order (sec_offset (h_attrs h) + h_attrSize h * of_nat k) t"
    using Cons.prems(4) by force
  have rest: "\<forall>j < length secs. section_at seek order
      (sec_offset (h_attrs h) + h_attrSize h * of_nat (Suc k + j)) (secs ! j)"
    using Cons.prems(4) by (metis Suc_less_eq add_Suc_shift length_Cons nth_Cons_Suc)
  have upt: "[k..<k + length (t # secs)] = k # [Suc k..<Suc k + length secs]"
    using upt_conv_Cons [of k "k + Suc (length secs)"] by (simp del: upt_Suc)
  note IH = Cons.IH [OF _ b Cons.prems(3) rest]
  show ?case
    unfolding upt read_section_step [OF t Cons.prems(2) at Cons.prems(3)]
    using Cons.prems(1) by (simp add: IH [unfolded add_Suc] setGlobalAttributes_def del: upt_Suc)
qed simp

text \<open>
  C21: reading the attributes of a file. When a file holds sections of attributes of one version, one
  after the other from where the header says, each with the ids it lists elsewhere, \<open>read\<close> succeeds;
  then every id that some section lists has the attributes of the last such section, every other id
  has those of the first section, and nothing else has changed.
\<close>
theorem readAttributes_table:
  assumes "\<forall>t \<in> set secs. wf_attr_section sz t" "numAttrs h = int (length secs)"
    and "80 \<le> sint (h_attrSize h)"
    and "\<forall>j < length secs. section_at seek (byteOrder h)
      (sec_offset (h_attrs h) + h_attrSize h * of_nat j) (secs ! j)"
  shows "\<exists>p'. readAttributes junk seek h newAttributes = (True, p')
    \<and> (\<forall>i. attributes_of i p' =
        (case find (\<lambda>t. i \<in> set (at_ids t)) (rev secs) of
           Some t \<Rightarrow> as_read (byteOrder h) (at_attr t)
         | None \<Rightarrow> if secs = [] then noAttributes else as_read (byteOrder h) (at_attr (hd secs))))"
proof -
  let ?o = "byteOrder h"
  have one: "fold (\<lambda>i m. m(i \<mapsto> a)) is m j = (if j \<in> set is then Some a else m j)"
    for a :: event_attributes and "is" :: "u64 list" and m j
    by (induction "is" arbitrary: m) auto
  have all: "fold (add_section ?o) ts m i = (case find (\<lambda>t. i \<in> set (at_ids t)) (rev ts) of
      Some t \<Rightarrow> Some (as_read ?o (at_attr t)) | None \<Rightarrow> m i)" for ts m i
    by (induction ts arbitrary: m rule: rev_induct) (simp_all add: add_section_def one)
  have "readAttributes junk seek h newAttributes = read_attribute_loop junk seek h
      [0..<0 + length secs] noAttributes newAttributes"
    using assms(2,3) by (simp add: readAttributes_def SIZE_VER0_def section_fixedLength_def)
  then have "readAttributes junk seek h newAttributes =
      (True, (if secs \<noteq> [] then setGlobalAttributes (as_read ?o (at_attr (hd secs))) newAttributes
          else newAttributes)\<lparr>pa_attributes := fold (add_section ?o) secs Map.empty\<rparr>)"
    using read_sections [OF assms(1) absent_zero_none refl, where seek = seek and k = 0 and junk = junk and p = newAttributes] assms(4)
    by (simp add: newAttributes_def)
  then show ?thesis
    by (auto simp: attributes_of_def all setGlobalAttributes_def newAttributes_def split: option.splits)
qed

definition two_sections :: "attr_section list" where
  "two_sections =
    [\<lparr>at_attr = cycles_attributes, at_extra = [], at_idOffset = 1000, at_ids = [7, 8]\<rparr>,
     \<lparr>at_attr = cycles_attributes\<lparr>a_config := 1\<rparr>, at_extra = [], at_idOffset = 2000, at_ids = [8]\<rparr>]"

definition two_sections_device :: "s64 \<Rightarrow> bytes option" where
  "two_sections_device pos =
     (if pos = 104 then Some (encode_attr_section LittleEndian (two_sections ! 0))
      else if pos = 192 then Some (encode_attr_section LittleEndian (two_sections ! 1))
      else if pos = 1000 then Some (concat (map (encode 8 LittleEndian) [7, 8 :: u64]))
      else if pos = 2000 then Some (concat (map (encode 8 LittleEndian) [8 :: u64]))
      else None)"

theorem readAttributes_table_witness:
  "a_config (attributes_of 8 (snd (readAttributes (\<lambda>_. 0) two_sections_device
      (sample_header\<lparr>h_attrSize := 88, h_attrs := \<lparr>sec_offset = 104, sec_size = 176\<rparr>\<rparr>) newAttributes))) = 1"
proof -
  let ?h = "sample_header\<lparr>h_attrSize := 88, h_attrs := \<lparr>sec_offset = 104, sec_size = 176\<rparr>\<rparr>"
  have order: "byteOrder ?h = LittleEndian"
    by (simp add: byteOrder_def sample_header_def s_magicSame_def s_magicSwitched_def)
  have "\<forall>t \<in> set two_sections. wf_attr_section 72 t"
    by (simp add: two_sections_def wf_attr_section_def wf_attributes_def cycles_attributes_def
        noAttributes_def absent_zero_def SIZE_VER0_def SIZE_VER1_def SIZE_VER2_def SIZE_VER3_def
        SIZE_VER4_def SIZE_VER5_def)
  moreover have "numAttrs ?h = int (length two_sections)"
    by (simp add: numAttrs_def two_sections_def)
  moreover have "80 \<le> sint (h_attrSize ?h)" by simp
  moreover have "\<forall>j < length two_sections. section_at two_sections_device (byteOrder ?h)
      (sec_offset (h_attrs ?h) + h_attrSize ?h * of_nat j) (two_sections ! j)"
  proof -
    have "length two_sections = 2" by (simp add: two_sections_def)
    then have "j = 0 \<or> j = 1" if "j < length two_sections" for j using that by linarith
    moreover have "section_at two_sections_device LittleEndian 104 (two_sections ! 0)"
      "section_at two_sections_device LittleEndian 192 (two_sections ! 1)"
      by (simp_all add: section_at_def two_sections_device_def) (simp_all add: two_sections_def)
    ultimately show ?thesis unfolding order by (fastforce simp del: One_nat_def)
  qed
  ultimately obtain p' where "readAttributes (\<lambda>_. 0) two_sections_device ?h newAttributes = (True, p')"
    "attributes_of 8 p' = (case find (\<lambda>t. 8 \<in> set (at_ids t)) (rev two_sections) of
       Some t \<Rightarrow> as_read LittleEndian (at_attr t)
     | None \<Rightarrow> if two_sections = [] then noAttributes else as_read LittleEndian (at_attr (hd two_sections)))"
    using readAttributes_table [of two_sections 72 ?h two_sections_device "\<lambda>_. 0"] unfolding order by blast
  then show ?thesis by (simp add: two_sections_def as_read_def)
qed

end
