(* ===== verification/Features.thy ===== *)
theory Features
  imports Attributes
begin

text \<open>
  \<open>app/perffeatures.h\<close>, \<open>app/perffeatures.cpp\<close>: the readers of the feature sections of a file and the
  writers of those that are sent on. The loop over the build ids runs until the sizes of the entries
  add up to the section's size; it is a partial function, \<open>None\<close> where it never ends.
\<close>

section \<open>Event headers\<close>

record event_header =
  eh_type :: u32
  eh_misc :: u16
  eh_size :: u16

definition noEventHeader :: event_header where
  "noEventHeader = \<lparr>eh_type = 0, eh_misc = 0, eh_size = 0\<rparr>"

definition eventHeader_fixedLength :: u16 where
  "eventHeader_fixedLength = 8"

definition read_event_header :: "event_header reader" where
  "read_event_header = do {
     typ \<leftarrow> read_u32;
     misc \<leftarrow> read_u16;
     sz \<leftarrow> read_u16;
     State_Monad.return \<lparr>eh_type = typ, eh_misc = misc, eh_size = sz\<rparr>
   }"

definition encode_event_header :: "byte_order \<Rightarrow> event_header \<Rightarrow> bytes" where
  "encode_event_header order h =
     encode 4 order (eh_type h) @ encode 2 order (eh_misc h) @ encode 2 order (eh_size h)"

interpretation event_header_c: codec read_event_header encode_event_header "\<lambda>_. True"
  by unfold_locales (simp add: read_event_header_def encode_event_header_def reader_simps)

interpretation event_header_r: fixed_reader read_event_header 8
  by unfold_locales
    (use takes_bind [OF takes_ints(3) takes_bind [OF takes_ints(2) takes_bind [OF takes_ints(2) takes_return]]]
      in \<open>simp add: read_event_header_def\<close>)

declare event_header_c.roundtrip [OF TrueI, reader_simps]

section \<open>Build ids\<close>

definition s_idLength :: nat where "s_idLength = 20"
definition s_idPadding :: nat where "s_idPadding = 4"

record build_id =
  bi_pid :: s32
  bi_id :: bytes
  bi_fileName :: bytes

text \<open>\<open>removeTrailingZeros\<close>: the length is lowered while the last byte below it is zero.\<close>

fun trailing_length :: "bytes \<Rightarrow> nat \<Rightarrow> nat" where
  "trailing_length s 0 = 0"
| "trailing_length s (Suc n) = (if s ! n = 0 then trailing_length s n else Suc n)"

definition removeTrailingZeros :: "bytes \<Rightarrow> bytes" where
  "removeTrailingZeros s = take (trailing_length s (length s)) s"

definition read_build_id_entry :: "(event_header \<times> build_id) reader" where
  "read_build_id_entry = do {
     header \<leftarrow> read_event_header;
     pid \<leftarrow> read_u32;
     bid \<leftarrow> read_bytes s_idLength [];
     _ \<leftarrow> skipRawData (int s_idPadding);
     fileName \<leftarrow> read_bytes
       (unat (eh_size header - eventHeader_fixedLength - 4 - of_nat s_idPadding - of_nat s_idLength)) [];
     State_Monad.return
       (header, \<lparr>bi_pid = pid, bi_id = bid, bi_fileName = removeTrailingZeros fileName\<rparr>)
   }"

partial_function (option) build_id_loop ::
  "int \<Rightarrow> int \<Rightarrow> data_stream \<Rightarrow> (build_id list \<times> data_stream) option"
where
  "build_id_loop sectionSize next_pos s =
     (if next_pos < sectionSize then
        (case run_state read_build_id_entry s of
           ((header, build), s) \<Rightarrow>
             Option.bind (build_id_loop sectionSize (next_pos + uint (eh_size header)) s)
               (\<lambda>(bs, s). Some (build # bs, s)))
      else Some ([], s))"

definition read_build_ids :: "s64 \<Rightarrow> data_stream \<Rightarrow> (build_id list \<times> data_stream) option" where
  "read_build_ids sectionSize s = build_id_loop (sint sectionSize) 0 s"

section \<open>Strings and tables\<close>

text \<open>A string feature is read into the one that is there.\<close>

definition read_string_feature :: "bytes \<Rightarrow> bytes reader" where
  "read_string_feature old = do {
     len \<leftarrow> read_u32;
     if uint len > intMax then do {
       _ \<leftarrow> skipRawData intMax;
       _ \<leftarrow> skipRawData (sint (len - word_of_int intMax));
       State_Monad.return old
     } else do {
       value \<leftarrow> read_bytes (unat len) old;
       State_Monad.return (removeTrailingZeros value)
     }
   }"

text \<open>A loop that reads strings into one object; the object it ends with is returned beside them.\<close>

primrec read_strings :: "nat \<Rightarrow> bytes \<Rightarrow> (bytes list \<times> bytes) reader" where
  "read_strings 0 old = State_Monad.return ([], old)"
| "read_strings (Suc n) old = do {
     value \<leftarrow> read_string_feature old;
     (values, last_value) \<leftarrow> read_strings n value;
     State_Monad.return (value # values, last_value)
   }"

record nr_cpus =
  nc_online :: u32
  nc_available :: u32

definition read_nr_cpus :: "nr_cpus reader" where
  "read_nr_cpus = do {
     online \<leftarrow> read_u32;
     available \<leftarrow> read_u32;
     State_Monad.return \<lparr>nc_online = online, nc_available = available\<rparr>
   }"

definition read_total_mem :: "u64 reader" where
  "read_total_mem = read_u64"

definition read_cmdline :: "bytes list reader" where
  "read_cmdline = do {
     numParts \<leftarrow> read_u32;
     (values, _) \<leftarrow> read_strings (unat numParts) [];
     State_Monad.return values
   }"

record event_desc =
  ed_attrs :: event_attributes
  ed_name :: bytes
  ed_ids :: "u64 list"

primrec read_event_descs :: "nat \<Rightarrow> bytes \<Rightarrow> event_desc list reader" where
  "read_event_descs 0 old = State_Monad.return []"
| "read_event_descs (Suc n) old = do {
     attrs \<leftarrow> read_event_attributes noAttributes;
     numIds \<leftarrow> read_u32;
     name \<leftarrow> read_string_feature old;
     ids \<leftarrow> read_n (unat numIds) read_u64;
     descs \<leftarrow> read_event_descs n name;
     State_Monad.return (\<lparr>ed_attrs = attrs, ed_name = name, ed_ids = ids\<rparr> # descs)
   }"

definition read_event_desc :: "event_desc list reader" where
  "read_event_desc = do {
     numEvents \<leftarrow> read_u32;
     eventSize \<leftarrow> read_u32;
     read_event_descs (unat numEvents) []
   }"

record cpu_topology =
  ct_siblingCores :: "bytes list"
  ct_siblingThreads :: "bytes list"

definition read_cpu_topology :: "cpu_topology reader" where
  "read_cpu_topology = do {
     numSiblings \<leftarrow> read_u32;
     (cores, last_value) \<leftarrow> read_strings (unat numSiblings) [];
     numSiblings \<leftarrow> read_u32;
     (threads, _) \<leftarrow> read_strings (unat numSiblings) last_value;
     State_Monad.return \<lparr>ct_siblingCores = cores, ct_siblingThreads = threads\<rparr>
   }"

record numa_node =
  nn_nodeId :: u32
  nn_memTotal :: u64
  nn_memFree :: u64
  nn_topology :: bytes

primrec read_numa_nodes :: "nat \<Rightarrow> bytes \<Rightarrow> numa_node list reader" where
  "read_numa_nodes 0 old = State_Monad.return []"
| "read_numa_nodes (Suc n) old = do {
     nodeId \<leftarrow> read_u32;
     memTotal \<leftarrow> read_u64;
     memFree \<leftarrow> read_u64;
     topology \<leftarrow> read_string_feature old;
     nodes \<leftarrow> read_numa_nodes n topology;
     State_Monad.return (\<lparr>nn_nodeId = nodeId, nn_memTotal = memTotal, nn_memFree = memFree,
       nn_topology = topology\<rparr> # nodes)
   }"

definition read_numa_topology :: "numa_node list reader" where
  "read_numa_topology = do {
     numNodes \<leftarrow> read_u32;
     read_numa_nodes (unat numNodes) []
   }"

record pmu =
  pmu_type :: u32
  pmu_name :: bytes

primrec read_pmus :: "nat \<Rightarrow> bytes \<Rightarrow> pmu list reader" where
  "read_pmus 0 old = State_Monad.return []"
| "read_pmus (Suc n) old = do {
     typ \<leftarrow> read_u32;
     name \<leftarrow> read_string_feature old;
     pmus \<leftarrow> read_pmus n name;
     State_Monad.return (\<lparr>pmu_type = typ, pmu_name = name\<rparr> # pmus)
   }"

definition read_pmu_mappings :: "pmu list reader" where
  "read_pmu_mappings = do {
     numPmus \<leftarrow> read_u32;
     read_pmus (unat numPmus) []
   }"

record group_desc =
  gd_name :: bytes
  gd_leaderIndex :: u32
  gd_numMembers :: u32

primrec read_group_descs :: "nat \<Rightarrow> bytes \<Rightarrow> group_desc list reader" where
  "read_group_descs 0 old = State_Monad.return []"
| "read_group_descs (Suc n) old = do {
     name \<leftarrow> read_string_feature old;
     leader \<leftarrow> read_u32;
     members \<leftarrow> read_u32;
     descs \<leftarrow> read_group_descs n name;
     State_Monad.return (\<lparr>gd_name = name, gd_leaderIndex = leader, gd_numMembers = members\<rparr> # descs)
   }"

definition read_group_desc :: "group_desc list reader" where
  "read_group_desc = do {
     numGroups \<leftarrow> read_u32;
     read_group_descs (unat numGroups) []
   }"

record compressed_info =
  cp_version :: u32
  cp_type :: u32
  cp_level :: u32
  cp_ratio :: u32
  cp_mmap_len :: u32

definition read_compressed :: "compressed_info reader" where
  "read_compressed = do {
     version \<leftarrow> read_u32;
     typ \<leftarrow> read_u32;
     level \<leftarrow> read_u32;
     ratio \<leftarrow> read_u32;
     mmap_len \<leftarrow> read_u32;
     State_Monad.return \<lparr>cp_version = version, cp_type = typ, cp_level = level, cp_ratio = ratio,
       cp_mmap_len = mmap_len\<rparr>
   }"

section \<open>Writers\<close>

text \<open>
  What \<open>QDataStream\<close> writes for a byte array and a list: the length as a 32-bit integer, then the
  content. The null array, which is written as the length \<open>0xffffffff\<close>, is not told apart from the
  empty one.
\<close>

definition write_bytes :: "byte_order \<Rightarrow> bytes \<Rightarrow> bytes" where
  "write_bytes order bs = encode 4 order (of_nat (length bs) :: u32) @ bs"

definition write_list :: "byte_order \<Rightarrow> (byte_order \<Rightarrow> 'a \<Rightarrow> bytes) \<Rightarrow> 'a list \<Rightarrow> bytes" where
  "write_list order wr xs = encode 4 order (of_nat (length xs) :: u32) @ concat (map (wr order) xs)"

definition write_build_id :: "byte_order \<Rightarrow> build_id \<Rightarrow> bytes" where
  "write_build_id order b =
     encode 4 order (bi_pid b) @ write_bytes order (bi_id b) @ write_bytes order (bi_fileName b)"

definition write_nr_cpus :: "byte_order \<Rightarrow> nr_cpus \<Rightarrow> bytes" where
  "write_nr_cpus order n = encode 4 order (nc_online n) @ encode 4 order (nc_available n)"

definition write_cpu_topology :: "byte_order \<Rightarrow> cpu_topology \<Rightarrow> bytes" where
  "write_cpu_topology order t =
     write_list order write_bytes (ct_siblingCores t) @ write_list order write_bytes (ct_siblingThreads t)"

definition write_numa_node :: "byte_order \<Rightarrow> numa_node \<Rightarrow> bytes" where
  "write_numa_node order n =
     encode 4 order (nn_nodeId n) @ encode 8 order (nn_memTotal n) @ encode 8 order (nn_memFree n)
     @ write_bytes order (nn_topology n)"

definition write_pmu :: "byte_order \<Rightarrow> pmu \<Rightarrow> bytes" where
  "write_pmu order p = encode 4 order (pmu_type p) @ write_bytes order (pmu_name p)"

definition write_group_desc :: "byte_order \<Rightarrow> group_desc \<Rightarrow> bytes" where
  "write_group_desc order g =
     write_bytes order (gd_name g) @ encode 4 order (gd_leaderIndex g) @ encode 4 order (gd_numMembers g)"

end
