(* ===== verification/FeaturesFacts.thy ===== *)
theory FeaturesFacts
  imports Features AttributesFacts
begin

text \<open>
  Correctness of the feature sections: reading inverts the format of each, by the contract of the
  string reader, and the loop over the build ids ends exactly when the section holds its entries.
\<close>

section \<open>Strings\<close>

lemma trailing_length_le: "trailing_length s n \<le> n"
  by (induction n) auto

lemma trailing_length_zeros: "\<forall>i. trailing_length s n \<le> i \<and> i < n \<longrightarrow> s ! i = 0"
  by (induction n) (auto simp: less_Suc_eq)

lemma trailing_length_nonzero: "trailing_length s n = 0 \<or> s ! (trailing_length s n - 1) \<noteq> 0"
  by (induction n) auto

text \<open>A value a string can have, padded with zeros as perf writes it.\<close>

definition wf_string :: "bytes \<Rightarrow> nat \<Rightarrow> bool" where
  "wf_string v pad \<longleftrightarrow> (v \<noteq> [] \<longrightarrow> last v \<noteq> 0) \<and> int (length v + pad) \<le> intMax"

lemma removeTrailingZeros_padded:
  assumes "v \<noteq> [] \<longrightarrow> last v \<noteq> 0"
  shows "removeTrailingZeros (v @ replicate pad 0) = v"
proof -
  have "trailing_length (v @ replicate pad 0) (length v + n) = length v" if "n \<le> pad" for n
    using that
  proof (induction n)
    case 0
    then show ?case using assms
      by (cases v rule: rev_cases) (auto simp: nth_append)
  next
    case (Suc n)
    then show ?case by (simp add: nth_append)
  qed
  from this [of pad] show ?thesis by (simp add: removeTrailingZeros_def)
qed

lemma removeTrailingZeros_last: "removeTrailingZeros s = [] \<or> last (removeTrailingZeros s) \<noteq> 0"
proof (cases "trailing_length s (length s) = 0")
  case False
  let ?n = "trailing_length s (length s)"
  have "?n \<le> length s" by (rule trailing_length_le)
  then have "last (take ?n s) = s ! (?n - 1)" using False by (subst last_conv_nth) auto
  then show ?thesis using trailing_length_nonzero [of s "length s"] False
    by (simp add: removeTrailingZeros_def)
qed (simp add: removeTrailingZeros_def)

text \<open>The format of a string: its padded length and its bytes. A pair of value and padding.\<close>

definition encode_string :: "byte_order \<Rightarrow> bytes \<times> nat \<Rightarrow> bytes" where
  "encode_string order v =
     encode 4 order (of_nat (length (fst v) + snd v) :: u32) @ fst v @ replicate (snd v) 0"

lemma uint_of_nat_small:
  assumes "int n \<le> intMax"
  shows "uint (of_nat n :: u32) = int n" "unat (of_nat n :: u32) = n"
proof -
  have "n < 2 ^ 32" using assms by (simp add: intMax_def)
  then show "unat (of_nat n :: u32) = n" "uint (of_nat n :: u32) = int n"
    by (simp_all add: unsigned_of_nat take_bit_nat_eq_self)
qed

lemma read_string_encoded:
  assumes "wf_string (fst v) (snd v)"
  shows "run_state (read_string_feature old) (s\<lparr>ds_rest := encode_string (ds_order s) v @ r\<rparr>)
    = (fst v, s\<lparr>ds_rest := r\<rparr>)"
proof -
  let ?n = "length (fst v) + snd v"
  have n: "uint (of_nat ?n :: u32) = int ?n" "unat (of_nat ?n :: u32) = ?n" "int ?n \<le> intMax"
    using assms uint_of_nat_small [of ?n] by (simp_all add: wf_string_def)
  have bs: "run_state (read_bytes ?n old) (s\<lparr>ds_rest := (fst v @ replicate (snd v) 0) @ r\<rparr>)
      = (fst v @ replicate (snd v) 0, s\<lparr>ds_rest := r\<rparr>)"
    by (rule read_bytes_exact) simp
  show ?thesis
    using n assms bs
    by (simp add: read_string_feature_def encode_string_def read_ints removeTrailingZeros_padded
        wf_string_def del: of_nat_add)
qed

section \<open>Tables\<close>

text \<open>An entry of a table and the padding of its string; a table is counted by a 32-bit number.\<close>

definition encode_table :: "byte_order \<Rightarrow> (byte_order \<Rightarrow> 'a \<Rightarrow> bytes) \<Rightarrow> 'a list \<Rightarrow> bytes" where
  "encode_table order enc xs = encode 4 order (of_nat (length xs) :: u32) @ concat (map (enc order) xs)"

definition wf_table :: "('a \<Rightarrow> bytes) \<Rightarrow> ('a \<times> nat) list \<Rightarrow> bool" where
  "wf_table name xs \<longleftrightarrow> length xs < 2 ^ 32 \<and> (\<forall>x \<in> set xs. wf_string (name (fst x)) (snd x))"

definition encode_numa_node :: "byte_order \<Rightarrow> numa_node \<times> nat \<Rightarrow> bytes" where
  "encode_numa_node order x = encode 4 order (nn_nodeId (fst x)) @ encode 8 order (nn_memTotal (fst x))
     @ encode 8 order (nn_memFree (fst x)) @ encode_string order (nn_topology (fst x), snd x)"

definition encode_pmu :: "byte_order \<Rightarrow> pmu \<times> nat \<Rightarrow> bytes" where
  "encode_pmu order x = encode 4 order (pmu_type (fst x)) @ encode_string order (pmu_name (fst x), snd x)"

definition encode_group_desc :: "byte_order \<Rightarrow> group_desc \<times> nat \<Rightarrow> bytes" where
  "encode_group_desc order x = encode_string order (gd_name (fst x), snd x)
     @ encode 4 order (gd_leaderIndex (fst x)) @ encode 4 order (gd_numMembers (fst x))"

definition encode_event_desc :: "byte_order \<Rightarrow> (event_desc \<times> nat) \<times> bytes \<Rightarrow> bytes" where
  "encode_event_desc order x = (case x of ((d, pad), extra) \<Rightarrow>
     encode_attributes order (ed_attrs d) extra @ encode 4 order (of_nat (length (ed_ids d)) :: u32)
     @ encode_string order (ed_name d, pad) @ concat (map (encode 8 order) (ed_ids d)))"

lemma unat_of_nat_u32: "n < 2 ^ 32 \<Longrightarrow> unat (of_nat n :: u32) = n"
  by (simp add: unsigned_of_nat take_bit_nat_eq_self)

lemma read_strings_encoded:
  "\<forall>v \<in> set vs. wf_string (fst v) (snd v) \<Longrightarrow>
    run_state (read_strings (length vs) old) (s\<lparr>ds_rest := concat (map (encode_string (ds_order s)) vs) @ r\<rparr>)
      = ((map fst vs, last (old # map fst vs)), s\<lparr>ds_rest := r\<rparr>)"
  by (induction vs arbitrary: old) (simp_all add: read_string_encoded)

lemma read_numa_encoded:
  "\<forall>x \<in> set xs. wf_string (nn_topology (fst x)) (snd x) \<Longrightarrow>
    run_state (read_numa_nodes (length xs) old) (s\<lparr>ds_rest := concat (map (encode_numa_node (ds_order s)) xs) @ r\<rparr>)
      = (map fst xs, s\<lparr>ds_rest := r\<rparr>)"
  by (induction xs arbitrary: old) (simp_all add: encode_numa_node_def read_ints read_string_encoded)

lemma read_pmus_encoded:
  "\<forall>x \<in> set xs. wf_string (pmu_name (fst x)) (snd x) \<Longrightarrow>
    run_state (read_pmus (length xs) old) (s\<lparr>ds_rest := concat (map (encode_pmu (ds_order s)) xs) @ r\<rparr>)
      = (map fst xs, s\<lparr>ds_rest := r\<rparr>)"
  by (induction xs arbitrary: old) (simp_all add: encode_pmu_def read_ints read_string_encoded)

lemma read_group_descs_encoded:
  "\<forall>x \<in> set xs. wf_string (gd_name (fst x)) (snd x) \<Longrightarrow>
    run_state (read_group_descs (length xs) old) (s\<lparr>ds_rest := concat (map (encode_group_desc (ds_order s)) xs) @ r\<rparr>)
      = (map fst xs, s\<lparr>ds_rest := r\<rparr>)"
  by (induction xs arbitrary: old) (simp_all add: encode_group_desc_def read_ints read_string_encoded)

definition wf_event_desc :: "(event_desc \<times> nat) \<times> bytes \<Rightarrow> bool" where
  "wf_event_desc x \<longleftrightarrow> wf_string (ed_name (fst (fst x))) (snd (fst x))
     \<and> wf_attributes (ed_attrs (fst (fst x))) (snd x) \<and> length (ed_ids (fst (fst x))) < 2 ^ 32"

lemma read_event_descs_encoded:
  "\<forall>x \<in> set xs. wf_event_desc x \<Longrightarrow>
    run_state (read_event_descs (length xs) old) (s\<lparr>ds_rest := concat (map (encode_event_desc (ds_order s)) xs) @ r\<rparr>)
      = (map (\<lambda>x. (fst (fst x))\<lparr>ed_attrs := as_read (ds_order s) (ed_attrs (fst (fst x)))\<rparr>) xs, s\<lparr>ds_rest := r\<rparr>)"
proof (induction xs arbitrary: old)
  case (Cons x xs)
  obtain d pad extra where x: "x = ((d, pad), extra)" by (metis prod.collapse)
  have wf: "wf_string (ed_name d) pad" "wf_attributes (ed_attrs d) extra" "length (ed_ids d) < 2 ^ 32"
    using Cons.prems by (simp_all add: x wf_event_desc_def)
  note ids = u64c.roundtrip_n [of "ed_ids d" s, unfolded list_all_iff, simplified]
  show ?case
    using Cons wf ids by (simp add: x encode_event_desc_def read_ints read_string_encoded
        read_event_attributes_encoded unat_of_nat_u32)
qed simp

text \<open>
  C30: reading the tables of a feature section gives back what was written, in either byte order: the
  command line, the CPU topology, the NUMA nodes, the PMU mappings, the groups and the event
  descriptions (with the bit fields of the attributes as the attribute reader leaves them), each
  string without the zeros it was padded with, and what follows left in the stream.
\<close>
theorem features_roundtrip:
  assumes "wf_table id vs" "wf_table id ws" "wf_table nn_topology nodes" "wf_table pmu_name pmus"
    and "wf_table gd_name groups" "length descs < 2 ^ 32" "\<forall>x \<in> set descs. wf_event_desc x"
  shows "run_state read_cmdline (s\<lparr>ds_rest := encode_table (ds_order s) encode_string vs @ r\<rparr>)
      = (map fst vs, s\<lparr>ds_rest := r\<rparr>)
    \<and> run_state read_cpu_topology (s\<lparr>ds_rest := encode_table (ds_order s) encode_string vs
          @ encode_table (ds_order s) encode_string ws @ r\<rparr>)
      = (\<lparr>ct_siblingCores = map fst vs, ct_siblingThreads = map fst ws\<rparr>, s\<lparr>ds_rest := r\<rparr>)
    \<and> run_state read_numa_topology (s\<lparr>ds_rest := encode_table (ds_order s) encode_numa_node nodes @ r\<rparr>)
      = (map fst nodes, s\<lparr>ds_rest := r\<rparr>)
    \<and> run_state read_pmu_mappings (s\<lparr>ds_rest := encode_table (ds_order s) encode_pmu pmus @ r\<rparr>)
      = (map fst pmus, s\<lparr>ds_rest := r\<rparr>)
    \<and> run_state read_group_desc (s\<lparr>ds_rest := encode_table (ds_order s) encode_group_desc groups @ r\<rparr>)
      = (map fst groups, s\<lparr>ds_rest := r\<rparr>)
    \<and> run_state read_event_desc (s\<lparr>ds_rest := encode 4 (ds_order s) (of_nat (length descs) :: u32)
          @ encode 4 (ds_order s) (eventSize :: u32) @ concat (map (encode_event_desc (ds_order s)) descs) @ r\<rparr>)
      = (map (\<lambda>x. (fst (fst x))\<lparr>ed_attrs := as_read (ds_order s) (ed_attrs (fst (fst x)))\<rparr>) descs,
         s\<lparr>ds_rest := r\<rparr>)"
  using assms
  by (simp add: wf_table_def encode_table_def read_cmdline_def read_cpu_topology_def
      read_numa_topology_def read_pmu_mappings_def read_group_desc_def read_event_desc_def read_ints
      unat_of_nat_u32 read_strings_encoded read_numa_encoded read_pmus_encoded
      read_group_descs_encoded read_event_descs_encoded)

theorem features_roundtrip_witness:
  "fst (run_state read_pmu_mappings (open_stream (\<lambda>_. 0)
      (encode_table BigEndian encode_pmu [(\<lparr>pmu_type = 4, pmu_name = [99, 112, 117]\<rparr>, 5)] @ [1])))
    = [\<lparr>pmu_type = 4, pmu_name = [99, 112, 117]\<rparr>]"
proof -
  let ?pmus = "[(\<lparr>pmu_type = 4, pmu_name = [99, 112, 117]\<rparr>, 5 :: nat)]"
  have "wf_table pmu_name ?pmus" by (simp add: wf_table_def wf_string_def intMax_def)
  moreover have empty: "wf_table f []" for f :: "'a \<Rightarrow> bytes" by (simp add: wf_table_def)
  ultimately have "run_state read_pmu_mappings ((open_stream (\<lambda>_. 0) [])\<lparr>ds_rest :=
      encode_table (ds_order (open_stream (\<lambda>_. 0) [])) encode_pmu ?pmus @ [1]\<rparr>)
    = (map fst ?pmus, (open_stream (\<lambda>_. 0) [])\<lparr>ds_rest := [1]\<rparr>)"
    using features_roundtrip [OF empty empty empty _ empty, of ?pmus "[]" "open_stream (\<lambda>_. 0) []"] by simp
  then show ?thesis by (simp add: open_stream_def)
qed

section \<open>Build ids\<close>

definition encode_build_id_entry :: "byte_order \<Rightarrow> (build_id \<times> nat) \<times> u32 \<times> u16 \<Rightarrow> bytes" where
  "encode_build_id_entry order x = (case x of ((b, pad), typ, misc) \<Rightarrow>
     encode_event_header order \<lparr>eh_type = typ, eh_misc = misc,
         eh_size = of_nat (36 + length (bi_fileName b) + pad)\<rparr>
     @ encode 4 order (bi_pid b) @ bi_id b @ replicate 4 0 @ bi_fileName b @ replicate pad 0)"

definition build_id_length :: "(build_id \<times> nat) \<times> u32 \<times> u16 \<Rightarrow> nat" where
  "build_id_length x = 36 + length (bi_fileName (fst (fst x))) + snd (fst x)"

definition wf_build_id :: "(build_id \<times> nat) \<times> u32 \<times> u16 \<Rightarrow> bool" where
  "wf_build_id x \<longleftrightarrow> length (bi_id (fst (fst x))) = 20 \<and> build_id_length x < 2 ^ 16
     \<and> wf_string (bi_fileName (fst (fst x))) (snd (fst x))"

lemma read_build_id_encoded:
  assumes "wf_build_id x"
  shows "\<exists>h. run_state read_build_id_entry (s\<lparr>ds_rest := encode_build_id_entry (ds_order s) x @ r\<rparr>)
      = ((h, fst (fst x)), s\<lparr>ds_rest := r\<rparr>) \<and> uint (eh_size h) = int (build_id_length x)"
proof -
  obtain b pad ty misc where x: "x = ((b, pad), ty, misc)" by (metis prod.collapse)
  define n where "n = length (bi_fileName b) + pad"
  have n: "36 + n < 2 ^ 16" and b: "length (bi_id b) = 20" "bi_fileName b \<noteq> [] \<longrightarrow> last (bi_fileName b) \<noteq> 0"
    using assms by (simp_all add: x n_def wf_build_id_def build_id_length_def wf_string_def)
  define h where "h = \<lparr>eh_type = ty, eh_misc = misc, eh_size = of_nat (36 + n)\<rparr>"
  have sz: "uint (eh_size h) = int (36 + n)"
    using n by (simp add: h_def unsigned_of_nat take_bit_nat_eq_self del: of_nat_add)
  have "eh_size h - eventHeader_fixedLength - 4 - of_nat s_idPadding - of_nat s_idLength = of_nat n"
    by (simp add: h_def eventHeader_fixedLength_def s_idPadding_def s_idLength_def)
  then have name: "unat (eh_size h - eventHeader_fixedLength - 4 - of_nat s_idPadding - of_nat s_idLength) = n"
    using n by (simp add: unsigned_of_nat take_bit_nat_eq_self)
  have enc: "encode_build_id_entry (ds_order s) x @ r = encode_event_header (ds_order s) h
      @ encode 4 (ds_order s) (bi_pid b) @ bi_id b @ replicate 4 0
      @ (bi_fileName b @ replicate pad 0) @ r"
    by (simp add: encode_build_id_entry_def x h_def n_def add.assoc)
  have bs: "run_state (read_bytes n buf) (s\<lparr>ds_rest := (bi_fileName b @ replicate pad 0) @ r\<rparr>)
      = (bi_fileName b @ replicate pad 0, s\<lparr>ds_rest := r\<rparr>)" for buf
    by (rule read_bytes_exact) (simp add: n_def)
  have id20: "run_state (read_bytes s_idLength buf) (s\<lparr>ds_rest := bi_id b @ q\<rparr>) = (bi_id b, s\<lparr>ds_rest := q\<rparr>)" for buf q
    by (rule read_bytes_exact) (simp add: b s_idLength_def)
  have skip4: "run_state (skipRawData (int s_idPadding)) (s\<lparr>ds_rest := replicate 4 0 @ q\<rparr>) = ((), s\<lparr>ds_rest := q\<rparr>)" for q
    by (rule skipRawData_exact) (simp add: s_idPadding_def)
  have "run_state read_build_id_entry (s\<lparr>ds_rest := encode_build_id_entry (ds_order s) x @ r\<rparr>)
      = ((h, b), s\<lparr>ds_rest := r\<rparr>)"
    unfolding enc read_build_id_entry_def run_state_bind event_header_c.roundtrip [OF TrueI] prod.case
      read_ints id20 skip4 name bs run_state_return
    by (simp add: removeTrailingZeros_padded b)
  then show ?thesis using sz by (auto simp: x build_id_length_def n_def)
qed

lemma build_id_loop_encoded:
  "\<forall>x \<in> set xs. wf_build_id x \<Longrightarrow>
    build_id_loop (next_pos + int (sum_list (map build_id_length xs))) next_pos
      (s\<lparr>ds_rest := concat (map (encode_build_id_entry (ds_order s)) xs) @ r\<rparr>)
    = Some (map (\<lambda>x. fst (fst x)) xs, s\<lparr>ds_rest := r\<rparr>)"
proof (induction xs arbitrary: next_pos)
  case Nil
  then show ?case by (simp add: build_id_loop.simps)
next
  case (Cons x xs)
  obtain h where h: "run_state read_build_id_entry (s\<lparr>ds_rest := encode_build_id_entry (ds_order s) x
        @ concat (map (encode_build_id_entry (ds_order s)) xs) @ r\<rparr>)
      = ((h, fst (fst x)), s\<lparr>ds_rest := concat (map (encode_build_id_entry (ds_order s)) xs) @ r\<rparr>)"
    "uint (eh_size h) = int (build_id_length x)"
    using read_build_id_encoded [of x s "concat (map (encode_build_id_entry (ds_order s)) xs) @ r"]
      Cons.prems by auto
  have "build_id_loop (next_pos + int (build_id_length x) + int (sum_list (map build_id_length xs)))
      (next_pos + int (build_id_length x))
      (s\<lparr>ds_rest := concat (map (encode_build_id_entry (ds_order s)) xs) @ r\<rparr>)
    = Some (map (\<lambda>x. fst (fst x)) xs, s\<lparr>ds_rest := r\<rparr>)"
    using Cons by simp
  moreover have "0 < build_id_length x" by (simp add: build_id_length_def)
  ultimately show ?case
    by (subst build_id_loop.simps) (simp add: h add.assoc)
qed

text \<open>
  Reading the build ids of a section gives back every entry that was written, in order, with its
  process, its id and its file name without padding, and ends at the end of the section.
\<close>
theorem build_ids_roundtrip:
  assumes "\<forall>x \<in> set xs. wf_build_id x" "sum_list (map build_id_length xs) < 2 ^ 63"
  shows "read_build_ids (of_nat (sum_list (map build_id_length xs)))
      (s\<lparr>ds_rest := concat (map (encode_build_id_entry (ds_order s)) xs) @ r\<rparr>)
    = Some (map (\<lambda>x. fst (fst x)) xs, s\<lparr>ds_rest := r\<rparr>)"
  using build_id_loop_encoded [OF assms(1), of 0 s r] sint_of_nat_small [OF assms(2)]
  by (simp add: read_build_ids_def)

theorem build_ids_roundtrip_witness:
  "read_build_ids 38 ((open_stream (\<lambda>_. 0) [])\<lparr>ds_rest := encode_build_id_entry BigEndian
      ((\<lparr>bi_pid = 1, bi_id = replicate 20 7, bi_fileName = [65]\<rparr>, 1), 67, 0)\<rparr>)
    = Some ([\<lparr>bi_pid = 1, bi_id = replicate 20 7, bi_fileName = [65]\<rparr>], open_stream (\<lambda>_. 0) [])"
proof -
  let ?x = "((\<lparr>bi_pid = 1, bi_id = replicate 20 7, bi_fileName = [65]\<rparr>, 1 :: nat), 67 :: u32, 0 :: u16)"
  have "\<forall>x \<in> set [?x]. wf_build_id x"
    by (simp add: wf_build_id_def build_id_length_def wf_string_def intMax_def)
  moreover have "sum_list (map build_id_length [?x]) = 38" by (simp add: build_id_length_def)
  ultimately show ?thesis
    using build_ids_roundtrip [of "[?x]" "open_stream (\<lambda>_. 0) []" "[]"] by (simp add: open_stream_def)
qed

text \<open>
  The loop never ends when the stream does before the section: every further header reads as zeros,
  so the position stays where it is while entries are appended.
\<close>

lemma build_id_loop_ended:
  assumes "build_id_loop sz0 n0 s0 = Some r0"
  shows "ds_rest s0 = [] \<longrightarrow> sz0 \<le> n0"
proof (rule build_id_loop.raw_induct [where P = "\<lambda>sz n s r. ds_rest s = [] \<longrightarrow> sz \<le> n", OF _ assms])
  fix loop :: "int \<Rightarrow> int \<Rightarrow> data_stream \<Rightarrow> (build_id list \<times> data_stream) option" and sz n s r
  assume IH: "\<And>sz n s r. loop sz n s = Some r \<Longrightarrow> ds_rest s = [] \<longrightarrow> sz \<le> n"
    and eq: "(if n < sz then case run_state read_build_id_entry s of
        ((header, build), s) \<Rightarrow> Option.bind (loop sz (n + uint (eh_size header)) s)
          (\<lambda>(bs, s). Some (build # bs, s)) else Some ([], s)) = Some r"
  show "ds_rest s = [] \<longrightarrow> sz \<le> n"
  proof (intro impI)
    assume rest: "ds_rest s = []"
    obtain h b s' where run: "run_state read_build_id_entry s = ((h, b), s')" by (metis prod.collapse)
    have read0: "run_state (read_word k) t = (0, t\<lparr>ds_ok := False\<rparr>)" if "ds_rest t = []" "0 < k" for k t
      using that by (simp add: read_word_def Let_def)
    have "fst (run_state read_event_header s) = noEventHeader"
      using rest by (simp add: read_event_header_def read_u16_def read_u32_def read0 noEventHeader_def)
    then have h: "eh_size h = 0"
      using arg_cong [OF run, of "\<lambda>x. eh_size (fst (fst x))"]
      by (simp add: read_build_id_entry_def split_beta noEventHeader_def)
    have s': "ds_rest s' = []"
      using arg_cong [OF run, of "\<lambda>x. ds_rest (snd x)"] rest
      by (simp add: read_build_id_entry_def read_event_header_def read_bytes_def readRawData_def
          skipRawData_def read_u16_def read_u32_def read_word_def split_beta Let_def)
    show "sz \<le> n"
    proof (rule ccontr)
      assume "\<not> sz \<le> n"
      then obtain r' where "loop sz n s' = Some r'"
        using eq run h by (auto simp: bind_eq_Some_conv)
      then show False using IH s' \<open>\<not> sz \<le> n\<close> by blast
    qed
  qed
qed

lemma build_ids_hang:
  assumes "ds_rest s = []" "0 < sint sz"
  shows "read_build_ids sz s = None"
  using build_id_loop_ended [of "sint sz" 0 s] assms
  by (cases "build_id_loop (sint sz) 0 s") (auto simp: read_build_ids_def)

end
