(* ===== verification/Records.thy ===== *)
theory Records
  imports Features
begin

text \<open>
  The record types of \<open>app/perfdata.h\<close> and their readers in \<open>app/perfdata.cpp\<close>: the sample id that ends
  most records and the records of mappings, names, forks, switches, lost events and attributes. Derived classes are record extensions; a reader takes the object as its constructor made
  it. Lengths are 16-bit words, as in the code.
\<close>

section \<open>Sample ids\<close>

record sample_id =
  sid_pid :: s32
  sid_tid :: s32
  sid_time :: u64
  sid_id :: u64
  sid_streamId :: u64
  sid_cpu :: u32
  sid_res :: u32
  sid_sampleType :: u64

definition newSampleId :: "u64 \<Rightarrow> bool \<Rightarrow> sample_id" where
  "newSampleId sampleType idAll =
     \<lparr>sid_pid = 0, sid_tid = 0, sid_time = 0, sid_id = 0, sid_streamId = 0, sid_cpu = 0, sid_res = 0,
      sid_sampleType = sampleType OR (if idAll then push_bit (sample_bit SAMPLE_ID_ALL) 1 else 0)\<rparr>"

text \<open>A part of the sample id is there when the sample type has its flag and the flag for sample ids.\<close>

definition sid_has :: "sample_id \<Rightarrow> sample_format \<Rightarrow> bool" where
  "sid_has i f \<longleftrightarrow> has_sample (sid_sampleType i) SAMPLE_ID_ALL \<and> has_sample (sid_sampleType i) f"

definition read_sample_id :: "sample_id \<Rightarrow> sample_id reader" where
  "read_sample_id i = do {
     pid \<leftarrow> read_if (sid_has i SAMPLE_TID) read_u32 (sid_pid i);
     tid \<leftarrow> read_if (sid_has i SAMPLE_TID) read_u32 (sid_tid i);
     time \<leftarrow> read_if (sid_has i SAMPLE_TIME) read_u64 (sid_time i);
     sid \<leftarrow> read_if (sid_has i SAMPLE_ID) read_u64 (sid_id i);
     streamId \<leftarrow> read_if (sid_has i SAMPLE_STREAM_ID) read_u64 (sid_streamId i);
     cpu \<leftarrow> read_if (sid_has i SAMPLE_CPU) read_u32 (sid_cpu i);
     res \<leftarrow> read_if (sid_has i SAMPLE_CPU) read_u32 (sid_res i);
     _ \<leftarrow> read_if (sid_has i SAMPLE_IDENTIFIER) (skipRawData 8) ();
     State_Monad.return (i\<lparr>sid_pid := pid, sid_tid := tid, sid_time := time, sid_id := sid,
       sid_streamId := streamId, sid_cpu := cpu, sid_res := res\<rparr>)
   }"

definition sid_fixedLength :: "sample_id \<Rightarrow> u16" where
  "sid_fixedLength i =
     (if sid_has i SAMPLE_TID then 4 + 4 else 0)
     + (if sid_has i SAMPLE_TIME then 8 else 0)
     + (if sid_has i SAMPLE_ID then 8 else 0)
     + (if sid_has i SAMPLE_STREAM_ID then 8 else 0)
     + (if sid_has i SAMPLE_CPU then 4 + 4 else 0)
     + (if sid_has i SAMPLE_IDENTIFIER then 8 else 0)"

section \<open>Records\<close>

record perf_record =
  r_header :: event_header
  r_sampleId :: sample_id

definition record_fixedLength :: "'a perf_record_scheme \<Rightarrow> u16" where
  "record_fixedLength r = eventHeader_fixedLength + sid_fixedLength (r_sampleId r)"

text \<open>A name that ends at its first zero byte: \<open>indexOf\<close> and \<open>truncate\<close>.\<close>

definition truncate_zero :: "bytes \<Rightarrow> bytes" where
  "truncate_zero bs = takeWhile (\<lambda>b. b \<noteq> 0) bs"

subsection \<open>Mappings\<close>

record mmap_record = perf_record +
  mm_pid :: s32
  mm_tid :: s32
  mm_addr :: u64
  mm_len :: u64
  mm_pgoff :: u64
  mm_filename :: bytes

record mmap2_record = mmap_record +
  mm_maj :: u32
  mm_min :: u32
  mm_ino :: u64
  mm_ino_generation :: u64
  mm_prot :: u32
  mm_flags :: u32

definition newMmap :: "event_header \<Rightarrow> u64 \<Rightarrow> bool \<Rightarrow> mmap_record" where
  "newMmap h sampleType idAll = \<lparr>r_header = h, r_sampleId = newSampleId sampleType idAll, mm_pid = 0,
     mm_tid = 0, mm_addr = 0, mm_len = 0, mm_pgoff = 0, mm_filename = []\<rparr>"

definition newMmap2 :: "event_header \<Rightarrow> u64 \<Rightarrow> bool \<Rightarrow> mmap2_record" where
  "newMmap2 h sampleType idAll = \<lparr>r_header = h, r_sampleId = newSampleId sampleType idAll, mm_pid = 0,
     mm_tid = 0, mm_addr = 0, mm_len = 0, mm_pgoff = 0, mm_filename = [], mm_maj = 0, mm_min = 0,
     mm_ino = 0, mm_ino_generation = 0, mm_prot = 0, mm_flags = 0\<rparr>"

definition mmap_readNumbers :: "'a mmap_record_scheme \<Rightarrow> 'a mmap_record_scheme reader" where
  "mmap_readNumbers r = do {
     pid \<leftarrow> read_u32;
     tid \<leftarrow> read_u32;
     addr \<leftarrow> read_u64;
     len \<leftarrow> read_u64;
     pgoff \<leftarrow> read_u64;
     State_Monad.return
       (r\<lparr>mm_pid := pid, mm_tid := tid, mm_addr := addr, mm_len := len, mm_pgoff := pgoff\<rparr>)
   }"

definition mmap_readFilename :: "u16 \<Rightarrow> 'a mmap_record_scheme \<Rightarrow> 'a mmap_record_scheme reader" where
  "mmap_readFilename filenameLength r = do {
     name \<leftarrow> read_bytes (unat filenameLength) (mm_filename r);
     State_Monad.return (r\<lparr>mm_filename := truncate_zero name\<rparr>)
   }"

definition record_readSampleId :: "'a perf_record_scheme \<Rightarrow> 'a perf_record_scheme reader" where
  "record_readSampleId r = do {
     i \<leftarrow> read_sample_id (r_sampleId r);
     State_Monad.return (r\<lparr>r_sampleId := i\<rparr>)
   }"

text \<open>\<open>sizeof\<close> of the members, in 16-bit arithmetic.\<close>

definition mmap_fixedLength :: "'a mmap_record_scheme \<Rightarrow> u16" where
  "mmap_fixedLength r = 4 + 4 + 8 + 8 + 8 + eventHeader_fixedLength + sid_fixedLength (r_sampleId r)"

definition read_mmap :: "'a mmap_record_scheme \<Rightarrow> 'a mmap_record_scheme reader" where
  "read_mmap r = do {
     r \<leftarrow> mmap_readNumbers r;
     r \<leftarrow> mmap_readFilename (eh_size (r_header r) - mmap_fixedLength r) r;
     record_readSampleId r
   }"

definition mmap2_readNumbers :: "mmap2_record \<Rightarrow> mmap2_record reader" where
  "mmap2_readNumbers r = do {
     r \<leftarrow> mmap_readNumbers r;
     maj \<leftarrow> read_u32;
     min' \<leftarrow> read_u32;
     ino \<leftarrow> read_u64;
     ino_generation \<leftarrow> read_u64;
     prot \<leftarrow> read_u32;
     flags \<leftarrow> read_u32;
     State_Monad.return (r\<lparr>mm_maj := maj, mm_min := min', mm_ino := ino,
       mm_ino_generation := ino_generation, mm_prot := prot, mm_flags := flags\<rparr>)
   }"

definition mmap2_fixedLength :: "mmap2_record \<Rightarrow> u16" where
  "mmap2_fixedLength r = mmap_fixedLength r + 4 + 4 + 8 + 8 + 4 + 4"

definition read_mmap2 :: "mmap2_record \<Rightarrow> mmap2_record reader" where
  "read_mmap2 r = do {
     r \<leftarrow> mmap2_readNumbers r;
     r \<leftarrow> mmap_readFilename (eh_size (r_header r) - mmap2_fixedLength r) r;
     record_readSampleId r
   }"

subsection \<open>Names, lost events, forks, switches and attributes\<close>

record comm_record = perf_record +
  cm_pid :: s32
  cm_tid :: s32
  cm_comm :: bytes

definition newComm :: "event_header \<Rightarrow> u64 \<Rightarrow> bool \<Rightarrow> comm_record" where
  "newComm h sampleType idAll = \<lparr>r_header = h, r_sampleId = newSampleId sampleType idAll,
     cm_pid = 0, cm_tid = 0, cm_comm = []\<rparr>"

definition comm_fixedLength :: "comm_record \<Rightarrow> u16" where
  "comm_fixedLength r = record_fixedLength r + 4 + 4"

definition read_comm :: "comm_record \<Rightarrow> comm_record reader" where
  "read_comm r = do {
     pid \<leftarrow> read_u32;
     tid \<leftarrow> read_u32;
     comm \<leftarrow> read_bytes (unat (eh_size (r_header r) - comm_fixedLength r)) (cm_comm r);
     record_readSampleId (r\<lparr>cm_pid := pid, cm_tid := tid, cm_comm := truncate_zero comm\<rparr>)
   }"

record lost_record = perf_record +
  lr_id :: u64
  lr_lost :: u64

definition newLost :: "event_header \<Rightarrow> u64 \<Rightarrow> bool \<Rightarrow> lost_record" where
  "newLost h sampleType idAll = \<lparr>r_header = h, r_sampleId = newSampleId sampleType idAll,
     lr_id = 0, lr_lost = 0\<rparr>"

definition read_lost :: "lost_record \<Rightarrow> lost_record reader" where
  "read_lost r = do {
     lid \<leftarrow> read_u64;
     lost \<leftarrow> read_u64;
     record_readSampleId (r\<lparr>lr_id := lid, lr_lost := lost\<rparr>)
   }"

record fork_record = perf_record +
  fk_pid :: s32
  fk_ppid :: s32
  fk_tid :: s32
  fk_ptid :: s32
  fk_time :: u64

definition newFork :: "event_header \<Rightarrow> u64 \<Rightarrow> bool \<Rightarrow> fork_record" where
  "newFork h sampleType idAll = \<lparr>r_header = h, r_sampleId = newSampleId sampleType idAll,
     fk_pid = 0, fk_ppid = 0, fk_tid = 0, fk_ptid = 0, fk_time = 0\<rparr>"

definition read_fork :: "fork_record \<Rightarrow> fork_record reader" where
  "read_fork r = do {
     pid \<leftarrow> read_u32;
     ppid \<leftarrow> read_u32;
     tid \<leftarrow> read_u32;
     ptid \<leftarrow> read_u32;
     time \<leftarrow> read_u64;
     record_readSampleId
       (r\<lparr>fk_pid := pid, fk_ppid := ppid, fk_tid := tid, fk_ptid := ptid, fk_time := time\<rparr>)
   }"

definition PERF_RECORD_MISC_SWITCH_OUT :: u16 where
  "PERF_RECORD_MISC_SWITCH_OUT = push_bit 13 1"

definition newContextSwitch :: "event_header \<Rightarrow> u64 \<Rightarrow> bool \<Rightarrow> perf_record" where
  "newContextSwitch h sampleType idAll =
     \<lparr>r_header = h, r_sampleId = newSampleId sampleType idAll\<rparr>"

definition read_context_switch :: "perf_record \<Rightarrow> perf_record reader" where
  "read_context_switch r = record_readSampleId r"

record switch_cpu_wide_record = perf_record +
  sw_nextPrevPid :: s32
  sw_nextPrevTid :: s32

definition newSwitchCpuWide :: "event_header \<Rightarrow> u64 \<Rightarrow> bool \<Rightarrow> switch_cpu_wide_record" where
  "newSwitchCpuWide h sampleType idAll = \<lparr>r_header = h, r_sampleId = newSampleId sampleType idAll,
     sw_nextPrevPid = 0, sw_nextPrevTid = 0\<rparr>"

definition read_switch_cpu_wide :: "switch_cpu_wide_record \<Rightarrow> switch_cpu_wide_record reader" where
  "read_switch_cpu_wide r = do {
     pid \<leftarrow> read_u32;
     tid \<leftarrow> read_u32;
     record_readSampleId (r\<lparr>sw_nextPrevPid := pid, sw_nextPrevTid := tid\<rparr>)
   }"

record attr_record = perf_record +
  ar_attr :: event_attributes
  ar_ids :: "u64 list"

definition newAttr :: "event_header \<Rightarrow> u64 \<Rightarrow> bool \<Rightarrow> attr_record" where
  "newAttr h sampleType idAll = \<lparr>r_header = h, r_sampleId = newSampleId sampleType idAll,
     ar_attr = noAttributes, ar_ids = []\<rparr>"

text \<open>The number of ids is computed in unsigned 32-bit arithmetic.\<close>

definition attr_numIds :: "event_header \<Rightarrow> event_attributes \<Rightarrow> u32" where
  "attr_numIds h a = (ucast (eh_size h) - (a_size a + ucast eventHeader_fixedLength)) div 8"

definition read_attr :: "attr_record \<Rightarrow> attr_record reader" where
  "read_attr r = do {
     a \<leftarrow> read_event_attributes (ar_attr r);
     ids \<leftarrow> read_n (unat (attr_numIds (r_header r) a)) read_u64;
     State_Monad.return (r\<lparr>ar_attr := a, ar_ids := ar_ids r @ ids\<rparr>)
   }"

end
