(* ===== verification/Samples.thy ===== *)
theory Samples
  imports Records
begin

text \<open>
  \<open>PerfRecordSample\<close> of \<open>app/perfdata.h\<close> and its reader in \<open>app/perfdata.cpp\<close>, one definition for each block of
  the reader, in the order of the code. Members and locals that the code leaves uninitialised are
  parameters.
\<close>


record read_value =
  rv_value :: u64
  rv_id :: u64
  rv_lost :: u64

text \<open>The bit fields of a branch entry are the bytes they are read from.\<close>

record branch_entry =
  be_from :: u64
  be_to :: u64
  be_flags :: bytes

record sample_record = perf_record +
  sr_readFormat :: u64
  sr_registerMask :: u64
  sr_ip :: u64
  sr_addr :: u64
  sr_period :: u64
  sr_timeEnabled :: u64
  sr_timeRunning :: u64
  sr_registerAbi :: u64
  sr_weight :: u64
  sr_dataSrc :: u64
  sr_transaction :: u64
  sr_readFormats :: "read_value list"
  sr_callchain :: "u64 list"
  sr_rawData :: bytes
  sr_branchStack :: "branch_entry list"
  sr_registers :: "u64 list"
  sr_userStack :: bytes

text \<open>The constructor leaves two members uninitialised; \<open>junk\<close> is what they hold.\<close>

definition newSample :: "u64 \<times> u64 \<Rightarrow> event_header \<Rightarrow> event_attributes \<Rightarrow> sample_record" where
  "newSample junk h a =
     \<lparr>r_header = h, r_sampleId = newSampleId (a_sampleType a) False, sr_readFormat = a_readFormat a,
      sr_registerMask = a_sampleRegsUser a, sr_ip = 0, sr_addr = 0, sr_period = 0, sr_timeEnabled = 0,
      sr_timeRunning = 0, sr_registerAbi = 0, sr_weight = 0, sr_dataSrc = fst junk,
      sr_transaction = snd junk, sr_readFormats = [], sr_callchain = [], sr_rawData = [],
      sr_branchStack = [], sr_registers = [], sr_userStack = []\<rparr>"

definition sr_has :: "sample_record \<Rightarrow> sample_format \<Rightarrow> bool" where
  "sr_has r f \<longleftrightarrow> has_sample (sid_sampleType (r_sampleId r)) f"

text \<open>The fixed fields. The id is read where the identifier is and again where the id is.\<close>

definition read_sample_fields :: "sample_record \<Rightarrow> sample_record reader" where
  "read_sample_fields r = do {
     sid \<leftarrow> read_if (sr_has r SAMPLE_IDENTIFIER) read_u64 (sid_id (r_sampleId r));
     ip \<leftarrow> read_if (sr_has r SAMPLE_IP) read_u64 (sr_ip r);
     pid \<leftarrow> read_if (sr_has r SAMPLE_TID) read_u32 (sid_pid (r_sampleId r));
     tid \<leftarrow> read_if (sr_has r SAMPLE_TID) read_u32 (sid_tid (r_sampleId r));
     time \<leftarrow> read_if (sr_has r SAMPLE_TIME) read_u64 (sid_time (r_sampleId r));
     addr \<leftarrow> read_if (sr_has r SAMPLE_ADDR) read_u64 (sr_addr r);
     sid \<leftarrow> read_if (sr_has r SAMPLE_ID) read_u64 sid;
     streamId \<leftarrow> read_if (sr_has r SAMPLE_STREAM_ID) read_u64 (sid_streamId (r_sampleId r));
     cpu \<leftarrow> read_if (sr_has r SAMPLE_CPU) read_u32 (sid_cpu (r_sampleId r));
     _ \<leftarrow> read_if (sr_has r SAMPLE_CPU) read_u32 0;
     period \<leftarrow> read_if (sr_has r SAMPLE_PERIOD) read_u64 (sr_period r);
     State_Monad.return
       (r\<lparr>r_sampleId := (r_sampleId r)\<lparr>sid_id := sid, sid_pid := pid, sid_tid := tid, sid_time := time,
            sid_streamId := streamId, sid_cpu := cpu\<rparr>,
          sr_ip := ip, sr_addr := addr, sr_period := period\<rparr>)
   }"

text \<open>The values of a group, read into one object.\<close>

primrec read_group :: "bool \<Rightarrow> nat \<Rightarrow> read_value \<Rightarrow> read_value list reader" where
  "read_group withLost 0 f = State_Monad.return []"
| "read_group withLost (Suc n) f = do {
     val \<leftarrow> read_u64;
     vid \<leftarrow> read_u64;
     lost \<leftarrow> read_if withLost read_u64 (rv_lost f);
     let f = \<lparr>rv_value = val, rv_id = vid, rv_lost = lost\<rparr>;
     fs \<leftarrow> read_group withLost n f;
     State_Monad.return (f # fs)
   }"

text \<open>\<open>f\<close> is the local \<open>format\<close>, which is not initialised.\<close>

definition read_formats :: "read_value \<Rightarrow> sample_record \<Rightarrow> sample_record reader" where
  "read_formats f r = do {
     let has = has_format (sr_readFormat r);
     numFormats \<leftarrow> read_if (has FORMAT_GROUP) read_u64 1;
     val \<leftarrow> read_if (\<not> has FORMAT_GROUP) read_u64 (rv_value f);
     enabled \<leftarrow> read_if (has FORMAT_TOTAL_TIME_ENABLED) read_u64 (sr_timeEnabled r);
     running \<leftarrow> read_if (has FORMAT_TOTAL_TIME_RUNNING) read_u64 (sr_timeRunning r);
     fs \<leftarrow> (if has FORMAT_GROUP then read_group (has FORMAT_LOST) (unat numFormats) f
            else do {
              vid \<leftarrow> read_u64;
              lost \<leftarrow> read_if (has FORMAT_LOST) read_u64 (rv_lost f);
              State_Monad.return [\<lparr>rv_value = val, rv_id = vid, rv_lost = lost\<rparr>]
            });
     State_Monad.return (r\<lparr>sr_timeEnabled := enabled, sr_timeRunning := running,
       sr_readFormats := sr_readFormats r @ fs\<rparr>)
   }"

definition read_callchain :: "sample_record \<Rightarrow> sample_record reader" where
  "read_callchain r = do {
     numIps \<leftarrow> read_u64;
     ips \<leftarrow> read_n (unat numIps) read_u64;
     State_Monad.return (r\<lparr>sr_callchain := sr_callchain r @ ips\<rparr>)
   }"

definition read_raw_data :: "sample_record \<Rightarrow> sample_record reader" where
  "read_raw_data r = do {
     rawSize \<leftarrow> read_u32;
     if uint rawSize > intMax then do {
       _ \<leftarrow> skipRawData intMax;
       _ \<leftarrow> skipRawData (sint (rawSize - word_of_int intMax));
       State_Monad.return r
     } else do {
       raw \<leftarrow> read_bytes (unat rawSize) (sr_rawData r);
       State_Monad.return (r\<lparr>sr_rawData := raw\<rparr>)
     }
   }"

primrec read_branches :: "nat \<Rightarrow> bytes \<Rightarrow> branch_entry list reader" where
  "read_branches 0 flags = State_Monad.return []"
| "read_branches (Suc n) flags = do {
     from' \<leftarrow> read_u64;
     to \<leftarrow> read_u64;
     flags \<leftarrow> readRawData 8 flags;
     es \<leftarrow> read_branches n flags;
     State_Monad.return (\<lparr>be_from = from', be_to = to, be_flags = flags\<rparr> # es)
   }"

definition read_branch_stack :: "bytes \<Rightarrow> sample_record \<Rightarrow> sample_record reader" where
  "read_branch_stack flags r = do {
     numBranches \<leftarrow> read_u64;
     es \<leftarrow> read_branches (unat numBranches) flags;
     State_Monad.return (r\<lparr>sr_branchStack := sr_branchStack r @ es\<rparr>)
   }"

definition qPopulationCount :: "u64 \<Rightarrow> nat" where
  "qPopulationCount w = length (filter (bit w) [0..<64])"

definition read_registers :: "sample_record \<Rightarrow> sample_record reader" where
  "read_registers r = do {
     abi \<leftarrow> read_u64;
     regs \<leftarrow> read_n (if abi \<noteq> 0 then qPopulationCount (sr_registerMask r) else 0) read_u64;
     State_Monad.return (r\<lparr>sr_registerAbi := abi, sr_registers := sr_registers r @ regs\<rparr>)
   }"

text \<open>The loop that skips a stack of more than \<open>INT_MAX\<close> bytes in pieces.\<close>

function skip_stack :: "int \<Rightarrow> int list" where
  "skip_stack n = (if n > intMax then intMax # skip_stack (n - intMax) else [n])"
  by pat_completeness auto
termination by (relation "measure nat") (auto simp: intMax_def)

declare skip_stack.simps [simp del]

primrec skip_all :: "int list \<Rightarrow> unit reader" where
  "skip_all [] = State_Monad.return ()"
| "skip_all (n # ns) = do { _ \<leftarrow> skipRawData n; skip_all ns }"

definition read_user_stack :: "sample_record \<Rightarrow> sample_record reader" where
  "read_user_stack r = do {
     sectionSize \<leftarrow> read_u64;
     if uint sectionSize > intMax then do {
       _ \<leftarrow> skip_all (skip_stack (uint sectionSize));
       _ \<leftarrow> skipRawData 8;
       State_Monad.return r
     } else if sectionSize > 0 then do {
       stack \<leftarrow> read_bytes (unat sectionSize) (sr_userStack r);
       contentSize \<leftarrow> read_u64;
       State_Monad.return (r\<lparr>sr_userStack :=
         (if contentSize > sectionSize then stack else take (unat contentSize) stack)\<rparr>)
     } else State_Monad.return r
   }"

definition read_sample_tail :: "sample_record \<Rightarrow> sample_record reader" where
  "read_sample_tail r = do {
     weight \<leftarrow> read_if (sr_has r SAMPLE_WEIGHT) read_u64 (sr_weight r);
     dataSrc \<leftarrow> read_if (sr_has r SAMPLE_DATA_SRC) read_u64 (sr_dataSrc r);
     transaction \<leftarrow> read_if (sr_has r SAMPLE_TRANSACTION) read_u64 (sr_transaction r);
     State_Monad.return
       (r\<lparr>sr_weight := weight, sr_dataSrc := dataSrc, sr_transaction := transaction\<rparr>)
   }"

text \<open>\<open>f\<close> and \<open>flags\<close> are the contents of uninitialised locals.\<close>

definition read_sample :: "read_value \<Rightarrow> bytes \<Rightarrow> sample_record \<Rightarrow> sample_record reader" where
  "read_sample f flags r = do {
     r \<leftarrow> read_sample_fields r;
     r \<leftarrow> read_if (sr_has r SAMPLE_READ) (read_formats f r) r;
     r \<leftarrow> read_if (sr_has r SAMPLE_CALLCHAIN) (read_callchain r) r;
     r \<leftarrow> read_if (sr_has r SAMPLE_RAW) (read_raw_data r) r;
     r \<leftarrow> read_if (sr_has r SAMPLE_BRANCH_STACK) (read_branch_stack flags r) r;
     r \<leftarrow> read_if (sr_has r SAMPLE_REGS_USER) (read_registers r) r;
     r \<leftarrow> read_if (sr_has r SAMPLE_STACK_USER) (read_user_stack r) r;
     read_sample_tail r
   }"

text \<open>The index of a register among the bits of the mask; all ones when there is no such value.\<close>

definition registerIndex :: "u64 \<Rightarrow> nat \<Rightarrow> nat" where
  "registerIndex m reg = fold (\<lambda>i n. if m AND push_bit i 1 \<noteq> 0 then Suc n else n) [0..<reg] 0"

definition registerValue :: "nat \<Rightarrow> sample_record \<Rightarrow> u64" where
  "registerValue reg r =
     (let i = registerIndex (sr_registerMask r) reg in
      if i < length (sr_registers r) then sr_registers r ! i else - 1)"

end
