(* ===== verification/EventBuffer.thy ===== *)
theory EventBuffer
  imports Samples
begin

text \<open>
  The event buffer of \<open>app/perfunwind.h\<close>, \<open>app/perfunwind.cpp\<close>: mappings, samples and task events are
  collected, sorted by time and flushed when the buffer grows over its target size, when a round is
  finished and at the end. What a flush does to the symbol tables and the client is the list of the
  actions it emits; none of them changes the buffer. Sizes are unsigned 32-bit words, times 64-bit words.
  \<open>sizeof(TaskEvent)\<close> depends on the version of Qt and is a constant of the state.
\<close>

section \<open>Statistics\<close>

record stats =
  st_numSamples :: u64
  st_numMmaps :: u64
  st_numRounds :: u64
  st_numBufferFlushes :: u64
  st_numTimeViolatingSamples :: u64
  st_numTimeViolatingMmaps :: u64
  st_numSamplesInRound :: u32
  st_numMmapsInRound :: u32
  st_numTaskEventsInRound :: u32
  st_maxSamplesPerRound :: u32
  st_maxMmapsPerRound :: u32
  st_maxTaskEventsPerRound :: u32
  st_maxSamplesPerFlush :: u32
  st_maxMmapsPerFlush :: u32
  st_maxTaskEventsPerFlush :: u32
  st_maxBufferSize :: u32
  st_maxTotalEventSizePerRound :: u32
  st_maxTime :: u64
  st_maxTimeBetweenRounds :: u64
  st_maxReorderTime :: u64
  st_lastRoundTime :: u64
  st_totalEventSizePerRound :: u32
  st_enabled :: bool

definition newStats :: stats where
  "newStats = \<lparr>st_numSamples = 0, st_numMmaps = 0, st_numRounds = 0, st_numBufferFlushes = 0,
     st_numTimeViolatingSamples = 0, st_numTimeViolatingMmaps = 0, st_numSamplesInRound = 0,
     st_numMmapsInRound = 0, st_numTaskEventsInRound = 0, st_maxSamplesPerRound = 0,
     st_maxMmapsPerRound = 0, st_maxTaskEventsPerRound = 0, st_maxSamplesPerFlush = 0,
     st_maxMmapsPerFlush = 0, st_maxTaskEventsPerFlush = 0, st_maxBufferSize = 0,
     st_maxTotalEventSizePerRound = 0, st_maxTime = 0, st_maxTimeBetweenRounds = 0,
     st_maxReorderTime = 0, st_lastRoundTime = 0, st_totalEventSizePerRound = 0, st_enabled = False\<rparr>"

definition addEventTime :: "u64 \<Rightarrow> stats \<Rightarrow> stats" where
  "addEventTime time st =
     (if time \<noteq> 0 \<and> time < st_maxTime st
      then st\<lparr>st_maxReorderTime := max (st_maxReorderTime st) (st_maxTime st - time)\<rparr>
      else st\<lparr>st_maxTime := time\<rparr>)"

definition stats_finishedRound :: "stats \<Rightarrow> stats" where
  "stats_finishedRound st = st\<lparr>
     st_numSamples := st_numSamples st + ucast (st_numSamplesInRound st),
     st_numMmaps := st_numMmaps st + ucast (st_numMmapsInRound st),
     st_maxSamplesPerRound := max (st_maxSamplesPerRound st) (st_numSamplesInRound st),
     st_maxMmapsPerRound := max (st_maxMmapsPerRound st) (st_numMmapsInRound st),
     st_maxTaskEventsPerRound := max (st_maxTaskEventsPerRound st) (st_numTaskEventsInRound st),
     st_numSamplesInRound := 0,
     st_numMmapsInRound := 0,
     st_numTaskEventsInRound := 0,
     st_numRounds := st_numRounds st + 1,
     st_maxTotalEventSizePerRound := max (st_maxTotalEventSizePerRound st) (st_totalEventSizePerRound st),
     st_totalEventSizePerRound := 0,
     st_maxTimeBetweenRounds :=
       (if st_lastRoundTime st > 0
        then max (st_maxTimeBetweenRounds st) (st_maxTime st - st_lastRoundTime st)
        else st_maxTimeBetweenRounds st),
     st_lastRoundTime := st_maxTime st\<rparr>"

section \<open>Events\<close>

datatype event_type = ThreadStart | ThreadEnd | Command | LocationDefinition | SymbolDefinition
  | StringDefinition | LostDefinition | FeaturesDefinition | ErrorEvent | Progress | TracePointFormat
  | AttributesDefinition | ContextSwitchDefinition | Sample | TracePointSample
  | DebugInfoDownloadProgress | InvalidType

text \<open>What a \<open>QVariant\<close> payload holds.\<close>

datatype payload = NoPayload | IntPayload s32 | BoolPayload bool | ULongPayload u64

text \<open>\<open>value<qint32>()\<close> of the payloads of task events that hold a process or string id.\<close>

definition payload_int :: "payload \<Rightarrow> s32" where
  "payload_int p = (case p of IntPayload i \<Rightarrow> i | _ \<Rightarrow> 0)"

record task_event =
  te_pid :: s32
  te_tid :: s32
  te_time :: u64
  te_cpu :: u32
  te_type :: event_type
  te_payload :: payload

definition record_time :: "'a perf_record_scheme \<Rightarrow> u64" where
  "record_time r = sid_time (r_sampleId r)"

definition record_size :: "'a perf_record_scheme \<Rightarrow> u32" where
  "record_size r = ucast (eh_size (r_header r))"

text \<open>What the buffer makes its owner do.\<close>

datatype action =
    RegisterElf mmap_record
  | InitAfterFork s32 s32
  | DropTable s32
  | SendTask task_event
  | Analyze sample_record
  | TimeOrderError u64 u64

record event_buffer =
  eb_samples :: "sample_record list"
  eb_mmaps :: "mmap_record list"
  eb_tasks :: "task_event list"
  eb_lastSize :: u32
  eb_maxSize :: u32
  eb_targetSize :: u32
  eb_size :: u32
  eb_violations :: u32
  eb_lastFlushMaxTime :: u64
  eb_stats :: stats
  eb_taskSize :: u32

definition newEventBuffer :: "u32 \<Rightarrow> bool \<Rightarrow> event_buffer" where
  "newEventBuffer taskSize printStats = \<lparr>eb_samples = [], eb_mmaps = [], eb_tasks = [],
     eb_lastSize = push_bit 20 1, eb_maxSize = push_bit 30 1, eb_targetSize = push_bit 25 1,
     eb_size = 0, eb_violations = 0, eb_lastFlushMaxTime = 0,
     eb_stats = newStats\<lparr>st_enabled := printStats\<rparr>, eb_taskSize = taskSize\<rparr>"

section \<open>Sizes of the buffer\<close>

text \<open>
  \<open>setMaxEventBufferSize\<close> and \<open>setTargetEventBufferSize\<close> call each other. The second call of either
  finds its own condition false, so each is written with the other's assignments.
\<close>

definition setMaxEventBufferSize :: "u32 \<Rightarrow> 'a event_buffer_scheme \<Rightarrow> 'a event_buffer_scheme" where
  "setMaxEventBufferSize n b =
     (let b = b\<lparr>eb_maxSize := n\<rparr> in
      if n < eb_targetSize b then b\<lparr>eb_lastSize := eb_targetSize b, eb_targetSize := n\<rparr> else b)"

definition setTargetEventBufferSize :: "u32 \<Rightarrow> 'a event_buffer_scheme \<Rightarrow> 'a event_buffer_scheme" where
  "setTargetEventBufferSize n b =
     (let b = b\<lparr>eb_lastSize := eb_targetSize b, eb_targetSize := n\<rparr> in
      if n > eb_maxSize b then setMaxEventBufferSize n b else b)"

definition revertTargetEventBufferSize :: "'a event_buffer_scheme \<Rightarrow> 'a event_buffer_scheme" where
  "revertTargetEventBufferSize b = setTargetEventBufferSize (eb_lastSize b) b"

section \<open>Flushing\<close>

text \<open>The locals of a flush: what the three iterators still have before them, and what was done.\<close>

record flush =
  f_size :: u32
  f_samples :: "sample_record list"
  f_mmaps :: "mmap_record list"
  f_tasks :: "task_event list"
  f_lastMax :: u64
  f_violates :: bool
  f_actions :: "action list"

definition emit :: "action list \<Rightarrow> flush \<Rightarrow> flush" where
  "emit as f = f\<lparr>f_actions := f_actions f @ as\<rparr>"

definition shrink :: "u32 \<Rightarrow> flush \<Rightarrow> flush" where
  "shrink n f = f\<lparr>f_size := f_size f - n\<rparr>"

primrec forward_mmaps :: "bool \<Rightarrow> u64 \<Rightarrow> mmap_record list \<Rightarrow> flush \<Rightarrow> flush" where
  "forward_mmaps enabled timestamp [] f = f"
| "forward_mmaps enabled timestamp (m # ms) f =
     (if record_time m \<le> timestamp
      then forward_mmaps enabled timestamp ms
        (shrink (record_size m) (if enabled then f else emit [RegisterElf m] f)\<lparr>f_mmaps := ms\<rparr>)
      else f)"

definition forwardMmapBuffer :: "bool \<Rightarrow> u64 \<Rightarrow> flush \<Rightarrow> flush" where
  "forwardMmapBuffer enabled timestamp f = forward_mmaps enabled timestamp (f_mmaps f) f"

definition handle_task :: "bool \<Rightarrow> task_event \<Rightarrow> flush \<Rightarrow> flush" where
  "handle_task enabled e f =
     (if enabled then f
      else if te_type e = ThreadStart \<and> te_payload e \<noteq> IntPayload (te_pid e)
      then emit [InitAfterFork (te_pid e) (payload_int (te_payload e)), SendTask e]
        (forwardMmapBuffer enabled (te_time e) f)
      else if te_type e = ThreadEnd \<and> te_pid e = te_tid e
      then emit [DropTable (te_pid e), SendTask e] f
      else emit [SendTask e] f)"

primrec flush_tasks :: "bool \<Rightarrow> u32 \<Rightarrow> u64 \<Rightarrow> task_event list \<Rightarrow> flush \<Rightarrow> flush" where
  "flush_tasks enabled taskSize timestamp [] f = f"
| "flush_tasks enabled taskSize timestamp (e # es) f =
     (if te_time e \<le> timestamp
      then flush_tasks enabled taskSize timestamp es
        (shrink taskSize (handle_task enabled e f)\<lparr>f_tasks := es\<rparr>)
      else f)"

definition process_sample :: "bool \<Rightarrow> u32 \<Rightarrow> sample_record \<Rightarrow> flush \<Rightarrow> flush" where
  "process_sample enabled taskSize s f =
     shrink (record_size s) (emit [Analyze s]
       (forwardMmapBuffer enabled (record_time s)
         (flush_tasks enabled taskSize (record_time s) (f_tasks f) f)))"

primrec flush_samples :: "bool \<Rightarrow> u32 \<Rightarrow> u32 \<Rightarrow> sample_record list \<Rightarrow> flush \<Rightarrow> flush" where
  "flush_samples enabled taskSize desired [] f = f"
| "flush_samples enabled taskSize desired (s # ss) f =
     (if f_size f > desired then
        if record_time s < f_lastMax f
        then flush_samples enabled taskSize desired ss
          (process_sample enabled taskSize s (f\<lparr>f_violates := True\<rparr>)\<lparr>f_samples := ss\<rparr>)
        else if f_violates f
        then forwardMmapBuffer enabled (f_lastMax f) f
        else flush_samples enabled taskSize desired ss
          (process_sample enabled taskSize s (f\<lparr>f_lastMax := record_time s\<rparr>)\<lparr>f_samples := ss\<rparr>)
      else f)"

primrec flush_rest_tasks :: "bool \<Rightarrow> u32 \<Rightarrow> u32 \<Rightarrow> task_event list \<Rightarrow> flush \<Rightarrow> flush" where
  "flush_rest_tasks enabled taskSize desired [] f = f"
| "flush_rest_tasks enabled taskSize desired (e # es) f =
     (if f_size f > desired
      then flush_rest_tasks enabled taskSize desired es
        (shrink taskSize (if enabled then f else emit [SendTask e] f)\<lparr>f_tasks := es\<rparr>)
      else f)"

definition start_flush :: "'a event_buffer_scheme \<Rightarrow> flush" where
  "start_flush b =
     (let ms = sort_key record_time (eb_mmaps b);
          late = ms \<noteq> [] \<and> record_time (hd ms) < eb_lastFlushMaxTime b in
      \<lparr>f_size = eb_size b, f_samples = sort_key record_time (eb_samples b), f_mmaps = ms,
       f_tasks = sort_key te_time (eb_tasks b), f_lastMax = eb_lastFlushMaxTime b, f_violates = late,
       f_actions = (if late then [TimeOrderError (record_time (hd ms)) (eb_lastFlushMaxTime b)] else [])\<rparr>)"

definition flush_loops :: "bool \<Rightarrow> u32 \<Rightarrow> u32 \<Rightarrow> flush \<Rightarrow> flush" where
  "flush_loops enabled taskSize desired f =
     (let f = flush_samples enabled taskSize desired (f_samples f) f in
      flush_rest_tasks enabled taskSize desired (f_tasks f) f)"

text \<open>The two blocks that keep statistics of a flush, from the state before it and the end of its loops.\<close>

definition flush_stats :: "flush \<Rightarrow> flush \<Rightarrow> stats \<Rightarrow> stats" where
  "flush_stats f0 f st =
     (let late = (\<lambda>r. length (takeWhile (\<lambda>t. t < f_lastMax f0) r)) in
      st\<lparr>st_numTimeViolatingSamples := st_numTimeViolatingSamples st
           + of_nat (late (map record_time (f_samples f0))),
         st_numTimeViolatingMmaps := st_numTimeViolatingMmaps st
           + of_nat (late (map record_time (f_mmaps f0))),
         st_numBufferFlushes := st_numBufferFlushes st + 1,
         st_maxSamplesPerFlush := max (of_nat (length (f_samples f0) - length (f_samples f)))
           (st_maxSamplesPerFlush st),
         st_maxMmapsPerFlush := max (of_nat (length (f_mmaps f0) - length (f_mmaps f)))
           (st_maxMmapsPerFlush st),
         st_maxTaskEventsPerFlush := max (of_nat (length (f_tasks f0) - length (f_tasks f)))
           (st_maxTaskEventsPerFlush st)\<rparr>)"

definition uintMax :: u32 where "uintMax = - 1"

text \<open>The size the buffer gets after a violation of the time order.\<close>

definition increased_size :: "u32 \<Rightarrow> 'a event_buffer_scheme \<Rightarrow> u32" where
  "increased_size bufferSize b =
     (let n = (if bufferSize < eb_lastSize b then eb_lastSize b else bufferSize);
          n = (if n > uintMax div 2 then uintMax else n * 2) in
      if n > eb_maxSize b then eb_maxSize b else n)"

definition flushEventBuffer :: "u32 \<Rightarrow> 'a event_buffer_scheme \<Rightarrow> 'a event_buffer_scheme \<times> action list" where
  "flushEventBuffer desired b =
     (let enabled = st_enabled (eb_stats b);
          f0 = start_flush b;
          f = flush_loops enabled (eb_taskSize b) desired f0;
          b' = b\<lparr>eb_samples := f_samples f, eb_mmaps := f_mmaps f, eb_tasks := f_tasks f,
                eb_size := f_size f, eb_lastFlushMaxTime := f_lastMax f,
                eb_stats := (if enabled then flush_stats f0 f (eb_stats b) else eb_stats b)\<rparr> in
      (if f_violates f
       then setTargetEventBufferSize (increased_size (eb_size b) b')
         (b'\<lparr>eb_violations := eb_violations b' + 1\<rparr>)
       else b',
       f_actions f))"

section \<open>Buffering\<close>

text \<open>\<open>bufferEvent\<close> after the event was appended to its buffer; \<open>increment\<close> increments its counter.\<close>

definition bufferEvent ::
  "u32 \<Rightarrow> u64 \<Rightarrow> (stats \<Rightarrow> stats) \<Rightarrow> 'a event_buffer_scheme \<Rightarrow> 'a event_buffer_scheme \<times> action list"
where
  "bufferEvent n time increment b =
     (let b = b\<lparr>eb_size := eb_size b + n\<rparr>;
          b = (if st_enabled (eb_stats b) then
                 let st = increment (eb_stats b) in
                 b\<lparr>eb_stats := addEventTime time (st\<lparr>
                    st_maxBufferSize := max (eb_size b) (st_maxBufferSize st),
                    st_totalEventSizePerRound := st_totalEventSizePerRound st + n\<rparr>)\<rparr>
               else b) in
      if eb_targetSize b \<noteq> 0 \<and> eb_size b > eb_targetSize b
      then flushEventBuffer (eb_targetSize b div 2) b
      else (b, []))"

definition bufferMmap :: "mmap_record \<Rightarrow> 'a event_buffer_scheme \<Rightarrow> 'a event_buffer_scheme \<times> action list" where
  "bufferMmap m b = bufferEvent (record_size m) (record_time m)
     (\<lambda>st. st\<lparr>st_numMmapsInRound := st_numMmapsInRound st + 1\<rparr>) (b\<lparr>eb_mmaps := eb_mmaps b @ [m]\<rparr>)"

definition bufferSample :: "sample_record \<Rightarrow> 'a event_buffer_scheme \<Rightarrow> 'a event_buffer_scheme \<times> action list" where
  "bufferSample s b = bufferEvent (record_size s) (record_time s)
     (\<lambda>st. st\<lparr>st_numSamplesInRound := st_numSamplesInRound st + 1\<rparr>) (b\<lparr>eb_samples := eb_samples b @ [s]\<rparr>)"

definition bufferTask :: "task_event \<Rightarrow> 'a event_buffer_scheme \<Rightarrow> 'a event_buffer_scheme \<times> action list" where
  "bufferTask e b = bufferEvent (eb_taskSize b) (te_time e)
     (\<lambda>st. st\<lparr>st_numTaskEventsInRound := st_numTaskEventsInRound st + 1\<rparr>) (b\<lparr>eb_tasks := eb_tasks b @ [e]\<rparr>)"

text \<open>\<open>tracepoints\<close> is what \<open>hasTracePointAttributes\<close> answers.\<close>

definition finishedRound :: "bool \<Rightarrow> 'a event_buffer_scheme \<Rightarrow> 'a event_buffer_scheme \<times> action list" where
  "finishedRound tracepoints b =
     (let b = (if st_enabled (eb_stats b) then b\<lparr>eb_stats := stats_finishedRound (eb_stats b)\<rparr> else b) in
      if eb_targetSize b = 0 then flushEventBuffer (eb_size b div 2) b
      else if eb_violations b = 0 \<and> \<not> tracepoints then (setTargetEventBufferSize 0 b, [])
      else (b, []))"

definition finalize :: "bool \<Rightarrow> 'a event_buffer_scheme \<Rightarrow> 'a event_buffer_scheme \<times> action list" where
  "finalize tracepoints b =
     (let (b, as) = finishedRound tracepoints b; (b, bs) = flushEventBuffer 0 b in (b, as @ bs))"

end
