(* ===== verification/EventBufferFacts.thy ===== *)
theory EventBufferFacts
  imports EventBuffer
begin

text \<open>
  Facts of the event buffer. The locale \<open>flush_invariant\<close> is the contract of a flush: what the single
  steps of its loops keep, the loops keep; its extension adds the loop over the remaining task events.
  Its interpretations give the bookkeeping of sizes, the order and completeness of what is emitted and
  the state in which a sample is analysed. Runs of buffer operations lift these to the whole component.
\<close>

section \<open>What a list of actions did\<close>

primrec analysed :: "action list \<Rightarrow> sample_record list" where
  "analysed [] = []"
| "analysed (a # as) = (case a of Analyze s \<Rightarrow> s # analysed as | _ \<Rightarrow> analysed as)"

primrec registered :: "action list \<Rightarrow> mmap_record list" where
  "registered [] = []"
| "registered (a # as) = (case a of RegisterElf m \<Rightarrow> m # registered as | _ \<Rightarrow> registered as)"

primrec sent_tasks :: "action list \<Rightarrow> task_event list" where
  "sent_tasks [] = []"
| "sent_tasks (a # as) = (case a of SendTask e \<Rightarrow> e # sent_tasks as | _ \<Rightarrow> sent_tasks as)"

lemma actions_append [simp]:
  "analysed (as @ bs) = analysed as @ analysed bs"
  "registered (as @ bs) = registered as @ registered bs"
  "sent_tasks (as @ bs) = sent_tasks as @ sent_tasks bs"
  by (induction as) (auto split: action.split)

lemma emit_fields [simp]:
  "f_size (emit as f) = f_size f" "f_samples (emit as f) = f_samples f" "f_mmaps (emit as f) = f_mmaps f"
  "f_tasks (emit as f) = f_tasks f" "f_lastMax (emit as f) = f_lastMax f"
  "f_violates (emit as f) = f_violates f" "f_actions (emit as f) = f_actions f @ as"
  by (simp_all add: emit_def)

lemma shrink_fields [simp]:
  "f_size (shrink n f) = f_size f - n" "f_samples (shrink n f) = f_samples f"
  "f_mmaps (shrink n f) = f_mmaps f" "f_tasks (shrink n f) = f_tasks f"
  "f_lastMax (shrink n f) = f_lastMax f" "f_violates (shrink n f) = f_violates f"
  "f_actions (shrink n f) = f_actions f"
  by (simp_all add: shrink_def)

lemma emit_emit: "emit bs (emit as f) = emit (as @ bs) f"
  by (simp add: emit_def)

section \<open>What the loops leave alone\<close>

lemma forward_mmaps_frame [simp]:
  "f_samples (forward_mmaps en t ms f) = f_samples f" "f_tasks (forward_mmaps en t ms f) = f_tasks f"
  "f_lastMax (forward_mmaps en t ms f) = f_lastMax f" "f_violates (forward_mmaps en t ms f) = f_violates f"
  by (induction ms arbitrary: f) auto

lemma f_mmaps_forward:
  "f_mmaps f = ms \<Longrightarrow> f_mmaps (forward_mmaps en t ms f) = dropWhile (\<lambda>m. record_time m \<le> t) ms"
  by (induction ms arbitrary: f) auto

lemma forwardMmapBuffer_frame [simp]:
  "f_samples (forwardMmapBuffer en t f) = f_samples f" "f_tasks (forwardMmapBuffer en t f) = f_tasks f"
  "f_lastMax (forwardMmapBuffer en t f) = f_lastMax f" "f_violates (forwardMmapBuffer en t f) = f_violates f"
  "f_mmaps (forwardMmapBuffer en t f) = dropWhile (\<lambda>m. record_time m \<le> t) (f_mmaps f)"
  by (simp_all add: forwardMmapBuffer_def f_mmaps_forward)

lemma handle_task_frame [simp]:
  "f_samples (handle_task en e f) = f_samples f" "f_tasks (handle_task en e f) = f_tasks f"
  "f_lastMax (handle_task en e f) = f_lastMax f" "f_violates (handle_task en e f) = f_violates f"
  by (auto simp: handle_task_def)

lemma flush_tasks_frame [simp]:
  "f_samples (flush_tasks en ts t es f) = f_samples f"
  "f_lastMax (flush_tasks en ts t es f) = f_lastMax f"
  "f_violates (flush_tasks en ts t es f) = f_violates f"
  by (induction es arbitrary: f) auto

lemma f_tasks_flush_tasks:
  "f_tasks f = es \<Longrightarrow> f_tasks (flush_tasks en ts t es f) = dropWhile (\<lambda>e. te_time e \<le> t) es"
  by (induction es arbitrary: f) auto

lemma sorted_dropWhile_map: "sorted (map k xs) \<Longrightarrow> sorted (map k (dropWhile P xs))"
  by (metis dropWhile_eq_drop drop_map sorted_wrt_drop)

lemma dropWhile_sorted_gt:
  fixes k :: "'e \<Rightarrow> u64"
  shows "sorted (map k xs) \<Longrightarrow> x \<in> set (dropWhile (\<lambda>y. k y \<le> t) xs) \<Longrightarrow> t < k x"
  by (induction xs) (fastforce split: if_splits)+

lemma handle_task_mmaps:
  "sorted (map record_time (f_mmaps f)) \<Longrightarrow> sorted (map record_time (f_mmaps (handle_task en e f)))"
  by (simp add: handle_task_def sorted_dropWhile_map)

lemma flush_tasks_mmaps:
  "sorted (map record_time (f_mmaps f)) \<Longrightarrow> sorted (map record_time (f_mmaps (flush_tasks en ts t es f)))"
  by (induction es arbitrary: f) (simp_all add: handle_task_mmaps)

section \<open>The contract of a flush\<close>

definition sorted_flush :: "flush \<Rightarrow> bool" where
  "sorted_flush f \<longleftrightarrow> sorted (map record_time (f_samples f)) \<and> sorted (map record_time (f_mmaps f))
     \<and> sorted (map te_time (f_tasks f))"

locale flush_invariant =
  fixes enabled :: bool and taskSize :: u32 and P :: "flush \<Rightarrow> bool"
  assumes mmap_step: "P f \<Longrightarrow> f_mmaps f = m # ms \<Longrightarrow> \<forall>s \<in> set (f_samples f). record_time m \<le> record_time s
      \<Longrightarrow> P (shrink (record_size m) (if enabled then f else emit [RegisterElf m] f)\<lparr>f_mmaps := ms\<rparr>)"
    and fork_step: "P f \<Longrightarrow> P (emit [InitAfterFork p q] f)"
    and drop_step: "P f \<Longrightarrow> P (emit [DropTable p] f)"
    and task_step: "P f \<Longrightarrow> f_tasks f = e # es \<Longrightarrow> \<forall>s \<in> set (f_samples f). te_time e \<le> record_time s
      \<Longrightarrow> P (shrink taskSize (if enabled then f else emit [SendTask e] f)\<lparr>f_tasks := es\<rparr>)"
    and sample_step: "P f \<Longrightarrow> f_samples f = s # ss \<Longrightarrow> \<forall>m \<in> set (f_mmaps f). record_time s < record_time m
      \<Longrightarrow> \<forall>e \<in> set (f_tasks f). record_time s < te_time e
      \<Longrightarrow> P (shrink (record_size s) (emit [Analyze s] f)\<lparr>f_samples := ss\<rparr>)"
    and violate_step: "P f \<Longrightarrow> f_samples f = s # ss \<Longrightarrow> record_time s < f_lastMax f
      \<Longrightarrow> P (f\<lparr>f_violates := True\<rparr>)"
    and advance_step: "P f \<Longrightarrow> f_samples f = s # ss \<Longrightarrow> \<not> f_violates f \<Longrightarrow> f_lastMax f \<le> record_time s
      \<Longrightarrow> P (f\<lparr>f_lastMax := record_time s\<rparr>)"
begin

lemma forward_keeps:
  assumes "P f" "\<forall>s \<in> set (f_samples f). t \<le> record_time s"
  shows "P (forwardMmapBuffer enabled t f)"
proof -
  have "P (forward_mmaps enabled t ms f)" if "P f" "f_mmaps f = ms" "\<forall>s \<in> set (f_samples f). t \<le> record_time s"
    for ms f using that
  proof (induction ms arbitrary: f)
    case (Cons m ms)
    show ?case
    proof (cases "record_time m \<le> t")
      case True
      then have "\<forall>s \<in> set (f_samples f). record_time m \<le> record_time s"
        using Cons.prems(3) by (meson order_trans)
      from Cons.IH [OF mmap_step [OF Cons.prems(1,2) this]] show ?thesis
        using True Cons.prems(3) by (simp split: if_splits)
    next
      case False then show ?thesis using Cons.prems(1) by simp
    qed
  qed simp
  then show ?thesis using assms by (simp add: forwardMmapBuffer_def)
qed

lemma handle_keeps:
  assumes "P f" "f_tasks f = e # es" "\<forall>s \<in> set (f_samples f). te_time e \<le> record_time s"
  shows "P (shrink taskSize (handle_task enabled e f)\<lparr>f_tasks := es\<rparr>)"
proof -
  have two: "emit [a, b] g = emit [b] (emit [a] g)" for a b g by (simp add: emit_emit)
  consider "enabled"
    | "\<not> enabled" "te_type e = ThreadStart" "te_payload e \<noteq> IntPayload (te_pid e)"
    | "\<not> enabled" "te_type e = ThreadEnd" "te_pid e = te_tid e"
    | "\<not> enabled" "\<not> (te_type e = ThreadStart \<and> te_payload e \<noteq> IntPayload (te_pid e))"
      "\<not> (te_type e = ThreadEnd \<and> te_pid e = te_tid e)"
    by blast
  then show ?thesis
  proof cases
    case 1 then show ?thesis using task_step [OF assms] by (simp add: handle_task_def)
  next
    case 2
    let ?g = "emit [InitAfterFork (te_pid e) (payload_int (te_payload e))] (forwardMmapBuffer enabled (te_time e) f)"
    have "P ?g" by (rule fork_step [OF forward_keeps [OF assms(1,3)]])
    from task_step [OF this, where e = e and es = es] show ?thesis
      using 2 assms by (simp add: handle_task_def two)
  next
    case 3
    from task_step [OF drop_step [OF assms(1)], where e = e and es = es] show ?thesis
      using 3 assms by (simp add: handle_task_def two)
  next
    case 4
    then have "handle_task enabled e f = emit [SendTask e] f"
      unfolding handle_task_def by (metis (full_types))
    then show ?thesis using task_step [OF assms] 4(1) by simp
  qed
qed

lemma tasks_keep:
  assumes "P f" "f_tasks f = es" "\<forall>s \<in> set (f_samples f). t \<le> record_time s"
  shows "P (flush_tasks enabled taskSize t es f)"
  using assms
proof (induction es arbitrary: f)
  case (Cons e es)
  show ?case
  proof (cases "te_time e \<le> t")
    case True
    then have "\<forall>s \<in> set (f_samples f). te_time e \<le> record_time s"
      using Cons.prems(3) by (meson order_trans)
    from Cons.IH [OF handle_keeps [OF Cons.prems(1,2) this]] show ?thesis
      using True Cons.prems(3) by simp
  next
    case False then show ?thesis using Cons.prems(1) by simp
  qed
qed simp

lemma process_keeps:
  assumes "P f" "f_samples f = s # ss" "sorted_flush f"
  shows "P (process_sample enabled taskSize s f\<lparr>f_samples := ss\<rparr>)"
    and "sorted_flush (process_sample enabled taskSize s f\<lparr>f_samples := ss\<rparr>)"
proof -
  let ?t = "record_time s"
  let ?g = "flush_tasks enabled taskSize ?t (f_tasks f) f"
  let ?h = "forwardMmapBuffer enabled ?t ?g"
  have le: "\<forall>r \<in> set (f_samples f). ?t \<le> record_time r"
    using assms(2,3) by (simp add: sorted_flush_def)
  have ms: "sorted (map record_time (f_mmaps ?g))"
    using assms(3) by (simp add: sorted_flush_def flush_tasks_mmaps)
  have es: "f_tasks ?g = dropWhile (\<lambda>e. te_time e \<le> ?t) (f_tasks f)"
    by (rule f_tasks_flush_tasks) simp
  have "P ?g" by (rule tasks_keep [OF assms(1) refl le])
  then have h: "P ?h" by (rule forward_keeps) (simp add: le)
  show "P (process_sample enabled taskSize s f\<lparr>f_samples := ss\<rparr>)"
    unfolding process_sample_def
    by (rule sample_step [OF h])
      (use assms(2,3) es dropWhile_sorted_gt [OF ms] dropWhile_sorted_gt [of te_time "f_tasks f"] in
        \<open>auto simp: sorted_flush_def\<close>)
  show "sorted_flush (process_sample enabled taskSize s f\<lparr>f_samples := ss\<rparr>)"
    using assms(2,3) es ms by (simp add: sorted_flush_def process_sample_def sorted_dropWhile_map)
qed

theorem samples_keep:
  assumes "P f" "f_samples f = ss" "sorted_flush f"
  shows "P (flush_samples enabled taskSize desired ss f)
    \<and> sorted_flush (flush_samples enabled taskSize desired ss f)"
  using assms
proof (induction ss arbitrary: f)
  case (Cons s ss)
  note P = Cons.prems(1) and fs = Cons.prems(2) and sorted = Cons.prems(3)
  have next_sample: ?case
    if g: "P g" "f_samples g = s # ss" "sorted_flush g"
      and eq: "flush_samples enabled taskSize desired (s # ss) f =
        flush_samples enabled taskSize desired ss (process_sample enabled taskSize s g\<lparr>f_samples := ss\<rparr>)" for g
    unfolding eq by (rule Cons.IH [OF process_keeps(1) [OF g] _ process_keeps(2) [OF g]]) simp
  consider "\<not> f_size f > desired" | "f_size f > desired" "record_time s < f_lastMax f"
    | "f_size f > desired" "\<not> record_time s < f_lastMax f" "f_violates f"
    | "f_size f > desired" "\<not> record_time s < f_lastMax f" "\<not> f_violates f" by blast
  then show ?case
  proof cases
    case 1 then show ?thesis using P sorted by simp
  next
    case 2 show ?thesis
      by (rule next_sample [OF violate_step [OF P fs 2(2)]]) (use 2 fs sorted in \<open>simp_all add: sorted_flush_def\<close>)
  next
    case 3
    have "\<forall>r \<in> set (f_samples f). f_lastMax f \<le> record_time r"
      using 3(2) fs sorted by (auto simp: sorted_flush_def)
    from forward_keeps [OF P this] show ?thesis
      using 3 sorted by (simp add: sorted_flush_def sorted_dropWhile_map)
  next
    case 4
    then have "f_lastMax f \<le> record_time s" by simp
    from advance_step [OF P fs 4(3) this] show ?thesis
      by (rule next_sample) (use 4 fs sorted in \<open>simp_all add: sorted_flush_def\<close>)
  qed
qed simp

end

locale flush_invariant_rest = flush_invariant +
  assumes rest_step: "P f \<Longrightarrow> f_tasks f = e # es
      \<Longrightarrow> P (shrink taskSize (if enabled then f else emit [SendTask e] f)\<lparr>f_tasks := es\<rparr>)"
begin

lemma rest_keeps: "P f \<Longrightarrow> f_tasks f = es \<Longrightarrow> P (flush_rest_tasks enabled taskSize desired es f)"
proof (induction es arbitrary: f)
  case (Cons e es)
  then show ?case using rest_step [OF Cons.prems] by simp
qed simp

theorem loops_keep:
  assumes "P f" "sorted_flush f"
  shows "P (flush_loops enabled taskSize desired f)"
  using samples_keep [OF assms(1) refl assms(2)] by (simp add: flush_loops_def Let_def rest_keeps)

end

section \<open>Bookkeeping of sizes\<close>

text \<open>The sizes of the events that are still to be flushed.\<close>

definition pending_size :: "u32 \<Rightarrow> sample_record list \<Rightarrow> mmap_record list \<Rightarrow> task_event list \<Rightarrow> u32" where
  "pending_size taskSize ss ms es =
     sum_list (map record_size ss) + sum_list (map record_size ms) + of_nat (length es) * taskSize"

definition size_kept :: "u32 \<Rightarrow> flush \<Rightarrow> bool" where
  "size_kept taskSize f \<longleftrightarrow> f_size f = pending_size taskSize (f_samples f) (f_mmaps f) (f_tasks f)"

interpretation sizes: flush_invariant_rest enabled taskSize "size_kept taskSize" for enabled taskSize
  by unfold_locales (simp_all add: size_kept_def pending_size_def algebra_simps)

section \<open>Order and completeness\<close>

text \<open>What was emitted and what is pending make up what there was, in order.\<close>

definition history ::
  "sample_record list \<Rightarrow> mmap_record list \<Rightarrow> task_event list \<Rightarrow> flush \<Rightarrow> bool"
where
  "history ss ms es f \<longleftrightarrow> analysed (f_actions f) @ f_samples f = ss
     \<and> registered (f_actions f) @ f_mmaps f = ms \<and> sent_tasks (f_actions f) @ f_tasks f = es"

interpretation history: flush_invariant_rest False taskSize "history ss ms es" for taskSize ss ms es
  by unfold_locales (simp_all add: history_def)

section \<open>The state in which a sample is analysed\<close>

definition analysed_in_state :: "mmap_record list \<Rightarrow> task_event list \<Rightarrow> action list \<Rightarrow> bool" where
  "analysed_in_state ms es as \<longleftrightarrow> (\<forall>pre s post. as = pre @ Analyze s # post \<longrightarrow>
     registered pre = filter (\<lambda>m. record_time m \<le> record_time s) ms
     \<and> sent_tasks pre = filter (\<lambda>e. te_time e \<le> record_time s) es)"

lemma analysed_in_state_snoc:
  "analysed_in_state ms es (as @ [a]) \<longleftrightarrow> analysed_in_state ms es as
    \<and> (\<forall>s. a = Analyze s \<longrightarrow> registered as = filter (\<lambda>m. record_time m \<le> record_time s) ms
         \<and> sent_tasks as = filter (\<lambda>e. te_time e \<le> record_time s) es)"
proof -
  have "as @ [a] = pre @ Analyze s # post \<longleftrightarrow>
      (post = [] \<and> pre = as \<and> a = Analyze s) \<or> (\<exists>post'. post = post' @ [a] \<and> as = pre @ Analyze s # post')"
    for pre s post
    by (cases post rule: rev_cases) auto
  then show ?thesis unfolding analysed_in_state_def by auto
qed

lemma analysed_in_state_other:
  "analysed_in_state ms es as \<Longrightarrow> \<forall>s. a \<noteq> Analyze s \<Longrightarrow> analysed_in_state ms es (as @ [a])"
  by (simp add: analysed_in_state_snoc)

definition causal ::
  "sample_record list \<Rightarrow> mmap_record list \<Rightarrow> task_event list \<Rightarrow> flush \<Rightarrow> bool"
where
  "causal ss ms es f \<longleftrightarrow> history ss ms es f \<and> analysed_in_state ms es (f_actions f)
     \<and> (\<forall>s \<in> set (f_samples f). (\<forall>m \<in> set (registered (f_actions f)). record_time m \<le> record_time s)
           \<and> (\<forall>e \<in> set (sent_tasks (f_actions f)). te_time e \<le> record_time s))"

lemma filter_split:
  "(\<forall>x \<in> set xs. Q x) \<Longrightarrow> (\<forall>y \<in> set ys. \<not> Q y) \<Longrightarrow> filter Q (xs @ ys) = xs"
  by (simp add: filter_id_conv)

lemma causal_sample:
  assumes c: "causal ss0 ms es f" and fs: "f_samples f = s # ss"
    and m: "\<forall>m \<in> set (f_mmaps f). record_time s < record_time m"
    and e: "\<forall>e \<in> set (f_tasks f). record_time s < te_time e"
  shows "causal ss0 ms es (shrink (record_size s) (emit [Analyze s] f)\<lparr>f_samples := ss\<rparr>)"
proof -
  have h: "registered (f_actions f) @ f_mmaps f = ms" "sent_tasks (f_actions f) @ f_tasks f = es"
    using c by (simp_all add: causal_def history_def)
  have "registered (f_actions f) = filter (\<lambda>m. record_time m \<le> record_time s) ms"
    unfolding h(1) [symmetric] using c m fs by (intro filter_split [symmetric]) (auto simp: causal_def)
  moreover have "sent_tasks (f_actions f) = filter (\<lambda>e. te_time e \<le> record_time s) es"
    unfolding h(2) [symmetric] using c e fs by (intro filter_split [symmetric]) (auto simp: causal_def)
  ultimately show ?thesis
    using c fs by (simp add: causal_def history_def analysed_in_state_snoc)
qed

interpretation causal: flush_invariant False taskSize "causal ss ms es" for taskSize ss ms es
proof unfold_locales
  fix f s rest
  assume "causal ss ms es f" "f_samples f = s # rest"
    "\<forall>m \<in> set (f_mmaps f). record_time s < record_time m" "\<forall>e \<in> set (f_tasks f). record_time s < te_time e"
  then show "causal ss ms es (shrink (record_size s) (emit [Analyze s] f)\<lparr>f_samples := rest\<rparr>)"
    by (rule causal_sample)
qed (auto simp: causal_def history_def analysed_in_state_other)

lemma rest_analysed_in_state:
  "analysed_in_state ms es (f_actions f)
    \<Longrightarrow> analysed_in_state ms es (f_actions (flush_rest_tasks enabled taskSize desired ts f))"
  by (induction ts arbitrary: f) (simp_all add: analysed_in_state_other)

section \<open>A whole flush\<close>

lemma sorted_start_flush: "sorted_flush (start_flush b)"
  by (simp add: start_flush_def Let_def sorted_flush_def)

lemma start_flush_fields:
  "f_size (start_flush b) = eb_size b" "f_samples (start_flush b) = sort_key record_time (eb_samples b)"
  "f_mmaps (start_flush b) = sort_key record_time (eb_mmaps b)"
  "f_tasks (start_flush b) = sort_key te_time (eb_tasks b)" "f_lastMax (start_flush b) = eb_lastFlushMaxTime b"
  "analysed (f_actions (start_flush b)) = []" "registered (f_actions (start_flush b)) = []"
  "sent_tasks (f_actions (start_flush b)) = []" "analysed_in_state ms es (f_actions (start_flush b))"
  by (simp_all add: start_flush_def Let_def analysed_in_state_def Cons_eq_append_conv)

lemma set_target_fields [simp]:
  "eb_samples (setTargetEventBufferSize n b) = eb_samples b"
  "eb_mmaps (setTargetEventBufferSize n b) = eb_mmaps b"
  "eb_tasks (setTargetEventBufferSize n b) = eb_tasks b"
  "eb_size (setTargetEventBufferSize n b) = eb_size b"
  "eb_lastFlushMaxTime (setTargetEventBufferSize n b) = eb_lastFlushMaxTime b"
  "eb_violations (setTargetEventBufferSize n b) = eb_violations b"
  "eb_stats (setTargetEventBufferSize n b) = eb_stats b"
  "eb_taskSize (setTargetEventBufferSize n b) = eb_taskSize b"
  by (simp_all add: setTargetEventBufferSize_def setMaxEventBufferSize_def Let_def)

text \<open>The fields of the buffer after a flush, in terms of the end of its loops.\<close>

definition flushed :: "u32 \<Rightarrow> 'a event_buffer_scheme \<Rightarrow> flush" where
  "flushed desired b = flush_loops (st_enabled (eb_stats b)) (eb_taskSize b) desired (start_flush b)"

lemma flushEventBuffer_fields:
  "snd (flushEventBuffer desired b) = f_actions (flushed desired b)"
  "eb_samples (fst (flushEventBuffer desired b)) = f_samples (flushed desired b)"
  "eb_mmaps (fst (flushEventBuffer desired b)) = f_mmaps (flushed desired b)"
  "eb_tasks (fst (flushEventBuffer desired b)) = f_tasks (flushed desired b)"
  "eb_size (fst (flushEventBuffer desired b)) = f_size (flushed desired b)"
  "eb_lastFlushMaxTime (fst (flushEventBuffer desired b)) = f_lastMax (flushed desired b)"
  "eb_violations (fst (flushEventBuffer desired b))
    = eb_violations b + (if f_violates (flushed desired b) then 1 else 0)"
  "eb_taskSize (fst (flushEventBuffer desired b)) = eb_taskSize b"
  "st_enabled (eb_stats (fst (flushEventBuffer desired b))) = st_enabled (eb_stats b)"
  by (auto simp: flushEventBuffer_def flushed_def flush_stats_def Let_def)

lemma flushed_history:
  assumes "\<not> st_enabled (eb_stats b)"
  shows "history (sort_key record_time (eb_samples b)) (sort_key record_time (eb_mmaps b))
    (sort_key te_time (eb_tasks b)) (flushed desired b)"
  using assms history.loops_keep [OF _ sorted_start_flush, of _ _ _ b "eb_taskSize b" desired]
  by (simp add: flushed_def history_def start_flush_fields)

lemma flushed_causal:
  assumes "\<not> st_enabled (eb_stats b)"
  shows "analysed_in_state (sort_key record_time (eb_mmaps b)) (sort_key te_time (eb_tasks b))
    (f_actions (flushed desired b))"
proof -
  let ?f = "start_flush b"
  let ?ss = "sort_key record_time (eb_samples b)" and ?ms = "sort_key record_time (eb_mmaps b)"
    and ?es = "sort_key te_time (eb_tasks b)"
  have "causal ?ss ?ms ?es ?f"
    by (simp add: causal_def history_def start_flush_fields)
  from causal.samples_keep [OF this refl sorted_start_flush, of "eb_taskSize b" desired]
  have "analysed_in_state ?ms ?es (f_actions (flush_samples False (eb_taskSize b) desired (f_samples ?f) ?f))"
    by (simp add: causal_def)
  then show ?thesis
    using assms by (simp add: flushed_def flush_loops_def Let_def rest_analysed_in_state)
qed

text \<open>
  C31: when a flush analyses a sample, exactly the buffered mappings and task events that are not
  later than the sample have been forwarded, in the order of their times, and the samples before it
  are those that come before it in time; the order of events of the same time is the order in which
  they were buffered.
\<close>
theorem flush_causality:
  assumes "\<not> st_enabled (eb_stats b)" "flushEventBuffer desired b = (b', as)" "as = pre @ Analyze s # post"
  shows "registered pre = filter (\<lambda>m. record_time m \<le> record_time s) (sort_key record_time (eb_mmaps b))
    \<and> sent_tasks pre = filter (\<lambda>e. te_time e \<le> record_time s) (sort_key te_time (eb_tasks b))
    \<and> analysed pre @ s # analysed post @ eb_samples b' = sort_key record_time (eb_samples b)"
proof -
  have as: "as = f_actions (flushed desired b)" and ss: "eb_samples b' = f_samples (flushed desired b)"
    using flushEventBuffer_fields(1,2) [of desired b] assms(2) by simp_all
  have "analysed as @ eb_samples b' = sort_key record_time (eb_samples b)"
    using flushed_history [OF assms(1), of desired] by (simp add: history_def as ss)
  moreover have "analysed_in_state (sort_key record_time (eb_mmaps b)) (sort_key te_time (eb_tasks b)) as"
    unfolding as by (rule flushed_causal [OF assms(1)])
  ultimately show ?thesis using assms(3) by (simp add: analysed_in_state_def)
qed

section \<open>Runs of the buffer\<close>

datatype op = BufferMmap mmap_record | BufferSample sample_record | BufferTask task_event
  | FinishRound bool | SetMaxSize u32 | SetTargetSize u32

fun buffer_step :: "op \<Rightarrow> event_buffer \<Rightarrow> event_buffer \<times> action list" where
  "buffer_step (BufferMmap m) b = bufferMmap m b"
| "buffer_step (BufferSample s) b = bufferSample s b"
| "buffer_step (BufferTask e) b = bufferTask e b"
| "buffer_step (FinishRound t) b = finishedRound t b"
| "buffer_step (SetMaxSize n) b = (setMaxEventBufferSize n b, [])"
| "buffer_step (SetTargetSize n) b = (setTargetEventBufferSize n b, [])"

primrec buffer_run :: "op list \<Rightarrow> event_buffer \<Rightarrow> event_buffer \<times> action list" where
  "buffer_run [] b = (b, [])"
| "buffer_run (a # ops) b =
     (let (b, as) = buffer_step a b; (b, bs) = buffer_run ops b in (b, as @ bs))"

lemma buffer_run_snoc:
  "buffer_run (ops @ [a]) b =
     (let (b, as) = buffer_run ops b; (b, bs) = buffer_step a b in (b, as @ bs))"
  by (induction ops arbitrary: b) (simp_all add: split_beta Let_def)

text \<open>
  Every operation ends in an unchanged buffer, or in a flush, after it has appended at most its own
  event. The locale states this once: what appending, resizing and flushing keep, every run keeps.
\<close>

definition append_op :: "op \<Rightarrow> event_buffer \<Rightarrow> event_buffer" where
  "append_op a b = (case a of
     BufferMmap m \<Rightarrow> b\<lparr>eb_mmaps := eb_mmaps b @ [m], eb_size := eb_size b + record_size m\<rparr>
   | BufferSample s \<Rightarrow> b\<lparr>eb_samples := eb_samples b @ [s], eb_size := eb_size b + record_size s\<rparr>
   | BufferTask e \<Rightarrow> b\<lparr>eb_tasks := eb_tasks b @ [e], eb_size := eb_size b + eb_taskSize b\<rparr>
   | _ \<Rightarrow> b)"

lemma bufferEvent_cases:
  "\<not> st_enabled (eb_stats b) \<Longrightarrow> bufferEvent n t increment b = (b\<lparr>eb_size := eb_size b + n\<rparr>, [])
    \<or> (\<exists>desired. bufferEvent n t increment b = flushEventBuffer desired (b\<lparr>eb_size := eb_size b + n\<rparr>))"
  by (auto simp: bufferEvent_def Let_def)

lemma finishedRound_cases:
  "\<not> st_enabled (eb_stats b) \<Longrightarrow> finishedRound t b = (b, [])
    \<or> (\<exists>desired. finishedRound t b = flushEventBuffer desired b)
    \<or> (\<exists>n. finishedRound t b = (setTargetEventBufferSize n b, []))"
  by (auto simp: finishedRound_def)

lemma buffer_step_cases:
  assumes "\<not> st_enabled (eb_stats b)"
  shows "buffer_step a b = (append_op a b, [])
    \<or> (\<exists>desired. buffer_step a b = flushEventBuffer desired (append_op a b))
    \<or> (\<exists>n. buffer_step a b = (setMaxEventBufferSize n (append_op a b), []))
    \<or> (\<exists>n. buffer_step a b = (setTargetEventBufferSize n (append_op a b), []))"
proof (cases a)
  case (BufferMmap m)
  then show ?thesis using bufferEvent_cases [of "b\<lparr>eb_mmaps := eb_mmaps b @ [m]\<rparr>"] assms
    by (simp add: append_op_def bufferMmap_def) blast
next
  case (BufferSample s)
  then show ?thesis using bufferEvent_cases [of "b\<lparr>eb_samples := eb_samples b @ [s]\<rparr>"] assms
    by (simp add: append_op_def bufferSample_def) blast
next
  case (BufferTask e)
  then show ?thesis using bufferEvent_cases [of "b\<lparr>eb_tasks := eb_tasks b @ [e]\<rparr>"] assms
    by (simp add: append_op_def bufferTask_def) blast
next
  case (FinishRound t)
  then show ?thesis using finishedRound_cases [OF assms, of t] by (simp add: append_op_def) blast
qed (auto simp: append_op_def)

lemma set_max_fields [simp]:
  "eb_samples (setMaxEventBufferSize n b) = eb_samples b"
  "eb_mmaps (setMaxEventBufferSize n b) = eb_mmaps b"
  "eb_tasks (setMaxEventBufferSize n b) = eb_tasks b"
  "eb_size (setMaxEventBufferSize n b) = eb_size b"
  "eb_lastFlushMaxTime (setMaxEventBufferSize n b) = eb_lastFlushMaxTime b"
  "eb_violations (setMaxEventBufferSize n b) = eb_violations b"
  "eb_stats (setMaxEventBufferSize n b) = eb_stats b"
  "eb_taskSize (setMaxEventBufferSize n b) = eb_taskSize b"
  by (simp_all add: setMaxEventBufferSize_def Let_def)

lemma append_op_fields [simp]:
  "eb_lastFlushMaxTime (append_op a b) = eb_lastFlushMaxTime b" "eb_violations (append_op a b) = eb_violations b"
  "eb_stats (append_op a b) = eb_stats b" "eb_taskSize (append_op a b) = eb_taskSize b"
  "eb_maxSize (append_op a b) = eb_maxSize b" "eb_targetSize (append_op a b) = eb_targetSize b"
  by (simp_all add: append_op_def split: op.split)

locale run_invariant =
  fixes I :: "event_buffer \<Rightarrow> op list \<Rightarrow> action list \<Rightarrow> bool"
  assumes append: "I b ops as \<Longrightarrow> I (append_op a b) (ops @ [a]) as"
    and flush: "I b ops as \<Longrightarrow> \<not> st_enabled (eb_stats b)
      \<Longrightarrow> I (fst (flushEventBuffer desired (append_op a b))) (ops @ [a])
            (as @ snd (flushEventBuffer desired (append_op a b)))"
    and resize: "I b ops as \<Longrightarrow> I (setMaxEventBufferSize n b) ops as"
      "I b ops as \<Longrightarrow> I (setTargetEventBufferSize n b) ops as"
begin

lemma step_keeps:
  assumes "I b ops as" "\<not> st_enabled (eb_stats b)" "buffer_step a b = (b', bs)"
  shows "I b' (ops @ [a]) (as @ bs)" and "\<not> st_enabled (eb_stats b')"
proof -
  note I = append [OF assms(1), of a]
  have "I b' (ops @ [a]) (as @ bs) \<and> \<not> st_enabled (eb_stats b')"
    using buffer_step_cases [OF assms(2), of a] assms I flush [OF assms(1,2), of _ a] resize [OF I]
    by (auto simp: prod_eq_iff flushEventBuffer_fields(9))
  then show "I b' (ops @ [a]) (as @ bs)" "\<not> st_enabled (eb_stats b')" by simp_all
qed

theorem run_keeps:
  assumes "I b0 [] []" "\<not> st_enabled (eb_stats b0)" "buffer_run ops b0 = (b, as)"
  shows "I b ops as" and "\<not> st_enabled (eb_stats b)"
proof -
  have "I b ops as \<and> \<not> st_enabled (eb_stats b)"
    using assms(3)
  proof (induction ops arbitrary: b as rule: rev_induct)
    case Nil then show ?case using assms(1,2) by simp
  next
    case (snoc a ops)
    obtain b1 as1 where r: "buffer_run ops b0 = (b1, as1)" by fastforce
    obtain b2 bs where st: "buffer_step a b1 = (b2, bs)" by fastforce
    have "b = b2" "as = as1 @ bs" using snoc.prems r st by (simp_all add: buffer_run_snoc)
    then show ?case using step_keeps [OF _ _ st] snoc.IH [OF r] by blast
  qed
  then show "I b ops as" "\<not> st_enabled (eb_stats b)" by simp_all
qed

end

text \<open>The events of a sequence of operations.\<close>

definition op_mmaps :: "op list \<Rightarrow> mmap_record list" where
  "op_mmaps ops = concat (map (\<lambda>a. case a of BufferMmap m \<Rightarrow> [m] | _ \<Rightarrow> []) ops)"

definition op_samples :: "op list \<Rightarrow> sample_record list" where
  "op_samples ops = concat (map (\<lambda>a. case a of BufferSample s \<Rightarrow> [s] | _ \<Rightarrow> []) ops)"

definition op_tasks :: "op list \<Rightarrow> task_event list" where
  "op_tasks ops = concat (map (\<lambda>a. case a of BufferTask e \<Rightarrow> [e] | _ \<Rightarrow> []) ops)"

definition conserved :: "event_buffer \<Rightarrow> op list \<Rightarrow> action list \<Rightarrow> bool" where
  "conserved b ops as \<longleftrightarrow> mset (analysed as) + mset (eb_samples b) = mset (op_samples ops)
     \<and> mset (registered as) + mset (eb_mmaps b) = mset (op_mmaps ops)
     \<and> mset (sent_tasks as) + mset (eb_tasks b) = mset (op_tasks ops)
     \<and> eb_size b = pending_size (eb_taskSize b) (eb_samples b) (eb_mmaps b) (eb_tasks b)
     \<and> eb_targetSize b \<le> eb_maxSize b"

lemma pending_size_mset:
  assumes "mset ss = mset ss'" "mset ms = mset ms'" "mset es = mset es'"
  shows "pending_size n ss ms es = pending_size n ss' ms' es'"
proof -
  have "mset (map record_size ss) = mset (map record_size ss')"
    "mset (map record_size ms) = mset (map record_size ms')"
    using assms by simp_all
  then have "sum_list (map record_size ss) = sum_list (map record_size ss')"
    "sum_list (map record_size ms) = sum_list (map record_size ms')"
    by (metis sum_mset_sum_list)+
  moreover have "length es = length es'" by (rule mset_eq_length [OF assms(3)])
  ultimately show ?thesis by (simp add: pending_size_def)
qed

lemma flushed_sizes:
  assumes "eb_size b = pending_size (eb_taskSize b) (eb_samples b) (eb_mmaps b) (eb_tasks b)"
  shows "size_kept (eb_taskSize b) (flushed desired b)"
proof -
  have "size_kept (eb_taskSize b) (start_flush b)"
    using assms pending_size_mset [of "sort_key record_time (eb_samples b)" "eb_samples b"
      "sort_key record_time (eb_mmaps b)" "eb_mmaps b" "sort_key te_time (eb_tasks b)" "eb_tasks b"]
    by (simp add: size_kept_def start_flush_fields)
  from sizes.loops_keep [OF this sorted_start_flush] show ?thesis by (simp add: flushed_def)
qed

lemma set_target_le_max:
  "eb_targetSize (setTargetEventBufferSize n b) \<le> eb_maxSize (setTargetEventBufferSize n b)"
  by (simp add: setTargetEventBufferSize_def setMaxEventBufferSize_def Let_def not_less)

lemma flush_target_le_max:
  "eb_targetSize b \<le> eb_maxSize b
    \<Longrightarrow> eb_targetSize (fst (flushEventBuffer desired b)) \<le> eb_maxSize (fst (flushEventBuffer desired b))"
  by (simp add: flushEventBuffer_def Let_def set_target_le_max)

lemma conserved_append: "conserved b ops as \<Longrightarrow> conserved (append_op a b) (ops @ [a]) as"
  by (auto simp: conserved_def append_op_def op_mmaps_def op_samples_def op_tasks_def pending_size_def
      algebra_simps split: op.split)

lemma conserved_flush:
  assumes c: "conserved b ops as" and en: "\<not> st_enabled (eb_stats b)"
  shows "conserved (fst (flushEventBuffer desired b)) ops (as @ snd (flushEventBuffer desired b))"
proof -
  have h: "mset (sort_key record_time (eb_samples b)) = mset (analysed (f_actions (flushed desired b))
        @ f_samples (flushed desired b))"
    "mset (sort_key record_time (eb_mmaps b)) = mset (registered (f_actions (flushed desired b))
        @ f_mmaps (flushed desired b))"
    "mset (sort_key te_time (eb_tasks b)) = mset (sent_tasks (f_actions (flushed desired b))
        @ f_tasks (flushed desired b))"
    using flushed_history [OF en, of desired] by (simp_all only: history_def)
  show ?thesis
    using c h flushed_sizes [of b desired] flush_target_le_max [of b desired]
    by (simp add: conserved_def flushEventBuffer_fields size_kept_def add.assoc)
qed

lemma conserved_resize:
  "conserved b ops as \<Longrightarrow> conserved (setMaxEventBufferSize n b) ops as"
  "conserved b ops as \<Longrightarrow> conserved (setTargetEventBufferSize n b) ops as"
  by (simp_all add: conserved_def set_target_le_max) (simp add: setMaxEventBufferSize_def Let_def not_less)

interpretation conserved: run_invariant conserved
proof unfold_locales
  fix b ops as desired a
  assume "conserved b ops as" "\<not> st_enabled (eb_stats b)"
  then show "conserved (fst (flushEventBuffer desired (append_op a b))) (ops @ [a])
      (as @ snd (flushEventBuffer desired (append_op a b)))"
    by (intro conserved_flush conserved_append) simp_all
qed (fact conserved_append conserved_resize)+

lemma newEventBuffer_fields:
  "eb_samples (newEventBuffer n p) = []" "eb_mmaps (newEventBuffer n p) = []" "eb_tasks (newEventBuffer n p) = []"
  "eb_size (newEventBuffer n p) = 0" "eb_violations (newEventBuffer n p) = 0"
  "eb_lastFlushMaxTime (newEventBuffer n p) = 0" "eb_taskSize (newEventBuffer n p) = n"
  "st_enabled (eb_stats (newEventBuffer n p)) = p"
  "eb_targetSize (newEventBuffer n p) \<le> eb_maxSize (newEventBuffer n p)"
  by (simp_all add: newEventBuffer_def)

text \<open>
  C32: nothing is lost or duplicated. After any sequence of buffered events, rounds and changes of the
  sizes, the events handed on and the events still buffered are together exactly the events given; the
  recorded size of the buffer is the sum of the sizes of its events (modulo \<open>2 ^ 32\<close>), and its target
  size is at most its maximal size.
\<close>
theorem buffer_conserves_events:
  assumes "buffer_run ops (newEventBuffer n False) = (b, as)"
  shows "mset (analysed as) + mset (eb_samples b) = mset (op_samples ops)
    \<and> mset (registered as) + mset (eb_mmaps b) = mset (op_mmaps ops)
    \<and> mset (sent_tasks as) + mset (eb_tasks b) = mset (op_tasks ops)
    \<and> eb_size b = pending_size (eb_taskSize b) (eb_samples b) (eb_mmaps b) (eb_tasks b)
    \<and> eb_targetSize b \<le> eb_maxSize b"
proof -
  have "conserved (newEventBuffer n False) [] []"
    by (simp add: conserved_def newEventBuffer_fields op_samples_def op_mmaps_def op_tasks_def pending_size_def)
  then have "conserved b ops as"
    by (rule conserved.run_keeps(1) [OF _ _ assms]) (simp add: newEventBuffer_fields)
  then show ?thesis by (simp add: conserved_def)
qed

section \<open>The order of time across flushes\<close>

text \<open>
  In a flush that finds no violation, all that is analysed or registered lies between the latest time
  of the flush before and its own.
\<close>

definition timely :: "u64 \<Rightarrow> flush \<Rightarrow> bool" where
  "timely t f \<longleftrightarrow> t \<le> f_lastMax f \<and> (\<not> f_violates f \<longrightarrow>
     (\<forall>m \<in> set (f_mmaps f). t \<le> record_time m)
     \<and> (\<forall>s \<in> set (analysed (f_actions f)). t \<le> record_time s \<and> record_time s \<le> f_lastMax f)
     \<and> (\<forall>m \<in> set (registered (f_actions f)). t \<le> record_time m \<and> record_time m \<le> f_lastMax f))"

lemma timely_forward:
  assumes "timely t f" "\<not> f_violates f \<Longrightarrow> u \<le> f_lastMax f"
  shows "timely t (forwardMmapBuffer False u f)"
proof -
  have "timely t (forward_mmaps False u ms f)" if "timely t f" "f_mmaps f = ms" "\<not> f_violates f \<Longrightarrow> u \<le> f_lastMax f"
    for ms f using that
  proof (induction ms arbitrary: f)
    case (Cons m ms)
    let ?g = "shrink (record_size m) (emit [RegisterElf m] f)\<lparr>f_mmaps := ms\<rparr>"
    have "timely t ?g" if "record_time m \<le> u"
      using Cons.prems that by (auto simp: timely_def)
    then show ?case using Cons.IH [of ?g] Cons.prems by simp
  qed simp
  then show ?thesis using assms by (simp add: forwardMmapBuffer_def)
qed

lemma timely_tasks:
  assumes "timely t f" "\<not> f_violates f \<Longrightarrow> u \<le> f_lastMax f"
  shows "timely t (flush_tasks False n u es f)"
  using assms
proof (induction es arbitrary: f)
  case (Cons e es)
  have other: "timely t (emit as g)" if "timely t g" "analysed as = []" "registered as = []" for as g
    using that by (simp add: timely_def)
  have "timely t (handle_task False e f)" if "te_time e \<le> u"
  proof -
    have "te_time e \<le> f_lastMax f" if "\<not> f_violates f"
      using Cons.prems(2) [OF that] \<open>te_time e \<le> u\<close> by simp
    then show ?thesis
      using timely_forward [OF Cons.prems(1), of "te_time e"] Cons.prems(1) by (simp add: handle_task_def other)
  qed
  then have "timely t (shrink n (handle_task False e f)\<lparr>f_tasks := es\<rparr>)" if "te_time e \<le> u"
    using that by (simp add: timely_def)
  then show ?case using Cons.IH [of "shrink n (handle_task False e f)\<lparr>f_tasks := es\<rparr>"] Cons.prems by simp
qed simp

lemma timely_process:
  assumes "timely t f" "\<not> f_violates f \<Longrightarrow> f_lastMax f = record_time s"
  shows "timely t (process_sample False n s f\<lparr>f_samples := ss\<rparr>)"
proof -
  have "timely t (forwardMmapBuffer False (record_time s) (flush_tasks False n (record_time s) (f_tasks f) f))"
    by (rule timely_forward [OF timely_tasks [OF assms(1)]]) (use assms(2) in \<open>simp_all\<close>)
  then show ?thesis using assms(2) by (auto simp: timely_def process_sample_def)
qed

lemma timely_samples:
  "timely t f \<Longrightarrow> timely t (flush_samples False n desired ss f)"
proof (induction ss arbitrary: f)
  case (Cons s ss)
  let ?v = "f\<lparr>f_violates := True\<rparr>" and ?a = "f\<lparr>f_lastMax := record_time s\<rparr>"
  have "timely t (process_sample False n s ?v\<lparr>f_samples := ss\<rparr>)"
    by (rule timely_process) (use Cons.prems in \<open>simp_all add: timely_def\<close>)
  moreover have "timely t (process_sample False n s ?a\<lparr>f_samples := ss\<rparr>)" if "f_lastMax f \<le> record_time s"
  proof (rule timely_process)
    have adv: "x \<le> record_time s" if "x \<le> f_lastMax f" for x
      using that \<open>f_lastMax f \<le> record_time s\<close> by (rule order_trans)
    show "timely t ?a" using Cons.prems by (auto simp: timely_def intro: adv)
  qed simp
  ultimately show ?case
    using Cons timely_forward [OF Cons.prems, of "f_lastMax f"] by (simp add: not_less)
qed simp

lemma timely_rest: "timely t f \<Longrightarrow> timely t (flush_rest_tasks False n desired es f)"
proof (induction es arbitrary: f)
  case (Cons e es)
  have "timely t (shrink n (emit [SendTask e] f)\<lparr>f_tasks := es\<rparr>)" using Cons.prems by (simp add: timely_def)
  then show ?case using Cons by simp
qed simp

lemma flushed_timely:
  assumes "\<not> st_enabled (eb_stats b)"
  shows "timely (eb_lastFlushMaxTime b) (flushed desired b)"
proof -
  have "f_violates (start_flush b) \<or> (\<forall>m \<in> set (eb_mmaps b). eb_lastFlushMaxTime b \<le> record_time m)"
  proof (cases "sort_key record_time (eb_mmaps b)")
    case (Cons m ms)
    have "sorted (map record_time (m # ms))" "set (m # ms) = set (eb_mmaps b)"
      using sorted_sort_key [of record_time "eb_mmaps b"] set_sort [of record_time "eb_mmaps b"]
      unfolding Cons by simp_all
    then have "record_time m \<le> record_time x" if "x \<in> set (eb_mmaps b)" for x
      using that by (auto simp del: set_sort)
    moreover have "f_violates (start_flush b) \<longleftrightarrow> record_time m < eb_lastFlushMaxTime b"
      using Cons by (simp add: start_flush_def Let_def)
    ultimately show ?thesis by (metis not_less order_trans)
  next
    case Nil
    then have "eb_mmaps b = []" by (metis set_empty set_sort)
    then show ?thesis by simp
  qed
  then have "timely (eb_lastFlushMaxTime b) (start_flush b)"
    by (auto simp: timely_def start_flush_fields)
  then show ?thesis using assms by (simp add: flushed_def flush_loops_def Let_def timely_rest timely_samples)
qed

text \<open>
  The state of a run without violations. The number of violations is a 32-bit word, so it counts
  violations in runs of fewer than \<open>2 ^ 32\<close> operations.
\<close>

definition time_ordered :: "u64 \<Rightarrow> action list \<Rightarrow> bool" where
  "time_ordered t as \<longleftrightarrow> sorted (map record_time (analysed as))
     \<and> (\<forall>s \<in> set (analysed as). record_time s \<le> t) \<and> (\<forall>m \<in> set (registered as). record_time m \<le> t)
     \<and> (\<forall>pre s post. as = pre @ Analyze s # post \<longrightarrow>
          (\<forall>m \<in> set (registered pre). record_time m \<le> record_time s)
          \<and> (\<forall>m \<in> set (registered post). record_time s \<le> record_time m))"

definition ordered_run :: "event_buffer \<Rightarrow> op list \<Rightarrow> action list \<Rightarrow> bool" where
  "ordered_run b ops as \<longleftrightarrow> (length ops < 2 ^ 32 \<longrightarrow> unat (eb_violations b) \<le> length ops
     \<and> (eb_violations b = 0 \<longrightarrow> time_ordered (eb_lastFlushMaxTime b) as))"

lemma time_ordered_append:
  assumes as: "time_ordered t as" and bs: "sorted (map record_time (analysed bs))" and le: "t \<le> u"
    and s: "\<forall>s \<in> set (analysed bs). t \<le> record_time s \<and> record_time s \<le> u"
    and m: "\<forall>m \<in> set (registered bs). t \<le> record_time m \<and> record_time m \<le> u"
    and split: "\<And>pre s post. bs = pre @ Analyze s # post \<Longrightarrow>
      (\<forall>m \<in> set (registered pre). record_time m \<le> record_time s)
      \<and> (\<forall>m \<in> set (registered post). record_time s \<le> record_time m)"
  shows "time_ordered u (as @ bs)"
  unfolding time_ordered_def
proof (intro conjI allI impI)
  have trans: "x \<le> u" if "x \<le> t" for x using that le by (rule order_trans)
  show "sorted (map record_time (analysed (as @ bs)))"
    using as bs s by (auto simp: time_ordered_def sorted_append intro: order_trans)
  show "\<forall>s \<in> set (analysed (as @ bs)). record_time s \<le> u" "\<forall>m \<in> set (registered (as @ bs)). record_time m \<le> u"
    using as s m by (auto simp: time_ordered_def intro: trans)
  fix pre x post assume eq: "as @ bs = pre @ Analyze x # post"
  consider q where "as = pre @ Analyze x # q" "post = q @ bs"
    | q where "bs = q @ Analyze x # post" "pre = as @ q"
    using eq by (auto simp: append_eq_append_conv2 Cons_eq_append_conv append_eq_Cons_conv)
  then have "(\<forall>m \<in> set (registered pre). record_time m \<le> record_time x)
      \<and> (\<forall>m \<in> set (registered post). record_time x \<le> record_time m)"
  proof cases
    case 1
    then have "record_time x \<le> t" using as by (auto simp: time_ordered_def)
    then show ?thesis using 1 as m by (auto simp: time_ordered_def intro: order_trans)
  next
    case 2
    then have "t \<le> record_time x" using s by auto
    then show ?thesis using 2 as split [OF 2(1)] by (auto simp: time_ordered_def intro: order_trans)
  qed
  then show "\<forall>m \<in> set (registered pre). record_time m \<le> record_time x"
    "\<forall>m \<in> set (registered post). record_time x \<le> record_time m" by simp_all
qed

lemma flushed_split:
  assumes en: "\<not> st_enabled (eb_stats b)" and eq: "f_actions (flushed desired b) = pre @ Analyze s # post"
  shows "(\<forall>m \<in> set (registered pre). record_time m \<le> record_time s)
    \<and> (\<forall>m \<in> set (registered post). record_time s \<le> record_time m)"
proof -
  let ?ms = "sort_key record_time (eb_mmaps b)"
  have pre: "registered pre = filter (\<lambda>m. record_time m \<le> record_time s) ?ms"
    using flushed_causal [OF en, of desired] eq by (simp add: analysed_in_state_def)
  have all: "registered pre @ registered post @ f_mmaps (flushed desired b) = ?ms"
    using flushed_history [OF en, of desired] eq by (simp add: history_def)
  let ?P = "\<lambda>m. record_time m \<le> record_time s"
  have "filter ?P (registered pre) @ filter ?P (registered post @ f_mmaps (flushed desired b)) = filter ?P ?ms"
    unfolding all [symmetric] by simp
  then have "filter ?P (registered post) = []" by (simp add: pre)
  then show ?thesis using pre by (auto simp: filter_empty_conv)
qed

lemma ordered_flush:
  assumes "ordered_run b ops as" "\<not> st_enabled (eb_stats b)"
  shows "ordered_run (fst (flushEventBuffer desired (append_op a b))) (ops @ [a])
    (as @ snd (flushEventBuffer desired (append_op a b)))"
proof -
  let ?b = "append_op a b" and ?f = "flushed desired (append_op a b)"
  have en: "\<not> st_enabled (eb_stats ?b)" using assms(2) by simp
  have t: "timely (eb_lastFlushMaxTime b) ?f" using flushed_timely [OF en, of desired] by simp
  have sorted: "sorted (map record_time (analysed (f_actions ?f)))"
  proof -
    have "analysed (f_actions ?f) @ f_samples ?f = sort_key record_time (eb_samples ?b)"
      using flushed_history [OF en, of desired] by (simp add: history_def)
    then have "sorted (map record_time (analysed (f_actions ?f) @ f_samples ?f))" by simp
    then show ?thesis by (simp add: sorted_append)
  qed
  show ?thesis unfolding ordered_run_def
  proof (rule impI)
    assume len: "length (ops @ [a]) < 2 ^ 32"
    let ?n = "eb_violations b"
    have n: "unat ?n \<le> length ops" and o: "?n = 0 \<longrightarrow> time_ordered (eb_lastFlushMaxTime b) as"
      using assms(1) len by (simp_all add: ordered_run_def)
    have "unat (?n + 1) = unat ?n + 1"
      using n len unat_add_nowrap [of ?n 1] by simp
    then have le: "unat (?n + (if f_violates ?f then 1 else 0)) \<le> length (ops @ [a])"
      and z: "?n + (if f_violates ?f then 1 else 0) = 0 \<Longrightarrow> ?n = 0 \<and> \<not> f_violates ?f"
      using n by (auto split: if_splits simp flip: unat_eq_zero)
    have "time_ordered (f_lastMax ?f) (as @ f_actions ?f)" if "?n = 0" "\<not> f_violates ?f"
      using time_ordered_append [OF _ sorted _ _ _ flushed_split [OF en]] o that t by (simp add: timely_def)
    then show "unat (eb_violations (fst (flushEventBuffer desired ?b))) \<le> length (ops @ [a])
        \<and> (eb_violations (fst (flushEventBuffer desired ?b)) = 0
            \<longrightarrow> time_ordered (eb_lastFlushMaxTime (fst (flushEventBuffer desired ?b)))
              (as @ snd (flushEventBuffer desired ?b)))"
      using le z by (auto simp: flushEventBuffer_fields)
  qed
qed

interpretation ordered: run_invariant ordered_run
  by unfold_locales (simp_all add: ordered_flush, auto simp: ordered_run_def)

text \<open>
  C33: as long as no flush finds a violation, time never runs backwards for the analysis. Over a whole
  run the samples are analysed in the order of their times; every mapping registered before a sample
  is analysed is not later than it, and every mapping registered after it is not earlier.
\<close>
theorem run_in_time_order:
  assumes "buffer_run ops (newEventBuffer n False) = (b, as)" "length ops < 2 ^ 32" "eb_violations b = 0"
  shows "sorted (map record_time (analysed as))
    \<and> (\<forall>pre s post. as = pre @ Analyze s # post \<longrightarrow>
         (\<forall>m \<in> set (registered pre). record_time m \<le> record_time s)
         \<and> (\<forall>m \<in> set (registered post). record_time s \<le> record_time m))"
proof -
  have "ordered_run (newEventBuffer n False) [] []"
    by (simp add: ordered_run_def time_ordered_def newEventBuffer_fields)
  then have "ordered_run b ops as"
    by (rule ordered.run_keeps(1) [OF _ _ assms(1)]) (simp add: newEventBuffer_fields)
  then show ?thesis using assms(2,3) by (simp add: ordered_run_def time_ordered_def)
qed

section \<open>The end of the input\<close>

lemma flush_samples_stops:
  "f_samples f = ss \<Longrightarrow> let g = flush_samples en n desired ss f in
    \<not> f_size g > desired \<or> f_samples g = [] \<or> f_violates g"
  by (induction ss arbitrary: f) (simp_all add: Let_def)

lemma flush_rest_tasks_stops:
  "f_tasks f = es \<Longrightarrow> let g = flush_rest_tasks en n desired es f in
    (\<not> f_size g > desired \<or> f_tasks g = []) \<and> f_samples g = f_samples f \<and> f_violates g = f_violates f
    \<and> (\<not> f_size f > desired \<longrightarrow> g = f)"
  by (induction es arbitrary: f) (simp_all add: Let_def)

lemma flush_loops_stop:
  assumes "\<not> f_violates (flush_loops en n desired f)"
  shows "f_size (flush_loops en n desired f) \<le> desired
    \<or> f_samples (flush_loops en n desired f) = [] \<and> f_tasks (flush_loops en n desired f) = []"
  using assms flush_samples_stops [of f "f_samples f" en n desired]
    flush_rest_tasks_stops [OF refl, where f = "flush_samples en n desired (f_samples f) f" and en = en
        and n = n and desired = desired]
  by (auto simp: flush_loops_def Let_def not_less)

text \<open>The sizes as natural numbers; under \<open>2 ^ 32\<close> the recorded size is exact.\<close>

definition total_size :: "event_buffer \<Rightarrow> nat" where
  "total_size b = sum_list (map (unat \<circ> record_size) (eb_samples b))
     + sum_list (map (unat \<circ> record_size) (eb_mmaps b)) + length (eb_tasks b) * unat (eb_taskSize b)"

lemma of_nat_sum_list_unat: "of_nat (sum_list (map (unat \<circ> k) xs)) = (sum_list (map k xs) :: u32)"
  by (induction xs) simp_all

lemma pending_size_nat:
  assumes "eb_size b = pending_size (eb_taskSize b) (eb_samples b) (eb_mmaps b) (eb_tasks b)"
    and "total_size b < 2 ^ 32"
  shows "unat (eb_size b) = total_size b"
proof -
  have "eb_size b = of_nat (total_size b)"
    using assms(1) by (simp add: pending_size_def total_size_def of_nat_sum_list_unat)
  then show ?thesis using assms(2) by (simp add: unsigned_of_nat take_bit_nat_eq_self)
qed

lemma flush_total_size:
  assumes "\<not> st_enabled (eb_stats b)"
  shows "total_size (fst (flushEventBuffer desired b)) \<le> total_size b"
proof -
  let ?f = "flushed desired b"
  have h: "mset (eb_samples b) = mset (analysed (f_actions ?f)) + mset (f_samples ?f)"
    "mset (eb_mmaps b) = mset (registered (f_actions ?f)) + mset (f_mmaps ?f)"
    "mset (eb_tasks b) = mset (sent_tasks (f_actions ?f)) + mset (f_tasks ?f)"
    using flushed_history [OF assms, of desired] unfolding history_def
    by (metis mset_append mset_sort)+
  have le: "sum_list (map k ys) \<le> sum_list (map k xs)" if "mset xs = mset zs + mset ys" for k :: "'e \<Rightarrow> nat" and xs ys zs
    using arg_cong [OF that, of "\<lambda>M. sum_mset (image_mset k M)"] by (simp add: sum_mset_sum_list flip: mset_map)
  have "length (f_tasks ?f) \<le> length (eb_tasks b)"
    using arg_cong [OF h(3), of size] by simp
  then show ?thesis
    using le [OF h(1)] le [OF h(2)]
    by (simp add: total_size_def flushEventBuffer_fields add_mono mult_le_mono1)
qed

lemma flush_drains:
  assumes c: "conserved b ops as" and en: "\<not> st_enabled (eb_stats b)" and len: "total_size b < 2 ^ 32"
    and pos: "\<forall>s \<in> set (eb_samples b). 0 < record_size s" "0 < eb_taskSize b"
    and ok: "eb_violations (fst (flushEventBuffer 0 b)) = eb_violations b"
  shows "eb_samples (fst (flushEventBuffer 0 b)) = [] \<and> eb_tasks (fst (flushEventBuffer 0 b)) = []"
proof -
  let ?b = "fst (flushEventBuffer 0 b)" and ?f = "flushed 0 b"
  have "\<not> f_violates ?f" using ok by (auto simp: flushEventBuffer_fields)
  then consider "f_size ?f = 0" | "f_samples ?f = []" "f_tasks ?f = []"
    using flush_loops_stop [of _ _ 0 "start_flush b"] by (auto simp: flushed_def)
  then show ?thesis
  proof cases
    case 1
    have "eb_size ?b = pending_size (eb_taskSize ?b) (eb_samples ?b) (eb_mmaps ?b) (eb_tasks ?b)"
      using conserved_flush [OF c en] by (simp add: conserved_def)
    then have "total_size ?b = 0"
      using pending_size_nat [of ?b] flush_total_size [OF en, of 0] len 1 by (simp add: flushEventBuffer_fields)
    moreover have "set (eb_samples ?b) \<subseteq> set (eb_samples b)"
    proof -
      have "analysed (f_actions ?f) @ f_samples ?f = sort_key record_time (eb_samples b)"
        using flushed_history [OF en, of 0] by (simp add: history_def)
      then show ?thesis
        by (metis Un_upper2 flushEventBuffer_fields(2) set_append set_sort)
    qed
    ultimately have "eb_samples ?b = []"
      using pos(1) by (cases "eb_samples ?b") (auto simp: total_size_def word_less_nat_alt)
    moreover have "eb_tasks ?b = []"
      using \<open>total_size ?b = 0\<close> pos(2) by (auto simp: total_size_def flushEventBuffer_fields word_less_nat_alt)
    ultimately show ?thesis by simp
  next
    case 2 then show ?thesis by (simp add: flushEventBuffer_fields)
  qed
qed

text \<open>
  C34: at the end of the input everything is delivered. When the final flush finds no violation of the
  time order, the events have sizes and their sum is below \<open>2 ^ 32\<close>, no sample and no task event
  is left in the buffer: all that were ever buffered have been handed on.
\<close>
theorem finalize_delivers_all:
  assumes "buffer_run ops (newEventBuffer n False) = (b, as)" "finalize tracepoints b = (b', bs)"
    and "fst (finishedRound tracepoints b) = b1" "eb_violations b' = eb_violations b1"
    and "total_size b < 2 ^ 32" "\<forall>s \<in> set (op_samples ops). 0 < record_size s" "0 < n"
  shows "mset (analysed (as @ bs)) = mset (op_samples ops) \<and> mset (sent_tasks (as @ bs)) = mset (op_tasks ops)"
proof -
  obtain cs where r: "finishedRound tracepoints b = (b1, cs)" using assms(3) by (cases "finishedRound tracepoints b") simp
  have I: "conserved (newEventBuffer n False) [] []"
    by (simp add: conserved_def newEventBuffer_fields op_samples_def op_mmaps_def op_tasks_def pending_size_def)
  have en0: "\<not> st_enabled (eb_stats (newEventBuffer n False))" by (simp add: newEventBuffer_fields)
  have c: "conserved b ops as" and en: "\<not> st_enabled (eb_stats b)"
    by (rule conserved.run_keeps [OF I en0 assms(1)])+
  have c1: "conserved b1 (ops @ [FinishRound tracepoints]) (as @ cs)" and en1: "\<not> st_enabled (eb_stats b1)"
    using conserved.step_keeps [OF c en, of "FinishRound tracepoints" b1 cs] r by simp_all
  have same: "op_samples (ops @ [FinishRound tracepoints]) = op_samples ops"
    "op_tasks (ops @ [FinishRound tracepoints]) = op_tasks ops"
    by (simp_all add: op_samples_def op_tasks_def)
  have b': "b' = fst (flushEventBuffer 0 b1)" and bs: "as @ bs = (as @ cs) @ snd (flushEventBuffer 0 b1)"
    using assms(2) r by (simp_all add: finalize_def split_beta)
  have size1: "total_size b1 \<le> total_size b"
    using finishedRound_cases [OF en, of tracepoints] r flush_total_size [OF en]
    by (auto simp: prod_eq_iff total_size_def)
  have "eb_taskSize b1 = n"
  proof -
    have "eb_taskSize b = n"
      using run_invariant.run_keeps(1) [where I = "\<lambda>b _ _. eb_taskSize b = n", OF _ _ en0 assms(1)]
      by (auto simp: run_invariant_def flushEventBuffer_fields newEventBuffer_fields)
    then show ?thesis
      using finishedRound_cases [OF en, of tracepoints] r by (auto simp: prod_eq_iff flushEventBuffer_fields)
  qed
  moreover have "\<forall>s \<in> set (eb_samples b1). 0 < record_size s"
    using c1 assms(6) unfolding conserved_def same by (metis Un_iff set_mset_mset set_mset_union)
  ultimately have "eb_samples b' = [] \<and> eb_tasks b' = []"
    unfolding b' using flush_drains [OF c1 en1] assms(4,5,7) size1 by (simp add: b')
  moreover have "conserved b' (ops @ [FinishRound tracepoints]) (as @ bs)"
    unfolding b' bs by (rule conserved_flush [OF c1 en1])
  ultimately show ?thesis by (simp add: conserved_def same)
qed

section \<open>Examples\<close>

definition mmap_at :: "u64 \<Rightarrow> mmap_record" where
  "mmap_at t = (newMmap \<lparr>eh_type = 1, eh_misc = 0, eh_size = 64\<rparr> 0 True)\<lparr>r_sampleId :=
     (newSampleId 0 True)\<lparr>sid_time := t\<rparr>\<rparr>"

definition sample_at :: "u64 \<Rightarrow> sample_record" where
  "sample_at t = (newSample (0, 0) \<lparr>eh_type = 9, eh_misc = 0, eh_size = 64\<rparr> noAttributes)\<lparr>r_sampleId :=
     (newSampleId 0 True)\<lparr>sid_time := t\<rparr>\<rparr>"

definition fork_at :: "u64 \<Rightarrow> task_event" where
  "fork_at t = \<lparr>te_pid = 7, te_tid = 7, te_time = t, te_cpu = 0, te_type = ThreadStart, te_payload = IntPayload 3\<rparr>"

lemma example_events [simp]:
  "record_time (mmap_at t) = t" "record_size (mmap_at t) = 64"
  "record_time (sample_at t) = t" "record_size (sample_at t) = 64" "te_time (fork_at t) = t"
  by (simp_all add: mmap_at_def sample_at_def fork_at_def newMmap_def newSample_def record_time_def record_size_def)

lemmas buffer_eval = bufferSample_def bufferMmap_def bufferTask_def bufferEvent_def finalize_def finishedRound_def
  flushEventBuffer_def start_flush_def flush_loops_def process_sample_def forwardMmapBuffer_def handle_task_def
  emit_def shrink_def setTargetEventBufferSize_def setMaxEventBufferSize_def increased_size_def uintMax_def
  newEventBuffer_def newStats_def

lemma example_run:
  "buffer_run [SetTargetSize 150, BufferSample (sample_at 5), BufferSample (sample_at 3), BufferMmap (mmap_at 4)]
      (newEventBuffer 40 False)
    = ((newEventBuffer 40 False)\<lparr>eb_targetSize := 150, eb_lastSize := 0x2000000, eb_lastFlushMaxTime := 5\<rparr>,
       [Analyze (sample_at 3), RegisterElf (mmap_at 4), Analyze (sample_at 5)])"
  by (simp add: buffer_eval)

theorem flush_causality_witness:
  "let b = (newEventBuffer 40 False)\<lparr>eb_samples := [sample_at 5, sample_at 3], eb_mmaps := [mmap_at 4], eb_size := 192\<rparr>;
       as = snd (flushEventBuffer 0 b) in
   as = [Analyze (sample_at 3), RegisterElf (mmap_at 4)] @ Analyze (sample_at 5) # []
   \<and> registered [Analyze (sample_at 3), RegisterElf (mmap_at 4)] = filter (\<lambda>m. record_time m \<le> 5) [mmap_at 4]"
proof -
  let ?b = "(newEventBuffer 40 False)\<lparr>eb_samples := [sample_at 5, sample_at 3], eb_mmaps := [mmap_at 4], eb_size := 192\<rparr>"
  have en: "\<not> st_enabled (eb_stats ?b)" by (simp add: newEventBuffer_def newStats_def)
  have as: "snd (flushEventBuffer 0 ?b) = [Analyze (sample_at 3), RegisterElf (mmap_at 4)] @ Analyze (sample_at 5) # []"
    by (simp add: buffer_eval)
  show ?thesis
    using flush_causality [OF en prod.collapse [symmetric] as] as by (simp add: Let_def)
qed

theorem buffer_conserves_events_witness:
  "mset (analysed (snd (buffer_run [SetTargetSize 150, BufferSample (sample_at 5), BufferSample (sample_at 3),
      BufferMmap (mmap_at 4)] (newEventBuffer 40 False)))) = {#sample_at 5, sample_at 3#}"
  using buffer_conserves_events [OF example_run] unfolding example_run
  by (simp add: op_samples_def newEventBuffer_fields)

theorem run_in_time_order_witness:
  "sorted (map record_time (analysed (snd (buffer_run [SetTargetSize 150, BufferSample (sample_at 5),
      BufferSample (sample_at 3), BufferMmap (mmap_at 4)] (newEventBuffer 40 False)))))"
  using run_in_time_order [OF example_run] unfolding example_run by (simp add: newEventBuffer_fields)

theorem finalize_delivers_all_witness:
  "let (b, as) = buffer_run [BufferSample (sample_at 5), BufferTask (fork_at 4)] (newEventBuffer 40 False);
       (b', bs) = finalize False b in
   as = [] \<and> mset (analysed (as @ bs)) = {#sample_at 5#} \<and> mset (sent_tasks (as @ bs)) = {#fork_at 4#}"
proof -
  let ?ops = "[BufferSample (sample_at 5), BufferTask (fork_at 4)]"
  let ?b = "(newEventBuffer 40 False)\<lparr>eb_samples := [sample_at 5], eb_tasks := [fork_at 4], eb_size := 104\<rparr>"
  have r: "buffer_run ?ops (newEventBuffer 40 False) = (?b, [])" by (simp add: buffer_eval)
  obtain b' bs where f: "finalize False ?b = (b', bs)" by fastforce
  have "eb_violations b' = eb_violations (fst (finishedRound False ?b))"
    using f by (simp add: buffer_eval fork_at_def) auto
  from finalize_delivers_all [OF r f refl this] have "mset (analysed ([] @ bs)) = {#sample_at 5#} \<and> mset (sent_tasks ([] @ bs)) = {#fork_at 4#}"
    by (simp add: total_size_def op_samples_def op_tasks_def newEventBuffer_fields)
  then show ?thesis unfolding r Let_def prod.case f by simp
qed

text \<open>
  When the last flush meets violating samples it stops at the first that is in order, and nothing flushes
  the buffer again: samples received in this order are never analysed.
\<close>

lemma finalize_loses_samples:
  "let (b, as) = buffer_run [SetTargetSize 100, BufferSample (sample_at 10), BufferSample (sample_at 10),
         BufferSample (sample_at 5), BufferSample (sample_at 20), BufferSample (sample_at 7)] (newEventBuffer 40 False);
       (b', bs) = finalize False b in
   eb_samples b' = [sample_at 20]"
  by (simp add: buffer_eval)

text \<open>
  Once the samples are depleted, a fork is only announced to the client: the symbol table of the child is
  not initialised from its parent's, also not for samples of the child that arrive later.
\<close>

lemma late_fork_not_initialised:
  "snd (finalize False (fst (buffer_run [BufferTask (fork_at 4)] (newEventBuffer 40 False))))
    = [SendTask (fork_at 4)]"
  by (simp add: buffer_eval fork_at_def)

end
