(* ===== verification/Tracing.thy ===== *)
theory Tracing
  imports DataStream
begin

text \<open>
  \<open>app/perftracingdata.h\<close>, \<open>app/perftracingdata.cpp\<close>: the tracing data section with the formats of the trace
  points. The conversions of Qt from text to numbers are parameters (\<open>conversions\<close>); splitting,
  trimming and searching byte arrays are defined here. The readers work on a stream of their own over
  the bytes of the section and return whether they succeeded beside the object they fill.
\<close>

section \<open>Byte arrays\<close>

fun split :: "u8 \<Rightarrow> bytes \<Rightarrow> bytes list" where
  "split sep [] = [[]]"
| "split sep (b # bs) =
     (if b = sep then [] # split sep bs
      else case split sep bs of [] \<Rightarrow> [[b]] | w # ws \<Rightarrow> (b # w) # ws)"

fun join :: "u8 \<Rightarrow> bytes list \<Rightarrow> bytes" where
  "join sep [] = []"
| "join sep [w] = w"
| "join sep (w # ws) = w @ sep # join sep ws"

definition is_space :: "u8 \<Rightarrow> bool" where
  "is_space b \<longleftrightarrow> b = 32 \<or> 9 \<le> b \<and> b \<le> 13"

definition trimmed :: "bytes \<Rightarrow> bytes" where
  "trimmed bs = rev (dropWhile is_space (rev (dropWhile is_space bs)))"

definition toLower :: "bytes \<Rightarrow> bytes" where
  "toLower bs = map (\<lambda>b. if 65 \<le> b \<and> b \<le> 90 then b + 32 else b) bs"

definition contains_bytes :: "string \<Rightarrow> bytes \<Rightarrow> bool" where
  "contains_bytes sub bs \<longleftrightarrow> list_ex (\<lambda>i. starts_with (ascii sub) (drop i bs)) [0..<Suc (length bs)]"

text \<open>\<open>lastIndexOf\<close>; the index from the end is searched in the reversed array.\<close>

definition last_index :: "u8 \<Rightarrow> bytes \<Rightarrow> nat option" where
  "last_index b bs = (if b \<in> set bs then Some (length bs - Suc (length (takeWhile (\<lambda>x. x \<noteq> b) (rev bs)))) else None)"

record conversions =
  toUInt :: "bytes \<Rightarrow> u32"
  toInt :: "bytes \<Rightarrow> s32"
  toULongLong :: "bytes \<Rightarrow> u64"
  atLeast06 :: "bytes \<Rightarrow> bool"

section \<open>Formats\<close>

definition FIELD_IS_ARRAY :: u32 where "FIELD_IS_ARRAY = 1"
definition FIELD_IS_POINTER :: u32 where "FIELD_IS_POINTER = 2"
definition FIELD_IS_SIGNED :: u32 where "FIELD_IS_SIGNED = 4"
definition FIELD_IS_STRING :: u32 where "FIELD_IS_STRING = 8"
definition FIELD_IS_DYNAMIC :: u32 where "FIELD_IS_DYNAMIC = 16"
definition FIELD_IS_LONG :: u32 where "FIELD_IS_LONG = 32"
definition EVENT_FL_ISFTRACE :: u32 where "EVENT_FL_ISFTRACE = 1"
definition EVENT_FL_ISBPRINT :: u32 where "EVENT_FL_ISBPRINT = 4"

record format_field =
  ff_type :: bytes
  ff_name :: bytes
  ff_offset :: u32
  ff_size :: u32
  ff_arraylen :: u32
  ff_elementsize :: u32
  ff_flags :: u32

definition noField :: format_field where
  "noField = \<lparr>ff_type = [], ff_name = [], ff_offset = 0, ff_size = 0, ff_arraylen = 0,
     ff_elementsize = 0, ff_flags = 0\<rparr>"

record event_format =
  ef_name :: bytes
  ef_system :: bytes
  ef_commonFields :: "format_field list"
  ef_fields :: "format_field list"
  ef_flags :: u32

definition noFormat :: event_format where
  "noFormat = \<lparr>ef_name = [], ef_system = [], ef_commonFields = [], ef_fields = [], ef_flags = 0\<rparr>"

record tracing_data =
  td_size :: u32
  td_version :: bytes
  td_bigEndian :: bool
  td_fileLongSize :: bool
  td_filePageSize :: s32
  td_eventFormats :: "s32 \<rightharpoonup> event_format"
  td_headerFields :: "format_field list"
  td_ftracePrintk :: "u64 \<rightharpoonup> bytes"
  td_savedCmdlines :: "bytes list"

definition noTracing :: tracing_data where
  "noTracing = \<lparr>td_size = 0, td_version = [], td_bigEndian = False, td_fileLongSize = False,
     td_filePageSize = 0, td_eventFormats = Map.empty, td_headerFields = [],
     td_ftracePrintk = Map.empty, td_savedCmdlines = []\<rparr>"

definition eventFormat :: "s32 \<Rightarrow> tracing_data \<Rightarrow> event_format" where
  "eventFormat i td = (case td_eventFormats td i of Some f \<Rightarrow> f | None \<Rightarrow> noFormat)"

subsection \<open>Lines\<close>

definition chop_semicolon :: "bytes \<Rightarrow> bytes" where
  "chop_semicolon v = (if v \<noteq> [] \<and> last v = of_char CHR '';'' then butlast v else v)"

text \<open>The pairs of name and value \<open>processLine\<close> hands to its handler, in order.\<close>

definition chunk_pairs :: "bytes \<Rightarrow> (bytes \<times> bytes) list" where
  "chunk_pairs chunk = (case split (of_char CHR '':'') chunk of
     [name, value] \<Rightarrow> [(toLower name, chop_semicolon (trimmed value))] | _ \<Rightarrow> [])"

definition processLine :: "bytes \<Rightarrow> (bytes \<times> bytes) list" where
  "processLine line = concat (map chunk_pairs (split 9 line))"

definition setFlag :: "u32 \<Rightarrow> format_field \<Rightarrow> format_field" where
  "setFlag fl f = f\<lparr>ff_flags := or (ff_flags f) fl\<rparr>"

definition hasFlag :: "u32 \<Rightarrow> format_field \<Rightarrow> bool" where
  "hasFlag fl f \<longleftrightarrow> and (ff_flags f) fl \<noteq> 0"

text \<open>The declaration of a field: its name is the last word, with a star or the length of an array.\<close>

definition declare_field :: "conversions \<Rightarrow> bytes \<Rightarrow> format_field \<Rightarrow> format_field" where
  "declare_field conv value f =
     (let segments = split 32 (trimmed value);
          name = last segments; segments = butlast segments;
          (name, f) = (if starts_with (ascii ''*'') name then (drop 1 name, setFlag FIELD_IS_POINTER f)
                       else (name, f));
          (name, f) = (if name \<noteq> [] \<and> last name = of_char CHR '']'' then
                         (case last_index (of_char CHR ''['') name of
                            Some opening \<Rightarrow> (take opening name, (setFlag FIELD_IS_ARRAY f)\<lparr>ff_arraylen :=
                              toUInt conv (take (length name - opening - 2) (drop (opening + 1) name))\<rparr>)
                          | None \<Rightarrow> (name, f))
                       else (name, f));
          f = f\<lparr>ff_name := name\<rparr>;
          (segments, f) = (if segments \<noteq> [] \<and> last segments = ascii ''[]''
                           then (butlast segments, setFlag FIELD_IS_ARRAY f) else (segments, f)) in
      f\<lparr>ff_type := join 32 segments\<rparr>)"

definition field_step :: "conversions \<Rightarrow> bytes \<times> bytes \<Rightarrow> format_field \<Rightarrow> format_field" where
  "field_step conv nv f = (case nv of (name, value) \<Rightarrow>
     if name = ascii ''field'' then declare_field conv value f
     else if name = ascii ''offset'' then f\<lparr>ff_offset := toUInt conv value\<rparr>
     else if name = ascii ''size'' then f\<lparr>ff_size := toUInt conv value\<rparr>
     else if name = ascii ''signed'' then (if toInt conv value \<noteq> 0 then setFlag FIELD_IS_SIGNED f else f)
     else f)"

definition set_elementsize :: "bool \<Rightarrow> format_field \<Rightarrow> format_field" where
  "set_elementsize fileLongSize f =
     (let has = (\<lambda>t. contains_bytes t (ff_type f)) in
      if hasFlag FIELD_IS_ARRAY f then
        if has ''char'' \<or> has ''u8'' \<or> has ''s8'' then (setFlag FIELD_IS_STRING f)\<lparr>ff_elementsize := 1\<rparr>
        else if ff_arraylen f > 0 then f\<lparr>ff_elementsize := ff_size f div ff_arraylen f\<rparr>
        else if has ''u16'' \<or> has ''s16'' then f\<lparr>ff_elementsize := 2\<rparr>
        else if has ''u32'' \<or> has ''s32'' then f\<lparr>ff_elementsize := 4\<rparr>
        else if has ''u64'' \<or> has ''s64'' then f\<lparr>ff_elementsize := 8\<rparr>
        else if hasFlag FIELD_IS_LONG f then f\<lparr>ff_elementsize := (if fileLongSize then 1 else 0)\<rparr>
        else f
      else f\<lparr>ff_elementsize := ff_size f\<rparr>)"

definition readFormatField :: "conversions \<Rightarrow> bool \<Rightarrow> bytes \<Rightarrow> format_field" where
  "readFormatField conv fileLongSize line =
     (let f = fold (field_step conv) (processLine line) noField;
          f = (if starts_with (ascii ''__data_loc'') (ff_type f) then setFlag FIELD_IS_DYNAMIC f else f);
          f = (if contains_bytes ''long'' (ff_type f) then setFlag FIELD_IS_LONG f else f) in
      set_elementsize fileLongSize f)"

subsection \<open>Events\<close>

datatype field_stage = BeforeFields | CommonFields | NonCommonFields | AfterFields

record event_parse =
  ep_stage :: field_stage
  ep_event :: event_format
  ep_id :: s32
  ep_seenId :: bool

definition event_pair :: "conversions \<Rightarrow> bytes \<times> bytes \<Rightarrow> event_parse \<Rightarrow> event_parse" where
  "event_pair conv nv p = (case nv of (name, value) \<Rightarrow>
     if name = ascii ''name'' then
       p\<lparr>ep_event := (ep_event p)\<lparr>ef_name := value,
           ef_flags := (if and (ef_flags (ep_event p)) EVENT_FL_ISFTRACE \<noteq> 0 \<and> value = ascii ''bprint''
                        then or (ef_flags (ep_event p)) EVENT_FL_ISBPRINT else ef_flags (ep_event p))\<rparr>\<rparr>
     else if name = ascii ''id'' then p\<lparr>ep_id := toInt conv value, ep_seenId := True\<rparr>
     else if name = ascii ''format'' then p\<lparr>ep_stage := CommonFields\<rparr>
     else p)"

definition event_line :: "conversions \<Rightarrow> bool \<Rightarrow> bytes \<Rightarrow> event_parse \<Rightarrow> event_parse" where
  "event_line conv fileLongSize line p =
     (case ep_stage p of
        CommonFields \<Rightarrow>
          (if line = [] then p\<lparr>ep_stage := NonCommonFields\<rparr>
           else p\<lparr>ep_event := (ep_event p)\<lparr>ef_commonFields :=
             ef_commonFields (ep_event p) @ [readFormatField conv fileLongSize line]\<rparr>\<rparr>)
      | NonCommonFields \<Rightarrow>
          (if line = [] then p\<lparr>ep_stage := AfterFields\<rparr>
           else p\<lparr>ep_event := (ep_event p)\<lparr>ef_fields :=
             ef_fields (ep_event p) @ [readFormatField conv fileLongSize line]\<rparr>\<rparr>)
      | _ \<Rightarrow> fold (event_pair conv) (processLine line) p)"

definition parse_event :: "conversions \<Rightarrow> bool \<Rightarrow> bytes \<Rightarrow> bytes \<Rightarrow> event_parse" where
  "parse_event conv fileLongSize system buffer =
     fold (event_line conv fileLongSize) (split 10 buffer)
       \<lparr>ep_stage = BeforeFields,
        ep_event = noFormat\<lparr>ef_system := system,
          ef_flags := (if system = ascii ''ftrace'' then EVENT_FL_ISFTRACE else 0)\<rparr>,
        ep_id = - 1, ep_seenId = False\<rparr>"

section \<open>Sections\<close>

lemma read_u8_nonzero:
  "run_state read_u8 s = (b, s') \<Longrightarrow> b \<noteq> 0 \<Longrightarrow> length (ds_rest s') < length (ds_rest s)"
  by (cases "ds_rest s") (auto simp: read_u8_def read_word_def Let_def)

function null_string :: "data_stream \<Rightarrow> bytes \<times> data_stream" where
  "null_string s =
     (case run_state read_u8 s of (b, s') \<Rightarrow>
        if b \<noteq> 0 then (case null_string s' of (str, s'') \<Rightarrow> (b # str, s'')) else ([], s'))"
  by pat_completeness auto
termination
  by (relation "measure (length \<circ> ds_rest)") (auto intro: read_u8_nonzero [OF sym])

declare null_string.simps [simp del]

definition readNullTerminatedString :: "bytes reader" where
  "readNullTerminatedString = State null_string"

definition checkMagic :: "bytes \<Rightarrow> bool reader" where
  "checkMagic magic = do {
     got \<leftarrow> read_bytes (length magic) [];
     State_Monad.return (got = magic)
   }"

definition checkSize :: "'a::len word \<Rightarrow> bool" where
  "checkSize n \<longleftrightarrow> uint n \<le> intMax"

text \<open>The next part is only read when this one succeeded.\<close>

definition and_then :: "(bool \<times> 'a) reader \<Rightarrow> ('a \<Rightarrow> (bool \<times> 'a) reader) \<Rightarrow> (bool \<times> 'a) reader" where
  "and_then rd next = do {
     (ok, x) \<leftarrow> rd;
     if ok then next x else State_Monad.return (False, x)
   }"

definition header_fields :: "conversions \<Rightarrow> bytes \<Rightarrow> tracing_data \<Rightarrow> tracing_data" where
  "header_fields conv buffer td = td\<lparr>td_headerFields := td_headerFields td
     @ map (readFormatField conv (td_fileLongSize td)) (filter (\<lambda>l. l \<noteq> []) (split 10 buffer))\<rparr>"

definition readHeaderPage :: "conversions \<Rightarrow> tracing_data \<Rightarrow> (bool \<times> tracing_data) reader" where
  "readHeaderPage conv td = do {
     ok \<leftarrow> checkMagic (ascii ''header_page'' @ [0]);
     if \<not> ok then State_Monad.return (False, td) else do {
       n \<leftarrow> read_u64;
       if \<not> checkSize n then State_Monad.return (False, td) else do {
         buffer \<leftarrow> read_bytes (unat n) [];
         State_Monad.return (True, header_fields conv buffer td)
       }
     }
   }"

definition readHeaderEvent :: "tracing_data \<Rightarrow> (bool \<times> tracing_data) reader" where
  "readHeaderEvent td = do {
     ok \<leftarrow> checkMagic (ascii ''header_event'' @ [0]);
     if \<not> ok then State_Monad.return (False, td) else do {
       n \<leftarrow> read_u64;
       if \<not> checkSize n then State_Monad.return (False, td) else do {
         _ \<leftarrow> skipRawData (uint n);
         State_Monad.return (True, td)
       }
     }
   }"

definition readHeaderFiles :: "conversions \<Rightarrow> tracing_data \<Rightarrow> (bool \<times> tracing_data) reader" where
  "readHeaderFiles conv td = and_then (readHeaderPage conv td) readHeaderEvent"

primrec read_formats_loop ::
  "conversions \<Rightarrow> bytes \<Rightarrow> nat \<Rightarrow> tracing_data \<Rightarrow> (bool \<times> tracing_data) reader"
where
  "read_formats_loop conv system 0 td = State_Monad.return (True, td)"
| "read_formats_loop conv system (Suc k) td = do {
     n \<leftarrow> read_u64;
     if \<not> checkSize n then State_Monad.return (False, td) else do {
       buffer \<leftarrow> read_bytes (unat n) [];
       let p = parse_event conv (td_fileLongSize td) system buffer;
       if \<not> ep_seenId p then State_Monad.return (False, td)
       else read_formats_loop conv system k
         (td\<lparr>td_eventFormats := (td_eventFormats td)(ep_id p \<mapsto> ep_event p)\<rparr>)
     }
   }"

definition readEventFormats :: "conversions \<Rightarrow> bytes \<Rightarrow> tracing_data \<Rightarrow> (bool \<times> tracing_data) reader" where
  "readEventFormats conv system td = do {
     count \<leftarrow> read_u32;
     read_formats_loop conv system (nat (sint count)) td
   }"

primrec read_systems :: "conversions \<Rightarrow> nat \<Rightarrow> tracing_data \<Rightarrow> (bool \<times> tracing_data) reader" where
  "read_systems conv 0 td = State_Monad.return (True, td)"
| "read_systems conv (Suc k) td = do {
     system \<leftarrow> readNullTerminatedString;
     and_then (readEventFormats conv system td) (read_systems conv k)
   }"

definition readEventFiles :: "conversions \<Rightarrow> tracing_data \<Rightarrow> (bool \<times> tracing_data) reader" where
  "readEventFiles conv td = do {
     systems \<leftarrow> read_u32;
     read_systems conv (nat (sint systems)) td
   }"

definition readProcKallsyms :: "tracing_data \<Rightarrow> (bool \<times> tracing_data) reader" where
  "readProcKallsyms td = do {
     n \<leftarrow> read_u32;
     if \<not> checkSize n then State_Monad.return (False, td) else do {
       _ \<leftarrow> skipRawData (uint n);
       State_Monad.return (True, td)
     }
   }"

text \<open>One line of the printk formats: the address and, without its quotes, the string.\<close>

definition printk_line :: "conversions \<Rightarrow> bytes \<Rightarrow> (u64 \<rightharpoonup> bytes) \<Rightarrow> (u64 \<rightharpoonup> bytes)" where
  "printk_line conv line m =
     (if line = [] then m else case split (of_char CHR '':'') line of
        [a, v] \<Rightarrow> (let value = trimmed v in
          m(toULongLong conv (trimmed a) \<mapsto>
            (if length value < 2 then drop 1 value else take (length value - 2) (drop 1 value))))
      | _ \<Rightarrow> m)"

definition readFtracePrintk :: "conversions \<Rightarrow> tracing_data \<Rightarrow> (bool \<times> tracing_data) reader" where
  "readFtracePrintk conv td = do {
     n \<leftarrow> read_u32;
     if \<not> checkSize n then State_Monad.return (False, td) else do {
       buffer \<leftarrow> read_bytes (unat n) [];
       State_Monad.return (True,
         td\<lparr>td_ftracePrintk := fold (printk_line conv) (split 10 buffer) (td_ftracePrintk td)\<rparr>)
     }
   }"

definition readSavedCmdline :: "tracing_data \<Rightarrow> (bool \<times> tracing_data) reader" where
  "readSavedCmdline td = do {
     n \<leftarrow> read_u64;
     if \<not> checkSize n then State_Monad.return (False, td) else do {
       buffer \<leftarrow> read_bytes (unat n) [];
       State_Monad.return (True,
         td\<lparr>td_savedCmdlines := td_savedCmdlines td @ filter (\<lambda>l. l \<noteq> []) (split 10 buffer)\<rparr>)
     }
   }"

definition s_tracingMagic :: bytes where
  "s_tracingMagic = [0x17, 8] @ ascii ''Dtracing''"

text \<open>The content of the section, on a stream of its own.\<close>

definition parse_tracing :: "conversions \<Rightarrow> tracing_data \<Rightarrow> tracing_data reader" where
  "parse_tracing conv td = do {
     ok \<leftarrow> checkMagic s_tracingMagic;
     if \<not> ok then State_Monad.return td else do {
       version \<leftarrow> readNullTerminatedString;
       endian \<leftarrow> read_u8;
       _ \<leftarrow> setByteOrder (if endian \<noteq> 0 then BigEndian else LittleEndian);
       longSize \<leftarrow> read_u8;
       pageSize \<leftarrow> read_u32;
       (_, td) \<leftarrow>
         and_then (and_then (and_then (and_then (and_then
           (readHeaderFiles conv (td\<lparr>td_version := version, td_bigEndian := endian \<noteq> 0,
              td_fileLongSize := longSize \<noteq> 0, td_filePageSize := pageSize\<rparr>))
           (readEventFormats conv (ascii ''ftrace'')))
           (readEventFiles conv))
           readProcKallsyms)
           (readFtracePrintk conv))
           (\<lambda>td. if atLeast06 conv (td_version td) then readSavedCmdline td
                 else State_Monad.return (True, td));
       State_Monad.return td
     }
   }"

definition read_tracing :: "conversions \<Rightarrow> tracing_data \<Rightarrow> tracing_data reader" where
  "read_tracing conv td =
     (if \<not> checkSize (td_size td) then do {
        _ \<leftarrow> skipRawData intMax;
        _ \<leftarrow> skipRawData (sint (td_size td - word_of_int intMax));
        State_Monad.return td
      } else do {
        s \<leftarrow> State_Monad.get;
        buffer \<leftarrow> read_bytes (unat (td_size td)) [];
        State_Monad.return (fst (run_state (parse_tracing conv td) (open_stream (ds_junk s) buffer)))
      })"

end
