(* ===== verification/TracingFacts.thy ===== *)
theory TracingFacts
  imports Tracing
begin

text \<open>
  Facts of the tracing data: the field and event descriptions the kernel writes are read back, and a
  section never takes more or less than its size from the stream around it.
\<close>

section \<open>Splitting and trimming\<close>

lemma split_nonempty [simp]: "split sep bs \<noteq> []"
  by (induction bs) (auto split: list.split)

lemma split_append: "split sep (a @ sep # b) = split sep a @ split sep b"
proof (induction a)
  case (Cons x a)
  then show ?case by (cases "split sep a") auto
qed simp

lemma split_none: "sep \<notin> set w \<Longrightarrow> split sep w = [w]"
  by (induction w) auto

lemma split_word: "sep \<notin> set w \<Longrightarrow> split sep (w @ sep # r) = w # split sep r"
  by (simp add: split_append split_none)

lemma join_split: "join sep (split sep bs) = bs"
proof (induction bs)
  case (Cons b bs)
  show ?case
  proof (cases "split sep bs")
    case (Cons w ws)
    with Cons.IH show ?thesis by (cases ws) auto
  qed simp
qed simp

lemma split_lines:
  "(\<forall>l \<in> set ls. sep \<notin> set l) \<Longrightarrow> split sep (concat (map (\<lambda>l. l @ [sep]) ls) @ r) = ls @ split sep r"
  by (induction ls) (simp_all add: split_word)

text \<open>Text that trimming leaves alone.\<close>

definition unspaced :: "bytes \<Rightarrow> bool" where
  "unspaced v \<longleftrightarrow> v \<noteq> [] \<and> \<not> is_space (hd v) \<and> \<not> is_space (last v)"

lemma trimmed_unspaced: "unspaced v \<Longrightarrow> trimmed v = v"
proof -
  assume v: "unspaced v"
  have "dropWhile is_space v = v" using v by (cases v) (simp_all add: unspaced_def)
  moreover have "dropWhile is_space (rev v) = rev v"
    using v by (cases "rev v") (simp_all add: unspaced_def flip: hd_rev)
  ultimately show ?thesis by (simp add: trimmed_def)
qed

lemma last_index_append: "b \<notin> set ys \<Longrightarrow> last_index b (xs @ b # ys) = Some (length xs)"
  by (simp add: last_index_def takeWhile_append)

section \<open>Fields\<close>

text \<open>
  A line of the kernel's format file, e.g. the field \<open>prev_comm\<close> of type \<open>char\<close> with its array length
  16: a chunk for the declaration, the offset, the size and the sign, each ended by a semicolon.
\<close>

definition format_chunk :: "string \<Rightarrow> bytes \<Rightarrow> bytes" where
  "format_chunk name v = ascii name @ of_char CHR '':'' # v @ [of_char CHR '';'']"

definition field_decl :: "bytes \<Rightarrow> bool \<Rightarrow> bytes \<Rightarrow> bytes option \<Rightarrow> bytes" where
  "field_decl ty ptr name dim = ty @ 32 # (if ptr then ascii ''*'' else []) @ name
     @ (case dim of None \<Rightarrow> [] | Some d \<Rightarrow> of_char CHR ''['' # d @ [of_char CHR '']''])"

definition field_line :: "bytes \<Rightarrow> bool \<Rightarrow> bytes \<Rightarrow> bytes option \<Rightarrow> bytes \<Rightarrow> bytes \<Rightarrow> bytes \<Rightarrow> bytes" where
  "field_line ty ptr name dim off sz sg =
     9 # format_chunk ''field'' (field_decl ty ptr name dim) @ 9 # format_chunk ''offset'' off
     @ 9 # format_chunk ''size'' sz @ 9 # format_chunk ''signed'' sg"

definition plain :: "bytes \<Rightarrow> bool" where
  "plain v \<longleftrightarrow> unspaced v \<and> 9 \<notin> set v \<and> of_char CHR '':'' \<notin> set v"

definition wf_name :: "bytes \<Rightarrow> bool" where
  "wf_name v \<longleftrightarrow> v \<noteq> [] \<and> (\<forall>b \<in> set v. \<not> is_space b \<and> b \<notin> set (ascii ''*:[];''))"

definition wf_field :: "bytes \<Rightarrow> bytes \<Rightarrow> bytes option \<Rightarrow> bytes \<Rightarrow> bytes \<Rightarrow> bytes \<Rightarrow> bool" where
  "wf_field ty name dim off sz sg \<longleftrightarrow> plain ty \<and> last (split 32 ty) \<noteq> ascii ''[]'' \<and> wf_name name
     \<and> (\<forall>d. dim = Some d \<longrightarrow> wf_name d) \<and> plain off \<and> plain sz \<and> plain sg"

lemma ascii_chars: "of_char CHR '':'' = (58 :: u8)" "of_char CHR '';'' = (59 :: u8)"
  "of_char CHR ''['' = (91 :: u8)" "of_char CHR '']'' = (93 :: u8)" "ascii ''*'' = [42]" "ascii ''[]'' = [91, 93]"
  "ascii ''*:[];'' = [42, 58, 91, 93, 59]" "ascii ''field'' = [102, 105, 101, 108, 100]"
  "ascii ''offset'' = [111, 102, 102, 115, 101, 116]" "ascii ''size'' = [115, 105, 122, 101]"
  "ascii ''signed'' = [115, 105, 103, 110, 101, 100]"
  by (simp_all add: ascii_def)

lemma chunk_pair:
  assumes "plain v" "58 \<notin> set (ascii name)" "toLower (ascii name) = ascii name"
  shows "chunk_pairs (format_chunk name v) = [(ascii name, v)]"
proof -
  have "split 58 (ascii name @ 58 # v @ [59]) = [ascii name, v @ [59]]"
    using assms(1,2) by (simp add: split_word split_none plain_def ascii_chars)
  moreover have "trimmed (v @ [59]) = v @ [59]"
    using assms(1) by (intro trimmed_unspaced) (auto simp: plain_def unspaced_def is_space_def hd_append)
  ultimately show ?thesis
    using assms(3) by (simp add: chunk_pairs_def format_chunk_def ascii_chars chop_semicolon_def)
qed

lemma plain_field_decl:
  assumes "plain ty" "wf_name name" "\<forall>d. dim = Some d \<longrightarrow> wf_name d"
  shows "plain (field_decl ty ptr name dim)"
proof -
  have free: "9 \<notin> set w \<and> 58 \<notin> set w \<and> \<not> is_space (last w) \<and> w \<noteq> []" if "wf_name w" for w
  proof -
    have "is_space 9" by (simp add: is_space_def)
    then show ?thesis using that by (auto simp: wf_name_def ascii_chars)
  qed
  let ?d = "field_decl ty ptr name dim"
  have "9 \<notin> set ?d \<and> 58 \<notin> set ?d"
    using assms free [OF assms(2)] free by (auto simp: plain_def field_decl_def ascii_chars split: option.splits)
  moreover have "?d \<noteq> [] \<and> hd ?d = hd ty" using assms(1) by (simp add: plain_def unspaced_def field_decl_def)
  moreover have "\<not> is_space (last ?d)"
    using free [OF assms(2)] by (simp add: field_decl_def ascii_chars is_space_def split: option.split)
  ultimately show ?thesis using assms(1) by (simp add: plain_def unspaced_def)
qed

lemma processLine_field_line:
  assumes "wf_field ty name dim off sz sg"
  shows "processLine (field_line ty ptr name dim off sz sg) =
    [(ascii ''field'', field_decl ty ptr name dim), (ascii ''offset'', off), (ascii ''size'', sz), (ascii ''signed'', sg)]"
proof -
  have p: "plain (field_decl ty ptr name dim)" "plain off" "plain sz" "plain sg"
    using assms plain_field_decl by (simp_all add: wf_field_def)
  have no_tab: "9 \<notin> set (format_chunk n v)" if "plain v" "9 \<notin> set (ascii n)" for n v
    using that by (auto simp: format_chunk_def plain_def ascii_chars)
  have "split 9 (field_line ty ptr name dim off sz sg) =
      [[], format_chunk ''field'' (field_decl ty ptr name dim), format_chunk ''offset'' off,
       format_chunk ''size'' sz, format_chunk ''signed'' sg]"
    using p by (simp add: field_line_def split_word split_none no_tab ascii_chars)
  then show ?thesis
    using chunk_pair [OF p(1), of "''field''"] chunk_pair [OF p(2), of "''offset''"]
      chunk_pair [OF p(3), of "''size''"] chunk_pair [OF p(4), of "''signed''"]
    by (simp add: processLine_def chunk_pairs_def [of "[]"] ascii_chars toLower_def)
qed

definition declared :: "conversions \<Rightarrow> bytes \<Rightarrow> bool \<Rightarrow> bytes \<Rightarrow> bytes option \<Rightarrow> format_field \<Rightarrow> format_field" where
  "declared conv ty ptr name dim f =
     (let f = (if ptr then setFlag FIELD_IS_POINTER f else f);
          f = (case dim of None \<Rightarrow> f | Some d \<Rightarrow> (setFlag FIELD_IS_ARRAY f)\<lparr>ff_arraylen := toUInt conv d\<rparr>) in
      f\<lparr>ff_name := name, ff_type := ty\<rparr>)"

lemma declare_field_decl:
  assumes "plain ty" "last (split 32 ty) \<noteq> ascii ''[]''" "wf_name name" "\<forall>d. dim = Some d \<longrightarrow> wf_name d"
  shows "declare_field conv (field_decl ty ptr name dim) f = declared conv ty ptr name dim f"
proof -
  let ?array = "case dim of None \<Rightarrow> [] | Some d \<Rightarrow> 91 # d @ [93]"
  let ?tail = "(if ptr then [42] else []) @ name @ ?array"
  have trim: "trimmed (field_decl ty ptr name dim) = field_decl ty ptr name dim"
    using plain_field_decl [OF assms(1,3,4)] by (simp add: plain_def trimmed_unspaced)
  have free: "32 \<notin> set w \<and> 42 \<notin> set w \<and> 91 \<notin> set w \<and> 93 \<notin> set w \<and> w \<noteq> []" if "wf_name w" for w
  proof -
    have "is_space 32" by (simp add: is_space_def)
    then show ?thesis using that by (auto simp: wf_name_def ascii_chars)
  qed
  note name = free [OF assms(3)]
  have dim: "32 \<notin> set d \<and> 91 \<notin> set d" if "dim = Some d" for d
    using free assms(4) that by blast
  have "32 \<notin> set ?tail" using name dim by (auto split: option.splits)
  then have split: "split 32 (field_decl ty ptr name dim) = split 32 ty @ [?tail]"
    by (simp add: field_decl_def split_append split_none ascii_chars split: option.split)
  have star: "starts_with [42] ?tail \<longleftrightarrow> ptr"
    using name by (cases name) (auto simp: starts_with_def)
  have drop: "(if ptr then drop 1 ?tail else ?tail) = name @ ?array" by simp
  have array: "name @ ?array \<noteq> [] \<and> last (name @ ?array) = 93 \<longleftrightarrow> dim \<noteq> None"
  proof -
    have "last name \<noteq> 93" using name last_in_set [of name] by metis
    then show ?thesis using name by (auto split: option.splits)
  qed
  have idx: "last_index 91 (name @ 91 # d @ [93]) = Some (length name)" if "dim = Some d" for d
    using dim [OF that] by (simp add: last_index_append)
  show ?thesis
    unfolding declare_field_def Let_def trim split ascii_chars
    using star array idx assms(2)
    by (cases ptr; cases dim) (simp_all add: declared_def ascii_chars join_split setFlag_def, auto)
qed

lemma fold_field_line:
  assumes "wf_field ty name dim off sz sg"
  shows "fold (field_step conv) (processLine (field_line ty ptr name dim off sz sg)) noField =
    (let f = (declared conv ty ptr name dim noField)\<lparr>ff_offset := toUInt conv off, ff_size := toUInt conv sz\<rparr> in
     if toInt conv sg \<noteq> 0 then setFlag FIELD_IS_SIGNED f else f)"
  using assms
  by (simp add: processLine_field_line field_step_def ascii_chars declare_field_decl wf_field_def Let_def)

lemmas flag_defs = FIELD_IS_ARRAY_def FIELD_IS_POINTER_def FIELD_IS_SIGNED_def FIELD_IS_STRING_def
  FIELD_IS_DYNAMIC_def FIELD_IS_LONG_def

lemma setFlag_fields [simp]:
  "ff_type (setFlag a f) = ff_type f" "ff_name (setFlag a f) = ff_name f" "ff_offset (setFlag a f) = ff_offset f"
  "ff_size (setFlag a f) = ff_size f" "ff_arraylen (setFlag a f) = ff_arraylen f"
  "ff_elementsize (setFlag a f) = ff_elementsize f"
  by (simp_all add: setFlag_def)

lemma hasFlag_update [simp]:
  "hasFlag a (f\<lparr>ff_type := x\<rparr>) = hasFlag a f" "hasFlag a (f\<lparr>ff_name := x\<rparr>) = hasFlag a f"
  "hasFlag a (f\<lparr>ff_offset := n\<rparr>) = hasFlag a f" "hasFlag a (f\<lparr>ff_size := n\<rparr>) = hasFlag a f"
  "hasFlag a (f\<lparr>ff_arraylen := n\<rparr>) = hasFlag a f" "hasFlag a (f\<lparr>ff_elementsize := n\<rparr>) = hasFlag a f"
  by (simp_all add: hasFlag_def)

lemma hasFlag_setFlag: "hasFlag a (setFlag b f) \<longleftrightarrow> hasFlag a f \<or> and b a \<noteq> 0"
  by (simp add: hasFlag_def setFlag_def bit.conj_disj_distrib2 or_eq_0_iff)

lemma hasFlag_none: "\<not> hasFlag a noField"
  by (simp add: hasFlag_def noField_def)

lemma set_elementsize_facts:
  "ff_type (set_elementsize l f) = ff_type f" "ff_name (set_elementsize l f) = ff_name f"
  "ff_offset (set_elementsize l f) = ff_offset f" "ff_size (set_elementsize l f) = ff_size f"
  "ff_arraylen (set_elementsize l f) = ff_arraylen f"
  "and FIELD_IS_STRING a = 0 \<Longrightarrow> hasFlag a (set_elementsize l f) = hasFlag a f"
  "\<not> hasFlag FIELD_IS_ARRAY f \<Longrightarrow> set_elementsize l f = f\<lparr>ff_elementsize := ff_size f\<rparr>"
  "hasFlag FIELD_IS_ARRAY f \<Longrightarrow> contains_bytes ''char'' (ff_type f)
    \<Longrightarrow> set_elementsize l f = (setFlag FIELD_IS_STRING f)\<lparr>ff_elementsize := 1\<rparr>"
  "hasFlag FIELD_IS_ARRAY f \<Longrightarrow> 0 < ff_arraylen f \<Longrightarrow> \<not> hasFlag FIELD_IS_STRING (set_elementsize l f)
    \<Longrightarrow> ff_elementsize (set_elementsize l f) = ff_size f div ff_arraylen f"
  by (simp_all add: set_elementsize_def Let_def hasFlag_setFlag)
    (auto simp: flag_defs hasFlag_setFlag)

text \<open>
  C35: a field description of the kernel's format file is read back: type, name, offset, size, sign,
  pointer and array length are those of the line. An item that is no array is one element; characters
  are strings of bytes; an array with a length that is not of characters divides its size.
\<close>
theorem readFormatField_line:
  assumes "wf_field ty name dim off sz sg"
  shows "let f = readFormatField conv longSize (field_line ty ptr name dim off sz sg) in
    ff_type f = ty \<and> ff_name f = name \<and> ff_offset f = toUInt conv off \<and> ff_size f = toUInt conv sz
    \<and> ff_arraylen f = (case dim of None \<Rightarrow> 0 | Some d \<Rightarrow> toUInt conv d)
    \<and> (hasFlag FIELD_IS_POINTER f \<longleftrightarrow> ptr) \<and> (hasFlag FIELD_IS_ARRAY f \<longleftrightarrow> dim \<noteq> None)
    \<and> (hasFlag FIELD_IS_SIGNED f \<longleftrightarrow> toInt conv sg \<noteq> 0)
    \<and> (hasFlag FIELD_IS_DYNAMIC f \<longleftrightarrow> starts_with (ascii ''__data_loc'') ty)
    \<and> (dim = None \<longrightarrow> ff_elementsize f = ff_size f \<and> \<not> hasFlag FIELD_IS_STRING f)
    \<and> (dim \<noteq> None \<and> contains_bytes ''char'' ty \<longrightarrow> ff_elementsize f = 1 \<and> hasFlag FIELD_IS_STRING f)
    \<and> (dim \<noteq> None \<and> 0 < ff_arraylen f \<and> \<not> hasFlag FIELD_IS_STRING f
        \<longrightarrow> ff_elementsize f = ff_size f div ff_arraylen f)"
proof -
  define dyn where "dyn = starts_with (ascii ''__data_loc'') ty"
  define has where "has = (\<lambda>t. contains_bytes t ty)"
  let ?f = "fold (field_step conv) (processLine (field_line ty ptr name dim off sz sg)) noField"
  have fields: "ff_type ?f = ty" "ff_name ?f = name" "ff_offset ?f = toUInt conv off" "ff_size ?f = toUInt conv sz"
    "ff_arraylen ?f = (case dim of None \<Rightarrow> 0 | Some d \<Rightarrow> toUInt conv d)" "ff_elementsize ?f = 0"
    unfolding fold_field_line [OF assms]
    by (simp_all add: declared_def Let_def noField_def split: option.split)
  have flags: "hasFlag FIELD_IS_POINTER ?f = ptr" "hasFlag FIELD_IS_ARRAY ?f = (dim \<noteq> None)"
    "hasFlag FIELD_IS_SIGNED ?f = (toInt conv sg \<noteq> 0)" "\<not> hasFlag FIELD_IS_DYNAMIC ?f"
    "\<not> hasFlag FIELD_IS_STRING ?f" "\<not> hasFlag FIELD_IS_LONG ?f"
    unfolding fold_field_line [OF assms]
    by (simp_all add: declared_def Let_def hasFlag_setFlag hasFlag_none flag_defs split: option.split)
  define g where "g = (if has ''long'' then setFlag FIELD_IS_LONG (if dyn then setFlag FIELD_IS_DYNAMIC ?f else ?f)
    else if dyn then setFlag FIELD_IS_DYNAMIC ?f else ?f)"
  have eq: "readFormatField conv longSize (field_line ty ptr name dim off sz sg) = set_elementsize longSize g"
  proof -
    have "contains_bytes ''long'' ty = has ''long''" by (simp add: has_def)
    then show ?thesis by (simp add: readFormatField_def g_def Let_def fields flip: dyn_def)
  qed
  have g: "ff_type g = ty" "ff_name g = name" "ff_offset g = toUInt conv off" "ff_size g = toUInt conv sz"
    "ff_arraylen g = (case dim of None \<Rightarrow> 0 | Some d \<Rightarrow> toUInt conv d)"
    by (simp_all add: g_def fields)
  have g_flags: "hasFlag FIELD_IS_POINTER g = ptr" "hasFlag FIELD_IS_ARRAY g = (dim \<noteq> None)"
    "hasFlag FIELD_IS_SIGNED g = (toInt conv sg \<noteq> 0)" "hasFlag FIELD_IS_DYNAMIC g = dyn"
    "\<not> hasFlag FIELD_IS_STRING g"
    using flags by (simp_all add: g_def hasFlag_setFlag) (simp_all add: flag_defs)
  have string: "and FIELD_IS_STRING FIELD_IS_POINTER = 0" "and FIELD_IS_STRING FIELD_IS_ARRAY = 0"
    "and FIELD_IS_STRING FIELD_IS_SIGNED = 0" "and FIELD_IS_STRING FIELD_IS_DYNAMIC = 0"
    "and FIELD_IS_STRING FIELD_IS_STRING \<noteq> 0"
    by (simp_all add: flag_defs)
  have e: "dim = None \<Longrightarrow> set_elementsize longSize g = g\<lparr>ff_elementsize := ff_size g\<rparr>"
    "dim \<noteq> None \<Longrightarrow> has ''char'' \<Longrightarrow> set_elementsize longSize g = (setFlag FIELD_IS_STRING g)\<lparr>ff_elementsize := 1\<rparr>"
    "dim \<noteq> None \<Longrightarrow> 0 < ff_arraylen g \<Longrightarrow> \<not> hasFlag FIELD_IS_STRING (set_elementsize longSize g)
      \<Longrightarrow> ff_elementsize (set_elementsize longSize g) = ff_size g div ff_arraylen g"
    using set_elementsize_facts(7-9) [of g longSize] g_flags g by (simp_all add: has_def)
  show ?thesis
    unfolding eq Let_def set_elementsize_facts(1-5) set_elementsize_facts(6) [OF string(1)]
      set_elementsize_facts(6) [OF string(2)] set_elementsize_facts(6) [OF string(3)]
      set_elementsize_facts(6) [OF string(4)] g(1-3) g_flags(1-4)
    using e g g_flags(5) string(5) by (auto simp: dyn_def has_def hasFlag_setFlag)
qed

definition example_conversions :: conversions where
  "example_conversions = \<lparr>toUInt = (\<lambda>t. of_nat (fold (\<lambda>d n. 10 * n + unat (d - 48)) t 0)),
     toInt = (\<lambda>t. of_nat (fold (\<lambda>d n. 10 * n + unat (d - 48)) t 0)), toULongLong = (\<lambda>_. 0), atLeast06 = (\<lambda>_. False)\<rparr>"

theorem readFormatField_line_witness:
  "let f = readFormatField example_conversions True
       (field_line (ascii ''char'') False (ascii ''comm'') (Some (ascii ''16'')) (ascii ''8'') (ascii ''16'') (ascii ''1'')) in
   ff_name f = ascii ''comm'' \<and> ff_offset f = 8 \<and> ff_size f = 16 \<and> ff_arraylen f = 16 \<and> ff_elementsize f = 1"
proof -
  have "wf_field (ascii ''char'') (ascii ''comm'') (Some (ascii ''16'')) (ascii ''8'') (ascii ''16'') (ascii ''1'')"
    by (simp add: wf_field_def plain_def unspaced_def wf_name_def is_space_def ascii_def)
  moreover have "contains_bytes ''char'' (ascii ''char'')"
    by (simp add: contains_bytes_def starts_with_def ascii_def upt_rec)
  ultimately show ?thesis
    using readFormatField_line [of "ascii ''char''" "ascii ''comm''" "Some (ascii ''16'')" "ascii ''8''" "ascii ''16''"
        "ascii ''1''" example_conversions True False]
    by (simp add: Let_def example_conversions_def ascii_def)
qed

section \<open>Events\<close>

text \<open>The format file of an event, as the kernel writes it: three lines, and the two lists of fields.\<close>

definition event_file :: "bytes \<Rightarrow> bytes \<Rightarrow> bytes list \<Rightarrow> bytes list \<Rightarrow> bytes list \<Rightarrow> bytes" where
  "event_file name idText commons own rest = concat (map (\<lambda>l. l @ [10])
     ([ascii ''name: '' @ name, ascii ''ID: '' @ idText, ascii ''format:''] @ commons @ [[]] @ own @ [[]] @ rest))"

definition wf_value :: "bytes \<Rightarrow> bool" where
  "wf_value v \<longleftrightarrow> unspaced v \<and> 9 \<notin> set v \<and> 10 \<notin> set v \<and> 58 \<notin> set v \<and> last v \<noteq> 59"

lemma processLine_value:
  assumes "wf_value v" "9 \<notin> set n" "58 \<notin> set n"
  shows "processLine (n @ 58 # 32 # v) = [(toLower n, v)]"
proof -
  have "9 \<notin> set (n @ 58 # 32 # v)" using assms by (simp add: wf_value_def)
  then have "split 9 (n @ 58 # 32 # v) = [n @ 58 # 32 # v]" by (rule split_none)
  moreover have "split 58 (n @ 58 # 32 # v) = [n, 32 # v]"
    using assms by (simp add: split_word split_none wf_value_def)
  moreover have "trimmed (32 # v) = v"
  proof -
    have "trimmed (32 # v) = trimmed v" by (simp add: trimmed_def is_space_def)
    then show ?thesis using assms(1) by (simp add: wf_value_def trimmed_unspaced)
  qed
  ultimately show ?thesis
    using assms(1) by (simp add: processLine_def chunk_pairs_def ascii_chars chop_semicolon_def wf_value_def)
qed

lemma fold_common_lines:
  "ep_stage p = CommonFields \<Longrightarrow> \<forall>l \<in> set ls. l \<noteq> [] \<Longrightarrow>
    fold (event_line conv b) ls p = p\<lparr>ep_event := (ep_event p)\<lparr>ef_commonFields :=
      ef_commonFields (ep_event p) @ map (readFormatField conv b) ls\<rparr>\<rparr>"
  by (induction ls arbitrary: p) (simp_all add: event_line_def)

lemma fold_field_lines:
  "ep_stage p = NonCommonFields \<Longrightarrow> \<forall>l \<in> set ls. l \<noteq> [] \<Longrightarrow>
    fold (event_line conv b) ls p = p\<lparr>ep_event := (ep_event p)\<lparr>ef_fields :=
      ef_fields (ep_event p) @ map (readFormatField conv b) ls\<rparr>\<rparr>"
  by (induction ls arbitrary: p) (simp_all add: event_line_def)

text \<open>Lines after the fields that name nothing the parser listens to.\<close>

definition quiet_line :: "bytes \<Rightarrow> bool" where
  "quiet_line l \<longleftrightarrow> 10 \<notin> set l \<and> (\<forall>nv \<in> set (processLine l).
     fst nv \<noteq> ascii ''name'' \<and> fst nv \<noteq> ascii ''id'' \<and> fst nv \<noteq> ascii ''format'')"

lemma fold_quiet_lines:
  "ep_stage p = AfterFields \<Longrightarrow> \<forall>l \<in> set ls. quiet_line l \<Longrightarrow> fold (event_line conv b) ls p = p"
proof (induction ls)
  case (Cons l ls)
  have "fold (event_pair conv) nvs p = p"
    if "\<forall>nv \<in> set nvs. fst nv \<noteq> ascii ''name'' \<and> fst nv \<noteq> ascii ''id'' \<and> fst nv \<noteq> ascii ''format''" for nvs
    using that by (induction nvs) (auto simp: event_pair_def)
  then have "event_line conv b l p = p" using Cons.prems by (simp add: event_line_def quiet_line_def)
  then show ?case using Cons by simp
qed simp

text \<open>
  C36: the format file of an event is read back: the event has the name and the id it names, the common
  fields are those described before the empty line and its own fields those after it, in order, and
  what follows (such as the print format) changes nothing.
\<close>
theorem parse_event_file:
  assumes "wf_value name" "wf_value idText"
    and "\<forall>l \<in> set (commons @ own). l \<noteq> [] \<and> 10 \<notin> set l" "\<forall>l \<in> set rest. quiet_line l"
  shows "let p = parse_event conv longSize system (event_file name idText commons own rest) in
    ep_seenId p \<and> ep_id p = toInt conv idText \<and> ef_name (ep_event p) = name \<and> ef_system (ep_event p) = system
    \<and> ef_commonFields (ep_event p) = map (readFormatField conv longSize) commons
    \<and> ef_fields (ep_event p) = map (readFormatField conv longSize) own"
proof -
  let ?l1 = "ascii ''name: '' @ name" and ?l2 = "ascii ''ID: '' @ idText" and ?l3 = "ascii ''format:''"
  have lines: "?l1 = [110, 97, 109, 101] @ 58 # 32 # name" "?l2 = [73, 68] @ 58 # 32 # idText"
    "?l3 = [102, 111, 114, 109, 97, 116, 58]"
    by (simp_all add: ascii_def)
  have names: "ascii ''name'' = [110, 97, 109, 101]" "ascii ''id'' = [105, 100]"
    "ascii ''format'' = [102, 111, 114, 109, 97, 116]"
    by (simp_all add: ascii_def)
  have pairs: "processLine ?l1 = [([110, 97, 109, 101], name)]" "processLine ?l2 = [([105, 100], idText)]"
    unfolding lines using processLine_value [OF assms(1), of "[110, 97, 109, 101]"] processLine_value [OF assms(2), of "[73, 68]"]
    by (simp_all add: toLower_def)
  have pair3: "processLine ?l3 = [([102, 111, 114, 109, 97, 116], [])]"
    unfolding lines by (simp add: processLine_def chunk_pairs_def ascii_chars toLower_def trimmed_def chop_semicolon_def)
  have empty: "processLine [] = []" by (simp add: processLine_def chunk_pairs_def)
  then have quiet: "quiet_line []" by (simp add: quiet_line_def)
  have split: "split 10 (event_file name idText commons own rest)
      = ([?l1, ?l2, ?l3] @ commons @ [[]] @ own @ [[]] @ rest) @ split 10 []"
    unfolding event_file_def
    using split_lines [of "[?l1, ?l2, ?l3] @ commons @ [[]] @ own @ [[]] @ rest" 10 "[]"] assms
    by (simp add: wf_value_def quiet_line_def lines ball_Un)
  show ?thesis
    unfolding parse_event_def split
    using assms(3,4) quiet
    by (simp add: event_line_def [of _ _ ?l1] event_line_def [of _ _ ?l2] event_line_def [of _ _ ?l3]
        pairs pair3 event_pair_def names fold_common_lines fold_field_lines fold_quiet_lines
        event_line_def [of _ _ "[]"] Let_def empty noFormat_def)
qed

theorem parse_event_file_witness:
  "let p = parse_event example_conversions True (ascii ''sched'')
       (event_file (ascii ''switch'') (ascii ''314'') [[9]] [[9, 65], [66]] [ascii ''print fmt: x'']) in
   ep_id p = 314 \<and> length (ef_fields (ep_event p)) = 2"
proof -
  have "wf_value (ascii ''switch'')" "wf_value (ascii ''314'')"
    by (simp_all add: wf_value_def unspaced_def is_space_def ascii_def)
  moreover have "quiet_line (ascii ''print fmt: x'')"
    by (simp add: quiet_line_def processLine_def chunk_pairs_def toLower_def ascii_def)
  ultimately show ?thesis
    using parse_event_file [of "ascii ''switch''" "ascii ''314''" "[[9]]" "[[9, 65], [66]]" "[ascii ''print fmt: x'']"
        example_conversions True "ascii ''sched''"]
    by (simp add: Let_def example_conversions_def ascii_def)
qed

section \<open>The section in the stream\<close>

text \<open>
  C37: whatever a tracing data section holds, and whether it can be parsed or not, reading it takes
  exactly its size from the stream around it, for every size but \<open>2 ^ 32 - 1\<close>.
\<close>
theorem read_tracing_takes_size:
  assumes "td_size td \<noteq> - 1"
  shows "takes (read_tracing conv td) (unat (td_size td))"
proof (cases "checkSize (td_size td)")
  case True
  have "takes (do {
      s \<leftarrow> State_Monad.get;
      buffer \<leftarrow> read_bytes (unat (td_size td)) [];
      State_Monad.return (fst (run_state (parse_tracing conv td) (open_stream (ds_junk s) buffer)))
    }) (0 + (unat (td_size td) + 0))"
    by (intro takes_intros)
  then show ?thesis using True by (simp add: read_tracing_def)
next
  case False
  let ?n = "td_size td"
  have u: "intMax < uint ?n" using False by (simp add: checkSize_def)
  have "uint ?n \<noteq> 2 ^ 32 - 1"
  proof -
    have "uint (- 1 :: u32) = 2 ^ 32 - 1" by (simp add: unsigned_minus_1_eq_mask mask_eq_exp_minus_1)
    then show ?thesis using assms by (metis word_uint_eq_iff)
  qed
  then have lt: "uint ?n < 2 ^ 32 - 1" using unsigned_less [of ?n, where 'a = int] by simp
  have "uint (?n - word_of_int intMax) = uint ?n - intMax"
    using u lt by (simp add: uint_word_ariths intMax_def)
  then have diff: "sint (?n - word_of_int intMax) = uint ?n - intMax"
    using u lt by (simp add: sint_uint intMax_def signed_take_bit_int_eq_self)
  have "takes (do {
      _ \<leftarrow> skipRawData intMax;
      _ \<leftarrow> skipRawData (sint (?n - word_of_int intMax));
      State_Monad.return td
    }) (nat intMax + (nat (sint (?n - word_of_int intMax)) + 0))"
    by (intro takes_intros) (use u diff in \<open>simp_all add: intMax_def\<close>)
  moreover have "nat intMax + (nat (sint (?n - word_of_int intMax)) + 0) = unat ?n"
    using u unfolding diff by (simp add: intMax_def flip: nat_uint_eq)
  ultimately show ?thesis using False by (simp add: read_tracing_def)
qed

theorem read_tracing_takes_size_witness:
  "takes (read_tracing example_conversions (noTracing\<lparr>td_size := 4\<rparr>)) 4"
  using read_tracing_takes_size [of "noTracing\<lparr>td_size := 4\<rparr>" example_conversions] by simp

text \<open>
  The long size of the recording machine is kept as a truth value: the elements of an array of \<open>long\<close>
  without a length count as one byte each, whatever size the file gives.
\<close>

lemma long_arrays_are_bytes:
  "ff_elementsize (readFormatField conv (longSize \<noteq> (0 :: u8)) (9 # format_chunk ''field'' (ascii ''unsigned long [] addrs'')))
    = (if longSize = 0 then 0 else 1)"
proof -
  have p: "processLine (9 # format_chunk ''field'' (ascii ''unsigned long [] addrs''))
      = [(ascii ''field'', ascii ''unsigned long [] addrs'')]"
    by (simp add: processLine_def chunk_pairs_def format_chunk_def ascii_def toLower_def trimmed_def
        is_space_def chop_semicolon_def)
  have d: "declare_field conv (ascii ''unsigned long [] addrs'') noField =
      noField\<lparr>ff_name := ascii ''addrs'', ff_type := ascii ''unsigned long'', ff_flags := FIELD_IS_ARRAY\<rparr>"
    by (simp add: declare_field_def ascii_def trimmed_def is_space_def starts_with_def setFlag_def noField_def)
  have c: "contains_bytes ''long'' (ascii ''unsigned long'')" "\<not> contains_bytes ''char'' (ascii ''unsigned long'')"
    "\<not> contains_bytes ''u8'' (ascii ''unsigned long'')" "\<not> contains_bytes ''s8'' (ascii ''unsigned long'')"
    "\<not> contains_bytes ''u16'' (ascii ''unsigned long'')" "\<not> contains_bytes ''s16'' (ascii ''unsigned long'')"
    "\<not> contains_bytes ''u32'' (ascii ''unsigned long'')" "\<not> contains_bytes ''s32'' (ascii ''unsigned long'')"
    "\<not> contains_bytes ''u64'' (ascii ''unsigned long'')" "\<not> contains_bytes ''s64'' (ascii ''unsigned long'')"
    "\<not> starts_with (ascii ''__data_loc'') (ascii ''unsigned long'')"
    by code_simp+
  let ?f = "noField\<lparr>ff_name := ascii ''addrs'', ff_type := ascii ''unsigned long'', ff_flags := FIELD_IS_ARRAY\<rparr>"
  have "fold (field_step conv) [(ascii ''field'', ascii ''unsigned long [] addrs'')] noField = ?f"
    by (simp add: field_step_def d)
  moreover have "ff_type ?f = ascii ''unsigned long''" by simp
  ultimately have "readFormatField conv (longSize \<noteq> 0) (9 # format_chunk ''field'' (ascii ''unsigned long [] addrs''))
      = set_elementsize (longSize \<noteq> 0) (setFlag FIELD_IS_LONG ?f)"
    unfolding readFormatField_def p by (simp only: c Let_def if_True if_False)
  moreover have "hasFlag FIELD_IS_ARRAY (setFlag FIELD_IS_LONG ?f)" "hasFlag FIELD_IS_LONG (setFlag FIELD_IS_LONG ?f)"
    by (simp_all add: hasFlag_def setFlag_def flag_defs)
  moreover have "ff_type (setFlag FIELD_IS_LONG ?f) = ascii ''unsigned long''" "ff_arraylen (setFlag FIELD_IS_LONG ?f) = 0"
    by (simp_all add: noField_def)
  ultimately show ?thesis
    by (simp only: set_elementsize_def Let_def c if_True if_False simp_thms word_gt_0) simp
qed

end
