(* ===== verification/TraceData.thy ===== *)
theory TraceData
  imports TracingFacts Attributes
begin

text \<open>
  The values of trace points: \<open>readFromArray\<close>, \<open>readTraceItem\<close> and \<open>readTraceData\<close> of
  \<open>app/perfunwind.cpp\<close>. \<open>QVariant\<close> is the datatype of what these functions put into it. A number that
  is read beyond the end of the raw data is \<open>None\<close>. The loop over the elements of an array may
  never end; it is a partial function, \<open>None\<close> where it does not.
\<close>

datatype qvariant = QInvalid | QInt s32 | QUInt u32 | QLongLong s64 | QULongLong u64

datatype trace_value = TraceItem "qvariant option" | TraceBytes bytes | TraceList "qvariant option list"

definition trace_order :: "bool \<Rightarrow> byte_order" where
  "trace_order byteSwap = (if byteSwap = (hostByteOrder = LittleEndian) then BigEndian else LittleEndian)"

definition readFromArray :: "nat \<Rightarrow> bytes \<Rightarrow> u32 \<Rightarrow> bool \<Rightarrow> 'a::len word option" where
  "readFromArray k data offset byteSwap =
     (if unat offset + k \<le> length data
      then Some (decode (trace_order byteSwap) (take k (drop (unat offset) data))) else None)"

text \<open>Signed and unsigned 8-bit and 16-bit integers, and signed 32-bit ones, become an \<open>int\<close>.\<close>

definition readTraceItem :: "bytes \<Rightarrow> u32 \<Rightarrow> u32 \<Rightarrow> bool \<Rightarrow> bool \<Rightarrow> qvariant option" where
  "readTraceItem data offset sz isSigned byteSwap =
     (if isSigned then
        if sz = 1 then map_option (\<lambda>w. QInt (scast (w :: u8))) (readFromArray 1 data offset byteSwap)
        else if sz = 2 then map_option (\<lambda>w. QInt (scast (w :: u16))) (readFromArray 2 data offset byteSwap)
        else if sz = 4 then map_option QInt (readFromArray 4 data offset byteSwap)
        else if sz = 8 then map_option QLongLong (readFromArray 8 data offset byteSwap)
        else Some QInvalid
      else
        if sz = 1 then map_option (\<lambda>w. QInt (ucast (w :: u8))) (readFromArray 1 data offset byteSwap)
        else if sz = 2 then map_option (\<lambda>w. QInt (ucast (w :: u16))) (readFromArray 2 data offset byteSwap)
        else if sz = 4 then map_option QUInt (readFromArray 4 data offset byteSwap)
        else if sz = 8 then map_option QULongLong (readFromArray 8 data offset byteSwap)
        else Some QInvalid)"

text \<open>\<open>QVariant::toUInt\<close> of a number.\<close>

definition variant_toUInt :: "qvariant option \<Rightarrow> u32" where
  "variant_toUInt v = (case v of Some (QInt w) \<Rightarrow> w | Some (QUInt w) \<Rightarrow> w | Some (QLongLong w) \<Rightarrow> ucast w
     | Some (QULongLong w) \<Rightarrow> ucast w | _ \<Rightarrow> 0)"

partial_function (option) trace_array ::
  "bytes \<Rightarrow> format_field \<Rightarrow> bool \<Rightarrow> u32 \<Rightarrow> qvariant option list option"
where
  "trace_array data f byteSwap i =
     (if i < ff_size f then
        Option.bind (trace_array data f byteSwap (i + ff_elementsize f))
          (\<lambda>vs. Some (readTraceItem data (ff_offset f + i) (ff_elementsize f)
             (hasFlag FIELD_IS_SIGNED f) byteSwap # vs))
      else Some [])"

definition trace_bounds :: "bytes \<Rightarrow> format_field \<Rightarrow> bool" where
  "trace_bounds data f \<longleftrightarrow> \<not> (uint (ff_offset f) > intMax \<or> uint (ff_size f) > intMax
     \<or> uint (ff_offset f + ff_size f) > intMax \<or> sint (ff_offset f + ff_size f) > int (length data))"

text \<open>A field that is not, or no longer, dynamic.\<close>

definition read_static :: "bytes \<Rightarrow> format_field \<Rightarrow> bool \<Rightarrow> trace_value option" where
  "read_static data f byteSwap =
     (if \<not> trace_bounds data f then Some (TraceItem (Some QInvalid))
      else if hasFlag FIELD_IS_ARRAY f then
        if hasFlag FIELD_IS_STRING f
        then Some (TraceBytes (take (unat (ff_size f)) (drop (unat (ff_offset f)) data)))
        else map_option TraceList (trace_array data f byteSwap 0)
      else Some (TraceItem (readTraceItem data (ff_offset f) (ff_size f) (hasFlag FIELD_IS_SIGNED f) byteSwap)))"

definition dynamic_field :: "u32 \<Rightarrow> format_field \<Rightarrow> format_field" where
  "dynamic_field w f = f\<lparr>ff_offset := and w 0xffff, ff_size := drop_bit 16 w,
     ff_flags := and (ff_flags f) (not FIELD_IS_DYNAMIC)\<rparr>"

text \<open>The recursive call is made with the dynamic flag cleared, so it is the static case.\<close>

definition readTraceData :: "bytes \<Rightarrow> format_field \<Rightarrow> bool \<Rightarrow> trace_value option" where
  "readTraceData data f byteSwap =
     (if trace_bounds data f \<and> hasFlag FIELD_IS_ARRAY f \<and> hasFlag FIELD_IS_DYNAMIC f then
        read_static data
          (dynamic_field (variant_toUInt (readTraceItem data (ff_offset f) (ff_size f) False byteSwap)) f) byteSwap
      else read_static data f byteSwap)"

section \<open>Facts\<close>

lemma readFromArray_encoded:
  assumes "LENGTH('a::len) = 8 * k" "unat offset = length pre" "data = pre @ encode k (trace_order byteSwap) w @ post"
  shows "readFromArray k data offset byteSwap = Some (w :: 'a word)"
proof -
  have "take k (drop (unat offset) data) = encode k (trace_order byteSwap) w" "unat offset + k \<le> length data"
    by (simp_all add: assms(2,3))
  then show ?thesis by (simp only: readFromArray_def if_True decode_encode [OF assms(1)])
qed

lemma bounds_nat:
  assumes "trace_bounds data f"
  shows "unat (ff_offset f) + unat (ff_size f) \<le> length data" and "uint (ff_size f) \<le> intMax"
proof -
  let ?s = "ff_offset f + ff_size f"
  have b: "uint (ff_offset f) \<le> intMax" "uint (ff_size f) \<le> intMax" "uint ?s \<le> intMax" "sint ?s \<le> int (length data)"
    using assms by (auto simp: trace_bounds_def)
  have "unat (ff_offset f) + unat (ff_size f) < 2 ^ 32"
    using b(1,2) by (simp add: intMax_def flip: nat_uint_eq)
  then have "unat ?s = unat (ff_offset f) + unat (ff_size f)" by (simp add: unat_add_nowrap)
  moreover have "sint ?s = uint ?s"
  proof -
    have "- (2 ^ 31) \<le> uint ?s" by (rule order_trans [OF _ uint_ge_0]) simp
    moreover have "uint ?s < 2 ^ 31" using b(3) by (simp add: intMax_def)
    ultimately show ?thesis by (simp add: sint_uint signed_take_bit_int_eq_self)
  qed
  ultimately show "unat (ff_offset f) + unat (ff_size f) \<le> length data"
    using b(3,4) by (simp flip: nat_uint_eq)
  show "uint (ff_size f) \<le> intMax" by (rule b(2))
qed

lemma trace_array_stuck:
  assumes "ff_elementsize f = 0" "trace_array data f byteSwap i = Some vs"
  shows "\<not> i < ff_size f"
proof -
  have "ff_elementsize f = 0 \<longrightarrow> \<not> i < ff_size f"
  proof (rule trace_array.raw_induct [where P = "\<lambda>d g b i vs. ff_elementsize g = 0 \<longrightarrow> \<not> i < ff_size g", OF _ assms(2)])
    fix loop d g b i vs
    assume IH: "\<And>d g b i vs. loop d g b i = Some vs \<Longrightarrow> ff_elementsize g = 0 \<longrightarrow> \<not> i < ff_size g"
      and eq: "(if i < ff_size g then Option.bind (loop d g b (i + ff_elementsize g))
        (\<lambda>vs. Some (readTraceItem d (ff_offset g + i) (ff_elementsize g) (hasFlag FIELD_IS_SIGNED g) b # vs))
        else Some []) = Some vs"
    show "ff_elementsize g = 0 \<longrightarrow> \<not> i < ff_size g"
      using IH [of d g b "i + ff_elementsize g"] eq by (auto simp: bind_eq_Some_conv split: if_splits)
  qed
  then show ?thesis using assms(1) by simp
qed

text \<open>With an element size the loop ends, with one value for every started element.\<close>

lemma trace_array_small:
  assumes "0 < unat (ff_elementsize f)" "unat (ff_elementsize f) < 2 ^ 31" "unat (ff_size f) < 2 ^ 31"
  shows "\<exists>vs. trace_array data f byteSwap i = Some vs
    \<and> length vs = (unat (ff_size f) - unat i + unat (ff_elementsize f) - 1) div unat (ff_elementsize f)"
proof (induction "unat (ff_size f) - unat i" arbitrary: i rule: less_induct)
  case less
  let ?e = "unat (ff_elementsize f)" and ?n = "unat (ff_size f)"
  note unfold = trace_array.simps [of data f byteSwap i]
  show ?case
  proof (cases "i < ff_size f")
    case True
    let ?j = "i + ff_elementsize f"
    have lt: "unat i < ?n" using True by (simp add: word_less_nat_alt)
    then have j: "unat ?j = unat i + ?e"
      using assms(2,3) by (intro unat_add_nowrap) simp
    then have "?n - unat ?j < ?n - unat i" using assms(1) lt by simp
    from less [OF this] obtain vs where vs: "trace_array data f byteSwap ?j = Some vs"
      "length vs = (?n - unat ?j + ?e - 1) div ?e" by blast
    have "Suc (length vs) = (?n - unat i + ?e - 1) div ?e"
    proof (cases "unat i + ?e \<le> ?n")
      case True
      then have "?n - unat i + ?e - 1 = (?n - unat ?j + ?e - 1) + ?e" using j assms(1) by simp
      then show ?thesis using vs(2) assms(1) by (simp only: div_add_self2)
    next
      case False
      then have "length vs = 0" using vs(2) j assms(1) by simp
      moreover have "(?n - unat i + ?e - 1) div ?e = 1"
        using False lt assms(1) by (intro div_nat_eqI) simp_all
      ultimately show ?thesis by simp
    qed
    then show ?thesis using vs(1) True unfold by simp
  next
    case False
    then have "?n - unat i = 0" by (simp add: word_less_nat_alt)
    then show ?thesis using False unfold assms(1) by simp
  qed
qed

text \<open>
  C38: reading a trace value comes back exactly when its loop can advance. For a field within its data,
  \<open>readTraceData\<close> of an array that is neither a string nor dynamic returns if and only if the element
  size is not zero or there are no elements; then it has one value for every started element.
\<close>
theorem readTraceData_terminates:
  assumes "trace_bounds data f" "hasFlag FIELD_IS_ARRAY f" "\<not> hasFlag FIELD_IS_STRING f" "\<not> hasFlag FIELD_IS_DYNAMIC f"
  shows "readTraceData data f byteSwap \<noteq> None \<longleftrightarrow> ff_elementsize f \<noteq> 0 \<or> ff_size f = 0"
    (is "?returns \<longleftrightarrow> _")
proof -
  have eq: "readTraceData data f byteSwap = map_option TraceList (trace_array data f byteSwap 0)"
    using assms by (simp add: readTraceData_def read_static_def)
  have n: "unat (ff_size f) < 2 ^ 31"
    using bounds_nat(2) [OF assms(1)] by (simp add: intMax_def flip: nat_uint_eq)
  have "trace_array data f byteSwap 0 \<noteq> None" if "ff_elementsize f \<noteq> 0"
  proof (cases "ff_elementsize f < ff_size f")
    case True
    then have "unat (ff_elementsize f) < 2 ^ 31" using n by (simp add: word_less_nat_alt)
    then show ?thesis using trace_array_small [of f data byteSwap 0] n that by (auto simp: unat_gt_0)
  next
    case False
    then show ?thesis
      by (simp add: trace_array.simps [of data f byteSwap 0] trace_array.simps [of data f byteSwap "ff_elementsize f"])
  qed
  moreover have "trace_array data f byteSwap 0 \<noteq> None" if "ff_size f = 0"
    using that by (simp add: trace_array.simps [of data f byteSwap 0])
  moreover have "ff_size f = 0" if "trace_array data f byteSwap 0 \<noteq> None" "ff_elementsize f = 0"
    using that trace_array_stuck [of f data byteSwap 0] by (auto simp: word_gt_0)
  ultimately show ?thesis unfolding eq by blast
qed

definition int_array :: "u32 \<Rightarrow> format_field" where
  "int_array e = noField\<lparr>ff_size := 8, ff_elementsize := e, ff_flags := FIELD_IS_ARRAY\<rparr>"

theorem readTraceData_terminates_witness:
  "readTraceData [1, 0, 0, 0, 2, 0, 0, 0] (int_array 4) False \<noteq> None
    \<and> readTraceData [1, 0, 0, 0, 2, 0, 0, 0] (int_array 0) False = None"
proof -
  have w: "trace_bounds [1, 0, 0, 0, 2, 0, 0, 0] (int_array e)" "hasFlag FIELD_IS_ARRAY (int_array e)"
    "\<not> hasFlag FIELD_IS_STRING (int_array e)" "\<not> hasFlag FIELD_IS_DYNAMIC (int_array e)" for e
    by (simp_all add: trace_bounds_def int_array_def noField_def intMax_def hasFlag_def flag_defs)
  show ?thesis
    using readTraceData_terminates [OF w, of 4 False] readTraceData_terminates [OF w, of 0 False]
    by (simp add: int_array_def)
qed

text \<open>
  An unsigned or signed number of a trace point is read back in either byte order from wherever its
  field lies in the raw data.
\<close>
theorem readTraceData_number:
  assumes "trace_bounds (pre @ bs @ post) f" "unat (ff_offset f) = length pre" "\<not> hasFlag FIELD_IS_ARRAY f"
  shows "(bs = encode 8 (trace_order swap) w \<longrightarrow> ff_size f = 8 \<longrightarrow> readTraceData (pre @ bs @ post) f swap
        = Some (TraceItem (Some (if hasFlag FIELD_IS_SIGNED f then QLongLong w else QULongLong w))))
    \<and> (bs = encode 4 (trace_order swap) v \<longrightarrow> ff_size f = 4 \<longrightarrow> readTraceData (pre @ bs @ post) f swap
        = Some (TraceItem (Some (if hasFlag FIELD_IS_SIGNED f then QInt v else QUInt v))))
    \<and> (bs = encode 2 (trace_order swap) h \<longrightarrow> ff_size f = 2 \<longrightarrow> readTraceData (pre @ bs @ post) f swap
        = Some (TraceItem (Some (QInt (if hasFlag FIELD_IS_SIGNED f then scast (h :: u16) else ucast h)))))
    \<and> (bs = [b] \<longrightarrow> ff_size f = 1 \<longrightarrow> readTraceData (pre @ bs @ post) f swap
        = Some (TraceItem (Some (QInt (if hasFlag FIELD_IS_SIGNED f then scast b else ucast b)))))"
proof -
  have e: "readTraceData (pre @ bs @ post) f swap = Some (TraceItem
      (readTraceItem (pre @ bs @ post) (ff_offset f) (ff_size f) (hasFlag FIELD_IS_SIGNED f) swap))"
    using assms(1,3) by (simp add: readTraceData_def read_static_def)
  have byte: "encode 1 (trace_order swap) b = [b]"
    by (cases "trace_order swap") (simp_all add: encode_def ordered_def)
  have n8: "readFromArray 8 (pre @ encode 8 (trace_order swap) w @ post) (ff_offset f) swap = Some w"
    and n4: "readFromArray 4 (pre @ encode 4 (trace_order swap) v @ post) (ff_offset f) swap = Some v"
    and n2: "readFromArray 2 (pre @ encode 2 (trace_order swap) h @ post) (ff_offset f) swap = Some h"
    and n1: "readFromArray 1 (pre @ b # post) (ff_offset f) swap = Some b"
    using readFromArray_encoded [OF _ assms(2) refl, of 8 swap w post]
      readFromArray_encoded [OF _ assms(2) refl, of 4 swap v post]
      readFromArray_encoded [OF _ assms(2) refl, of 2 swap h post]
      readFromArray_encoded [OF _ assms(2) refl, of 1 swap b post] by (simp_all only: byte) simp_all
  show ?thesis
    by (intro conjI impI)
      (unfold e, simp_all only: readTraceItem_def n8 n4 n2 n1 append_Cons append_Nil,
        cases "hasFlag FIELD_IS_SIGNED f", simp_all only: if_True if_False option.map, simp_all)
qed

theorem readTraceData_number_witness:
  "readTraceData [9, 9, 1, 2, 9] (noField\<lparr>ff_offset := 2, ff_size := 2\<rparr>) True
    = Some (TraceItem (Some (QInt 0x102)))"
proof -
  let ?f = "noField\<lparr>ff_offset := 2, ff_size := 2\<rparr>"
  have b: "encode 2 (trace_order True) (0x102 :: u16) = [1, 2]"
    by code_simp
  have h: "trace_bounds ([9, 9] @ [1, 2] @ [9]) ?f" "unat (ff_offset ?f) = length [9 :: u8, 9]"
    "\<not> hasFlag FIELD_IS_ARRAY ?f" "\<not> hasFlag FIELD_IS_SIGNED ?f" "ff_size ?f = 2"
    by (simp_all add: trace_bounds_def noField_def intMax_def hasFlag_def)
  note readTraceData_number [OF h(1-3), of True undefined undefined "0x102 :: u16" undefined]
  then have "readTraceData ([9, 9] @ [1, 2] @ [9]) ?f True = Some (TraceItem (Some (QInt (ucast (0x102 :: u16)))))"
    using b [symmetric] h(4,5) by (simp only: if_False simp_thms)
  then show ?thesis by simp
qed

end
