(* ===== verification/TraceTypes.thy ===== *)
theory TraceTypes
  imports TraceData
begin

text \<open>
  The types of the values of trace points: whatever the raw data holds, \<open>readTraceData\<close> of \<open>app/perfunwind.cpp\<close>
  gives a value of the type its field declares, and reads nothing beyond the data but for the last element of an
  array.
\<close>

text \<open>The variants a number of some size and signedness may be.\<close>

fun item_typed :: "u32 \<Rightarrow> bool \<Rightarrow> qvariant \<Rightarrow> bool" where
  "item_typed sz isSigned (QInt w) \<longleftrightarrow>
     (if isSigned then sz = 4 \<or> sz = 2 \<and> - (2 ^ 15) \<le> sint w \<and> sint w < 2 ^ 15 \<or> sz = 1 \<and> - (2 ^ 7) \<le> sint w \<and> sint w < 2 ^ 7
      else sz = 2 \<and> 0 \<le> sint w \<and> sint w < 2 ^ 16 \<or> sz = 1 \<and> 0 \<le> sint w \<and> sint w < 2 ^ 8)"
| "item_typed sz isSigned (QUInt w) \<longleftrightarrow> \<not> isSigned \<and> sz = 4"
| "item_typed sz isSigned (QLongLong w) \<longleftrightarrow> isSigned \<and> sz = 8"
| "item_typed sz isSigned (QULongLong w) \<longleftrightarrow> \<not> isSigned \<and> sz = 8"
| "item_typed sz isSigned QInvalid \<longleftrightarrow> sz \<notin> {1, 2, 4, 8}"

definition items_typed :: "u32 \<Rightarrow> bool \<Rightarrow> qvariant option list \<Rightarrow> bool" where
  "items_typed sz isSigned vs \<longleftrightarrow>
     None \<notin> set (butlast vs) \<and> list_all (\<lambda>v. case v of Some v \<Rightarrow> item_typed sz isSigned v | None \<Rightarrow> True) vs"

fun value_typed :: "format_field \<Rightarrow> trace_value \<Rightarrow> bool" where
  "value_typed f (TraceItem None) \<longleftrightarrow> False"
| "value_typed f (TraceItem (Some v)) \<longleftrightarrow>
     v = QInvalid \<or> \<not> hasFlag FIELD_IS_ARRAY f \<and> item_typed (ff_size f) (hasFlag FIELD_IS_SIGNED f) v"
| "value_typed f (TraceBytes s) \<longleftrightarrow> hasFlag FIELD_IS_ARRAY f \<and> hasFlag FIELD_IS_STRING f
     \<and> (\<not> hasFlag FIELD_IS_DYNAMIC f \<longrightarrow> length s = unat (ff_size f))"
| "value_typed f (TraceList vs) \<longleftrightarrow> hasFlag FIELD_IS_ARRAY f \<and> \<not> hasFlag FIELD_IS_STRING f
     \<and> items_typed (ff_elementsize f) (hasFlag FIELD_IS_SIGNED f) vs"

lemma sint_scast_bounds:
  "- (2 ^ 15) \<le> sint (scast (h :: u16) :: s32)" "sint (scast h :: s32) < 2 ^ 15"
  "- (2 ^ 7) \<le> sint (scast (b :: u8) :: s32)" "sint (scast b :: s32) < 2 ^ 7"
  using sint_range_size [of h] sint_range_size [of b] by (simp_all add: word_size signed_scast_eq signed_take_bit_int_eq_self)

lemma sint_ucast_uint: "sint (ucast (h :: u16) :: s32) = uint h" "sint (ucast (b :: u8) :: s32) = uint b"
proof -
  have "- (2 ^ 31) \<le> uint h" "- (2 ^ 31) \<le> uint b" by (rule order_trans [OF _ uint_ge_0], simp)+
  moreover have "uint h < 2 ^ 31" "uint b < 2 ^ 31" using uint_bounded [of h] uint_bounded [of b] by simp_all
  ultimately have r: "- (2 ^ 31) \<le> uint h" "uint h < 2 ^ 31" "- (2 ^ 31) \<le> uint b" "uint b < 2 ^ 31" by simp_all
  show "sint (ucast h :: s32) = uint h" "sint (ucast b :: s32) = uint b"
    using r by (simp_all add: signed_ucast_eq signed_take_bit_int_eq_self)
qed

lemma sint_ucast_bounds:
  "0 \<le> sint (ucast (h :: u16) :: s32)" "sint (ucast h :: s32) < 2 ^ 16"
  "0 \<le> sint (ucast (b :: u8) :: s32)" "sint (ucast b :: s32) < 2 ^ 8"
  unfolding sint_ucast_uint using uint_bounded [of h] uint_bounded [of b] by simp_all

lemma readTraceItem_typed:
  "readTraceItem data offset sz isSigned byteSwap = Some v \<Longrightarrow> item_typed sz isSigned v"
  by (auto simp: readTraceItem_def sint_scast_bounds [simplified] sint_ucast_bounds [simplified] split: if_splits)

lemma readTraceItem_inside:
  "unat offset + unat sz \<le> length data \<Longrightarrow> readTraceItem data offset sz isSigned byteSwap \<noteq> None"
  by (auto simp: readTraceItem_def readFromArray_def)

lemma readTraceItem_other: "sz \<notin> {1, 2, 4, 8} \<Longrightarrow> readTraceItem data offset sz isSigned byteSwap = Some QInvalid"
  by (auto simp: readTraceItem_def)

text \<open>An element that another one follows lies within the data.\<close>

lemma element_inside:
  assumes "trace_bounds data f" "i < ff_size f" "i + ff_elementsize f < ff_size f"
  shows "readTraceItem data (ff_offset f + i) (ff_elementsize f) isSigned byteSwap \<noteq> None"
proof (cases "ff_elementsize f \<in> {1, 2, 4, 8}")
  case True
  have n: "unat (ff_size f) < 2 ^ 31" and l: "unat (ff_offset f) + unat (ff_size f) \<le> length data"
    using bounds_nat [OF assms(1)] by (simp_all add: intMax_def flip: nat_uint_eq)
  have "uint (ff_offset f) \<le> intMax" using assms(1) by (simp add: trace_bounds_def)
  then have o: "unat (ff_offset f) < 2 ^ 31" by (simp add: intMax_def flip: nat_uint_eq)
  have i: "unat i < unat (ff_size f)" using assms(2) by (simp add: word_less_nat_alt)
  have e: "unat (ff_elementsize f) \<le> 8" using True by auto
  have "unat (ff_offset f + i) = unat (ff_offset f) + unat i" using o i n by (intro unat_add_nowrap) simp
  moreover have "unat (i + ff_elementsize f) = unat i + unat (ff_elementsize f)"
    using i n e by (intro unat_add_nowrap) simp
  ultimately have "unat (ff_offset f + i) + unat (ff_elementsize f) \<le> length data"
    using assms(3) l by (simp add: word_less_nat_alt)
  then show ?thesis by (rule readTraceItem_inside)
next
  case False
  then show ?thesis by (simp add: readTraceItem_other)
qed

lemma trace_array_typed:
  assumes "trace_bounds data f" "trace_array data f byteSwap i = Some vs"
  shows "items_typed (ff_elementsize f) (hasFlag FIELD_IS_SIGNED f) vs \<and> (vs \<noteq> [] \<longleftrightarrow> i < ff_size f)"
proof -
  let ?P = "\<lambda>d g b i vs. trace_bounds d g \<longrightarrow>
    items_typed (ff_elementsize g) (hasFlag FIELD_IS_SIGNED g) vs \<and> (vs \<noteq> [] \<longleftrightarrow> i < ff_size g)"
  have "?P data f byteSwap i vs"
  proof (rule trace_array.raw_induct [where P = ?P, OF _ assms(2)])
    fix loop d g b i vs
    assume IH: "\<And>d g b i vs. loop d g b i = Some vs \<Longrightarrow> ?P d g b i vs"
      and eq: "(if i < ff_size g then Option.bind (loop d g b (i + ff_elementsize g))
        (\<lambda>vs. Some (readTraceItem d (ff_offset g + i) (ff_elementsize g) (hasFlag FIELD_IS_SIGNED g) b # vs))
        else Some []) = Some vs"
    show "?P d g b i vs"
    proof (intro impI)
      assume bounds: "trace_bounds d g"
      show "items_typed (ff_elementsize g) (hasFlag FIELD_IS_SIGNED g) vs \<and> (vs \<noteq> [] \<longleftrightarrow> i < ff_size g)"
      proof (cases "i < ff_size g")
        case True
        let ?item = "readTraceItem d (ff_offset g + i) (ff_elementsize g) (hasFlag FIELD_IS_SIGNED g) b"
        from True eq obtain us where us: "loop d g b (i + ff_elementsize g) = Some us" "vs = ?item # us"
          by (auto simp: bind_eq_Some_conv)
        have "items_typed (ff_elementsize g) (hasFlag FIELD_IS_SIGNED g) us"
          "us \<noteq> [] \<longleftrightarrow> i + ff_elementsize g < ff_size g"
          using IH [OF us(1)] bounds by simp_all
        moreover have "case ?item of Some v \<Rightarrow> item_typed (ff_elementsize g) (hasFlag FIELD_IS_SIGNED g) v | None \<Rightarrow> True"
          using readTraceItem_typed by (auto split: option.split)
        ultimately show ?thesis
          using element_inside [OF bounds True] True us(2) by (cases ?item) (auto simp: items_typed_def simp del: not_None_eq)
      next
        case False
        then show ?thesis using eq by (simp add: items_typed_def)
      qed
    qed
  qed
  then show ?thesis using assms(1) by simp
qed

lemma read_static_typed:
  assumes "read_static data f byteSwap = Some v"
  shows "value_typed f v"
proof (cases "trace_bounds data f")
  case True
  note b = bounds_nat [OF True]
  show ?thesis
  proof (cases "hasFlag FIELD_IS_ARRAY f \<and> \<not> hasFlag FIELD_IS_STRING f")
    case array: True
    then obtain vs where "trace_array data f byteSwap 0 = Some vs" "v = TraceList vs"
      using assms True by (auto simp: read_static_def)
    with trace_array_typed [OF True this(1)] array show ?thesis by simp
  next
    case False
    obtain w where "readTraceItem data (ff_offset f) (ff_size f) (hasFlag FIELD_IS_SIGNED f) byteSwap = Some w"
      using readTraceItem_inside [OF b(1)] by blast
    with readTraceItem_typed [OF this] False assms True b show ?thesis
      by (auto simp: read_static_def split: if_splits)
  qed
next
  case False
  then show ?thesis using assms by (simp add: read_static_def) (metis value_typed.simps(2))
qed

text \<open>Clearing the dynamic flag keeps the others.\<close>

lemma dynamic_field_flags:
  "hasFlag FIELD_IS_ARRAY (dynamic_field w f) = hasFlag FIELD_IS_ARRAY f"
  "hasFlag FIELD_IS_STRING (dynamic_field w f) = hasFlag FIELD_IS_STRING f"
  "hasFlag FIELD_IS_SIGNED (dynamic_field w f) = hasFlag FIELD_IS_SIGNED f"
  "\<not> hasFlag FIELD_IS_DYNAMIC (dynamic_field w f)"
  "ff_elementsize (dynamic_field w f) = ff_elementsize f"
  by (simp_all add: dynamic_field_def hasFlag_def flag_defs and.assoc)



text \<open>An array whose size is no multiple of its elements' is read beyond the end of the data.\<close>

lemma last_element_beyond:
  "readTraceData [1, 0, 0, 0, 2, 0] ((int_array 4)\<lparr>ff_size := 6\<rparr>) False
    = Some (TraceList [Some (QUInt 1), None])"
proof -
  let ?f = "(int_array 4)\<lparr>ff_size := 6\<rparr>"
  have f: "trace_bounds [1, 0, 0, 0, 2, 0] ?f" "hasFlag FIELD_IS_ARRAY (int_array 4)" "\<not> hasFlag FIELD_IS_DYNAMIC (int_array 4)"
    "\<not> hasFlag FIELD_IS_STRING (int_array 4)" "\<not> hasFlag FIELD_IS_SIGNED (int_array 4)" "ff_size ?f = 6" "ff_elementsize ?f = 4" "ff_offset ?f = 0"
    by (simp_all add: trace_bounds_def int_array_def noField_def intMax_def hasFlag_def flag_defs)
  have items: "readTraceItem [1, 0, 0, 0, 2, 0] 0 4 False False = Some (QUInt 1)"
    "readTraceItem [1, 0, 0, 0, 2, 0] 4 4 False False = None" by code_simp+
  have "trace_array [1, 0, 0, 0, 2, 0] ?f False 8 = Some []" by (simp add: trace_array.simps [of _ _ _ 8] f)
  then have "trace_array [1, 0, 0, 0, 2, 0] ?f False 4 = Some [None]"
    by (simp add: trace_array.simps [of _ _ _ 4] f items)
  then have "trace_array [1, 0, 0, 0, 2, 0] ?f False 0 = Some [Some (QUInt 1), None]"
    by (simp add: trace_array.simps [of _ _ _ 0] f items)
  then show ?thesis by (simp add: readTraceData_def read_static_def f)
qed

end
