(* ===== verification/FeatureFile.thy ===== *)
theory FeatureFile
  imports Features Tracing
begin

text \<open>
  \<open>PerfFeatures\<close> of \<open>app/perffeatures.h\<close>, \<open>app/perffeatures.cpp\<close>: all features of a file, read from the table
  of sections behind the data. \<open>from\<close> gives what a stream on the device reads after an attempt to seek to a
  position, \<open>hashed\<close> the order in which a \<open>QHash\<close> of features is iterated. Reading build ids may not end.
\<close>

record perf_features =
  pf_tracing :: tracing_data
  pf_buildIds :: "build_id list"
  pf_hostName :: bytes
  pf_osRelease :: bytes
  pf_version :: bytes
  pf_arch :: bytes
  pf_nrCpus :: nr_cpus
  pf_cpuDesc :: bytes
  pf_cpuId :: bytes
  pf_totalMem :: u64
  pf_cmdline :: "bytes list"
  pf_eventDescs :: "event_desc list"
  pf_cpuTopology :: cpu_topology
  pf_numa :: "numa_node list"
  pf_pmus :: "pmu list"
  pf_groups :: "group_desc list"
  pf_compressed :: compressed_info

text \<open>Numbers of CPUs and memory are not initialised; \<open>cpus\<close> and \<open>mem\<close> are what they hold.\<close>

definition newFeatures :: "nr_cpus \<Rightarrow> u64 \<Rightarrow> perf_features" where
  "newFeatures cpus mem = \<lparr>pf_tracing = noTracing, pf_buildIds = [], pf_hostName = [], pf_osRelease = [],
     pf_version = [], pf_arch = [], pf_nrCpus = cpus, pf_cpuDesc = [], pf_cpuId = [], pf_totalMem = mem,
     pf_cmdline = [], pf_eventDescs = [], pf_cpuTopology = \<lparr>ct_siblingCores = [], ct_siblingThreads = []\<rparr>,
     pf_numa = [], pf_pmus = [], pf_groups = [],
     pf_compressed = \<lparr>cp_version = 0, cp_type = 0, cp_level = 0, cp_ratio = 0, cp_mmap_len = 0\<rparr>\<rparr>"

text \<open>The value a reader gives on a stream; what it leaves there is only compared with the section's size.\<close>

definition result :: "data_stream \<Rightarrow> 'a reader \<Rightarrow> 'a" where
  "result s rd = fst (run_state rd s)"

definition read_tracing_section :: "conversions \<Rightarrow> s64 \<Rightarrow> data_stream \<Rightarrow> perf_features \<Rightarrow> perf_features" where
  "read_tracing_section conv n s f =
     (if sint n > 2 ^ 32 - 1 \<or> sint n < 0 then f
      else f\<lparr>pf_tracing := result s (read_tracing conv ((pf_tracing f)\<lparr>td_size := ucast n\<rparr>))\<rparr>)"

text \<open>The stream that \<open>createFeature\<close> reads a section from.\<close>

definition section_stream :: "(nat \<Rightarrow> u8) \<Rightarrow> (s64 \<Rightarrow> bytes) \<Rightarrow> byte_order \<Rightarrow> file_section \<Rightarrow> data_stream" where
  "section_stream junk from order section = stream_at junk order (from (sec_offset section))"

text \<open>The readers of the sections, on the stream and the size of the section.\<close>

fun read_feature ::
  "conversions \<Rightarrow> feature \<Rightarrow> s64 \<Rightarrow> data_stream \<Rightarrow> perf_features \<Rightarrow> perf_features option"
where
  "read_feature conv TRACING_DATA n s f = Some (read_tracing_section conv n s f)"
| "read_feature conv BUILD_ID n s f =
     map_option (\<lambda>(ids, _). f\<lparr>pf_buildIds := pf_buildIds f @ ids\<rparr>) (read_build_ids n s)"
| "read_feature conv HOSTNAME n s f = Some (f\<lparr>pf_hostName := result s (read_string_feature (pf_hostName f))\<rparr>)"
| "read_feature conv OSRELEASE n s f = Some (f\<lparr>pf_osRelease := result s (read_string_feature (pf_osRelease f))\<rparr>)"
| "read_feature conv VERSION n s f = Some (f\<lparr>pf_version := result s (read_string_feature (pf_version f))\<rparr>)"
| "read_feature conv ARCH n s f = Some (f\<lparr>pf_arch := result s (read_string_feature (pf_arch f))\<rparr>)"
| "read_feature conv CPUDESC n s f = Some (f\<lparr>pf_cpuDesc := result s (read_string_feature (pf_cpuDesc f))\<rparr>)"
| "read_feature conv CPUID n s f = Some (f\<lparr>pf_cpuId := result s (read_string_feature (pf_cpuId f))\<rparr>)"
| "read_feature conv NRCPUS n s f = Some (f\<lparr>pf_nrCpus := result s read_nr_cpus\<rparr>)"
| "read_feature conv TOTAL_MEM n s f = Some (f\<lparr>pf_totalMem := result s read_total_mem\<rparr>)"
| "read_feature conv CMDLINE n s f = Some (f\<lparr>pf_cmdline := pf_cmdline f @ result s read_cmdline\<rparr>)"
| "read_feature conv EVENT_DESC n s f = Some (f\<lparr>pf_eventDescs := pf_eventDescs f @ result s read_event_desc\<rparr>)"
| "read_feature conv CPU_TOPOLOGY n s f =
     (let t = result s read_cpu_topology in
      Some (f\<lparr>pf_cpuTopology :=
        \<lparr>ct_siblingCores = ct_siblingCores (pf_cpuTopology f) @ ct_siblingCores t,
         ct_siblingThreads = ct_siblingThreads (pf_cpuTopology f) @ ct_siblingThreads t\<rparr>\<rparr>))"
| "read_feature conv NUMA_TOPOLOGY n s f = Some (f\<lparr>pf_numa := pf_numa f @ result s read_numa_topology\<rparr>)"
| "read_feature conv PMU_MAPPINGS n s f = Some (f\<lparr>pf_pmus := pf_pmus f @ result s read_pmu_mappings\<rparr>)"
| "read_feature conv GROUP_DESC n s f = Some (f\<lparr>pf_groups := pf_groups f @ result s read_group_desc\<rparr>)"
| "read_feature conv COMPRESSED n s f = Some (f\<lparr>pf_compressed := result s read_compressed\<rparr>)"
| "read_feature conv _ n s f = Some f"

definition createFeature ::
  "conversions \<Rightarrow> (nat \<Rightarrow> u8) \<Rightarrow> (s64 \<Rightarrow> bytes) \<Rightarrow> byte_order \<Rightarrow> feature \<Rightarrow> file_section
    \<Rightarrow> perf_features \<Rightarrow> perf_features option"
where
  "createFeature conv junk from order i section =
     read_feature conv i (sec_size section) (section_stream junk from order section)"

text \<open>The table holds a section for every feature of the header; the empty ones are left out.\<close>

primrec read_section_table :: "perf_header \<Rightarrow> feature list \<Rightarrow> (feature \<times> file_section) list reader" where
  "read_section_table h [] = State_Monad.return []"
| "read_section_table h (i # is) =
     (if hasFeature i h then do {
        section \<leftarrow> read_section;
        table \<leftarrow> read_section_table h is;
        State_Monad.return (if sint (sec_size section) > 0 then (i, section) # table else table)
      } else read_section_table h is)"

fun create_features ::
  "conversions \<Rightarrow> (nat \<Rightarrow> u8) \<Rightarrow> (s64 \<Rightarrow> bytes) \<Rightarrow> byte_order \<Rightarrow> (feature \<times> file_section) list
    \<Rightarrow> perf_features \<Rightarrow> perf_features option"
where
  "create_features conv junk from order [] f = Some f"
| "create_features conv junk from order ((i, section) # table) f =
     Option.bind (createFeature conv junk from order i section f)
       (create_features conv junk from order table)"

text \<open>\<open>seek\<close> tells whether the device can go to the table.\<close>

definition readFeatures ::
  "((feature \<times> file_section) list \<Rightarrow> (feature \<times> file_section) list) \<Rightarrow> conversions \<Rightarrow> (nat \<Rightarrow> u8)
    \<Rightarrow> (s64 \<Rightarrow> bool) \<Rightarrow> (s64 \<Rightarrow> bytes) \<Rightarrow> perf_header \<Rightarrow> perf_features \<Rightarrow> (bool \<times> perf_features) option"
where
  "readFeatures hashed conv junk seek from h f =
     (if \<not> seek (featureOffset h) then Some (False, f)
      else let table = result (stream_at junk (byteOrder h) (from (featureOffset h)))
             (read_section_table h all_features) in
        map_option (Pair True) (create_features conv junk from (byteOrder h) (hashed table) f))"

end
