(* ===== verification/FeatureFileFacts.thy ===== *)
theory FeatureFileFacts
  imports FeatureFile FeaturesFacts
begin

text \<open>
  The features of a file do not depend on the order in which the hash of its sections is iterated.
\<close>

lemma read_feature_total: "i \<noteq> BUILD_ID \<Longrightarrow> \<exists>f'. read_feature conv i n s f = Some f'"
  by (cases i) (simp_all add: Let_def)

lemma read_feature_build_ids:
  assumes "j \<noteq> BUILD_ID"
  shows "Option.bind (read_feature conv BUILD_ID n s f) (read_feature conv j m t)
    = Option.bind (read_feature conv j m t f) (read_feature conv BUILD_ID n s)"
proof (cases "read_build_ids n s")
  case None
  then show ?thesis using read_feature_total [OF assms, of conv m t f] by auto
next
  case (Some r)
  with assms show ?thesis by (cases j) (simp_all add: Let_def read_tracing_section_def case_prod_unfold)
qed

lemma read_feature_commute_read:
  "i = j \<or> i = BUILD_ID \<or> j = BUILD_ID
    \<or> Option.bind (read_feature conv i n s f) (read_feature conv j m t)
      = Option.bind (read_feature conv j m t f) (read_feature conv i n s)"
  by (cases i) (cases j; simp add: Let_def read_tracing_section_def)+

lemma read_feature_commute:
  assumes "i \<noteq> j"
  shows "Option.bind (read_feature conv i n s f) (read_feature conv j m t)
    = Option.bind (read_feature conv j m t f) (read_feature conv i n s)"
  using assms read_feature_commute_read [of i j conv n s f m t]
    read_feature_build_ids [of i conv] read_feature_build_ids [of j conv] by metis

lemma createFeature_commute:
  "i \<noteq> j \<Longrightarrow> Option.bind (createFeature conv junk from order i s f) (createFeature conv junk from order j t)
    = Option.bind (createFeature conv junk from order j t f) (createFeature conv junk from order i s)"
  by (simp add: createFeature_def read_feature_commute)

text \<open>One section of the table, on the features read so far.\<close>

abbreviation section_step ::
  "conversions \<Rightarrow> (nat \<Rightarrow> u8) \<Rightarrow> (s64 \<Rightarrow> bytes) \<Rightarrow> byte_order \<Rightarrow> feature \<times> file_section
    \<Rightarrow> perf_features option \<Rightarrow> perf_features option"
where
  "section_step conv junk from order e f \<equiv> Option.bind f (createFeature conv junk from order (fst e) (snd e))"

lemma create_features_fold:
  "create_features conv junk from order table f = fold (section_step conv junk from order) table (Some f)"
proof (induction table arbitrary: f)
  case (Cons e table)
  have "fold (section_step conv junk from order) table None = None"
    by (induction table) simp_all
  with Cons show ?case
    by (cases e; cases "createFeature conv junk from order (fst e) (snd e) f") simp_all
qed simp

lemma section_step_commute:
  assumes "fst e \<noteq> fst e'"
  shows "section_step conv junk from order e \<circ> section_step conv junk from order e'
    = section_step conv junk from order e' \<circ> section_step conv junk from order e"
proof
  fix f
  show "(section_step conv junk from order e \<circ> section_step conv junk from order e') f
      = (section_step conv junk from order e' \<circ> section_step conv junk from order e) f"
    by (cases f) (simp_all add: createFeature_commute [OF assms])
qed

text \<open>Every feature is in the table once.\<close>

lemma section_table_distinct:
  "distinct is \<Longrightarrow> distinct (map fst (fst (run_state (read_section_table h is) s)))
    \<and> fst ` set (fst (run_state (read_section_table h is) s)) \<subseteq> set is"
proof (induction "is" arbitrary: s)
  case (Cons i "is")
  note IH = Cons.IH [OF distinct.simps(2) [THEN iffD1, OF Cons.prems, THEN conjunct2]]
  show ?case
  proof (cases "hasFeature i h")
    case True
    obtain sec s' where r: "run_state read_section s = (sec, s')" by fastforce
    obtain t s'' where t: "run_state (read_section_table h is) s' = (t, s'')" by fastforce
    show ?thesis using IH [of s'] Cons.prems True by (auto simp: r t)
  next
    case False
    then show ?thesis using IH [of s] by auto
  qed
qed simp

lemma all_features_distinct: "distinct all_features"
  by (simp add: all_features_def)

lemma features_permuted:
  assumes "distinct (map fst table)" "mset table' = mset table"
  shows "create_features conv junk from order table' f = create_features conv junk from order table f"
proof -
  have "section_step conv junk from order e \<circ> section_step conv junk from order e'
      = section_step conv junk from order e' \<circ> section_step conv junk from order e"
    if "e \<in> set table'" "e' \<in> set table'" for e e'
  proof (cases "e = e'")
    case False
    have "e \<in> set table" "e' \<in> set table" using that assms(2) by (metis mset_eq_setD)+
    then have "fst e \<noteq> fst e'" using assms(1) False by (meson distinct_map inj_onD)
    then show ?thesis by (rule section_step_commute)
  qed simp
  from fold_multiset_equiv [OF this assms(2)] show ?thesis by (simp add: create_features_fold)
qed



end
