(* ===== verification/Messages.thy ===== *)
theory Messages
  imports EventBuffer TraceData
begin

text \<open>
  What \<open>PerfUnwind\<close> (\<open>app/perfunwind.h\<close>, \<open>app/perfunwind.cpp\<close>) writes to its output: the locations and symbols
  it numbers, and the content of each kind of message. A message is written by a \<open>QDataStream\<close> in its default
  byte order, big endian; the length in front of it is little endian. The null byte array, which would be written
  as the length \<open>0xffffffff\<close>, is not told apart from the empty one. A \<open>QVariant\<close> is written by Qt: \<open>wr\<close>
  stands for its operator.
\<close>

section \<open>Locations and symbols\<close>

record location =
  lc_address :: u64
  lc_relAddr :: u64
  lc_file :: s32
  lc_pid :: u32
  lc_line :: s32
  lc_column :: s32
  lc_parent :: s32

definition newLocation :: "u64 \<Rightarrow> location" where
  "newLocation address = \<lparr>lc_address = address, lc_relAddr = 0, lc_file = - 1, lc_pid = 0, lc_line = 0,
     lc_column = 0, lc_parent = - 1\<rparr>"

text \<open>\<open>operator==\<close>, which does not look at the parent.\<close>

definition location_eq :: "location \<Rightarrow> location \<Rightarrow> bool" where
  "location_eq a b \<longleftrightarrow> lc_address a = lc_address b \<and> lc_relAddr a = lc_relAddr b \<and> lc_file a = lc_file b
     \<and> lc_pid a = lc_pid b \<and> lc_line a = lc_line b \<and> lc_column a = lc_column b"

record symbol =
  sy_name :: s32
  sy_relAddr :: u64
  sy_size :: u64
  sy_binary :: s32
  sy_path :: s32
  sy_actualPath :: s32
  sy_isKernel :: bool
  sy_isInline :: bool

definition newSymbol :: symbol where
  "newSymbol = \<lparr>sy_name = - 1, sy_relAddr = 0, sy_size = 0, sy_binary = - 1, sy_path = - 1,
     sy_actualPath = - 1, sy_isKernel = False, sy_isInline = False\<rparr>"

section \<open>Contents\<close>

abbreviation put8 :: "u8 \<Rightarrow> bytes" where "put8 \<equiv> encode 1 BigEndian"
abbreviation put32 :: "u32 \<Rightarrow> bytes" where "put32 \<equiv> encode 4 BigEndian"
abbreviation put64 :: "u64 \<Rightarrow> bytes" where "put64 \<equiv> encode 8 BigEndian"
abbreviation put_bytes :: "bytes \<Rightarrow> bytes" where "put_bytes \<equiv> write_bytes BigEndian"

definition put_bool :: "bool \<Rightarrow> bytes" where
  "put_bool b = put8 (if b then 1 else 0)"

definition put_list :: "('a \<Rightarrow> bytes) \<Rightarrow> 'a list \<Rightarrow> bytes" where
  "put_list put xs = put32 (of_nat (length xs)) @ concat (map put xs)"

text \<open>A string of UTF-16 code units is preceded by its length in bytes.\<close>

definition put_string :: "u16 list \<Rightarrow> bytes" where
  "put_string s = put32 (of_nat (2 * length s)) @ concat (map (encode 2 BigEndian) s)"

primrec event_code :: "event_type \<Rightarrow> u8" where
  "event_code ThreadStart = 0"
| "event_code ThreadEnd = 1"
| "event_code Command = 2"
| "event_code LocationDefinition = 3"
| "event_code SymbolDefinition = 4"
| "event_code StringDefinition = 5"
| "event_code LostDefinition = 6"
| "event_code FeaturesDefinition = 7"
| "event_code ErrorEvent = 8"
| "event_code Progress = 9"
| "event_code TracePointFormat = 10"
| "event_code AttributesDefinition = 11"
| "event_code ContextSwitchDefinition = 12"
| "event_code Sample = 13"
| "event_code TracePointSample = 14"
| "event_code DebugInfoDownloadProgress = 15"
| "event_code InvalidType = 16"

datatype error_code = TimeOrderViolation | MissingElfFile | InvalidKallsyms

primrec error_number :: "error_code \<Rightarrow> s32" where
  "error_number TimeOrderViolation = 1"
| "error_number MissingElfFile = 2"
| "error_number InvalidKallsyms = 3"

definition write_location :: "location \<Rightarrow> bytes" where
  "write_location l = put64 (lc_address l) @ put32 (lc_file l) @ put32 (lc_pid l) @ put32 (lc_line l)
     @ put32 (lc_column l) @ put32 (lc_parent l) @ put64 (lc_relAddr l)"

definition write_symbol :: "symbol \<Rightarrow> bytes" where
  "write_symbol s = put32 (sy_name s) @ put32 (sy_binary s) @ put32 (sy_path s) @ put_bool (sy_isKernel s)
     @ put64 (sy_relAddr s) @ put64 (sy_size s) @ put32 (sy_actualPath s) @ put_bool (sy_isInline s)"

definition string_message :: "s32 \<Rightarrow> bytes \<Rightarrow> bytes" where
  "string_message i s = put8 (event_code StringDefinition) @ put32 i @ put_bytes s"

definition location_message :: "s32 \<Rightarrow> location \<Rightarrow> bytes" where
  "location_message i l = put8 (event_code LocationDefinition) @ put32 i @ write_location l"

definition symbol_message :: "s32 \<Rightarrow> symbol \<Rightarrow> bytes" where
  "symbol_message i s = put8 (event_code SymbolDefinition) @ put32 i @ write_symbol s"

definition error_message :: "error_code \<Rightarrow> u16 list \<Rightarrow> bytes" where
  "error_message e text = put8 (event_code ErrorEvent) @ put32 (error_number e) @ put_string text"

text \<open>\<open>percent\<close> is the double a float is written as.\<close>

definition progress_message :: "u64 \<Rightarrow> bytes" where
  "progress_message percent = put8 (event_code Progress) @ put64 percent"

definition download_message :: "s32 \<Rightarrow> s32 \<Rightarrow> s64 \<Rightarrow> s64 \<Rightarrow> bytes" where
  "download_message module url numerator denominator = put8 (event_code DebugInfoDownloadProgress)
     @ put32 module @ put32 url @ put64 numerator @ put64 denominator"

definition attributes_message :: "s32 \<Rightarrow> event_attributes \<Rightarrow> s32 \<Rightarrow> bytes" where
  "attributes_message i a nameId = put8 (event_code AttributesDefinition) @ put32 i @ put32 (a_type a)
     @ put64 (a_config a) @ put32 nameId @ put_bool (usesFrequency a) @ put64 (a_samplePeriod a)"

definition format_message :: "s32 \<Rightarrow> s32 \<Rightarrow> s32 \<Rightarrow> u32 \<Rightarrow> bytes" where
  "format_message i systemId nameId flags = put8 (event_code TracePointFormat) @ put32 i
     @ put32 systemId @ put32 nameId @ put32 flags"

text \<open>\<open>value<T>()\<close> of the payloads a task event is given.\<close>

definition payload_bool :: "payload \<Rightarrow> bool" where
  "payload_bool p = (case p of BoolPayload b \<Rightarrow> b | _ \<Rightarrow> False)"

definition payload_u64 :: "payload \<Rightarrow> u64" where
  "payload_u64 p = (case p of ULongPayload n \<Rightarrow> n | _ \<Rightarrow> 0)"

definition task_message :: "task_event \<Rightarrow> bytes" where
  "task_message e = put8 (event_code (te_type e)) @ put32 (te_pid e) @ put32 (te_tid e) @ put64 (te_time e)
     @ put32 (te_cpu e)
     @ (if te_type e = ContextSwitchDefinition then put_bool (payload_bool (te_payload e))
        else if te_type e = Command \<or> te_type e = ThreadStart then put32 (payload_int (te_payload e))
        else if te_type e = LostDefinition then put64 (payload_u64 (te_payload e))
        else [])"

record sample_message =
  sm_trace :: "(s32 \<times> trace_value) list option"
  sm_pid :: s32
  sm_tid :: s32
  sm_time :: u64
  sm_cpu :: u32
  sm_frames :: "s32 list"
  sm_guessed :: u8
  sm_values :: "(s32 \<times> u64) list"

text \<open>A sample of a trace point has the values of its fields, by the number of their names.\<close>

definition write_sample_message :: "(trace_value \<Rightarrow> bytes) \<Rightarrow> sample_message \<Rightarrow> bytes" where
  "write_sample_message wr m =
     put8 (event_code (if sm_trace m = None then Sample else TracePointSample))
     @ put32 (sm_pid m) @ put32 (sm_tid m) @ put64 (sm_time m) @ put32 (sm_cpu m)
     @ put_list put32 (sm_frames m) @ put8 (sm_guessed m)
     @ put_list (\<lambda>(i, v). put32 i @ put64 v) (sm_values m)
     @ (case sm_trace m of None \<Rightarrow> [] | Some vs \<Rightarrow> put_list (\<lambda>(i, v). put32 i @ wr v) vs)"

section \<open>The stream\<close>

definition frame :: "bytes \<Rightarrow> bytes" where
  "frame buffer = encode 4 LittleEndian (of_nat (length buffer) :: u32) @ buffer"

text \<open>The magic string with its terminating zero and the version of the data stream.\<close>

definition s_streamMagic :: bytes where
  "s_streamMagic = ascii ''QPERFSTREAM'' @ [0]"

definition stream_header :: "u32 \<Rightarrow> bytes" where
  "stream_header version = s_streamMagic @ encode 4 LittleEndian version"

end
