(* ===== verification/Unwind.thy ===== *)
theory Unwind
  imports Messages FeatureFile
begin

text \<open>
  The core of \<open>PerfUnwind\<close> (\<open>app/perfunwind.h\<close>, \<open>app/perfunwind.cpp\<close>): the event buffer with the numbered
  strings, locations, symbols and attributes and the output. A \<open>QHash\<close> that is asked for its size is an
  association list without duplicate keys. The operations of the symbol tables and the analysis of a sample, which
  a flush triggers, are a parameter \<open>other\<close>; \<open>tr\<close> is the text of the error a late mapping is reported with.
\<close>

record unwind = event_buffer +
  uw_strings :: "(bytes \<times> s32) list"
  uw_locations :: "(location \<times> s32) list"
  uw_symbols :: "s32 \<rightharpoonup> symbol"
  uw_attributeIds :: "u64 \<rightharpoonup> s32"
  uw_attributes :: "event_attributes list"
  uw_buildIds :: "bytes \<rightharpoonup> bytes"
  uw_tracing :: tracing_data
  uw_output :: bytes

definition newUnwind :: "u32 \<Rightarrow> u32 \<Rightarrow> bool \<Rightarrow> unwind" where
  "newUnwind version taskSize printStats = event_buffer.extend (newEventBuffer taskSize printStats)
     \<lparr>uw_strings = [], uw_locations = [], uw_symbols = Map.empty, uw_attributeIds = Map.empty,
      uw_attributes = [], uw_buildIds = Map.empty, uw_tracing = noTracing,
      uw_output = (if printStats then [] else stream_header version)\<rparr>"

section \<open>Sending\<close>

definition sendBuffer :: "bytes \<Rightarrow> 'a unwind_scheme \<Rightarrow> 'a unwind_scheme" where
  "sendBuffer buffer u =
     (if st_enabled (eb_stats u) then u else u\<lparr>uw_output := uw_output u @ frame buffer\<rparr>)"

definition sendString :: "s32 \<Rightarrow> bytes \<Rightarrow> 'a unwind_scheme \<Rightarrow> 'a unwind_scheme" where
  "sendString i s = sendBuffer (string_message i s)"

definition sendLocation :: "s32 \<Rightarrow> location \<Rightarrow> 'a unwind_scheme \<Rightarrow> 'a unwind_scheme" where
  "sendLocation i l = sendBuffer (location_message i l)"

definition sendSymbol :: "s32 \<Rightarrow> symbol \<Rightarrow> 'a unwind_scheme \<Rightarrow> 'a unwind_scheme" where
  "sendSymbol i s = sendBuffer (symbol_message i s)"

definition sendError :: "error_code \<Rightarrow> u16 list \<Rightarrow> 'a unwind_scheme \<Rightarrow> 'a unwind_scheme" where
  "sendError e text = sendBuffer (error_message e text)"

definition sendProgress :: "u64 \<Rightarrow> 'a unwind_scheme \<Rightarrow> 'a unwind_scheme" where
  "sendProgress percent = sendBuffer (progress_message percent)"

definition sendDebugInfoDownloadProgress ::
  "s32 \<Rightarrow> s32 \<Rightarrow> s64 \<Rightarrow> s64 \<Rightarrow> 'a unwind_scheme \<Rightarrow> 'a unwind_scheme"
where
  "sendDebugInfoDownloadProgress module url numerator denominator =
     sendBuffer (download_message module url numerator denominator)"

definition sendTaskEvent :: "task_event \<Rightarrow> 'a unwind_scheme \<Rightarrow> 'a unwind_scheme" where
  "sendTaskEvent e = sendBuffer (task_message e)"

section \<open>Numbers for strings, locations and symbols\<close>

definition resolveString :: "bytes \<Rightarrow> 'a unwind_scheme \<Rightarrow> s32 \<times> 'a unwind_scheme" where
  "resolveString s u =
     (if s = [] then (- 1, u)
      else case map_of (uw_strings u) s of
        Some i \<Rightarrow> (i, u)
      | None \<Rightarrow>
          (let i = of_nat (length (uw_strings u)) in
           (i, sendString i s (u\<lparr>uw_strings := (s, i) # uw_strings u\<rparr>))))"

definition lookupString :: "bytes \<Rightarrow> 'a unwind_scheme \<Rightarrow> s32" where
  "lookupString s u = (case map_of (uw_strings u) s of Some i \<Rightarrow> i | None \<Rightarrow> - 1)"

definition find_location :: "location \<Rightarrow> 'a unwind_scheme \<Rightarrow> s32 option" where
  "find_location l u = map_option snd (find (\<lambda>(k, _). location_eq k l) (uw_locations u))"

definition lookupLocation :: "location \<Rightarrow> 'a unwind_scheme \<Rightarrow> s32" where
  "lookupLocation l u = (case find_location l u of Some i \<Rightarrow> i | None \<Rightarrow> - 1)"

definition resolveLocation :: "location \<Rightarrow> 'a unwind_scheme \<Rightarrow> s32 \<times> 'a unwind_scheme" where
  "resolveLocation l u =
     (case find_location l u of
        Some i \<Rightarrow> (i, u)
      | None \<Rightarrow>
          (let i = of_nat (length (uw_locations u)) in
           (i, sendLocation i l (u\<lparr>uw_locations := (l, i) # uw_locations u\<rparr>))))"

definition hasSymbol :: "s32 \<Rightarrow> 'a unwind_scheme \<Rightarrow> bool" where
  "hasSymbol i u \<longleftrightarrow> uw_symbols u i \<noteq> None"

definition resolveSymbol :: "s32 \<Rightarrow> symbol \<Rightarrow> 'a unwind_scheme \<Rightarrow> 'a unwind_scheme" where
  "resolveSymbol i s u = sendSymbol i s (u\<lparr>uw_symbols := (uw_symbols u)(i \<mapsto> s)\<rparr>)"

section \<open>Attributes and event formats\<close>

definition TYPE_TRACEPOINT :: u32 where "TYPE_TRACEPOINT = 2"

definition hasTracePointAttributes :: "'a unwind_scheme \<Rightarrow> bool" where
  "hasTracePointAttributes u \<longleftrightarrow> list_ex (\<lambda>a. a_type a = TYPE_TRACEPOINT) (uw_attributes u)"

definition sendAttributes ::
  "s32 \<Rightarrow> event_attributes \<Rightarrow> bytes \<Rightarrow> 'a unwind_scheme \<Rightarrow> 'a unwind_scheme"
where
  "sendAttributes i a name u =
     (let (nameId, u) = resolveString name u in sendBuffer (attributes_message i a nameId) u)"

definition unwind_addAttributes ::
  "event_attributes \<Rightarrow> bytes \<Rightarrow> u64 list \<Rightarrow> 'a unwind_scheme \<Rightarrow> 'a unwind_scheme"
where
  "unwind_addAttributes a name ids u =
     (let filteredIds = filter (\<lambda>i. uw_attributeIds u i = None) (ids @ [0]);
          u = (if a_type a = TYPE_TRACEPOINT \<and> eb_targetSize u = 0
               then revertTargetEventBufferSize u else u) in
      if filteredIds = [] then u
      else
        let internalId = of_nat (length (uw_attributes u));
            u = sendAttributes internalId a name (u\<lparr>uw_attributes := uw_attributes u @ [a]\<rparr>) in
        u\<lparr>uw_attributeIds := fold (\<lambda>i m. m(i \<mapsto> internalId)) filteredIds (uw_attributeIds u)\<rparr>)"

definition attr_event :: "attr_record \<Rightarrow> 'a unwind_scheme \<Rightarrow> 'a unwind_scheme" where
  "attr_event r = unwind_addAttributes (ar_attr r) (ascii (attributes_name (ar_attr r))) (ar_ids r)"

definition resolve_fields :: "format_field list \<Rightarrow> 'a unwind_scheme \<Rightarrow> 'a unwind_scheme" where
  "resolve_fields = fold (\<lambda>f u. snd (resolveString (ff_name f) u))"

definition sendEventFormat :: "s32 \<Rightarrow> event_format \<Rightarrow> 'a unwind_scheme \<Rightarrow> 'a unwind_scheme" where
  "sendEventFormat i f u =
     (let (systemId, u) = resolveString (ef_system f) u;
          (nameId, u) = resolveString (ef_name f) u;
          u = resolve_fields (ef_fields f) (resolve_fields (ef_commonFields f) u) in
      sendBuffer (format_message i systemId nameId (ef_flags f)) u)"

text \<open>\<open>keys\<close> is the order in which the hash of formats is iterated.\<close>

definition unwind_tracing ::
  "((s32 \<rightharpoonup> event_format) \<Rightarrow> s32 list) \<Rightarrow> tracing_data \<Rightarrow> 'a unwind_scheme \<Rightarrow> 'a unwind_scheme"
where
  "unwind_tracing keys td u =
     fold (\<lambda>i. sendEventFormat i (eventFormat i td)) (keys (td_eventFormats td)) (u\<lparr>uw_tracing := td\<rparr>)"

section \<open>Features\<close>

definition features_message :: "perf_features \<Rightarrow> bytes" where
  "features_message f = put8 (event_code FeaturesDefinition) @ put_bytes (pf_hostName f)
     @ put_bytes (pf_osRelease f) @ put_bytes (pf_version f) @ put_bytes (pf_arch f)
     @ write_nr_cpus BigEndian (pf_nrCpus f) @ put_bytes (pf_cpuDesc f) @ put_bytes (pf_cpuId f)
     @ put64 (pf_totalMem f) @ write_list BigEndian write_bytes (pf_cmdline f)
     @ write_list BigEndian write_build_id (pf_buildIds f) @ write_cpu_topology BigEndian (pf_cpuTopology f)
     @ write_list BigEndian write_numa_node (pf_numa f) @ write_list BigEndian write_pmu (pf_pmus f)
     @ write_list BigEndian write_group_desc (pf_groups f)"

text \<open>\<open>since3_17\<close> compares a version of perf with 3.17, as \<open>QVersionNumber\<close> does.\<close>

definition unwind_features ::
  "((s32 \<rightharpoonup> event_format) \<Rightarrow> s32 list) \<Rightarrow> (bytes \<Rightarrow> bool) \<Rightarrow> perf_features \<Rightarrow> 'a unwind_scheme
    \<Rightarrow> 'a unwind_scheme"
where
  "unwind_features keys since3_17 f u =
     (let u = unwind_tracing keys (pf_tracing f) u;
          u = fold (\<lambda>d. unwind_addAttributes (ed_attrs d) (ed_name d) (ed_ids d)) (pf_eventDescs f) u;
          u = (if since3_17 (pf_version f) \<and> eb_violations u = 0 \<and> \<not> hasTracePointAttributes u
               then setTargetEventBufferSize 0 u else u);
          u = sendBuffer (features_message f) u in
      u\<lparr>uw_buildIds := fold (\<lambda>b m. m(bi_fileName b \<mapsto> bi_id b)) (pf_buildIds f) (uw_buildIds u)\<rparr>)"

section \<open>Events\<close>

text \<open>What the buffer makes its owner do; with statistics enabled \<open>analyze\<close> returns at once.\<close>

definition perform ::
  "(action \<Rightarrow> 'a unwind_scheme \<Rightarrow> 'a unwind_scheme) \<Rightarrow> (u64 \<Rightarrow> u64 \<Rightarrow> u16 list) \<Rightarrow> action
    \<Rightarrow> 'a unwind_scheme \<Rightarrow> 'a unwind_scheme"
where
  "perform other tr a u =
     (case a of
        SendTask e \<Rightarrow> sendTaskEvent e u
      | TimeOrderError time lastTime \<Rightarrow> sendError TimeOrderViolation (tr time lastTime) u
      | Analyze s \<Rightarrow> if st_enabled (eb_stats u) then u else other a u
      | _ \<Rightarrow> other a u)"

definition run_buffer ::
  "(action \<Rightarrow> 'a unwind_scheme \<Rightarrow> 'a unwind_scheme) \<Rightarrow> (u64 \<Rightarrow> u64 \<Rightarrow> u16 list)
    \<Rightarrow> ('a unwind_scheme \<Rightarrow> 'a unwind_scheme \<times> action list) \<Rightarrow> 'a unwind_scheme \<Rightarrow> 'a unwind_scheme"
where
  "run_buffer other tr step u = (let (u, as) = step u in fold (perform other tr) as u)"

definition registerElf_event ::
  "(action \<Rightarrow> 'a unwind_scheme \<Rightarrow> 'a unwind_scheme) \<Rightarrow> (u64 \<Rightarrow> u64 \<Rightarrow> u16 list) \<Rightarrow> mmap_record
    \<Rightarrow> 'a unwind_scheme \<Rightarrow> 'a unwind_scheme"
where
  "registerElf_event other tr m = run_buffer other tr (bufferMmap m)"

definition sample_event ::
  "(action \<Rightarrow> 'a unwind_scheme \<Rightarrow> 'a unwind_scheme) \<Rightarrow> (u64 \<Rightarrow> u64 \<Rightarrow> u16 list) \<Rightarrow> sample_record
    \<Rightarrow> 'a unwind_scheme \<Rightarrow> 'a unwind_scheme"
where
  "sample_event other tr s = run_buffer other tr (bufferSample s)"

definition record_cpu :: "'a perf_record_scheme \<Rightarrow> u32" where
  "record_cpu r = sid_cpu (r_sampleId r)"

definition comm_event ::
  "(action \<Rightarrow> 'a unwind_scheme \<Rightarrow> 'a unwind_scheme) \<Rightarrow> (u64 \<Rightarrow> u64 \<Rightarrow> u16 list) \<Rightarrow> comm_record
    \<Rightarrow> 'a unwind_scheme \<Rightarrow> 'a unwind_scheme"
where
  "comm_event other tr c u =
     (let (commId, u) = resolveString (cm_comm c) u in
      run_buffer other tr (bufferTask \<lparr>te_pid = cm_pid c, te_tid = cm_tid c, te_time = record_time c,
        te_cpu = record_cpu c, te_type = Command, te_payload = IntPayload commId\<rparr>) u)"

definition lost_event ::
  "(action \<Rightarrow> 'a unwind_scheme \<Rightarrow> 'a unwind_scheme) \<Rightarrow> (u64 \<Rightarrow> u64 \<Rightarrow> u16 list) \<Rightarrow> lost_record
    \<Rightarrow> 'a unwind_scheme \<Rightarrow> 'a unwind_scheme"
where
  "lost_event other tr l = run_buffer other tr (bufferTask \<lparr>te_pid = sid_pid (r_sampleId l),
     te_tid = sid_tid (r_sampleId l), te_time = record_time l, te_cpu = record_cpu l,
     te_type = LostDefinition, te_payload = ULongPayload (lr_lost l)\<rparr>)"

definition fork_event ::
  "(action \<Rightarrow> 'a unwind_scheme \<Rightarrow> 'a unwind_scheme) \<Rightarrow> (u64 \<Rightarrow> u64 \<Rightarrow> u16 list) \<Rightarrow> fork_record
    \<Rightarrow> 'a unwind_scheme \<Rightarrow> 'a unwind_scheme"
where
  "fork_event other tr r = run_buffer other tr (bufferTask \<lparr>te_pid = fk_pid r, te_tid = fk_tid r,
     te_time = record_time r, te_cpu = record_cpu r, te_type = ThreadStart,
     te_payload = IntPayload (fk_ppid r)\<rparr>)"

definition exit_event ::
  "(action \<Rightarrow> 'a unwind_scheme \<Rightarrow> 'a unwind_scheme) \<Rightarrow> (u64 \<Rightarrow> u64 \<Rightarrow> u16 list) \<Rightarrow> fork_record
    \<Rightarrow> 'a unwind_scheme \<Rightarrow> 'a unwind_scheme"
where
  "exit_event other tr r = run_buffer other tr (bufferTask \<lparr>te_pid = fk_pid r, te_tid = fk_tid r,
     te_time = record_time r, te_cpu = record_cpu r, te_type = ThreadEnd, te_payload = NoPayload\<rparr>)"

definition contextSwitch_event ::
  "(action \<Rightarrow> 'a unwind_scheme \<Rightarrow> 'a unwind_scheme) \<Rightarrow> (u64 \<Rightarrow> u64 \<Rightarrow> u16 list) \<Rightarrow> 'b perf_record_scheme
    \<Rightarrow> 'a unwind_scheme \<Rightarrow> 'a unwind_scheme"
where
  "contextSwitch_event other tr r = run_buffer other tr (bufferTask \<lparr>te_pid = sid_pid (r_sampleId r),
     te_tid = sid_tid (r_sampleId r), te_time = record_time r, te_cpu = record_cpu r,
     te_type = ContextSwitchDefinition,
     te_payload = BoolPayload (and (eh_misc (r_header r)) PERF_RECORD_MISC_SWITCH_OUT \<noteq> 0)\<rparr>)"

definition round_event ::
  "(action \<Rightarrow> 'a unwind_scheme \<Rightarrow> 'a unwind_scheme) \<Rightarrow> (u64 \<Rightarrow> u64 \<Rightarrow> u16 list)
    \<Rightarrow> 'a unwind_scheme \<Rightarrow> 'a unwind_scheme"
where
  "round_event other tr u = run_buffer other tr (finishedRound (hasTracePointAttributes u)) u"

text \<open>The two steps of \<open>finalize\<close>, each with what it triggers.\<close>

definition finalize_event ::
  "(action \<Rightarrow> 'a unwind_scheme \<Rightarrow> 'a unwind_scheme) \<Rightarrow> (u64 \<Rightarrow> u64 \<Rightarrow> u16 list)
    \<Rightarrow> 'a unwind_scheme \<Rightarrow> 'a unwind_scheme"
where
  "finalize_event other tr u = run_buffer other tr (flushEventBuffer 0) (round_event other tr u)"

end
