(* ===== verification/Client.thy ===== *)
theory Client
  imports Unwind
begin

text \<open>
  The client the tests read the output with, \<open>src/tests/auto/shared/perfparsertestclient.cpp\<close>: it checks every
  message against the definitions it has seen and fails (\<open>None\<close>) where a check does, or where an assertion of
  \<open>QVector\<close> would. \<open>rd\<close> is Qt's operator for a \<open>QVariant\<close>, \<open>later\<close> compares two progress values. What is read
  beyond the end of a message is zero; the check that nothing is left of it comes last.
\<close>

record thread_event =
  th_pid :: s32
  th_tid :: s32
  th_time :: u64
  th_cpu :: u32

record thread_start = thread_event +
  th_ppid :: s32

record command_event = thread_event +
  th_name :: s32

definition noCommand :: command_event where
  "noCommand = \<lparr>th_pid = - 1, th_tid = - 1, th_time = 0, th_cpu = 0, th_name = - 1\<rparr>"

record attribute_event =
  ae_type :: u32
  ae_name :: s32
  ae_config :: u64
  ae_usesFrequency :: bool
  ae_frequencyOrPeriod :: u64

record format_event =
  fe_system :: s32
  fe_name :: s32
  fe_flags :: u32

record client =
  cl_strings :: "bytes list"
  cl_attributes :: "attribute_event list"
  cl_commands :: "s32 \<rightharpoonup> command_event"
  cl_threadStarts :: "thread_start list"
  cl_threadEnds :: "thread_event list"
  cl_locations :: "location list"
  cl_symbols :: "s32 \<rightharpoonup> symbol"
  cl_samples :: "sample_message list"
  cl_formats :: "s32 \<rightharpoonup> format_event"
  cl_progress :: "u64 option"

definition newClient :: client where
  "newClient = \<lparr>cl_strings = [], cl_attributes = [], cl_commands = Map.empty, cl_threadStarts = [],
     cl_threadEnds = [], cl_locations = [], cl_symbols = Map.empty, cl_samples = [],
     cl_formats = Map.empty, cl_progress = None\<rparr>"

section \<open>Checks\<close>

definition checkString :: "client \<Rightarrow> s32 \<Rightarrow> bool" where
  "checkString c i \<longleftrightarrow> 0 \<le> sint i \<and> sint i < int (length (cl_strings c)) \<and> cl_strings c ! nat (sint i) \<noteq> []"

definition checkLocation :: "client \<Rightarrow> s32 \<Rightarrow> bool" where
  "checkLocation c i \<longleftrightarrow> 0 \<le> sint i \<and> sint i < int (length (cl_locations c))
     \<and> lc_pid (cl_locations c ! nat (sint i)) \<noteq> 0"

definition checkAttribute :: "client \<Rightarrow> s32 \<Rightarrow> bool" where
  "checkAttribute c i \<longleftrightarrow> 0 \<le> sint i \<and> sint i < int (length (cl_attributes c))
     \<and> checkString c (ae_name (cl_attributes c ! nat (sint i)))"

definition verify :: "bool \<Rightarrow> client \<Rightarrow> client option" where
  "verify ok c = (if ok then Some c else None)"

section \<open>Readers\<close>

definition get_bool :: "bool reader" where
  "get_bool = do { b \<leftarrow> read_u8; State_Monad.return (b \<noteq> 0) }"

definition get_bytes :: "bytes reader" where
  "get_bytes = do {
     n \<leftarrow> read_u32;
     if n = - 1 then State_Monad.return [] else read_bytes (unat n) []
   }"

definition get_list :: "'a reader \<Rightarrow> 'a list reader" where
  "get_list rd = do { n \<leftarrow> read_u32; read_n (unat n) rd }"

definition get_pair :: "'a reader \<Rightarrow> (s32 \<times> 'a) reader" where
  "get_pair rd = do { i \<leftarrow> read_u32; v \<leftarrow> rd; State_Monad.return (i, v) }"

definition get_location :: "location reader" where
  "get_location = do {
     address \<leftarrow> read_u64;
     fileId \<leftarrow> read_u32;
     pid \<leftarrow> read_u32;
     line \<leftarrow> read_u32;
     column \<leftarrow> read_u32;
     parent \<leftarrow> read_u32;
     relAddr \<leftarrow> read_u64;
     State_Monad.return \<lparr>lc_address = address, lc_relAddr = relAddr, lc_file = fileId, lc_pid = pid,
       lc_line = line, lc_column = column, lc_parent = parent\<rparr>
   }"

definition get_symbol :: "symbol reader" where
  "get_symbol = do {
     name \<leftarrow> read_u32;
     binary \<leftarrow> read_u32;
     path \<leftarrow> read_u32;
     isKernel \<leftarrow> get_bool;
     relAddr \<leftarrow> read_u64;
     n \<leftarrow> read_u64;
     actualPath \<leftarrow> read_u32;
     isInline \<leftarrow> get_bool;
     State_Monad.return \<lparr>sy_name = name, sy_relAddr = relAddr, sy_size = n, sy_binary = binary,
       sy_path = path, sy_actualPath = actualPath, sy_isKernel = isKernel, sy_isInline = isInline\<rparr>
   }"

definition get_thread :: "thread_event reader" where
  "get_thread = do {
     pid \<leftarrow> read_u32;
     tid \<leftarrow> read_u32;
     time \<leftarrow> read_u64;
     cpu \<leftarrow> read_u32;
     State_Monad.return \<lparr>th_pid = pid, th_tid = tid, th_time = time, th_cpu = cpu\<rparr>
   }"

section \<open>Messages\<close>

definition on_thread_start :: "client \<Rightarrow> client option reader" where
  "on_thread_start c = do {
     t \<leftarrow> get_thread;
     ppid \<leftarrow> read_u32;
     let parent = (case cl_commands c ppid of Some cmd \<Rightarrow> cmd | None \<Rightarrow> noCommand);
     State_Monad.return (Some (c\<lparr>
       cl_threadStarts := cl_threadStarts c @ [thread_event.extend t \<lparr>th_ppid = ppid\<rparr>],
       cl_commands := (cl_commands c)(th_pid t \<mapsto> parent)\<rparr>))
   }"

definition on_thread_end :: "client \<Rightarrow> client option reader" where
  "on_thread_end c = do {
     t \<leftarrow> get_thread;
     State_Monad.return (Some (c\<lparr>cl_threadEnds := cl_threadEnds c @ [t]\<rparr>))
   }"

definition on_command :: "client \<Rightarrow> client option reader" where
  "on_command c = do {
     t \<leftarrow> get_thread;
     name \<leftarrow> read_u32;
     let cmd = thread_event.extend t \<lparr>th_name = name\<rparr>;
     let cmds = (cl_commands c)(th_tid t \<mapsto> cmd);
     State_Monad.return (verify (checkString c name) (c\<lparr>cl_commands :=
       (if th_pid t \<noteq> th_tid t \<and> cmds (th_pid t) = None then cmds(th_pid t \<mapsto> cmd) else cmds)\<rparr>))
   }"

definition on_location :: "client \<Rightarrow> client option reader" where
  "on_location c = do {
     i \<leftarrow> read_u32;
     l \<leftarrow> get_location;
     State_Monad.return (verify ((lc_file l \<noteq> - 1 \<longrightarrow> checkString c (lc_file l))
         \<and> (lc_parent l \<noteq> - 1 \<longrightarrow> checkLocation c (lc_parent l)) \<and> sint i = int (length (cl_locations c)))
       (c\<lparr>cl_locations := cl_locations c @ [l]\<rparr>))
   }"

definition on_symbol :: "client \<Rightarrow> client option reader" where
  "on_symbol c = do {
     i \<leftarrow> read_u32;
     s \<leftarrow> get_symbol;
     State_Monad.return (verify ((sy_name s \<noteq> - 1 \<longrightarrow> checkString c (sy_name s))
         \<and> (sy_binary s \<noteq> - 1 \<longrightarrow> checkString c (sy_binary s)) \<and> sint i < int (length (cl_locations c)))
       (c\<lparr>cl_symbols := (cl_symbols c)(i \<mapsto> s)\<rparr>))
   }"

definition on_attributes :: "client \<Rightarrow> client option reader" where
  "on_attributes c = do {
     i \<leftarrow> read_u32;
     typ \<leftarrow> read_u32;
     config \<leftarrow> read_u64;
     name \<leftarrow> read_u32;
     freq \<leftarrow> get_bool;
     period \<leftarrow> read_u64;
     State_Monad.return (verify (checkString c name \<and> sint i = int (length (cl_attributes c)))
       (c\<lparr>cl_attributes := cl_attributes c @ [\<lparr>ae_type = typ, ae_name = name, ae_config = config,
          ae_usesFrequency = freq, ae_frequencyOrPeriod = period\<rparr>]\<rparr>))
   }"

definition on_string :: "client \<Rightarrow> client option reader" where
  "on_string c = do {
     i \<leftarrow> read_u32;
     s \<leftarrow> get_bytes;
     State_Monad.return (verify (sint i = int (length (cl_strings c))) (c\<lparr>cl_strings := cl_strings c @ [s]\<rparr>))
   }"

definition on_error :: "client \<Rightarrow> client option reader" where
  "on_error c = do {
     code \<leftarrow> read_u32;
     n \<leftarrow> read_u32;
     _ \<leftarrow> read_n (if n = - 1 then 0 else unat n div 2) read_u16;
     State_Monad.return (Some c)
   }"

definition on_sample :: "trace_value reader \<Rightarrow> bool \<Rightarrow> client \<Rightarrow> client option reader" where
  "on_sample rd tracepoint c = do {
     t \<leftarrow> get_thread;
     frames \<leftarrow> get_list read_u32;
     guessed \<leftarrow> read_u8;
     values \<leftarrow> get_list (get_pair read_u64);
     trace \<leftarrow> (if tracepoint then do { vs \<leftarrow> get_list (get_pair rd); State_Monad.return (Some vs) }
               else State_Monad.return None);
     State_Monad.return (verify (list_all (checkLocation c) frames \<and> list_all (checkAttribute c \<circ> fst) values
         \<and> (case trace of None \<Rightarrow> True | Some vs \<Rightarrow> list_all (checkString c \<circ> fst) vs))
       (c\<lparr>cl_samples := cl_samples c @ [\<lparr>sm_trace = trace, sm_pid = th_pid t, sm_tid = th_tid t,
          sm_time = th_time t, sm_cpu = th_cpu t, sm_frames = frames, sm_guessed = guessed,
          sm_values = values\<rparr>]\<rparr>))
   }"

definition on_progress :: "(u64 option \<Rightarrow> u64 \<Rightarrow> bool) \<Rightarrow> client \<Rightarrow> client option reader" where
  "on_progress later c = do {
     percent \<leftarrow> read_u64;
     State_Monad.return (verify (later (cl_progress c) percent) (c\<lparr>cl_progress := Some percent\<rparr>))
   }"

definition on_format :: "client \<Rightarrow> client option reader" where
  "on_format c = do {
     i \<leftarrow> read_u32;
     sys \<leftarrow> read_u32;
     name \<leftarrow> read_u32;
     flags \<leftarrow> read_u32;
     State_Monad.return (verify (checkString c sys \<and> checkString c name \<and> cl_formats c i = None)
       (c\<lparr>cl_formats := (cl_formats c)(i \<mapsto> \<lparr>fe_system = sys, fe_name = name, fe_flags = flags\<rparr>)\<rparr>))
   }"

text \<open>The client repeats the numbers of the event types.\<close>

definition client_event ::
  "trace_value reader \<Rightarrow> (u64 option \<Rightarrow> u64 \<Rightarrow> bool) \<Rightarrow> u8 \<Rightarrow> int \<Rightarrow> client \<Rightarrow> client option reader"
where
  "client_event rd later t n c =
     (if t = 0 then on_thread_start c
      else if t = 1 then on_thread_end c
      else if t = 2 then on_command c
      else if t = 3 then on_location c
      else if t = 4 then on_symbol c
      else if t = 11 then on_attributes c
      else if t = 5 then on_string c
      else if t = 8 then on_error c
      else if t = 13 then on_sample rd False c
      else if t = 14 then on_sample rd True c
      else if t = 9 then on_progress later c
      else if t = 10 then on_format c
      else do { _ \<leftarrow> skipRawData n; State_Monad.return (Some c) })"

definition client_message ::
  "trace_value reader \<Rightarrow> (u64 option \<Rightarrow> u64 \<Rightarrow> bool) \<Rightarrow> bytes \<Rightarrow> client \<Rightarrow> client option"
where
  "client_message rd later buffer c =
     (let (t, s) = run_state read_u8 (open_stream (\<lambda>_. 0) buffer);
          (c', s) = run_state (client_event rd later t (int (length buffer)) c) s in
      if ds_rest s = [] then c' else None)"

function client_loop ::
  "trace_value reader \<Rightarrow> (u64 option \<Rightarrow> u64 \<Rightarrow> bool) \<Rightarrow> bytes \<Rightarrow> client \<Rightarrow> client option"
where
  "client_loop rd later bs c =
     (if length bs < 4 then Some c
      else let n = sint (decode LittleEndian (take 4 bs) :: s32); bs = drop 4 bs in
        if int (length bs) < n then None
        else Option.bind (client_message rd later (take (nat n) bs) c)
          (client_loop rd later (drop (nat n) bs)))"
  by pat_completeness auto
termination by (relation "measure (\<lambda>(rd, later, bs, c). length bs)") (auto simp: Let_def)

declare client_loop.simps [simp del]

definition extractTrace ::
  "trace_value reader \<Rightarrow> (u64 option \<Rightarrow> u64 \<Rightarrow> bool) \<Rightarrow> u32 \<Rightarrow> bytes \<Rightarrow> client option"
where
  "extractTrace rd later compiledVersion device =
     (let n = length s_streamMagic in
      if device = [] \<or> take n device \<noteq> s_streamMagic then None
      else if decode LittleEndian (take 4 (drop n device)) \<noteq> compiledVersion then None
      else client_loop rd later (drop (n + 4) device) newClient)"

end
