(* ===== verification/ClientFacts.thy ===== *)
theory ClientFacts
  imports Client
begin

text \<open>
  What the client makes of the output: every message is read back, so after any run of \<open>PerfUnwind\<close> the client
  has the same tables of strings, locations, symbols and attributes, and the samples that were sent.
\<close>

section \<open>Reading back what was written\<close>

definition at :: "bytes \<Rightarrow> data_stream" where
  "at r = open_stream (\<lambda>_. 0) r"

named_theorems client_simps \<open>evaluation rules of the client\<close>

lemma at_update: "at r = (at [])\<lparr>ds_rest := r\<rparr>" and at_order: "ds_order (at r) = BigEndian"
  and at_rest [client_simps]: "ds_rest (at r) = r"
  by (simp_all add: at_def open_stream_def)

text \<open>A reader takes back what was put, whatever comes after it.\<close>

locale getter =
  fixes rd :: "'a reader" and put :: "'a \<Rightarrow> bytes" and ok :: "'a \<Rightarrow> bool"
  assumes get_put: "ok x \<Longrightarrow> run_state rd (at (put x @ r)) = (x, at r)"
begin

lemma get_last: "ok x \<Longrightarrow> run_state rd (at (put x)) = (x, at [])"
  using get_put [of x "[]"] by simp

lemma get_n: "list_all ok xs \<Longrightarrow> run_state (read_n (length xs) rd) (at (concat (map put xs) @ r)) = (xs, at r)"
  by (induction xs) (simp_all add: get_put)

end

lemma codec_getter: "codec rd enc ok \<Longrightarrow> getter rd (enc BigEndian) ok"
  by unfold_locales (metis at_order at_update codec.roundtrip)

interpretation g8: getter read_u8 put8 "\<lambda>_. True"
  by (rule codec_getter [OF u8c.codec_axioms])
interpretation g32: getter read_u32 put32 "\<lambda>_. True"
  by (rule codec_getter [OF u32c.codec_axioms])
interpretation g64: getter read_u64 put64 "\<lambda>_. True"
  by (rule codec_getter [OF u64c.codec_axioms])
interpretation g16: getter read_u16 "encode 2 BigEndian" "\<lambda>_. True"
  by (rule codec_getter [OF u16c.codec_axioms])

lemmas get_ints [client_simps] =
  g8.get_put [OF TrueI, simplified] g32.get_put [OF TrueI] g64.get_put [OF TrueI] g16.get_put [OF TrueI]
  g8.get_last [OF TrueI, simplified] g32.get_last [OF TrueI] g64.get_last [OF TrueI] g16.get_last [OF TrueI]

interpretation gbool: getter get_bool put_bool "\<lambda>_. True"
  by unfold_locales (simp add: get_bool_def put_bool_def client_simps)

lemma length_word: "n < 2 ^ 32 \<Longrightarrow> unat (of_nat n :: u32) = n"
  by (simp add: unat_of_nat take_bit_nat_eq_self)

lemma length_not_null: "n < 2 ^ 32 - 1 \<Longrightarrow> (of_nat n :: u32) \<noteq> - 1"
proof
  assume n: "n < 2 ^ 32 - 1" and "(of_nat n :: u32) = - 1"
  moreover have "unat (- 1 :: u32) = 2 ^ 32 - 1" by (simp add: unsigned_minus_1_eq_mask mask_eq_exp_minus_1)
  ultimately show False using length_word [of n] by simp
qed

interpretation gbytes: getter get_bytes put_bytes "\<lambda>s. length s < 2 ^ 32 - 1"
proof
  fix s r :: bytes assume s: "length s < 2 ^ 32 - 1"
  have "run_state (read_bytes (length s) []) (at (s @ r)) = (s, at r)"
    using read_bytes_exact [OF refl, where bs = s and buf = "[]" and s = "at []" and r = r] by (simp add: at_update [symmetric])
  with s show "run_state get_bytes (at (put_bytes s @ r)) = (s, at r)"
    by (simp add: get_bytes_def write_bytes_def client_simps length_not_null length_word)
qed

interpretation glocation: getter get_location write_location "\<lambda>_. True"
  by unfold_locales (simp add: get_location_def write_location_def client_simps)

lemmas get_composed [client_simps] =
  gbool.get_put [OF TrueI] gbool.get_last [OF TrueI] gbytes.get_put gbytes.get_last
  glocation.get_put [OF TrueI] glocation.get_last [OF TrueI]

interpretation gsymbol: getter get_symbol write_symbol "\<lambda>_. True"
  by unfold_locales (simp add: get_symbol_def write_symbol_def client_simps)

lemmas get_symbols [client_simps] = gsymbol.get_put [OF TrueI] gsymbol.get_last [OF TrueI]

lemma getter_list:
  assumes "getter rd put ok"
  shows "getter (get_list rd) (put_list put) (\<lambda>xs. length xs < 2 ^ 32 \<and> list_all ok xs)"
  by unfold_locales (simp add: get_list_def put_list_def client_simps length_word getter.get_n [OF assms])

lemma getter_pair:
  assumes "getter rd put ok"
  shows "getter (get_pair rd) (\<lambda>(i, v). put32 i @ put v) (\<lambda>p. ok (snd p))"
  by unfold_locales (auto simp: get_pair_def client_simps getter.get_put [OF assms])

interpretation gframes: getter "get_list read_u32" "put_list put32" "\<lambda>xs. length xs < 2 ^ 32 \<and> list_all (\<lambda>_. True) xs"
  by (rule getter_list) unfold_locales

interpretation gvalues: getter "get_list (get_pair read_u64)" "put_list (\<lambda>(i, v). put32 i @ put64 v)"
  "\<lambda>xs. length xs < 2 ^ 32 \<and> list_all (\<lambda>_. True) xs"
  by (rule getter_list, rule getter_pair) unfold_locales

section \<open>Messages\<close>

lemma client_message_put [unfolded One_nat_def]:
  "client_message rd later (put8 t @ body) c =
     (let (c', s) = run_state (client_event rd later t (int (Suc (length body))) c) (at body) in
      if ds_rest s = [] then c' else None)"
  by (simp add: client_message_def at_def [symmetric] client_simps)

lemma client_string:
  assumes "length s < 2 ^ 32 - 1"
  shows "client_message rd later (string_message i s) c
    = verify (sint i = int (length (cl_strings c))) (c\<lparr>cl_strings := cl_strings c @ [s]\<rparr>)"
  using assms
  by (simp add: string_message_def client_message_put client_event_def on_string_def client_simps)

lemma client_location:
  "client_message rd later (location_message i l) c
    = verify ((lc_file l \<noteq> - 1 \<longrightarrow> checkString c (lc_file l))
         \<and> (lc_parent l \<noteq> - 1 \<longrightarrow> checkLocation c (lc_parent l)) \<and> sint i = int (length (cl_locations c)))
       (c\<lparr>cl_locations := cl_locations c @ [l]\<rparr>)"
  by (simp add: location_message_def client_message_put client_event_def on_location_def client_simps)

lemma client_symbol:
  "client_message rd later (symbol_message i s) c
    = verify ((sy_name s \<noteq> - 1 \<longrightarrow> checkString c (sy_name s))
         \<and> (sy_binary s \<noteq> - 1 \<longrightarrow> checkString c (sy_binary s)) \<and> sint i < int (length (cl_locations c)))
       (c\<lparr>cl_symbols := (cl_symbols c)(i \<mapsto> s)\<rparr>)"
  by (simp add: symbol_message_def client_message_put client_event_def on_symbol_def client_simps)

definition attribute_of :: "event_attributes \<Rightarrow> s32 \<Rightarrow> attribute_event" where
  "attribute_of a nameId = \<lparr>ae_type = a_type a, ae_name = nameId, ae_config = a_config a,
     ae_usesFrequency = usesFrequency a, ae_frequencyOrPeriod = a_samplePeriod a\<rparr>"

lemma client_attributes:
  "client_message rd later (attributes_message i a nameId) c
    = verify (checkString c nameId \<and> sint i = int (length (cl_attributes c)))
       (c\<lparr>cl_attributes := cl_attributes c @ [attribute_of a nameId]\<rparr>)"
  by (simp add: attributes_message_def client_message_put client_event_def on_attributes_def
      attribute_of_def client_simps)

lemma client_format:
  "client_message rd later (format_message i systemId nameId flags) c
    = verify (checkString c systemId \<and> checkString c nameId \<and> cl_formats c i = None)
       (c\<lparr>cl_formats := (cl_formats c)(i \<mapsto> \<lparr>fe_system = systemId, fe_name = nameId, fe_flags = flags\<rparr>)\<rparr>)"
  by (simp add: format_message_def client_message_put client_event_def on_format_def client_simps)

lemma client_error:
  assumes "length msg < 2 ^ 31 - 1"
  shows "client_message rd later (error_message e msg) c = Some c"
proof -
  have "unat (of_nat (2 * length msg) :: u32) = 2 * length msg" "of_nat (2 * length msg) \<noteq> (- 1 :: u32)"
    using assms length_not_null [of "2 * length msg"] length_word [of "2 * length msg"] by simp_all
  then show ?thesis
    using g16.get_n [of msg "[]"]
    by (simp add: error_message_def client_message_put client_event_def on_error_def put_string_def client_simps
        list.pred_True)
qed

section \<open>Samples\<close>

text \<open>\<open>codes rd wr v\<close>: what the operators of \<open>QVariant\<close> promise for a value.\<close>

definition codes :: "trace_value reader \<Rightarrow> (trace_value \<Rightarrow> bytes) \<Rightarrow> trace_value \<Rightarrow> bool" where
  "codes rd wr v \<longleftrightarrow> (\<forall>r. run_state rd (at (wr v @ r)) = (v, at r))"

interpretation gtrace: getter "get_list (get_pair rd)" "put_list (\<lambda>(i, v). put32 i @ wr v)"
  "\<lambda>vs. length vs < 2 ^ 32 \<and> list_all (\<lambda>p. codes rd wr (snd p)) vs" for rd wr
  by (rule getter_list, rule getter_pair) (unfold_locales, simp add: codes_def)

definition fits_sample :: "trace_value reader \<Rightarrow> (trace_value \<Rightarrow> bytes) \<Rightarrow> sample_message \<Rightarrow> bool" where
  "fits_sample rd wr m \<longleftrightarrow> length (sm_frames m) < 2 ^ 32 \<and> length (sm_values m) < 2 ^ 32
     \<and> (case sm_trace m of None \<Rightarrow> True
          | Some vs \<Rightarrow> length vs < 2 ^ 32 \<and> list_all (\<lambda>p. codes rd wr (snd p)) vs)"

lemma client_sample:
  assumes "fits_sample rd wr m"
  shows "client_message rd later (write_sample_message wr m) c
    = verify (list_all (checkLocation c) (sm_frames m) \<and> list_all (checkAttribute c \<circ> fst) (sm_values m)
         \<and> (case sm_trace m of None \<Rightarrow> True | Some vs \<Rightarrow> list_all (checkString c \<circ> fst) vs))
       (c\<lparr>cl_samples := cl_samples c @ [m]\<rparr>)"
proof -
  note get = gframes.get_put gvalues.get_put gvalues.get_last gtrace.get_last
  show ?thesis
    using assms
    by (cases m; cases "sm_trace m")
      (simp_all add: write_sample_message_def client_message_put client_event_def on_sample_def get_thread_def
        fits_sample_def client_simps get list.pred_True)
qed

end
