(* ===== verification/ClientRun.thy ===== *)
theory ClientRun
  imports ClientFacts
begin

text \<open>
  The client after a run of \<open>PerfUnwind\<close>. A run is a list of the requests the operations, the symbol tables and
  the analysis of samples make: a string, location or symbol is resolved, attributes are added, a message is
  sent. The client that reads the output accepts all of it and ends with the tables of \<open>PerfUnwind\<close>.
\<close>

section \<open>The loop\<close>

primrec client_run ::
  "trace_value reader \<Rightarrow> (u64 option \<Rightarrow> u64 \<Rightarrow> bool) \<Rightarrow> bytes list \<Rightarrow> client \<Rightarrow> client option"
where
  "client_run rd later [] c = Some c"
| "client_run rd later (m # ms) c = Option.bind (client_message rd later m c) (client_run rd later ms)"

lemma client_run_append:
  "client_run rd later (ms @ ms') c = Option.bind (client_run rd later ms c) (client_run rd later ms')"
proof (induction ms arbitrary: c)
  case (Cons m ms)
  then have "client_run rd later (ms @ ms') = (\<lambda>c. Option.bind (client_run rd later ms c) (client_run rd later ms'))"
    by blast
  then show ?case by simp
qed simp

lemma sint_of_nat: "n < 2 ^ 31 \<Longrightarrow> sint (of_nat n :: u32) = int n"
  by (simp add: sint_uint signed_take_bit_int_eq_self unsigned_of_nat take_bit_nat_eq_self)

lemma client_loop_frame:
  assumes "length m < 2 ^ 31"
  shows "client_loop rd later (frame m @ bs) c
    = Option.bind (client_message rd later m c) (client_loop rd later bs)"
proof -
  have "decode LittleEndian (encode 4 LittleEndian (of_nat (length m) :: s32)) = (of_nat (length m) :: s32)"
    by (rule decode_encode) simp
  then show ?thesis
    using sint_of_nat [OF assms]
    by (subst client_loop.simps) (simp add: frame_def Let_def)
qed

lemma client_loop_run:
  "\<forall>m \<in> set ms. length m < 2 ^ 31
    \<Longrightarrow> client_loop rd later (concat (map frame ms)) c = client_run rd later ms c"
proof (induction ms arbitrary: c)
  case Nil
  then show ?case by (simp add: client_loop.simps)
next
  case (Cons m ms)
  then have "client_loop rd later (concat (map frame ms)) = client_run rd later ms" by auto
  with Cons.prems show ?case by (simp add: client_loop_frame)
qed

lemma extractTrace_run:
  assumes "\<forall>m \<in> set ms. length m < 2 ^ 31"
  shows "extractTrace rd later version (stream_header version @ concat (map frame ms))
    = client_run rd later ms newClient"
proof -
  have "decode LittleEndian (encode 4 LittleEndian version) = version"
    by (rule decode_encode) simp
  then show ?thesis
    using client_loop_run [OF assms] by (simp add: extractTrace_def stream_header_def s_streamMagic_def)
qed

section \<open>Numbered tables\<close>

definition numbered :: "('k \<times> s32) list \<Rightarrow> 'k list \<Rightarrow> bool" where
  "numbered tab ks \<longleftrightarrow> map fst tab = rev ks \<and> map snd tab = rev (map of_nat [0..<length ks]) \<and> length ks < 2 ^ 31"

lemma numbered_Nil [simp]: "numbered [] []"
  by (simp add: numbered_def)

lemma numbered_length: "numbered tab ks \<Longrightarrow> length tab = length ks"
  by (metis numbered_def length_map length_rev)

lemma numbered_Cons:
  "numbered tab ks \<Longrightarrow> length ks < 2 ^ 31 - 1 \<Longrightarrow> numbered ((k, of_nat (length tab)) # tab) (ks @ [k])"
  using numbered_length [of tab ks] by (simp add: numbered_def)

lemma numbered_in:
  assumes "numbered tab ks" "(k, i) \<in> set tab"
  shows "0 \<le> sint i \<and> sint i < int (length ks) \<and> ks ! nat (sint i) = k"
proof -
  note len = numbered_length [OF assms(1)]
  have ks: "map fst (rev tab) = ks" and ids: "map snd (rev tab) = map of_nat [0..<length ks]" and small: "length ks < 2 ^ 31"
    using assms(1) by (simp_all add: numbered_def rev_map [symmetric])
  obtain n where n: "n < length ks" "rev tab ! n = (k, i)"
    using assms(2) len by (metis in_set_conv_nth length_rev set_rev)
  have "ks ! n = k" using arg_cong [OF ks, of "\<lambda>l. l ! n"] n len by simp
  moreover have "i = of_nat n" using arg_cong [OF ids, of "\<lambda>l. l ! n"] n len by simp
  ultimately show ?thesis using n small by (simp add: sint_of_nat)
qed

section \<open>The same tables on both sides\<close>

definition synced :: "'a unwind_scheme \<Rightarrow> client \<Rightarrow> bool" where
  "synced u c \<longleftrightarrow> numbered (uw_strings u) (cl_strings c) \<and> distinct (cl_strings c) \<and> [] \<notin> set (cl_strings c)
     \<and> numbered (uw_locations u) (cl_locations c) \<and> (\<forall>l \<in> set (cl_locations c). lc_pid l \<noteq> 0)
     \<and> cl_symbols c = uw_symbols u
     \<and> list_all2 (\<lambda>a e. \<exists>n. e = attribute_of a n \<and> checkString c n) (uw_attributes u) (cl_attributes c)
     \<and> length (uw_attributes u) < 2 ^ 31"

definition in_step ::
  "trace_value reader \<Rightarrow> (u64 option \<Rightarrow> u64 \<Rightarrow> bool) \<Rightarrow> u32 \<Rightarrow> 'a unwind_scheme \<Rightarrow> client \<Rightarrow> bool"
where
  "in_step rd later version u c \<longleftrightarrow> \<not> st_enabled (eb_stats u) \<and> synced u c
     \<and> (\<exists>ms. uw_output u = stream_header version @ concat (map frame ms) \<and> (\<forall>m \<in> set ms. length m < 2 ^ 31)
          \<and> client_run rd later ms newClient = Some c)"

lemma in_step_extract: "in_step rd later version u c \<Longrightarrow> extractTrace rd later version (uw_output u) = Some c"
  by (auto simp: in_step_def extractTrace_run)

lemma in_step_start: "in_step rd later version (newUnwind version k False) newClient"
  by (auto simp: in_step_def synced_def newUnwind_def newEventBuffer_def newStats_def newClient_def
      event_buffer.defs intro: exI [of _ "[]"])

lemma in_step_send:
  assumes "in_step rd later version u c" "length m < 2 ^ 31" "client_message rd later m c = Some c'"
    and "uw_output u' = uw_output u" "st_enabled (eb_stats u') = st_enabled (eb_stats u)" "synced u' c'"
  shows "in_step rd later version (sendBuffer m u') c'"
proof -
  obtain ms where "uw_output u = stream_header version @ concat (map frame ms)"
    "\<forall>m \<in> set ms. length m < 2 ^ 31" "client_run rd later ms newClient = Some c"
    using assms(1) by (auto simp: in_step_def)
  then have "uw_output (sendBuffer m u') = stream_header version @ concat (map frame (ms @ [m]))"
    "\<forall>m \<in> set (ms @ [m]). length m < 2 ^ 31" "client_run rd later (ms @ [m]) newClient = Some c'"
    using assms by (simp_all add: in_step_def sendBuffer_def client_run_append)
  moreover have "\<not> st_enabled (eb_stats (sendBuffer m u'))" "synced (sendBuffer m u') c'"
    using assms by (simp_all add: in_step_def sendBuffer_def synced_def)
  ultimately show ?thesis unfolding in_step_def by blast
qed

lemma message_lengths:
  "length (string_message i s) = 9 + length s" "length (location_message i l) = 41"
  "length (symbol_message i y) = 39" "length (attributes_message i a n) = 30" "length (format_message i n n' w) = 17"
  by (simp_all add: string_message_def location_message_def symbol_message_def attributes_message_def
      format_message_def write_bytes_def write_location_def write_symbol_def put_bool_def)

text \<open>The client may get more strings.\<close>

definition more_strings :: "client \<Rightarrow> client \<Rightarrow> bool" where
  "more_strings c c' \<longleftrightarrow> (\<exists>ss. c' = c\<lparr>cl_strings := cl_strings c @ ss\<rparr>)"

lemma more_strings_refl: "more_strings c c"
  by (auto simp: more_strings_def intro: exI [of _ "[]"])

lemma more_strings_trans: "more_strings c c' \<Longrightarrow> more_strings c' c'' \<Longrightarrow> more_strings c c''"
  by (auto simp: more_strings_def)

lemma checkString_more: "checkString c i \<Longrightarrow> more_strings c c' \<Longrightarrow> checkString c' i"
  by (auto simp: checkString_def more_strings_def nth_append nat_less_iff)

lemma checkString_in:
  assumes "synced u c" "(s, i) \<in> set (uw_strings u)"
  shows "checkString c i \<and> cl_strings c ! nat (sint i) = s"
proof -
  have n: "0 \<le> sint i \<and> sint i < int (length (cl_strings c)) \<and> cl_strings c ! nat (sint i) = s"
    using assms(1) by (intro numbered_in [OF _ assms(2)]) (simp add: synced_def)
  then have "s \<in> set (cl_strings c)" by (metis nth_mem nat_less_iff)
  with n assms(1) show ?thesis by (auto simp: checkString_def synced_def)
qed

definition same_tables :: "'a unwind_scheme \<Rightarrow> 'a unwind_scheme \<Rightarrow> bool" where
  "same_tables u u' \<longleftrightarrow> uw_locations u' = uw_locations u \<and> uw_symbols u' = uw_symbols u
     \<and> uw_attributes u' = uw_attributes u \<and> length (uw_strings u') \<le> Suc (length (uw_strings u))"

lemma resolveString_step:
  assumes "in_step rd later version u c" "length s < 2 ^ 31 - 9" "length (uw_strings u) < 2 ^ 31 - 1"
    and "resolveString s u = (i, u')"
  shows "\<exists>c'. in_step rd later version u' c' \<and> more_strings c c' \<and> same_tables u u'
    \<and> (if s = [] then i = - 1 else checkString c' i \<and> cl_strings c' ! nat (sint i) = s)"
proof -
  have sync: "synced u c" using assms(1) by (simp add: in_step_def)
  consider "s = []" | j where "s \<noteq> []" "map_of (uw_strings u) s = Some j"
    | "s \<noteq> []" "map_of (uw_strings u) s = None" by fastforce
  then show ?thesis
  proof cases
    case 1
    then show ?thesis
      using assms by (auto simp: resolveString_def same_tables_def intro: more_strings_refl)
  next
    case 2
    then show ?thesis
      using assms checkString_in [OF sync map_of_SomeD [OF 2(2)]]
      by (auto simp: resolveString_def same_tables_def intro: more_strings_refl)
  next
    case 3
    let ?n = "length (uw_strings u)" and ?c = "c\<lparr>cl_strings := cl_strings c @ [s]\<rparr>"
    let ?u = "u\<lparr>uw_strings := (s, of_nat (length (uw_strings u))) # uw_strings u\<rparr>"
    have n: "?n = length (cl_strings c)" using sync numbered_length by (auto simp: synced_def)
    have more: "more_strings c ?c" by (auto simp: more_strings_def)
    have "s \<notin> set (cl_strings c)"
      using 3 sync by (simp add: synced_def numbered_def map_of_eq_None_iff flip: set_map)
    moreover have "numbered (uw_strings ?u) (cl_strings ?c)"
      using numbered_Cons [of "uw_strings u" "cl_strings c" s] sync assms(3) n by (simp add: synced_def)
    moreover have "list_all2 (\<lambda>a e. \<exists>n. e = attribute_of a n \<and> checkString ?c n) (uw_attributes u) (cl_attributes c)"
      using sync checkString_more [OF _ more] by (auto simp: synced_def elim!: list_all2_mono)
    ultimately have sync': "synced ?u ?c" using sync 3 by (simp add: synced_def)
    have "in_step rd later version (sendBuffer (string_message (of_nat ?n) s) ?u) ?c"
      using assms n sync'
      by (intro in_step_send [OF assms(1)])
        (simp_all add: client_string verify_def sint_of_nat message_lengths)
    moreover have "u' = sendBuffer (string_message (of_nat ?n) s) ?u" "i = of_nat ?n"
      using assms(4) 3 by (auto simp: resolveString_def sendString_def Let_def)
    moreover have "same_tables u (sendBuffer (string_message (of_nat ?n) s) ?u)"
      by (simp add: same_tables_def sendBuffer_def)
    moreover have "checkString ?c (of_nat ?n) \<and> cl_strings ?c ! nat (sint (of_nat ?n :: s32)) = s"
      using assms(3) n 3 by (simp add: checkString_def sint_of_nat)
    ultimately show ?thesis using more 3 by auto
  qed
qed

text \<open>The other tables.\<close>

definition known_location :: "'a unwind_scheme \<Rightarrow> s32 \<Rightarrow> bool" where
  "known_location u i \<longleftrightarrow> i \<in> snd ` set (uw_locations u)"

definition known_string :: "'a unwind_scheme \<Rightarrow> s32 \<Rightarrow> bool" where
  "known_string u i \<longleftrightarrow> i \<in> snd ` set (uw_strings u)"

lemma known_string_check: "synced u c \<Longrightarrow> known_string u i \<Longrightarrow> checkString c i"
  by (auto simp: known_string_def dest: checkString_in)

lemma known_location_check:
  assumes "synced u c" "known_location u i"
  shows "checkLocation c i"
proof -
  obtain l where "(l, i) \<in> set (uw_locations u)" using assms(2) by (auto simp: known_location_def)
  then have n: "0 \<le> sint i \<and> sint i < int (length (cl_locations c)) \<and> cl_locations c ! nat (sint i) = l"
    using assms(1) by (intro numbered_in) (simp_all add: synced_def)
  then have "l \<in> set (cl_locations c)" by (metis nth_mem nat_less_iff)
  with n assms(1) show ?thesis by (auto simp: checkLocation_def synced_def)
qed

definition fits_location :: "'a unwind_scheme \<Rightarrow> location \<Rightarrow> bool" where
  "fits_location u l \<longleftrightarrow> length (uw_locations u) < 2 ^ 31 - 1 \<and> lc_pid l \<noteq> 0
     \<and> (lc_file l = - 1 \<or> known_string u (lc_file l)) \<and> (lc_parent l = - 1 \<or> known_location u (lc_parent l))"

lemma resolveLocation_step:
  assumes "in_step rd later version u c" "fits_location u l" "resolveLocation l u = (i, u')"
  shows "\<exists>c'. in_step rd later version u' c' \<and> cl_strings c' = cl_strings c \<and> cl_formats c' = cl_formats c
    \<and> cl_samples c' = cl_samples c \<and> cl_progress c' = cl_progress c"
proof (cases "find_location l u")
  case (Some j)
  with assms show ?thesis by (auto simp: resolveLocation_def)
next
  case None
  let ?n = "length (uw_locations u)" and ?c = "c\<lparr>cl_locations := cl_locations c @ [l]\<rparr>"
  let ?u = "u\<lparr>uw_locations := (l, of_nat (length (uw_locations u))) # uw_locations u\<rparr>"
  have sync: "synced u c" using assms(1) by (simp add: in_step_def)
  have n: "?n = length (cl_locations c)" using sync numbered_length by (auto simp: synced_def)
  have "numbered (uw_locations ?u) (cl_locations ?c)"
    using numbered_Cons [of "uw_locations u" "cl_locations c" l] sync assms(2) n
    by (simp add: synced_def fits_location_def)
  then have sync': "synced ?u ?c"
    using sync assms(2) by (auto simp: synced_def fits_location_def checkString_def)
  have "client_message rd later (location_message (of_nat ?n) l) c = Some ?c"
    using assms(2) n known_string_check [OF sync] known_location_check [OF sync]
    by (auto simp: client_location verify_def fits_location_def sint_of_nat)
  then have "in_step rd later version (sendBuffer (location_message (of_nat ?n) l) ?u) ?c"
    using sync' by (intro in_step_send [OF assms(1)]) (simp_all add: message_lengths)
  moreover have "u' = sendBuffer (location_message (of_nat ?n) l) ?u"
    using assms(3) None by (auto simp: resolveLocation_def sendLocation_def Let_def)
  ultimately show ?thesis by (intro exI [of _ ?c]) simp
qed

definition fits_symbol :: "'a unwind_scheme \<Rightarrow> s32 \<Rightarrow> symbol \<Rightarrow> bool" where
  "fits_symbol u i s \<longleftrightarrow> known_location u i \<and> (sy_name s = - 1 \<or> known_string u (sy_name s))
     \<and> (sy_binary s = - 1 \<or> known_string u (sy_binary s))"

lemma resolveSymbol_step:
  assumes "in_step rd later version u c" "fits_symbol u i s"
  shows "\<exists>c'. in_step rd later version (resolveSymbol i s u) c' \<and> cl_strings c' = cl_strings c
    \<and> cl_formats c' = cl_formats c \<and> cl_samples c' = cl_samples c \<and> cl_progress c' = cl_progress c"
proof -
  let ?c = "c\<lparr>cl_symbols := (cl_symbols c)(i \<mapsto> s)\<rparr>"
  have sync: "synced u c" using assms(1) by (simp add: in_step_def)
  then have sync': "synced (u\<lparr>uw_symbols := (uw_symbols u)(i \<mapsto> s)\<rparr>) ?c"
    by (simp add: synced_def checkString_def)
  have "client_message rd later (symbol_message i s) c = Some ?c"
    using assms(2) known_string_check [OF sync] known_location_check [OF sync]
    by (auto simp: client_symbol verify_def fits_symbol_def checkLocation_def)
  then have "in_step rd later version (resolveSymbol i s u) ?c"
    unfolding resolveSymbol_def sendSymbol_def
    using sync' by (intro in_step_send [OF assms(1)]) (simp_all add: message_lengths)
  then show ?thesis by (intro exI [of _ ?c]) simp
qed

text \<open>What does not touch the tables or the output keeps them in step.\<close>

lemma in_step_cong:
  assumes "in_step rd later version u c" "unwind.truncate u' = (unwind.truncate u)\<lparr>uw_attributeIds := m, uw_buildIds := b,
      uw_tracing := td, eb_lastSize := n1, eb_maxSize := n2, eb_targetSize := n3\<rparr>"
  shows "in_step rd later version u' c"
  using assms by (simp add: in_step_def synced_def unwind.defs)

lemma sendAttributes_step:
  assumes "in_step rd later version u c" "name \<noteq> []" "length name < 2 ^ 31 - 9"
    and "length (uw_strings u) < 2 ^ 31 - 1" "length (uw_attributes u) < 2 ^ 31 - 1"
  shows "\<exists>c'. in_step rd later version (sendAttributes (of_nat (length (uw_attributes u))) a name
      (u\<lparr>uw_attributes := uw_attributes u @ [a]\<rparr>)) c' \<and> cl_formats c' = cl_formats c \<and> cl_samples c' = cl_samples c \<and> cl_progress c' = cl_progress c"
proof -
  let ?n = "length (uw_attributes u)"
  obtain i u' where r: "resolveString name u = (i, u')" by fastforce
  from resolveString_step [OF assms(1,3,4) r] assms(2) obtain c' where c':
    "in_step rd later version u' c'" "more_strings c c'" "same_tables u u'" "checkString c' i" by auto
  have r': "resolveString name (u\<lparr>uw_attributes := uw_attributes u @ [a]\<rparr>)
      = (i, u'\<lparr>uw_attributes := uw_attributes u @ [a]\<rparr>)"
    using r by (auto simp: resolveString_def sendString_def sendBuffer_def Let_def split: option.splits if_splits)
  let ?c = "c'\<lparr>cl_attributes := cl_attributes c' @ [attribute_of a i]\<rparr>"
  have sync: "synced u' c'" and same: "uw_attributes u' = uw_attributes u"
    using c' by (simp_all add: in_step_def same_tables_def)
  then have n: "?n = length (cl_attributes c')" by (auto simp: synced_def dest: list_all2_lengthD)
  have check: "checkString ?c = checkString c'" by (auto simp: checkString_def)
  have "synced (u'\<lparr>uw_attributes := uw_attributes u @ [a]\<rparr>) ?c"
    using sync same check c'(4) assms(5) by (auto simp: synced_def intro: list_all2_appendI)
  moreover have "client_message rd later (attributes_message (of_nat ?n) a i) c' = Some ?c"
    using c'(4) n assms(5) by (simp add: client_attributes verify_def sint_of_nat)
  ultimately have "in_step rd later version (sendBuffer (attributes_message (of_nat ?n) a i)
      (u'\<lparr>uw_attributes := uw_attributes u @ [a]\<rparr>)) ?c"
    by (intro in_step_send [OF c'(1)]) (simp_all add: message_lengths)
  then show ?thesis
    using c'(2) by (intro exI [of _ ?c]) (auto simp: sendAttributes_def r' more_strings_def)
qed

lemma set_sizes_tables [simp]:
  "uw_strings (revertTargetEventBufferSize u) = uw_strings u"
  "uw_attributes (revertTargetEventBufferSize u) = uw_attributes u"
  by (simp_all add: revertTargetEventBufferSize_def setTargetEventBufferSize_def setMaxEventBufferSize_def Let_def)

lemma in_step_revert: "in_step rd later version u c \<Longrightarrow> in_step rd later version (revertTargetEventBufferSize u) c"
  by (auto simp: in_step_def synced_def revertTargetEventBufferSize_def setTargetEventBufferSize_def
      setMaxEventBufferSize_def Let_def)

lemma addAttributes_step:
  assumes "in_step rd later version u c" "name \<noteq> []" "length name < 2 ^ 31 - 9"
    and "length (uw_strings u) < 2 ^ 31 - 1" "length (uw_attributes u) < 2 ^ 31 - 1"
  shows "\<exists>c'. in_step rd later version (unwind_addAttributes a name ids u) c'
    \<and> cl_formats c' = cl_formats c \<and> cl_samples c' = cl_samples c \<and> cl_progress c' = cl_progress c"
proof -
  let ?u = "if a_type a = TYPE_TRACEPOINT \<and> eb_targetSize u = 0 then revertTargetEventBufferSize u else u"
  have u: "in_step rd later version ?u c" "uw_strings ?u = uw_strings u" "uw_attributes ?u = uw_attributes u"
    using assms(1) in_step_revert by auto
  from sendAttributes_step [OF u(1) assms(2,3), of a] assms(4,5)
  obtain c' where c': "in_step rd later version (sendAttributes (of_nat (length (uw_attributes ?u))) a name
      (?u\<lparr>uw_attributes := uw_attributes ?u @ [a]\<rparr>)) c'" "cl_formats c' = cl_formats c" "cl_samples c' = cl_samples c" "cl_progress c' = cl_progress c"
    unfolding u(2,3) by auto
  have ids: "in_step rd later version (w\<lparr>uw_attributeIds := m\<rparr>) c'" if "in_step rd later version w c'" for m w
    using that by (simp add: in_step_def synced_def)
  show ?thesis
  proof (cases "filter (\<lambda>i. uw_attributeIds u i = None) (ids @ [0]) = []")
    case True
    show ?thesis unfolding unwind_addAttributes_def Let_def if_P [OF True] using u(1) by blast
  next
    case False
    show ?thesis
      unfolding unwind_addAttributes_def Let_def if_not_P [OF False] using c' ids [OF c'(1)] by blast
  qed
qed

lemma resolve_fields_step:
  assumes "in_step rd later version u c" "\<forall>f \<in> set fs. length (ff_name f) < 2 ^ 31 - 9"
    and "length (uw_strings u) + length fs < 2 ^ 31"
  shows "\<exists>c'. in_step rd later version (resolve_fields fs u) c' \<and> more_strings c c'
    \<and> length (uw_strings (resolve_fields fs u)) \<le> length (uw_strings u) + length fs"
  using assms
proof (induction fs arbitrary: u c)
  case (Cons f fs)
  obtain i u' where r: "resolveString (ff_name f) u = (i, u')" by fastforce
  from resolveString_step [OF Cons.prems(1) _ _ r] Cons.prems(2,3)
  obtain c' where c': "in_step rd later version u' c'" "more_strings c c'" "same_tables u u'" by auto
  then have "length (uw_strings u') \<le> Suc (length (uw_strings u))" by (simp add: same_tables_def)
  with Cons.IH [OF c'(1)] Cons.prems(2,3) obtain c'' where
    "in_step rd later version (resolve_fields fs u') c''" "more_strings c' c''"
    "length (uw_strings (resolve_fields fs u')) \<le> length (uw_strings u') + length fs" by auto
  with c'(2) \<open>length (uw_strings u') \<le> _\<close> show ?case
    by (intro exI [of _ c'']) (auto simp: resolve_fields_def r intro: more_strings_trans)
qed (auto simp: resolve_fields_def intro: more_strings_refl)

definition fits_format :: "'a unwind_scheme \<Rightarrow> event_format \<Rightarrow> bool" where
  "fits_format u f \<longleftrightarrow> ef_system f \<noteq> [] \<and> ef_name f \<noteq> [] \<and> length (ef_system f) < 2 ^ 31 - 9
     \<and> length (ef_name f) < 2 ^ 31 - 9
     \<and> (\<forall>f \<in> set (ef_commonFields f @ ef_fields f). length (ff_name f) < 2 ^ 31 - 9)
     \<and> length (uw_strings u) + 2 + length (ef_commonFields f @ ef_fields f) < 2 ^ 31"

lemma sendEventFormat_step:
  assumes "in_step rd later version u c" "fits_format u f" "cl_formats c i = None"
  shows "\<exists>c'. in_step rd later version (sendEventFormat i f u) c'
    \<and> dom (cl_formats c') = insert i (dom (cl_formats c)) \<and> cl_samples c' = cl_samples c \<and> cl_progress c' = cl_progress c"
proof -
  obtain sys u1 where r1: "resolveString (ef_system f) u = (sys, u1)" by fastforce
  from resolveString_step [OF assms(1) _ _ r1] assms(2) obtain c1 where c1: "in_step rd later version u1 c1"
    "more_strings c c1" "same_tables u u1" "checkString c1 sys" by (auto simp: fits_format_def)
  obtain name u2 where r2: "resolveString (ef_name f) u1 = (name, u2)" by fastforce
  from resolveString_step [OF c1(1) _ _ r2] assms(2) c1(3) obtain c2 where c2: "in_step rd later version u2 c2"
    "more_strings c1 c2" "same_tables u1 u2" "checkString c2 name" by (auto simp: fits_format_def same_tables_def)
  have len: "length (uw_strings u2) \<le> length (uw_strings u) + 2"
    using c1(3) c2(3) by (simp add: same_tables_def)
  let ?u3 = "resolve_fields (ef_fields f) (resolve_fields (ef_commonFields f) u2)"
  from resolve_fields_step [OF c2(1), of "ef_commonFields f @ ef_fields f"] assms(2) len
  obtain c3 where c3: "in_step rd later version ?u3 c3" "more_strings c2 c3"
    by (auto simp: fits_format_def resolve_fields_def)
  let ?c = "c3\<lparr>cl_formats := (cl_formats c3)(i \<mapsto> \<lparr>fe_system = sys, fe_name = name, fe_flags = ef_flags f\<rparr>)\<rparr>"
  have more: "cl_formats c3 = cl_formats c" "cl_samples c3 = cl_samples c" "cl_progress c3 = cl_progress c"
    using c1(2) c2(2) c3(2) by (auto simp: more_strings_def)
  have "checkString c3 sys" "checkString c3 name"
    using c1(4) c2(2,4) c3(2) checkString_more by blast+
  then have "client_message rd later (format_message i sys name (ef_flags f)) c3 = Some ?c"
    using assms(3) more by (simp add: client_format verify_def)
  moreover have "synced ?u3 ?c" using c3(1) by (simp add: in_step_def synced_def checkString_def)
  ultimately have "in_step rd later version (sendBuffer (format_message i sys name (ef_flags f)) ?u3) ?c"
    by (intro in_step_send [OF c3(1)]) (simp_all add: message_lengths)
  then show ?thesis
    using more by (intro exI [of _ ?c]) (simp add: sendEventFormat_def r1 r2 Let_def)
qed

section \<open>Messages that define nothing\<close>

lemma run_skip: "length body \<le> nat n \<Longrightarrow> 0 \<le> n \<Longrightarrow> ds_rest (snd (run_state (skipRawData n) (at body))) = []"
  by (simp add: skipRawData_def client_simps)

lemma client_ignored:
  assumes "t \<in> {6, 7, 12, 15}"
  shows "client_message rd later (put8 t @ body) c = Some c"
proof -
  let ?n = "int (Suc (length body))"
  have e: "client_event rd later t ?n c = do { _ \<leftarrow> skipRawData ?n; State_Monad.return (Some c) }"
    using assms by (auto simp: client_event_def)
  have "ds_rest (snd (run_state (skipRawData ?n) (at body))) = []" by (rule run_skip) simp_all
  then show ?thesis
    by (simp only: One_nat_def client_message_put e Let_def) (simp add: case_prod_unfold)
qed

definition is_task :: "task_event \<Rightarrow> bool" where
  "is_task e \<longleftrightarrow> te_type e \<in> {ThreadStart, ThreadEnd, Command, LostDefinition, ContextSwitchDefinition}"

definition keeps_tables :: "client \<Rightarrow> client \<Rightarrow> bool" where
  "keeps_tables c c' \<longleftrightarrow> cl_strings c' = cl_strings c \<and> cl_attributes c' = cl_attributes c
     \<and> cl_locations c' = cl_locations c \<and> cl_symbols c' = cl_symbols c \<and> cl_formats c' = cl_formats c
     \<and> cl_samples c' = cl_samples c \<and> cl_progress c' = cl_progress c"

lemma client_task:
  assumes "is_task e" "te_type e = Command \<longrightarrow> checkString c (payload_int (te_payload e))"
  shows "\<exists>c'. client_message rd later (task_message e) c = Some c' \<and> keeps_tables c c'"
proof -
  consider "te_type e = ThreadStart" | "te_type e = ThreadEnd" | "te_type e = Command"
    | "te_type e = LostDefinition" | "te_type e = ContextSwitchDefinition"
    using assms(1) by (auto simp: is_task_def)
  then show ?thesis
  proof cases
    case 1
    then show ?thesis
      by (simp add: task_message_def client_message_put client_event_def on_thread_start_def get_thread_def
          client_simps keeps_tables_def)
  next
    case 2
    then show ?thesis
      by (simp add: task_message_def client_message_put client_event_def on_thread_end_def get_thread_def
          client_simps keeps_tables_def)
  next
    case 3
    with assms(2) show ?thesis
      by (simp add: task_message_def client_message_put client_event_def on_command_def get_thread_def
          client_simps verify_def Let_def keeps_tables_def)
  next
    case 4
    then have "client_message rd later (task_message e) c = Some c"
      unfolding task_message_def by (simp only: event_code.simps) (rule client_ignored, simp)
    then show ?thesis by (simp add: keeps_tables_def)
  next
    case 5
    then have "client_message rd later (task_message e) c = Some c"
      unfolding task_message_def by (simp only: event_code.simps) (rule client_ignored, simp)
    then show ?thesis by (simp add: keeps_tables_def)
  qed
qed

lemma length_task_message: "length (task_message e) \<le> 29"
  by (simp add: task_message_def put_bool_def)

end
