(* ===== verification/ClientRefinement.thy ===== *)
theory ClientRefinement
  imports ClientRun
begin

text \<open>
  Runs of \<open>PerfUnwind\<close> as lists of requests, and the refinement: the tables of a client that reads the output
  are the tables of \<open>PerfUnwind\<close>.
\<close>

datatype request =
    ReqString bytes
  | ReqLocation location
  | ReqSymbol s32 symbol
  | ReqAttributes event_attributes bytes "u64 list"
  | ReqFormat s32 event_format
  | ReqTask task_event
  | ReqSample sample_message
  | ReqError error_code "u16 list"
  | ReqFeatures perf_features

primrec exec :: "(trace_value \<Rightarrow> bytes) \<Rightarrow> request \<Rightarrow> 'a unwind_scheme \<Rightarrow> 'a unwind_scheme" where
  "exec wr (ReqString s) u = snd (resolveString s u)"
| "exec wr (ReqLocation l) u = snd (resolveLocation l u)"
| "exec wr (ReqSymbol i s) u = resolveSymbol i s u"
| "exec wr (ReqAttributes a name ids) u = unwind_addAttributes a name ids u"
| "exec wr (ReqFormat i f) u = sendEventFormat i f u"
| "exec wr (ReqTask e) u = sendTaskEvent e u"
| "exec wr (ReqSample m) u = sendBuffer (write_sample_message wr m) u"
| "exec wr (ReqError e msg) u = sendError e msg u"
| "exec wr (ReqFeatures f) u = sendBuffer (features_message f) u"

definition known_attribute :: "'a unwind_scheme \<Rightarrow> s32 \<Rightarrow> bool" where
  "known_attribute u i \<longleftrightarrow> 0 \<le> sint i \<and> sint i < int (length (uw_attributes u))"

text \<open>
  What the callers keep to: numbers are those of definitions already made, a location has a process, names that
  the client looks up are not empty, a format is sent once, and sizes and counts fit a positive \<open>int\<close>.
\<close>

primrec allowed ::
  "trace_value reader \<Rightarrow> (trace_value \<Rightarrow> bytes) \<Rightarrow> s32 set \<Rightarrow> request \<Rightarrow> 'a unwind_scheme \<Rightarrow> bool"
where
  "allowed rd wr sent (ReqString s) u \<longleftrightarrow> length s < 2 ^ 31 - 9 \<and> length (uw_strings u) < 2 ^ 31 - 1"
| "allowed rd wr sent (ReqLocation l) u \<longleftrightarrow> fits_location u l"
| "allowed rd wr sent (ReqSymbol i s) u \<longleftrightarrow> fits_symbol u i s"
| "allowed rd wr sent (ReqAttributes a name ids) u \<longleftrightarrow> name \<noteq> [] \<and> length name < 2 ^ 31 - 9
     \<and> length (uw_strings u) < 2 ^ 31 - 1 \<and> length (uw_attributes u) < 2 ^ 31 - 1"
| "allowed rd wr sent (ReqFormat i f) u \<longleftrightarrow> i \<notin> sent \<and> fits_format u f"
| "allowed rd wr sent (ReqTask e) u \<longleftrightarrow> is_task e
     \<and> (te_type e = Command \<longrightarrow> known_string u (payload_int (te_payload e)))"
| "allowed rd wr sent (ReqSample m) u \<longleftrightarrow> fits_sample rd wr m \<and> length (write_sample_message wr m) < 2 ^ 31
     \<and> list_all (known_location u) (sm_frames m) \<and> list_all (known_attribute u \<circ> fst) (sm_values m)
     \<and> (case sm_trace m of None \<Rightarrow> True | Some vs \<Rightarrow> list_all (known_string u \<circ> fst) vs)"
| "allowed rd wr sent (ReqError e msg) u \<longleftrightarrow> length msg < 2 ^ 30 - 5"
| "allowed rd wr sent (ReqFeatures f) u \<longleftrightarrow> length (features_message f) < 2 ^ 31"

definition formats_sent :: "request \<Rightarrow> s32 set" where
  "formats_sent r = (case r of ReqFormat i _ \<Rightarrow> {i} | _ \<Rightarrow> {})"

definition samples_sent :: "request \<Rightarrow> sample_message list" where
  "samples_sent r = (case r of ReqSample m \<Rightarrow> [m] | _ \<Rightarrow> [])"

primrec allowed_run ::
  "trace_value reader \<Rightarrow> (trace_value \<Rightarrow> bytes) \<Rightarrow> s32 set \<Rightarrow> request list \<Rightarrow> 'a unwind_scheme \<Rightarrow> bool"
where
  "allowed_run rd wr sent [] u \<longleftrightarrow> True"
| "allowed_run rd wr sent (r # rs) u \<longleftrightarrow> allowed rd wr sent r u
     \<and> allowed_run rd wr (formats_sent r \<union> sent) rs (exec wr r u)"

lemma send_only_step:
  assumes "in_step rd later version u c" "length m < 2 ^ 31" "client_message rd later m c = Some c'" "synced u c'"
  shows "in_step rd later version (sendBuffer m u) c'"
  using in_step_send [OF assms(1-3) refl refl assms(4)] .

lemma sendError_step:
  assumes "in_step rd later version u c" "length msg < 2 ^ 30 - 5"
  shows "in_step rd later version (sendError e msg u) c"
proof -
  have "length (error_message e msg) < 2 ^ 31"
    using assms(2) by (simp add: error_message_def put_string_def sum_list_triv length_concat comp_def)
  then show ?thesis
    using assms unfolding sendError_def
    by (intro send_only_step [OF assms(1)]) (simp_all add: client_error in_step_def)
qed

lemma known_attribute_check:
  assumes "synced u c" "known_attribute u i"
  shows "checkAttribute c i"
proof -
  have all: "list_all2 (\<lambda>a e. \<exists>n. e = attribute_of a n \<and> checkString c n) (uw_attributes u) (cl_attributes c)"
    using assms(1) by (simp add: synced_def)
  have len: "length (cl_attributes c) = length (uw_attributes u)" using list_all2_lengthD [OF all] by simp
  have i: "0 \<le> sint i" "nat (sint i) < length (uw_attributes u)"
    using assms(2) by (auto simp: known_attribute_def)
  from list_all2_nthD [OF all i(2)] i len show ?thesis
    by (auto simp: checkAttribute_def attribute_of_def)
qed

text \<open>One request: the client accepts what is sent, and both sides agree again.\<close>

lemma exec_step:
  assumes "in_step rd later version u c" "dom (cl_formats c) = sent" "allowed rd wr sent r u"
  shows "\<exists>c'. in_step rd later version (exec wr r u) c' \<and> dom (cl_formats c') = formats_sent r \<union> sent
    \<and> cl_samples c' = cl_samples c @ samples_sent r \<and> cl_progress c' = cl_progress c"
proof -
  have sync: "synced u c" using assms(1) by (simp add: in_step_def)
  show ?thesis
  proof (cases r)
    case (ReqString s)
    obtain i u' where r: "resolveString s u = (i, u')" by fastforce
    from resolveString_step [OF assms(1) _ _ r] assms(2,3) ReqString r show ?thesis
      by (auto simp: formats_sent_def samples_sent_def more_strings_def)
  next
    case (ReqLocation l)
    obtain i u' where r: "resolveLocation l u = (i, u')" by fastforce
    from resolveLocation_step [OF assms(1) _ r] assms(2,3) ReqLocation r show ?thesis
      by (auto simp: formats_sent_def samples_sent_def)
  next
    case (ReqSymbol i s)
    with resolveSymbol_step [OF assms(1), of i s] assms(2,3) show ?thesis
      by (auto simp: formats_sent_def samples_sent_def)
  next
    case (ReqAttributes a name ids)
    with addAttributes_step [OF assms(1), of name a ids] assms(2,3) show ?thesis
      by (auto simp: formats_sent_def samples_sent_def)
  next
    case (ReqFormat i f)
    then have "fits_format u f" "cl_formats c i = None" using assms(2,3) by auto
    from sendEventFormat_step [OF assms(1) this] assms(2) ReqFormat show ?thesis
      by (auto simp: formats_sent_def samples_sent_def)
  next
    case (ReqTask e)
    then have "is_task e" "te_type e = Command \<longrightarrow> checkString c (payload_int (te_payload e))"
      using assms(3) known_string_check [OF sync] by auto
    from client_task [OF this] obtain c' where c': "client_message rd later (task_message e) c = Some c'"
      "keeps_tables c c'" by blast
    have "synced u c'" using c'(2) sync by (simp add: synced_def keeps_tables_def checkString_def)
    moreover have "length (task_message e) < 2 ^ 31" using length_task_message [of e] by simp
    ultimately have "in_step rd later version (sendBuffer (task_message e) u) c'"
      using c'(1) by (intro send_only_step [OF assms(1)])
    with c'(2) assms(2) ReqTask show ?thesis
      by (auto simp: formats_sent_def samples_sent_def sendTaskEvent_def keeps_tables_def)
  next
    case (ReqSample m)
    let ?c = "c\<lparr>cl_samples := cl_samples c @ [m]\<rparr>"
    have "list_all (checkLocation c) (sm_frames m) \<and> list_all (checkAttribute c \<circ> fst) (sm_values m)
        \<and> (case sm_trace m of None \<Rightarrow> True | Some vs \<Rightarrow> list_all (checkString c \<circ> fst) vs)"
      using assms(3) ReqSample known_location_check [OF sync] known_attribute_check [OF sync] known_string_check [OF sync]
      by (auto simp: list_all_iff split: option.splits)
    then have "client_message rd later (write_sample_message wr m) c = Some ?c"
      using assms(3) ReqSample by (simp add: client_sample verify_def)
    moreover have "synced u ?c" using sync by (simp add: synced_def checkString_def)
    ultimately have "in_step rd later version (sendBuffer (write_sample_message wr m) u) ?c"
      using assms(3) ReqSample by (intro send_only_step [OF assms(1)]) simp_all
    with assms(2) ReqSample show ?thesis
      by (intro exI [of _ ?c]) (simp add: formats_sent_def samples_sent_def)
  next
    case (ReqError e msg)
    then have "in_step rd later version (sendError e msg u) c"
      using assms(3) by (intro sendError_step [OF assms(1)]) simp
    with assms(2) ReqError show ?thesis
      by (auto simp: formats_sent_def samples_sent_def)
  next
    case (ReqFeatures f)
    have "client_message rd later (features_message f) c = Some c"
      unfolding features_message_def by (simp only: event_code.simps) (rule client_ignored, simp)
    then have "in_step rd later version (sendBuffer (features_message f) u) c"
      using sync assms(3) ReqFeatures by (intro send_only_step [OF assms(1)]) simp_all
    with assms(2) ReqFeatures show ?thesis
      by (auto simp: formats_sent_def samples_sent_def)
  qed
qed

lemma exec_run:
  assumes "in_step rd later version u c" "dom (cl_formats c) = sent" "allowed_run rd wr sent rs u"
  shows "\<exists>c'. in_step rd later version (fold (exec wr) rs u) c'
    \<and> dom (cl_formats c') = \<Union> (set (map formats_sent rs)) \<union> sent
    \<and> cl_samples c' = cl_samples c @ concat (map samples_sent rs) \<and> cl_progress c' = cl_progress c"
  using assms
proof (induction rs arbitrary: u c sent)
  case (Cons r rs)
  have "allowed rd wr sent r u" using Cons.prems(3) by simp
  from exec_step [OF Cons.prems(1,2) this] obtain c' where c':
    "in_step rd later version (exec wr r u) c'" "dom (cl_formats c') = formats_sent r \<union> sent"
    "cl_samples c' = cl_samples c @ samples_sent r" "cl_progress c' = cl_progress c" by blast
  from Cons.IH [OF c'(1,2)] Cons.prems(3) obtain c'' where c'':
    "in_step rd later version (fold (exec wr) rs (exec wr r u)) c''"
    "dom (cl_formats c'') = \<Union> (set (map formats_sent rs)) \<union> (formats_sent r \<union> sent)"
    "cl_samples c'' = cl_samples c' @ concat (map samples_sent rs)" "cl_progress c'' = cl_progress c'" by auto
  then show ?case using c'(3,4) by (intro exI [of _ c'']) auto
qed auto

lemma find_location_in:
  assumes "find_location l u = Some i"
  shows "\<exists>k. (k, i) \<in> set (uw_locations u) \<and> location_eq k l"
proof -
  obtain p where p: "find (\<lambda>(k, _). location_eq k l) (uw_locations u) = Some p" "snd p = i"
    using assms by (auto simp: find_location_def)
  from p(1) have "p \<in> set (uw_locations u)" "case p of (k, _) \<Rightarrow> location_eq k l"
    by (auto simp: find_Some_iff) (metis nth_mem)
  with p(2) show ?thesis by (cases p) auto
qed


lemmas example_simps = newUnwind_def newEventBuffer_def newStats_def event_buffer.defs newLocation_def
  newSymbol_def resolveString_def sendString_def sendBuffer_def resolveLocation_def find_location_def
  sendLocation_def resolveSymbol_def sendSymbol_def unwind_addAttributes_def sendAttributes_def
  sendTaskEvent_def noAttributes_def TYPE_TRACEPOINT_def ascii_def Let_def

text \<open>A run with a definition of every kind, and Qt's operators for one integer.\<close>

definition example_put :: "trace_value \<Rightarrow> bytes" where
  "example_put v = put32 7"

definition example_get :: "trace_value reader" where
  "example_get = do { i \<leftarrow> read_u32; State_Monad.return (TraceItem (Some (QInt i))) }"

definition example_run :: "request list" where
  "example_run = [ReqString (ascii ''main''), ReqLocation ((newLocation 0x400)\<lparr>lc_file := 0, lc_pid := 1\<rparr>),
     ReqSymbol 0 (newSymbol\<lparr>sy_name := 0\<rparr>), ReqAttributes noAttributes (ascii ''cycles'') [5],
     ReqTask \<lparr>te_pid = 1, te_tid = 1, te_time = 3, te_cpu = 0, te_type = Command, te_payload = IntPayload 0\<rparr>,
     ReqString (ascii ''main''),
     ReqSample \<lparr>sm_trace = Some [(0, TraceItem (Some (QInt 7)))], sm_pid = 1, sm_tid = 1, sm_time = 4,
       sm_cpu = 0, sm_frames = [0], sm_guessed = 0, sm_values = [(0, 100)]\<rparr>]"


end
