(* ===== verification/PerfData.thy ===== *)
theory PerfData
  imports Unwind
begin

text \<open>
  \<open>PerfData\<close> of \<open>app/perfdata.h\<close>, \<open>app/perfdata.cpp\<close>: the loop over the events of a recording. The events make
  calls to \<open>PerfUnwind\<close>, which the reader never asks anything back, so the calls are the result, in order. A
  stream on a device reads from what the device has now. libzstd is a parameter; a loop that asks it again and
  again may not end (\<open>None\<close>). Compressed records may hold compressed records: \<open>depth\<close> bounds the nesting, and
  a record beyond it gives \<open>None\<close>; recordings do not nest them at all.
\<close>

section \<open>Kinds of events\<close>

definition PERF_RECORD_MMAP :: u32 where "PERF_RECORD_MMAP = 1"
definition PERF_RECORD_LOST :: u32 where "PERF_RECORD_LOST = 2"
definition PERF_RECORD_COMM :: u32 where "PERF_RECORD_COMM = 3"
definition PERF_RECORD_EXIT :: u32 where "PERF_RECORD_EXIT = 4"
definition PERF_RECORD_FORK :: u32 where "PERF_RECORD_FORK = 7"
definition PERF_RECORD_SAMPLE :: u32 where "PERF_RECORD_SAMPLE = 9"
definition PERF_RECORD_MMAP2 :: u32 where "PERF_RECORD_MMAP2 = 10"
definition PERF_RECORD_SWITCH :: u32 where "PERF_RECORD_SWITCH = 14"
definition PERF_RECORD_SWITCH_CPU_WIDE :: u32 where "PERF_RECORD_SWITCH_CPU_WIDE = 15"
definition PERF_RECORD_HEADER_ATTR :: u32 where "PERF_RECORD_HEADER_ATTR = 64"
definition PERF_RECORD_HEADER_TRACING_DATA :: u32 where "PERF_RECORD_HEADER_TRACING_DATA = 66"
definition PERF_RECORD_FINISHED_ROUND :: u32 where "PERF_RECORD_FINISHED_ROUND = 68"
definition PERF_RECORD_COMPRESSED :: u32 where "PERF_RECORD_COMPRESSED = 81"

lemmas record_types = PERF_RECORD_MMAP_def PERF_RECORD_LOST_def PERF_RECORD_COMM_def PERF_RECORD_EXIT_def
  PERF_RECORD_FORK_def PERF_RECORD_SAMPLE_def PERF_RECORD_MMAP2_def PERF_RECORD_SWITCH_def
  PERF_RECORD_SWITCH_CPU_WIDE_def PERF_RECORD_HEADER_ATTR_def PERF_RECORD_HEADER_TRACING_DATA_def
  PERF_RECORD_FINISHED_ROUND_def PERF_RECORD_COMPRESSED_def

text \<open>The names of the events in warnings.\<close>

definition event_names :: "(u32 \<times> string) list" where
  "event_names =
    [(1, ''PERF_RECORD_MMAP''), (2, ''PERF_RECORD_LOST''), (3, ''PERF_RECORD_COMM''),
     (4, ''PERF_RECORD_EXIT''), (5, ''PERF_RECORD_THROTTLE''),
     (6, ''PERF_RECORD_UNTHROTTLE''), (7, ''PERF_RECORD_FORK''), (8, ''PERF_RECORD_READ''),
     (9, ''PERF_RECORD_SAMPLE''), (10, ''PERF_RECORD_MMAP2''), (14, ''PERF_RECORD_SWITCH''),
     (15, ''PERF_RECORD_SWITCH_CPU_WIDE''), (16, ''PERF_RECORD_NAMESPACES''),
     (17, ''PERF_RECORD_KSYMBOL''), (18, ''PERF_RECORD_BPF_EVENT''),
     (19, ''PERF_RECORD_CGROUP''), (64, ''PERF_RECORD_HEADER_ATTR''),
     (65, ''PERF_RECORD_HEADER_EVENT_TYPE''), (66, ''PERF_RECORD_HEADER_TRACING_DATA''),
     (67, ''PERF_RECORD_HEADER_BUILD_ID''), (68, ''PERF_RECORD_FINISHED_ROUND''),
     (69, ''PERF_RECORD_ID_INDEX''), (70, ''PERF_RECORD_AUXTRACE_INFO''),
     (71, ''PERF_RECORD_AUXTRACE''), (72, ''PERF_RECORD_AUXTRACE_ERROR''),
     (73, ''PERF_RECORD_THREAD_MAP''), (74, ''PERF_RECORD_CPU_MAP''),
     (75, ''PERF_RECORD_STAT_CONFIG''), (76, ''PERF_RECORD_STAT''),
     (77, ''PERF_RECORD_STAT_ROUND''), (78, ''PERF_RECORD_EVENT_UPDATE''),
     (79, ''PERF_RECORD_TIME_CONV''), (80, ''PERF_RECORD_HEADER_FEATURE''),
     (81, ''PERF_RECORD_COMPRESSED'')]"

definition perfEventToString :: "u32 \<Rightarrow> string" where
  "perfEventToString t = (case map_of event_names t of Some name \<Rightarrow> name | None \<Rightarrow> ''unknown type'')"

datatype read_status = Rerun | SignalError | SignalFinished

text \<open>The calls to \<open>PerfUnwind\<close>.\<close>

datatype call =
    CallRegisterElf mmap_record
  | CallLost lost_record
  | CallComm comm_record
  | CallSample sample_record
  | CallAttr attr_record
  | CallFork fork_record
  | CallExit fork_record
  | CallTracing tracing_data
  | CallFinishedRound
  | CallContextSwitch perf_record
  | CallProgress u64

section \<open>The reader's state\<close>

record 'z perf_data =
  pd_attributes :: perf_attributes
  pd_eventHeader :: event_header
  pd_tracing :: tracing_data
  pd_compressed :: compressed_info
  pd_decompressBuffer :: bytes
  pd_compressedBuffer :: bytes
  pd_remaining :: int
  pd_zstd :: "'z option"

text \<open>
  What the reader is given: the header of the recording, conversions of numbers, the contents of uninitialised
  locals and members, the percentage sent for a position, and libzstd: whether it is there, a new stream, and a
  call of \<open>ZSTD_decompressStream\<close> with the input and the position in it and the position and size of the output
  buffer, which gives the bytes it writes, the new position in the input and the stream, or an error.
\<close>

record 'z perf_env =
  pe_header :: perf_header
  pe_conv :: conversions
  pe_junk :: "nat \<Rightarrow> u8"
  pe_sample :: "u64 \<times> u64"
  pe_format :: read_value
  pe_flags :: bytes
  pe_percent :: "s64 \<Rightarrow> s64 \<Rightarrow> u64"
  pe_haveZstd :: bool
  pe_createZstd :: 'z
  pe_decompress :: "'z \<Rightarrow> bytes \<Rightarrow> nat \<Rightarrow> nat \<Rightarrow> nat \<Rightarrow> (bytes \<times> nat \<times> 'z) option"

definition newPerfData :: "perf_attributes \<Rightarrow> 'z perf_data" where
  "newPerfData attributes = \<lparr>pd_attributes = attributes, pd_eventHeader = noEventHeader, pd_tracing = noTracing,
     pd_compressed = \<lparr>cp_version = 0, cp_type = 0, cp_level = 0, cp_ratio = 0, cp_mmap_len = 0\<rparr>,
     pd_decompressBuffer = [], pd_compressedBuffer = [], pd_remaining = 0, pd_zstd = None\<rparr>"

definition PERF_COMP_ZSTD :: u32 where "PERF_COMP_ZSTD = 1"

definition setCompressed :: "'z perf_env \<Rightarrow> compressed_info \<Rightarrow> 'z perf_data \<Rightarrow> bool \<times> 'z perf_data" where
  "setCompressed env c d =
     (if cp_version c \<noteq> 0 then (False, d)
      else if cp_type c \<noteq> PERF_COMP_ZSTD then (False, d)
      else if \<not> pe_haveZstd env then (False, d)
      else if cp_mmap_len c = 0 then (False, d)
      else (True, d\<lparr>pd_compressed := c\<rparr>))"

section \<open>Decompression\<close>

definition write_at :: "nat \<Rightarrow> bytes \<Rightarrow> bytes \<Rightarrow> bytes" where
  "write_at i bs buf = take i buf @ bs @ drop (i + length bs) buf"

text \<open>
  The loop over \<open>ZSTD_decompressStream\<close>: \<open>start\<close> and \<open>space\<close> are \<open>outBuffer\<close> and \<open>outBufferSize\<close>; \<open>dst\<close>,
  \<open>pos\<close> and \<open>room\<close> the members of \<open>out\<close>. The result is the last \<open>out.pos\<close>, the buffer and the stream, or an
  error.
\<close>

partial_function (option) zstd_loop ::
  "('z \<Rightarrow> bytes \<Rightarrow> nat \<Rightarrow> nat \<Rightarrow> nat \<Rightarrow> (bytes \<times> nat \<times> 'z) option) \<Rightarrow> nat \<Rightarrow> nat \<Rightarrow> bytes
    \<Rightarrow> nat \<Rightarrow> nat \<Rightarrow> nat \<Rightarrow> nat \<Rightarrow> bytes \<Rightarrow> 'z \<Rightarrow> (nat \<times> bytes \<times> 'z) option option"
where
  "zstd_loop step start space input inPos dst pos room buf z =
     (if inPos < length input then
        (case step z input inPos pos room of
           None \<Rightarrow> Some None
         | Some (out, inPos', z') \<Rightarrow>
             zstd_loop step start space input inPos' (start + (pos + length out)) (pos + length out)
               (space - (pos + length out)) (write_at (dst + pos) out buf) z')
      else Some (Some (pos, buf, z)))"

text \<open>The record's content is decompressed behind what is left of the last one.\<close>

definition decompress_record ::
  "'z perf_env \<Rightarrow> bytes \<Rightarrow> 'z \<Rightarrow> 'z perf_data \<Rightarrow> 'z perf_data option option"
where
  "decompress_record env input z d =
     (let start = nat (pd_remaining d);
          n = nat (sint (cp_mmap_len (pd_compressed d) + word_of_int (pd_remaining d)));
          buf = resize_bytes (pe_junk env) n (pd_decompressBuffer d);
          space = length buf - start in
      map_option (map_option (\<lambda>(pos, buf, z).
          d\<lparr>pd_decompressBuffer := resize_bytes (pe_junk env) (pos + start) buf, pd_remaining := 0,
            pd_zstd := Some z\<rparr>))
        (zstd_loop (pe_decompress env) start space input 0 start 0 space buf z))"

section \<open>Events\<close>

text \<open>What an event ends with: its status, the calls it made and the reader's new state.\<close>

type_synonym 'z event_result = "(read_status \<times> call list \<times> 'z perf_data) option"

definition contentSize :: "'z perf_data \<Rightarrow> u16" where
  "contentSize d = eh_size (pd_eventHeader d) - eventHeader_fixedLength"

definition finished :: "call list \<Rightarrow> 'z perf_data \<Rightarrow> 'z event_result reader" where
  "finished cs d = State_Monad.return (Some (SignalFinished, cs, d))"

text \<open>A sample's own attributes are found by the id within its content.\<close>

definition process_sample_event :: "'z perf_env \<Rightarrow> 'z perf_data \<Rightarrow> 'z event_result reader" where
  "process_sample_event env d =
     (let h = pd_eventHeader d; attrs = pa_global (pd_attributes d); idOffset = sampleIdOffset attrs;
          rd = read_sample (pe_format env) (pe_flags env) in
      if sampleIdAll attrs \<and> idOffset \<ge> 0 then do {
        s \<leftarrow> State_Monad.get;
        buffer \<leftarrow> read_bytes (unat (contentSize d)) [];
        let sid = fst (run_state read_u64 (stream_at (ds_junk s) (ds_order s)
               (if idOffset \<le> int (length buffer) then drop (nat idOffset) buffer else buffer)));
        let sample = fst (run_state
               (rd (newSample (pe_sample env) h (attributes_of sid (pd_attributes d))))
               (stream_at (ds_junk s) (ds_order s) buffer));
        finished [CallSample sample] d
      } else do {
        sample \<leftarrow> rd (newSample (pe_sample env) h attrs);
        finished [CallSample sample] d
      })"

definition process_attr :: "attr_record \<Rightarrow> 'z perf_data \<Rightarrow> 'z perf_data" where
  "process_attr r d =
     (let p = pd_attributes d;
          p = (if a_size (pa_global p) = 0 then setGlobalAttributes (ar_attr r) p else p) in
      d\<lparr>pd_attributes := fold (\<lambda>i. Attributes.addAttributes i (ar_attr r)) (ar_ids r) p\<rparr>)"

definition available :: "nat reader" where
  "available = do { s \<leftarrow> State_Monad.get; State_Monad.return (length (ds_rest s)) }"

definition process_tracing :: "'z perf_env \<Rightarrow> 'z perf_data \<Rightarrow> 'z event_result reader" where
  "process_tracing env d =
     (if contentSize d = 4 then do {
        d \<leftarrow> (if td_size (pd_tracing d) = 0 then do {
               n \<leftarrow> read_u32;
               State_Monad.return (d\<lparr>pd_tracing := (pd_tracing d)\<lparr>td_size := n\<rparr>\<rparr>)
             } else State_Monad.return d);
        n \<leftarrow> available;
        if n \<ge> unat (td_size (pd_tracing d)) then do {
          td \<leftarrow> read_tracing (pe_conv env) (pd_tracing d);
          finished [CallTracing td] (d\<lparr>pd_tracing := noTracing\<rparr>)
        } else State_Monad.return (Some (Rerun, [], d))
      } else do {
        _ \<leftarrow> skipRawData (uint (contentSize d));
        finished [] d
      })"

text \<open>
  The events in a decompressed buffer of \<open>size0\<close> bytes, until one is not complete: \<open>process\<close> processes one of
  them. What is left is moved to the front of the buffer.
\<close>

primrec inner_events ::
  "nat \<Rightarrow> ('z perf_data \<Rightarrow> 'z event_result reader) \<Rightarrow> nat \<Rightarrow> 'z perf_data \<Rightarrow> data_stream \<Rightarrow> 'z event_result"
where
  "inner_events 0 process size0 d s = None"
| "inner_events (Suc n) process size0 d s =
     (let (r, s') = run_state (process d) s; oldPos = size0 - length (ds_rest s) in
      Option.bind r (\<lambda>(status, cs, d').
        case status of
          SignalFinished \<Rightarrow>
            map_option (\<lambda>(status, cs', d'). (status, cs @ cs', d')) (inner_events n process size0 d' s')
        | SignalError \<Rightarrow> Some (SignalError, cs, d')
        | Rerun \<Rightarrow>
            Some (Rerun, cs, d'\<lparr>pd_remaining := int (length (pd_decompressBuffer d')) - int oldPos,
              pd_decompressBuffer := write_at 0 (drop oldPos (pd_decompressBuffer d')) (pd_decompressBuffer d')\<rparr>)))"

text \<open>Every event takes at least its header, so a buffer has fewer events than bytes.\<close>

definition process_compressed ::
  "'z perf_env \<Rightarrow> ('z perf_data \<Rightarrow> 'z event_result reader) \<Rightarrow> 'z perf_data \<Rightarrow> 'z event_result reader"
where
  "process_compressed env process d =
     (if pd_zstd d = None \<and> \<not> hasFeature COMPRESSED (pe_header env)
      then State_Monad.return (Some (SignalError, [], d))
      else do {
        let z = (case pd_zstd d of None \<Rightarrow> pe_createZstd env | Some z \<Rightarrow> z);
        let d = d\<lparr>pd_zstd := Some z, pd_compressedBuffer := (case pd_zstd d of
              None \<Rightarrow> resize_bytes (pe_junk env) 65535 (pd_compressedBuffer d)
            | Some _ \<Rightarrow> pd_compressedBuffer d)\<rparr>;
        buffer \<leftarrow> readRawData (unat (contentSize d)) (pd_compressedBuffer d);
        let d = d\<lparr>pd_compressedBuffer := buffer\<rparr>;
        State_Monad.return
          (Option.bind (decompress_record env (take (unat (contentSize d)) buffer) z d) (\<lambda>r.
             case r of
               None \<Rightarrow> Some (SignalError, [], d)
             | Some d \<Rightarrow>
                 map_option (\<lambda>(status, cs, d). (if status = SignalError then SignalError else SignalFinished, cs, d))
                   (inner_events (Suc (length (pd_decompressBuffer d))) process (length (pd_decompressBuffer d))
                     (d\<lparr>pd_eventHeader := (pd_eventHeader d)\<lparr>eh_size := 0\<rparr>\<rparr>)
                     (stream_at (pe_junk env) (byteOrder (pe_header env)) (pd_decompressBuffer d)))))
      })"

definition skip_content :: "'z perf_data \<Rightarrow> 'z event_result reader" where
  "skip_content d = do { _ \<leftarrow> skipRawData (uint (contentSize d)); finished [] d }"

text \<open>The content of an event, by the type in its header.\<close>

definition process_content ::
  "'z perf_env \<Rightarrow> ('z perf_data \<Rightarrow> 'z event_result reader) \<Rightarrow> 'z perf_data \<Rightarrow> 'z event_result reader"
where
  "process_content env process d =
     (let h = pd_eventHeader d; t = eh_type h; attrs = pa_global (pd_attributes d);
          idAll = sampleIdAll attrs; st = a_sampleType attrs in
      if t = PERF_RECORD_MMAP then do {
        r \<leftarrow> read_mmap (newMmap h st idAll); finished [CallRegisterElf r] d }
      else if t = PERF_RECORD_LOST then do {
        r \<leftarrow> read_lost (newLost h st idAll); finished [CallLost r] d }
      else if t = PERF_RECORD_COMM then do {
        r \<leftarrow> read_comm (newComm h st idAll); finished [CallComm r] d }
      else if t = PERF_RECORD_SAMPLE then process_sample_event env d
      else if t = PERF_RECORD_MMAP2 then do {
        r \<leftarrow> read_mmap2 (newMmap2 h st idAll); finished [CallRegisterElf (mmap_record.truncate r)] d }
      else if t = PERF_RECORD_HEADER_ATTR then do {
        r \<leftarrow> read_attr (newAttr h st idAll); finished [CallAttr r] (process_attr r d) }
      else if t = PERF_RECORD_FORK then do {
        r \<leftarrow> read_fork (newFork h st idAll); finished [CallFork r] d }
      else if t = PERF_RECORD_EXIT then do {
        r \<leftarrow> read_fork (newFork h st idAll); finished [CallExit r] d }
      else if t = PERF_RECORD_HEADER_TRACING_DATA then process_tracing env d
      else if t = PERF_RECORD_FINISHED_ROUND then do {
        _ \<leftarrow> read_if (contentSize d \<noteq> 0) (skipRawData (uint (contentSize d))) ();
        finished [CallFinishedRound] d }
      else if t = PERF_RECORD_SWITCH then do {
        r \<leftarrow> read_context_switch (newContextSwitch h st idAll); finished [CallContextSwitch r] d }
      else if t = PERF_RECORD_SWITCH_CPU_WIDE then do {
        r \<leftarrow> read_switch_cpu_wide (newSwitchCpuWide h st idAll);
        finished [CallContextSwitch (perf_record.truncate r)] d }
      else if t = PERF_RECORD_COMPRESSED \<and> pe_haveZstd env then process_compressed env process d
      else skip_content d)"

text \<open>
  On a device with random access the rest of the content is skipped; \<open>expected\<close> counts the tracing data read
  with its size. A negative rest only makes the skip fail.
\<close>

definition expected_size :: "'z perf_data \<Rightarrow> data_stream \<Rightarrow> int" where
  "expected_size d s = uint (contentSize d) +
     (if eh_type (pd_eventHeader d) = PERF_RECORD_HEADER_TRACING_DATA \<and> contentSize d = 4
        \<and> td_size (pd_tracing d) = 0 then uint (fst (run_state read_u32 s)) else 0)"

definition skip_rest :: "bool \<Rightarrow> 'z perf_data \<Rightarrow> data_stream \<Rightarrow> data_stream \<Rightarrow> data_stream" where
  "skip_rest sequential d s s' =
     (let parsed = int (length (ds_rest s)) - int (length (ds_rest s')) in
      if \<not> sequential \<and> parsed \<noteq> expected_size d s
      then snd (run_state (skipRawData (uint (contentSize d) - parsed)) s') else s')"

definition end_event :: "'z perf_data \<Rightarrow> 'z perf_data" where
  "end_event d = d\<lparr>pd_eventHeader := (pd_eventHeader d)\<lparr>eh_size := 0\<rparr>\<rparr>"

definition process_body ::
  "'z perf_env \<Rightarrow> ('z perf_data \<Rightarrow> 'z event_result reader) \<Rightarrow> bool \<Rightarrow> 'z perf_data \<Rightarrow> 'z event_result reader"
where
  "process_body env process sequential d = State (\<lambda>s.
     if length (ds_rest s) < unat (contentSize d) then (Some (Rerun, [], d), s)
     else
       let (r, s') = run_state (process_content env process d) s in
       case r of
         Some (SignalFinished, cs, d') \<Rightarrow>
           (Some (SignalFinished, cs, end_event d'), skip_rest sequential d s s')
       | _ \<Rightarrow> (r, s'))"

text \<open>The header is read unless an earlier call has read it.\<close>

definition process_header :: "'z perf_data \<Rightarrow> (read_status \<times> 'z perf_data) reader" where
  "process_header d = State (\<lambda>s.
     if eh_size (pd_eventHeader d) \<noteq> 0 then ((SignalFinished, d), s)
     else if length (ds_rest s) < unat eventHeader_fixedLength then ((Rerun, d), s)
     else
       let (h, s') = run_state read_event_header s; d' = d\<lparr>pd_eventHeader := h\<rparr> in
       ((if eh_size h < eventHeader_fixedLength then SignalError else SignalFinished, d'), s'))"

primrec processEvents ::
  "nat \<Rightarrow> 'z perf_env \<Rightarrow> bool \<Rightarrow> 'z perf_data \<Rightarrow> 'z event_result reader"
where
  "processEvents 0 env sequential d = State_Monad.return None"
| "processEvents (Suc depth) env sequential d = do {
     (status, d) \<leftarrow> process_header d;
     if status = SignalFinished then process_body env (processEvents depth env False) sequential d
     else State_Monad.return (Some (status, [], d))
   }"

section \<open>The whole recording\<close>

definition calls_before ::
  "call list \<Rightarrow> read_status \<times> call list \<times> 'd \<Rightarrow> read_status \<times> call list \<times> 'd"
where
  "calls_before cs r = (case r of (status, cs', d) \<Rightarrow> (status, cs @ cs', d))"

text \<open>The loops end where an event takes nothing; they are run until then.\<close>

partial_function (option) pipe_loop ::
  "nat \<Rightarrow> 'z perf_env \<Rightarrow> bool \<Rightarrow> 'z perf_data \<Rightarrow> data_stream \<Rightarrow> (read_status \<times> call list \<times> 'z perf_data \<times> data_stream) option"
where
  "pipe_loop depth env sequential d s =
     (if ds_rest s = [] then Some (SignalFinished, [], d, s)
      else
        (case run_state (processEvents depth env sequential d) s of
           (None, s') \<Rightarrow> None
         | (Some (status, cs, d'), s') \<Rightarrow>
             if status = SignalFinished then
               Option.bind (pipe_loop depth env sequential d' s') (\<lambda>r. Some (calls_before cs r))
             else Some (status, cs, d', s')))"

text \<open>A pipe that is closed must not leave half an event.\<close>

definition pipe_status :: "bool \<Rightarrow> bool \<Rightarrow> read_status \<Rightarrow> 'z perf_data \<Rightarrow> read_status" where
  "pipe_status sequential isOpen status d =
     (if sequential then
        if status = SignalError then SignalError
        else if isOpen then Rerun
        else if eh_size (pd_eventHeader d) \<noteq> 0 then SignalError else SignalFinished
      else if status = SignalFinished then SignalFinished else SignalError)"

text \<open>C++ division truncates; progress is counted from the position the data section starts at.\<close>

definition progress_step :: "s64 \<Rightarrow> int" where
  "progress_step n = sgn (sint n) * (\<bar>sint n\<bar> div 100)"

definition position :: "nat \<Rightarrow> data_stream \<Rightarrow> int" where
  "position size0 s = int size0 - int (length (ds_rest s))"

definition send_progress :: "'z perf_env \<Rightarrow> int \<Rightarrow> call list" where
  "send_progress env pos = [CallProgress (pe_percent env
     (word_of_int pos - dataOffset (pe_header env)) (dataSize (pe_header env)))]"

partial_function (option) file_loop ::
  "nat \<Rightarrow> 'z perf_env \<Rightarrow> nat \<Rightarrow> int \<Rightarrow> 'z perf_data \<Rightarrow> data_stream
    \<Rightarrow> (read_status \<times> call list \<times> 'z perf_data \<times> data_stream) option"
where
  "file_loop depth env size0 nextProgressAt d s =
     (if position size0 s < sint (dataOffset (pe_header env) + dataSize (pe_header env)) then
        (case run_state (processEvents depth env False d) s of
           (None, s') \<Rightarrow> None
         | (Some (status, cs, d'), s') \<Rightarrow>
             if status = SignalFinished then
               let report = position size0 s' \<ge> nextProgressAt in
               Option.bind
                 (file_loop depth env size0
                   (if report then nextProgressAt + progress_step (dataSize (pe_header env)) else nextProgressAt) d' s')
                 (\<lambda>r. Some (calls_before (cs @ (if report then send_progress env (position size0 s') else [])) r))
             else Some (SignalError, cs, d', s'))
      else Some (SignalFinished, [], d, s))"

text \<open>
  \<open>doRead\<close> on a device that has \<open>bytes\<close>, of which a file of random access has all from its start; \<open>seek\<close> tells
  whether it can go to the data. The stream it leaves is where the next call starts.
\<close>

definition doRead ::
  "nat \<Rightarrow> 'z perf_env \<Rightarrow> bool \<Rightarrow> bool \<Rightarrow> (s64 \<Rightarrow> bool) \<Rightarrow> 'z perf_data \<Rightarrow> bytes
    \<Rightarrow> (read_status \<times> call list \<times> 'z perf_data \<times> bytes) option"
where
  "doRead depth env sequential isOpen seek d device =
     (let h = pe_header env; stream = stream_at (pe_junk env) (byteOrder h) in
      if isPipe h then
        map_option (\<lambda>(status, cs, d, s). (pipe_status sequential isOpen status d, cs, d, ds_rest s))
          (pipe_loop depth env sequential d (stream device))
      else if sequential \<or> \<not> seek (dataOffset h) then Some (SignalError, [], d, device)
      else
        let start = nat (sint (dataOffset h)) in
        map_option (\<lambda>(status, cs, d, s). (status, send_progress env (int start) @ cs, d, ds_rest s))
          (file_loop depth env (length device) (int start + progress_step (dataSize h)) d
            (stream (drop start device))))"

datatype data_signal = DataWaiting | DataFinished | DataError

definition data_signal_of :: "read_status \<Rightarrow> data_signal" where
  "data_signal_of status =
     (case status of SignalFinished \<Rightarrow> DataFinished | SignalError \<Rightarrow> DataError | Rerun \<Rightarrow> DataWaiting)"

text \<open>The slots \<open>read\<close> and \<open>finishReading\<close> and the signals they emit.\<close>

definition readRecording ::
  "nat \<Rightarrow> 'z perf_env \<Rightarrow> bool \<Rightarrow> bool \<Rightarrow> (s64 \<Rightarrow> bool) \<Rightarrow> 'z perf_data \<Rightarrow> bytes
    \<Rightarrow> (data_signal \<times> call list \<times> 'z perf_data \<times> bytes) option"
where
  "readRecording depth env sequential isOpen seek d device =
     map_option (\<lambda>(status, cs, d, rest). (data_signal_of status, cs, d, rest))
       (doRead depth env sequential isOpen seek d device)"

definition finishReading ::
  "nat \<Rightarrow> 'z perf_env \<Rightarrow> bool \<Rightarrow> bool \<Rightarrow> (s64 \<Rightarrow> bool) \<Rightarrow> 'z perf_data \<Rightarrow> bytes
    \<Rightarrow> (data_signal \<times> call list \<times> 'z perf_data \<times> bytes) option"
where
  "finishReading depth env sequential isOpen seek d device =
     map_option (\<lambda>(status, cs, d, rest).
         (case status of
            Rerun \<Rightarrow> if eh_size (pd_eventHeader d) = 0 then DataFinished else DataError
          | _ \<Rightarrow> data_signal_of status, cs, d, rest))
       (doRead depth env sequential isOpen seek d device)"

section \<open>The calls\<close>

definition run_call ::
  "((s32 \<rightharpoonup> event_format) \<Rightarrow> s32 list) \<Rightarrow> (action \<Rightarrow> 'a unwind_scheme \<Rightarrow> 'a unwind_scheme)
    \<Rightarrow> (u64 \<Rightarrow> u64 \<Rightarrow> u16 list) \<Rightarrow> call \<Rightarrow> 'a unwind_scheme \<Rightarrow> 'a unwind_scheme"
where
  "run_call keys other tr c =
     (case c of
        CallRegisterElf r \<Rightarrow> registerElf_event other tr r
      | CallLost r \<Rightarrow> lost_event other tr r
      | CallComm r \<Rightarrow> comm_event other tr r
      | CallSample r \<Rightarrow> sample_event other tr r
      | CallAttr r \<Rightarrow> attr_event r
      | CallFork r \<Rightarrow> fork_event other tr r
      | CallExit r \<Rightarrow> exit_event other tr r
      | CallTracing td \<Rightarrow> unwind_tracing keys td
      | CallFinishedRound \<Rightarrow> round_event other tr
      | CallContextSwitch r \<Rightarrow> contextSwitch_event other tr r
      | CallProgress percent \<Rightarrow> sendProgress percent)"

end
