(* ===== verification/LocalReaders.thy ===== *)
theory LocalReaders
  imports Samples Tracing
begin

text \<open>
  What a reader of a record depends on: the bytes it takes and nothing behind them. Every reader of the
  development that does not ask how much the device has is local; a reader never gives bytes back.
\<close>

definition local_reader :: "'a reader \<Rightarrow> bool" where
  "local_reader rd \<longleftrightarrow> (\<forall>s v s'. run_state rd s = (v, s') \<longrightarrow>
     ds_order s' = ds_order s \<and> ds_junk s' = ds_junk s \<and> length (ds_rest s') \<le> length (ds_rest s)
     \<and> (ds_ok s' \<longrightarrow> ds_ok s \<and> (\<exists>p. ds_rest s = p @ ds_rest s'
          \<and> (\<forall>y. run_state rd (s\<lparr>ds_rest := p @ y\<rparr>) = (v, s\<lparr>ds_rest := y\<rparr>)))))"

named_theorems local_intros \<open>readers that are local\<close>

lemma local_readerI:
  assumes "\<And>s v s'. run_state rd s = (v, s') \<Longrightarrow>
      ds_order s' = ds_order s \<and> ds_junk s' = ds_junk s \<and> length (ds_rest s') \<le> length (ds_rest s)"
    and "\<And>s v s'. run_state rd s = (v, s') \<Longrightarrow> ds_ok s' \<Longrightarrow> ds_ok s \<and> (\<exists>p. ds_rest s = p @ ds_rest s'
          \<and> (\<forall>y. run_state rd (s\<lparr>ds_rest := p @ y\<rparr>) = (v, s\<lparr>ds_rest := y\<rparr>)))"
  shows "local_reader rd"
  unfolding local_reader_def using assms by blast

lemma local_shrinks:
  "local_reader rd \<Longrightarrow> run_state rd s = (v, s') \<Longrightarrow>
    ds_order s' = ds_order s \<and> ds_junk s' = ds_junk s \<and> length (ds_rest s') \<le> length (ds_rest s)"
  by (auto simp: local_reader_def)

lemma local_takes:
  assumes "local_reader rd" "run_state rd s = (v, s')" "ds_ok s'"
  obtains p where "ds_ok s" "ds_rest s = p @ ds_rest s'" "\<And>y. run_state rd (s\<lparr>ds_rest := p @ y\<rparr>) = (v, s\<lparr>ds_rest := y\<rparr>)"
  using assms unfolding local_reader_def by blast

lemma local_state:
  assumes "local_reader rd" "run_state rd s = (v, s')" "ds_ok s'"
  shows "s' = s\<lparr>ds_rest := ds_rest s'\<rparr>"
proof -
  obtain p where p: "ds_rest s = p @ ds_rest s'" "\<And>y. run_state rd (s\<lparr>ds_rest := p @ y\<rparr>) = (v, s\<lparr>ds_rest := y\<rparr>)"
    using local_takes [OF assms] by metis
  have "s\<lparr>ds_rest := p @ ds_rest s'\<rparr> = s" using p(1) by (metis data_stream.surjective data_stream.update_convs(2))
  with p(2) [of "ds_rest s'"] assms(2) show ?thesis by simp
qed

lemma local_return [local_intros]: "local_reader (State_Monad.return x)"
  by (rule local_readerI) auto

lemma local_bind [local_intros]:
  assumes "local_reader rd" "\<And>x. local_reader (f x)"
  shows "local_reader (rd \<bind> f)"
proof (rule local_readerI)
  fix s v s'' assume r: "run_state (rd \<bind> f) s = (v, s'')"
  obtain x s' where x: "run_state rd s = (x, s')" by fastforce
  with r have fx: "run_state (f x) s' = (v, s'')" by simp
  note shrink = local_shrinks [OF assms(1) x] local_shrinks [OF assms(2) fx]
  then show "ds_order s'' = ds_order s \<and> ds_junk s'' = ds_junk s \<and> length (ds_rest s'') \<le> length (ds_rest s)"
    by simp
  assume ok: "ds_ok s''"
  obtain q where q: "ds_ok s'" "ds_rest s' = q @ ds_rest s''"
    "\<And>y. run_state (f x) (s'\<lparr>ds_rest := q @ y\<rparr>) = (v, s'\<lparr>ds_rest := y\<rparr>)"
    using local_takes [OF assms(2) fx ok] by metis
  obtain p where p: "ds_ok s" "ds_rest s = p @ ds_rest s'"
    "\<And>y. run_state rd (s\<lparr>ds_rest := p @ y\<rparr>) = (x, s\<lparr>ds_rest := y\<rparr>)"
    using local_takes [OF assms(1) x q(1)] by metis
  have s': "s'\<lparr>ds_rest := y\<rparr> = s\<lparr>ds_rest := y\<rparr>" for y
    using local_state [OF assms(1) x q(1)] by (metis data_stream.update_convs(2) data_stream.surjective)
  have "run_state (rd \<bind> f) (s\<lparr>ds_rest := (p @ q) @ y\<rparr>) = (v, s\<lparr>ds_rest := y\<rparr>)" for y
    using p(3) [of "q @ y"] q(3) [of y] by (simp add: s')
  then show "ds_ok s \<and> (\<exists>p. ds_rest s = p @ ds_rest s''
      \<and> (\<forall>y. run_state (rd \<bind> f) (s\<lparr>ds_rest := p @ y\<rparr>) = (v, s\<lparr>ds_rest := y\<rparr>)))"
    using p(1,2) q(2) by (intro conjI exI [of _ "p @ q"]) simp_all
qed

lemma local_if [local_intros]: "local_reader a \<Longrightarrow> local_reader b \<Longrightarrow> local_reader (if c then a else b)"
  by simp

lemma local_read_if [local_intros]: "local_reader rd \<Longrightarrow> local_reader (read_if c rd old)"
  by (simp add: read_if_def local_return)

lemma local_case_prod [local_intros]: "(\<And>a b. local_reader (f a b)) \<Longrightarrow> local_reader (case p of (a, b) \<Rightarrow> f a b)"
  by (cases p) simp

lemma local_read_n [local_intros]: "local_reader rd \<Longrightarrow> local_reader (read_n n rd)"
  by (induction n) (auto intro: local_intros)

text \<open>The order of bytes and the junk stay the same, so they may be asked for.\<close>

lemma local_get [local_intros]:
  assumes "\<And>j ord. local_reader (f j ord)"
  shows "local_reader (State_Monad.get \<bind> (\<lambda>s. f (ds_junk s) (ds_order s)))"
proof (rule local_readerI)
  fix s v s' assume "run_state (State_Monad.get \<bind> (\<lambda>s. f (ds_junk s) (ds_order s))) s = (v, s')"
  then have r: "run_state (f (ds_junk s) (ds_order s)) s = (v, s')" by simp
  from local_shrinks [OF assms r]
  show "ds_order s' = ds_order s \<and> ds_junk s' = ds_junk s \<and> length (ds_rest s') \<le> length (ds_rest s)" .
  assume "ds_ok s'"
  from local_takes [OF assms r this]
  show "ds_ok s \<and> (\<exists>p. ds_rest s = p @ ds_rest s'
      \<and> (\<forall>y. run_state (State_Monad.get \<bind> (\<lambda>s. f (ds_junk s) (ds_order s))) (s\<lparr>ds_rest := p @ y\<rparr>)
           = (v, s\<lparr>ds_rest := y\<rparr>)))"
    by (simp, metis)
qed

lemma local_word: "local_reader (read_word k)"
proof (rule local_readerI)
  fix s s' and v :: "'a word" assume r: "run_state (read_word k) s = (v, s')"
  then show "ds_order s' = ds_order s \<and> ds_junk s' = ds_junk s \<and> length (ds_rest s') \<le> length (ds_rest s)"
    by (auto simp: read_word_def Let_def)
  assume "ds_ok s'"
  with r show "ds_ok s \<and> (\<exists>p. ds_rest s = p @ ds_rest s'
      \<and> (\<forall>y. run_state (read_word k) (s\<lparr>ds_rest := p @ y\<rparr>) = (v, s\<lparr>ds_rest := y\<rparr>)))"
    by (intro conjI exI [of _ "take k (ds_rest s)"]) (auto simp: read_word_def Let_def)
qed

lemmas local_ints [local_intros] = local_word [where 'a = 8, of 1, folded read_u8_def]
  local_word [where 'a = 16, of 2, folded read_u16_def] local_word [where 'a = 32, of 4, folded read_u32_def]
  local_word [where 'a = 64, of 8, folded read_u64_def]

lemma local_raw [local_intros]: "local_reader (readRawData n buf)"
proof (rule local_readerI)
  fix s v s' assume r: "run_state (readRawData n buf) s = (v, s')"
  then show "ds_order s' = ds_order s \<and> ds_junk s' = ds_junk s \<and> length (ds_rest s') \<le> length (ds_rest s)"
    by (auto simp: readRawData_def Let_def)
  assume "ds_ok s'"
  with r show "ds_ok s \<and> (\<exists>p. ds_rest s = p @ ds_rest s'
      \<and> (\<forall>y. run_state (readRawData n buf) (s\<lparr>ds_rest := p @ y\<rparr>) = (v, s\<lparr>ds_rest := y\<rparr>)))"
    by (intro conjI exI [of _ "take n (ds_rest s)"]) (auto simp: readRawData_def Let_def)
qed

lemma local_bytes [local_intros]: "local_reader (read_bytes n buf)"
  unfolding read_bytes_def by (rule local_get) (rule local_raw)

lemma local_skip [local_intros]: "local_reader (skipRawData n)"
proof (rule local_readerI)
  fix s and v :: unit and s' assume r: "run_state (skipRawData n) s = (v, s')"
  then show "ds_order s' = ds_order s \<and> ds_junk s' = ds_junk s \<and> length (ds_rest s') \<le> length (ds_rest s)"
    by (auto simp: skipRawData_def split: if_splits)
  assume "ds_ok s'"
  with r show "ds_ok s \<and> (\<exists>p. ds_rest s = p @ ds_rest s'
      \<and> (\<forall>y. run_state (skipRawData n) (s\<lparr>ds_rest := p @ y\<rparr>) = (v, s\<lparr>ds_rest := y\<rparr>)))"
    by (intro conjI exI [of _ "take (nat n) (ds_rest s)"]) (auto simp: skipRawData_def split: if_splits)
qed

section \<open>The readers of the records\<close>

lemma local_event_header [local_intros]: "local_reader read_event_header"
  unfolding read_event_header_def by (intro local_intros)

lemma local_event_attributes [local_intros]: "local_reader (read_event_attributes a)"
  unfolding read_event_attributes_def read_attributes_ver0_def read_attributes_later_def skip_attributes_def Let_def
  by (intro local_intros)

lemma local_sample_id [local_intros]: "local_reader (record_readSampleId r)"
  unfolding record_readSampleId_def read_sample_id_def by (intro local_intros)

lemma local_records [local_intros]:
  "local_reader (read_mmap m)" "local_reader (read_mmap2 m2)" "local_reader (read_comm c)"
  "local_reader (read_lost l)" "local_reader (read_fork f)" "local_reader (read_context_switch w)"
  "local_reader (read_switch_cpu_wide wc)" "local_reader (read_attr a)"
  unfolding read_mmap_def mmap_readNumbers_def mmap_readFilename_def read_mmap2_def mmap2_readNumbers_def
    read_comm_def read_lost_def read_fork_def read_context_switch_def read_switch_cpu_wide_def read_attr_def
  by (intro local_intros)+

lemma local_group [local_intros]: "local_reader (read_group withLost n f)"
  by (induction n arbitrary: f) (auto simp: Let_def intro!: local_intros)

lemma local_branches [local_intros]: "local_reader (read_branches n flags)"
  by (induction n arbitrary: flags) (auto intro!: local_intros)

lemma local_skip_all [local_intros]: "local_reader (skip_all ns)"
  by (induction ns) (auto intro!: local_intros)

lemma local_sample [local_intros]: "local_reader (read_sample f flags r)"
  unfolding read_sample_def read_sample_fields_def read_formats_def read_callchain_def read_raw_data_def
    read_branch_stack_def read_registers_def read_user_stack_def read_sample_tail_def Let_def
  by (intro local_intros)

end
