(* ===== verification/PerfDataFacts.thy ===== *)
theory PerfDataFacts
  imports PerfData LocalReaders TracingFacts
begin

text \<open>
  Reading a recording event by event: what arrives in pieces on a pipe gives the same calls as the whole of it,
  the loops end, and damaged recordings are reported.
\<close>

section \<open>Events and what they do\<close>

lemma local_tracing [local_intros]: "local_reader (read_tracing conv td)"
  unfolding read_tracing_def by (intro local_intros)

lemma local_finished [local_intros]: "local_reader (finished cs d)"
  unfolding finished_def by (rule local_return)

lemma local_sample_event [local_intros]: "local_reader (process_sample_event env d)"
  unfolding process_sample_event_def Let_def by (intro local_intros)

lemma local_compressed [local_intros]: "local_reader (process_compressed env process d)"
  unfolding process_compressed_def Let_def by (intro local_intros)

lemma local_skip_content [local_intros]: "local_reader (skip_content d)"
  unfolding skip_content_def by (intro local_intros)

lemma local_content:
  assumes "eh_type (pd_eventHeader d) \<noteq> PERF_RECORD_HEADER_TRACING_DATA"
  shows "local_reader (process_content env process d)"
proof -
  have no: "(eh_type (pd_eventHeader d) = PERF_RECORD_HEADER_TRACING_DATA) = False" using assms by simp
  show ?thesis unfolding process_content_def Let_def no if_False by (intro local_intros)
qed

type_synonym event_data = "event_header \<times> bytes"

definition encode_event :: "byte_order \<Rightarrow> event_data \<Rightarrow> bytes" where
  "encode_event order e = encode_event_header order (fst e) @ snd e"

definition event_stream :: "'z perf_env \<Rightarrow> bytes \<Rightarrow> data_stream" where
  "event_stream env bs = stream_at (pe_junk env) (byteOrder (pe_header env)) bs"

definition env_order :: "'z perf_env \<Rightarrow> byte_order" where
  "env_order env = byteOrder (pe_header env)"

lemma event_stream_simps [simp]:
  "ds_rest (event_stream env bs) = bs" "ds_ok (event_stream env bs)"
  "ds_order (event_stream env bs) = env_order env"
  "(event_stream env bs)\<lparr>ds_rest := bs'\<rparr> = event_stream env bs'"
  by (simp_all add: event_stream_def stream_at_def open_stream_def env_order_def)

text \<open>
  A well-formed event has the size of its content in its header, is no tracing data, and its reader takes
  exactly the content. This is what it does when it is there as a whole.
\<close>

definition event_effect ::
  "nat \<Rightarrow> 'z perf_env \<Rightarrow> 'z perf_data \<Rightarrow> event_data \<Rightarrow> (call list \<times> 'z perf_data) option"
where
  "event_effect depth env d e =
     (let (r, s') = run_state (process_content env (processEvents depth env False) (d\<lparr>pd_eventHeader := fst e\<rparr>))
            (event_stream env (snd e)) in
      if uint (eh_size (fst e)) = 8 + int (length (snd e)) \<and> eh_type (fst e) \<noteq> PERF_RECORD_HEADER_TRACING_DATA
         \<and> ds_rest s' = [] \<and> ds_ok s'
      then (case r of Some (SignalFinished, cs, d') \<Rightarrow> Some (cs, end_event d') | _ \<Rightarrow> None)
      else None)"

primrec run_events ::
  "nat \<Rightarrow> 'z perf_env \<Rightarrow> 'z perf_data \<Rightarrow> event_data list \<Rightarrow> (call list \<times> 'z perf_data) option"
where
  "run_events depth env d [] = Some ([], d)"
| "run_events depth env d (e # es) =
     Option.bind (event_effect depth env d e) (\<lambda>(cs, d').
       map_option (\<lambda>(cs', d''). (cs @ cs', d'')) (run_events depth env d' es))"

lemma event_effectE:
  assumes "event_effect depth env d e = Some (cs, d')"
  obtains d0 s' where "uint (eh_size (fst e)) = 8 + int (length (snd e))"
    "eh_type (fst e) \<noteq> PERF_RECORD_HEADER_TRACING_DATA" "d' = end_event d0"
    "run_state (process_content env (processEvents depth env False) (d\<lparr>pd_eventHeader := fst e\<rparr>))
       (event_stream env (snd e)) = (Some (SignalFinished, cs, d0), event_stream env [])"
proof -
  obtain r s' where r: "run_state (process_content env (processEvents depth env False) (d\<lparr>pd_eventHeader := fst e\<rparr>))
      (event_stream env (snd e)) = (r, s')" by fastforce
  from assms have e: "uint (eh_size (fst e)) = 8 + int (length (snd e))"
    "eh_type (fst e) \<noteq> PERF_RECORD_HEADER_TRACING_DATA" "ds_rest s' = []" "ds_ok s'"
    by (auto simp: event_effect_def r split: if_splits)
  with assms obtain d0 where "r = Some (SignalFinished, cs, d0)" "d' = end_event d0"
    by (auto simp: event_effect_def r split: option.splits read_status.splits)
  moreover have "s' = event_stream env []"
    using local_state [OF local_content r e(4)] e(2,3) by simp
  ultimately show ?thesis using that e r by blast
qed

lemma contentSize_content:
  assumes "uint (eh_size (fst e)) = 8 + int (length (snd e))"
  shows "unat (contentSize (d\<lparr>pd_eventHeader := fst e\<rparr>)) = length (snd e)"
    and "eh_size (fst e) \<noteq> 0" "\<not> eh_size (fst e) < eventHeader_fixedLength"
proof -
  have 8: "(8 :: u16) \<le> eh_size (fst e)" using assms by (simp add: word_le_def)
  then show "unat (contentSize (d\<lparr>pd_eventHeader := fst e\<rparr>)) = length (snd e)"
    using assms unat_sub_le [OF 8] by (simp add: contentSize_def eventHeader_fixedLength_def flip: nat_uint_eq)
  show "eh_size (fst e) \<noteq> 0" using assms by auto
  show "\<not> eh_size (fst e) < eventHeader_fixedLength" using 8 by (simp add: eventHeader_fixedLength_def not_less)
qed

section \<open>One call\<close>

lemma body_complete:
  assumes "event_effect depth env d e = Some (cs, d')"
  shows "run_state (process_body env (processEvents depth env False) sequential (d\<lparr>pd_eventHeader := fst e\<rparr>))
      (event_stream env (snd e @ y)) = (Some (SignalFinished, cs, d'), event_stream env y)"
proof -
  let ?d = "d\<lparr>pd_eventHeader := fst e\<rparr>" and ?p = "process_content env (processEvents depth env False) (d\<lparr>pd_eventHeader := fst e\<rparr>)"
  from event_effectE [OF assms] obtain d0 where e: "uint (eh_size (fst e)) = 8 + int (length (snd e))"
    "eh_type (fst e) \<noteq> PERF_RECORD_HEADER_TRACING_DATA" "d' = end_event d0"
    "run_state ?p (event_stream env (snd e)) = (Some (SignalFinished, cs, d0), event_stream env [])" by metis
  have "local_reader ?p" using e(2) by (intro local_content) simp
  from local_takes [OF this e(4)] obtain p where p: "snd e = p"
    "run_state ?p (event_stream env (p @ y)) = (Some (SignalFinished, cs, d0), event_stream env y)"
    by (metis append_Nil2 event_stream_simps(1,2,4))
  have "uint (contentSize ?d) = int (length (snd e))"
    using contentSize_content(1) [OF e(1), of d] by (simp add: uint_nat)
  then have "skip_rest sequential ?d (event_stream env (snd e @ y)) (event_stream env y) = event_stream env y"
    using e(2) contentSize_content(1) [OF e(1), of d]
    by (simp add: skip_rest_def expected_size_def Let_def)
  then show ?thesis
    using p e(3) contentSize_content(1) [OF e(1), of d] by (simp add: process_body_def Let_def)
qed

lemma header_encoded:
  "run_state read_event_header (event_stream env (encode_event_header (env_order env) h @ y)) = (h, event_stream env y)"
  using event_header_c.roundtrip [OF TrueI, of "event_stream env []" h y] by simp

lemma length_event_header [simp]: "length (encode_event_header order h) = 8"
  by (simp add: encode_event_header_def)

lemma encode_event_nonempty [simp]: "encode_event order e \<noteq> []"
proof -
  have "length (encode_event order e) \<noteq> 0" by (simp add: encode_event_def)
  then show ?thesis by auto
qed

lemma process_complete:
  assumes "event_effect depth env d e = Some (cs, d')" "eh_size (pd_eventHeader d) = 0"
  shows "run_state (processEvents (Suc depth) env sequential d) (event_stream env (encode_event (env_order env) e @ y))
      = (Some (SignalFinished, cs, d'), event_stream env y)"
proof -
  have n: "uint (eh_size (fst e)) = 8 + int (length (snd e))" using event_effectE [OF assms(1)] by metis
  show ?thesis
    using assms(2) contentSize_content(3) [OF n] body_complete [OF assms(1), of sequential y]
    by (simp add: encode_event_def process_header_def header_encoded eventHeader_fixedLength_def)
qed

text \<open>With the header read by an earlier call, and when there is not enough yet.\<close>

lemma process_resumed:
  assumes "event_effect depth env d e = Some (cs, d')"
  shows "run_state (processEvents (Suc depth) env sequential (d\<lparr>pd_eventHeader := fst e\<rparr>)) (event_stream env (snd e @ y))
      = (Some (SignalFinished, cs, d'), event_stream env y)"
proof -
  have n: "uint (eh_size (fst e)) = 8 + int (length (snd e))" using event_effectE [OF assms(1)] by metis
  show ?thesis
    using contentSize_content(2) [OF n] body_complete [OF assms(1), of sequential y]
    by (simp add: process_header_def)
qed

lemma process_no_header:
  assumes "eh_size (pd_eventHeader d) = 0" "length bs < 8"
  shows "run_state (processEvents (Suc depth) env sequential d) (event_stream env bs)
      = (Some (Rerun, [], d), event_stream env bs)"
  using assms by (simp add: process_header_def eventHeader_fixedLength_def)

lemma process_part:
  assumes "uint (eh_size (fst e)) = 8 + int (length (snd e))" "length bs < length (snd e)"
  shows "eh_size (pd_eventHeader d) = 0 \<Longrightarrow>
      run_state (processEvents (Suc depth) env sequential d) (event_stream env (encode_event_header (env_order env) (fst e) @ bs))
        = (Some (Rerun, [], d\<lparr>pd_eventHeader := fst e\<rparr>), event_stream env bs)"
    and "run_state (processEvents (Suc depth) env sequential (d\<lparr>pd_eventHeader := fst e\<rparr>)) (event_stream env bs)
        = (Some (Rerun, [], d\<lparr>pd_eventHeader := fst e\<rparr>), event_stream env bs)"
proof -
  have b: "run_state (process_body env process sequential (d\<lparr>pd_eventHeader := fst e\<rparr>)) (event_stream env bs)
      = (Some (Rerun, [], d\<lparr>pd_eventHeader := fst e\<rparr>), event_stream env bs)" for process
    using assms contentSize_content(1) [OF assms(1), of d] by (simp add: process_body_def)
  show "run_state (processEvents (Suc depth) env sequential (d\<lparr>pd_eventHeader := fst e\<rparr>)) (event_stream env bs)
        = (Some (Rerun, [], d\<lparr>pd_eventHeader := fst e\<rparr>), event_stream env bs)"
    using b contentSize_content(2) [OF assms(1)] by (simp add: process_header_def)
  assume "eh_size (pd_eventHeader d) = 0"
  then show "run_state (processEvents (Suc depth) env sequential d) (event_stream env (encode_event_header (env_order env) (fst e) @ bs))
        = (Some (Rerun, [], d\<lparr>pd_eventHeader := fst e\<rparr>), event_stream env bs)"
    using b contentSize_content(3) [OF assms(1)]
    by (simp add: process_header_def header_encoded eventHeader_fixedLength_def)
qed

section \<open>Data in pieces\<close>

text \<open>
  Where a reader stands that has used \<open>rest\<close> up to an event or the content of one: together with what is still
  to come, it has the events \<open>es\<close> before it.
\<close>

definition pending ::
  "nat \<Rightarrow> 'z perf_env \<Rightarrow> 'z perf_data \<Rightarrow> bytes \<Rightarrow> bytes \<Rightarrow> call list \<Rightarrow> 'z perf_data \<Rightarrow> bool"
where
  "pending depth env d rest future cs dEnd \<longleftrightarrow>
     (\<exists>es. eh_size (pd_eventHeader d) = 0 \<and> rest @ future = concat (map (encode_event (env_order env)) es)
        \<and> length rest < 8 \<and> run_events depth env d es = Some (cs, dEnd))
     \<or> (\<exists>d0 e es. eh_size (pd_eventHeader d0) = 0 \<and> d = d0\<lparr>pd_eventHeader := fst e\<rparr>
        \<and> rest @ future = snd e @ concat (map (encode_event (env_order env)) es) \<and> length rest < length (snd e)
        \<and> run_events depth env d0 (e # es) = Some (cs, dEnd))"

lemma pending_boundary:
  "eh_size (pd_eventHeader d) = 0 \<Longrightarrow> rest @ future = concat (map (encode_event (env_order env)) es)
    \<Longrightarrow> length rest < 8 \<Longrightarrow> run_events depth env d es = Some (cs, dEnd)
    \<Longrightarrow> pending depth env d rest future cs dEnd"
  unfolding pending_def by blast

lemma pendingE:
  assumes "pending depth env d rest future cs dEnd"
  obtains es where "eh_size (pd_eventHeader d) = 0" "rest @ future = concat (map (encode_event (env_order env)) es)"
      "length rest < 8" "run_events depth env d es = Some (cs, dEnd)"
    | d0 e es where "eh_size (pd_eventHeader d0) = 0" "d = d0\<lparr>pd_eventHeader := fst e\<rparr>"
      "rest @ future = snd e @ concat (map (encode_event (env_order env)) es)" "length rest < length (snd e)"
      "run_events depth env d0 (e # es) = Some (cs, dEnd)"
  using assms unfolding pending_def by blast

lemma run_events_Cons:
  assumes "run_events depth env d (e # es) = Some (cs, dEnd)"
  obtains cs1 d1 cs2 where "event_effect depth env d e = Some (cs1, d1)" "run_events depth env d1 es = Some (cs2, dEnd)"
    "cs = cs1 @ cs2" "eh_size (pd_eventHeader d1) = 0"
proof -
  from assms obtain cs1 d1 cs2 where r: "event_effect depth env d e = Some (cs1, d1)"
    "run_events depth env d1 es = Some (cs2, dEnd)" "cs = cs1 @ cs2"
    by (auto split: bind_splits)
  moreover have "eh_size (pd_eventHeader d1) = 0"
    using event_effectE [OF r(1)] by (metis end_event_def event_header.select_convs(3) event_header.surjective
        event_header.update_convs(3) perf_data.select_convs(2) perf_data.surjective perf_data.update_convs(2))
  ultimately show ?thesis using that by blast
qed

lemma pipe_loop_empty [simp]:
  "ds_rest s = [] \<Longrightarrow> pipe_loop depth env sequential d s = Some (SignalFinished, [], d, s)"
  by (simp add: pipe_loop.simps [of depth env sequential d s])

lemma pipe_loop_step:
  assumes "run_state (processEvents depth env sequential d) (event_stream env bs) = (Some (status, cs, d'), s')" "bs \<noteq> []"
  shows "pipe_loop depth env sequential d (event_stream env bs) =
    (if status = SignalFinished
     then Option.bind (pipe_loop depth env sequential d' s') (\<lambda>r. Some (calls_before cs r))
     else Some (status, cs, d', s'))"
  using assms by (simp add: pipe_loop.simps [of depth env sequential d "event_stream env bs"])

lemma encode_event_append: "encode_event order e @ y = encode_event_header order (fst e) @ snd e @ y"
  by (simp add: encode_event_def)

text \<open>The loop takes every whole event and stops before the first that is not there yet.\<close>

lemma pipe_loop_events:
  assumes "run_events depth env d es = Some (cs, dEnd)" "eh_size (pd_eventHeader d) = 0"
    and "rest @ future = concat (map (encode_event (env_order env)) es)"
  shows "\<exists>status cs1 cs2 d' rest'. pipe_loop (Suc depth) env sequential d (event_stream env rest)
      = Some (status, cs1, d', event_stream env rest') \<and> status \<noteq> SignalError
    \<and> cs = cs1 @ cs2 \<and> pending depth env d' rest' future cs2 dEnd"
  using assms
proof (induction es arbitrary: d cs rest)
  case Nil
  then have "pending depth env d rest future cs dEnd" by (intro pending_boundary [where es = "[]"]) simp_all
  with Nil show ?case
    by (intro exI [of _ SignalFinished] exI [of _ "[]"] exI [of _ cs] exI [of _ d] exI [of _ rest]) simp
next
  case (Cons e es)
  from run_events_Cons [OF Cons.prems(1)] obtain cs1 d1 cs2 where
    e: "event_effect depth env d e = Some (cs1, d1)" and es: "run_events depth env d1 es = Some (cs2, dEnd)"
    and cs: "cs = cs1 @ cs2" and d1: "eh_size (pd_eventHeader d1) = 0" by metis
  have n: "uint (eh_size (fst e)) = 8 + int (length (snd e))" using event_effectE [OF e] by metis
  let ?h = "encode_event_header (env_order env) (fst e)" and ?tail = "concat (map (encode_event (env_order env)) es)"
  have split: "rest @ future = ?h @ snd e @ ?tail" using Cons.prems(3) by (simp add: encode_event_append)
  consider "rest = []" | "rest \<noteq> []" "length rest < 8"
    | c where "rest = ?h @ c" "c @ future = snd e @ ?tail" "length c < length (snd e)"
    | y where "rest = encode_event (env_order env) e @ y" "y @ future = ?tail"
  proof (cases "length rest < 8")
    case False
    then have "take 8 rest = ?h" using arg_cong [OF split, of "take 8"] by simp
    then obtain c where c: "rest = ?h @ c" by (metis append_take_drop_id)
    with split have cf: "c @ future = snd e @ ?tail" by simp
    show ?thesis
    proof (cases "length c < length (snd e)")
      case False
      then have "take (length (snd e)) c = snd e" using arg_cong [OF cf, of "take (length (snd e))"] by simp
      then obtain y where "c = snd e @ y" by (metis append_take_drop_id)
      with that(4) [of y] c cf show ?thesis by (simp add: encode_event_append)
    qed (use that(3) c cf in blast)
  qed (use that in blast)
  then show ?case
  proof cases
    case 1
    then have "pending depth env d rest future cs dEnd" using Cons.prems by (intro pending_boundary [where es = "e # es"]) simp_all
    with 1 show ?thesis
      by (intro exI [of _ SignalFinished] exI [of _ "[]"] exI [of _ cs] exI [of _ d] exI [of _ rest]) simp
  next
    case 2
    have "pending depth env d rest future cs dEnd" using 2 Cons.prems by (intro pending_boundary)
    with 2 process_no_header [OF Cons.prems(2) 2(2), of depth env sequential] show ?thesis
      by (intro exI [of _ Rerun] exI [of _ "[]"] exI [of _ cs] exI [of _ d] exI [of _ rest]) (simp add: pipe_loop_step)
  next
    case 3
    have "pending depth env (d\<lparr>pd_eventHeader := fst e\<rparr>) c future cs dEnd"
      using 3 Cons.prems unfolding pending_def by blast
    moreover have "rest \<noteq> []" using 3(1) by (metis append_is_Nil_conv length_event_header list.size(3) zero_neq_numeral)
    ultimately show ?thesis
      using process_part(1) [OF n 3(3) Cons.prems(2), of depth env sequential] 3(1)
      by (intro exI [of _ Rerun] exI [of _ "[]"] exI [of _ cs] exI [of _ "d\<lparr>pd_eventHeader := fst e\<rparr>"] exI [of _ c])
        (simp add: pipe_loop_step)
  next
    case 4
    have "rest \<noteq> []" using 4(1) by (auto simp: encode_event_def) (metis length_event_header list.size(3) zero_neq_numeral)
    from Cons.IH [OF es d1 4(2)] obtain status cs3 cs4 d' rest' where
      IH: "pipe_loop (Suc depth) env sequential d1 (event_stream env y) = Some (status, cs3, d', event_stream env rest')"
      "status \<noteq> SignalError" "cs2 = cs3 @ cs4" "pending depth env d' rest' future cs4 dEnd" by blast
    with process_complete [OF e Cons.prems(2), of sequential y] 4(1) \<open>rest \<noteq> []\<close> cs show ?thesis
      by (intro exI [of _ status] exI [of _ "cs1 @ cs3"] exI [of _ cs4] exI [of _ d'] exI [of _ rest'])
        (simp add: pipe_loop_step calls_before_def)
  qed
qed

text \<open>From wherever the reader stands, with some more data.\<close>

lemma pipe_loop_pending:
  assumes "pending depth env d rest (new @ future) cs dEnd"
  shows "\<exists>status cs1 cs2 d' rest'. pipe_loop (Suc depth) env sequential d (event_stream env (rest @ new))
      = Some (status, cs1, d', event_stream env rest') \<and> status \<noteq> SignalError
    \<and> cs = cs1 @ cs2 \<and> pending depth env d' rest' future cs2 dEnd"
proof -
  from assms show ?thesis
  proof (cases rule: pendingE)
    case 1
    with pipe_loop_events [OF 1(4,1), of "rest @ new" future] show ?thesis by simp
  next
    case (2 d0 e es)
    from run_events_Cons [OF 2(5)] obtain cs1 d1 cs2 where
      e: "event_effect depth env d0 e = Some (cs1, d1)" and es: "run_events depth env d1 es = Some (cs2, dEnd)"
      and cs: "cs = cs1 @ cs2" and d1: "eh_size (pd_eventHeader d1) = 0" by metis
    have n: "uint (eh_size (fst e)) = 8 + int (length (snd e))" using event_effectE [OF e] by metis
    show ?thesis
    proof (cases "length (rest @ new) < length (snd e)")
      case True
      have "pending depth env d (rest @ new) future cs dEnd"
        using 2 True unfolding pending_def by (metis append.assoc)
      with process_part(2) [OF n True, of depth env sequential d0] 2(2) show ?thesis
        by (cases "rest @ new = []")
          (intro exI [of _ SignalFinished] exI [of _ "[]"] exI [of _ cs] exI [of _ d] exI [of _ "rest @ new"],
            simp, intro exI [of _ Rerun] exI [of _ "[]"] exI [of _ cs] exI [of _ d] exI [of _ "rest @ new"],
            simp add: pipe_loop_step)
    next
      case False
      then have "take (length (snd e)) (rest @ new) = snd e"
        using arg_cong [OF 2(3), of "take (length (snd e))"] by simp
      then obtain y where y: "rest @ new = snd e @ y" by (metis append_take_drop_id)
      with 2(3) have "y @ future = concat (map (encode_event (env_order env)) es)"
        by (metis append.assoc same_append_eq)
      from pipe_loop_events [OF es d1 this] obtain status cs3 cs4 d' rest' where
        IH: "pipe_loop (Suc depth) env sequential d1 (event_stream env y) = Some (status, cs3, d', event_stream env rest')"
        "status \<noteq> SignalError" "cs2 = cs3 @ cs4" "pending depth env d' rest' future cs4 dEnd" by blast
      have "rest @ new \<noteq> []" using y 2(4) by auto
      then have "pipe_loop (Suc depth) env sequential d (event_stream env (rest @ new))
          = Some (status, cs1 @ cs3, d', event_stream env rest')"
        using process_resumed [OF e, of sequential y] IH(1) unfolding y 2(2)
        by (simp add: pipe_loop_step calls_before_def)
      with IH cs show ?thesis by (metis append.assoc)
    qed
  qed
qed

text \<open>The slot \<open>read\<close> is called for every piece; what it leaves is still in the device for the next call.\<close>

primrec feed ::
  "nat \<Rightarrow> 'z perf_env \<Rightarrow> (s64 \<Rightarrow> bool) \<Rightarrow> 'z perf_data \<Rightarrow> bytes \<Rightarrow> bytes list
    \<Rightarrow> (call list \<times> 'z perf_data \<times> bytes) option"
where
  "feed depth env seek d rest [] = Some ([], d, rest)"
| "feed depth env seek d rest (new # news) =
     Option.bind (readRecording depth env True True seek d (rest @ new)) (\<lambda>(signal, cs, d', rest').
       if signal = DataWaiting
       then map_option (\<lambda>(cs', r). (cs @ cs', r)) (feed depth env seek d' rest' news) else None)"

lemma readRecording_pipe:
  assumes "isPipe (pe_header env)"
    and "pipe_loop depth env True d (event_stream env bs) = Some (status, cs, d', event_stream env rest')"
    and "status \<noteq> SignalError"
  shows "readRecording depth env True True seek d bs = Some (DataWaiting, cs, d', rest')"
  using assms
  by (simp add: readRecording_def doRead_def pipe_status_def data_signal_of_def event_stream_def [symmetric])

lemma pending_done: "pending depth env d rest [] cs dEnd \<Longrightarrow> rest = [] \<and> cs = [] \<and> d = dEnd \<and> eh_size (pd_eventHeader d) = 0"
proof (elim pendingE)
  fix es assume es: "rest @ [] = concat (map (encode_event (env_order env)) es)" "length rest < 8"
    "run_events depth env d es = Some (cs, dEnd)" and d: "eh_size (pd_eventHeader d) = 0"
  then have "es = []" by (cases es) (simp_all add: encode_event_def)
  with es d show ?thesis by simp
qed simp

lemma feed_pending:
  assumes "isPipe (pe_header env)" "pending depth env d rest (concat news) cs dEnd"
  shows "feed (Suc depth) env seek d rest news = Some (cs, dEnd, [])"
  using assms(2)
proof (induction news arbitrary: d rest cs)
  case Nil
  then show ?case using pending_done [of depth env d rest cs dEnd] by simp
next
  case (Cons new news)
  then obtain status cs1 cs2 d' rest' where
    l: "pipe_loop (Suc depth) env True d (event_stream env (rest @ new)) = Some (status, cs1, d', event_stream env rest')"
    "status \<noteq> SignalError" "cs = cs1 @ cs2" "pending depth env d' rest' (concat news) cs2 dEnd"
    using pipe_loop_pending [of depth env d rest new "concat news" cs dEnd True] by auto
  with Cons.IH [OF l(4)] readRecording_pipe [OF assms(1) l(1,2)] show ?case by simp
qed

lemma calls_before_append [simp]: "calls_before cs (calls_before cs' r) = calls_before (cs @ cs') r"
  by (cases r) (simp add: calls_before_def)

text \<open>The events at the front of the data are taken one by one.\<close>

lemma pipe_loop_front:
  assumes "run_events depth env d es = Some (cs, dEnd)" "eh_size (pd_eventHeader d) = 0"
  shows "pipe_loop (Suc depth) env sequential d (event_stream env (concat (map (encode_event (env_order env)) es) @ y))
      = Option.bind (pipe_loop (Suc depth) env sequential dEnd (event_stream env y)) (\<lambda>r. Some (calls_before cs r))
    \<and> eh_size (pd_eventHeader dEnd) = 0"
  using assms
proof (induction es arbitrary: d cs)
  case Nil
  then show ?case by (simp add: calls_before_def)
next
  case (Cons e es)
  from run_events_Cons [OF Cons.prems(1)] obtain cs1 d1 cs2 where
    e: "event_effect depth env d e = Some (cs1, d1)" and es: "run_events depth env d1 es = Some (cs2, dEnd)"
    and cs: "cs = cs1 @ cs2" and d1: "eh_size (pd_eventHeader d1) = 0" by metis
  show ?case
    using process_complete [OF e Cons.prems(2), of sequential "concat (map (encode_event (env_order env)) es) @ y"]
      Cons.IH [OF es d1] cs
    by (simp add: pipe_loop_step)
qed

lemma pipe_loop_whole:
  assumes "run_events depth env d es = Some (cs, dEnd)" "eh_size (pd_eventHeader d) = 0"
  shows "pipe_loop (Suc depth) env sequential d (event_stream env (concat (map (encode_event (env_order env)) es)))
      = Some (SignalFinished, cs, dEnd, event_stream env []) \<and> eh_size (pd_eventHeader dEnd) = 0"
  using pipe_loop_front [OF assms, of sequential "[]"] by (simp add: calls_before_def)


text \<open>A comm event and the end of a round, in three pieces cut in a header and in a content.\<close>

definition example_env :: "unit perf_env" where
  "example_env = \<lparr>pe_header = newHeader\<lparr>h_size := 16\<rparr>, pe_conv = example_conversions, pe_junk = \<lambda>_. 0,
     pe_sample = (0, 0), pe_format = \<lparr>rv_value = 0, rv_id = 0, rv_lost = 0\<rparr>, pe_flags = [],
     pe_percent = \<lambda>_ _. 0, pe_haveZstd = False, pe_createZstd = (), pe_decompress = \<lambda>_ _ _ _ _. None\<rparr>"

definition example_events :: "event_data list" where
  "example_events =
     [(\<lparr>eh_type = 3, eh_misc = 0, eh_size = 20\<rparr>, [1, 0, 0, 0, 2, 0, 0, 0, 97, 0, 0, 0]),
      (\<lparr>eh_type = 68, eh_misc = 0, eh_size = 8\<rparr>, [])]"

definition example_pieces :: "bytes list" where
  "example_pieces = [[3, 0, 0], [0, 0, 0, 20, 0, 1, 0, 0, 0, 2], [0, 0, 0, 97, 0, 0, 0, 68, 0, 0, 0, 0, 0, 8, 0]]"

lemma example_effects:
  "case run_events 0 example_env (newPerfData newAttributes) example_events of
     Some (cs, d) \<Rightarrow> length cs = 2 | None \<Rightarrow> False"
  by code_simp

lemma example_bytes: "concat example_pieces = concat (map (encode_event LittleEndian) example_events)"
  by code_simp

lemma example_pipe: "isPipe (pe_header example_env)" "env_order example_env = LittleEndian"
  "eh_size (pd_eventHeader (newPerfData newAttributes)) = 0"
  by (simp_all add: example_env_def isPipe_def newHeader_def pipeHeaderFixedLength_def env_order_def byteOrder_def
      s_magicSame_def newPerfData_def noEventHeader_def)


section \<open>Damaged recordings\<close>



text \<open>
  A recording that is cut off within the header of an event is not reported: the bytes are there, but the size
  of the event is still zero.
\<close>

lemma half_header_accepted:
  assumes "isPipe (pe_header env)" "eh_size (pd_eventHeader d) = 0" "length bs < 8"
  shows "finishReading (Suc depth) env True False seek d bs = Some (DataFinished, [], d, bs)"
proof (cases "bs = []")
  case False
  with process_no_header [OF assms(2,3), of depth env True] show ?thesis
    using assms(1,2)
    by (simp add: finishReading_def doRead_def pipe_status_def data_signal_of_def pipe_loop_step
        flip: event_stream_def)
qed (use assms in \<open>simp add: finishReading_def doRead_def pipe_status_def data_signal_of_def flip: event_stream_def\<close>)

section \<open>The loops end\<close>

text \<open>Readers that always give a result.\<close>

definition answers :: "'z event_result reader \<Rightarrow> bool" where
  "answers rd \<longleftrightarrow> (\<forall>s. fst (run_state rd s) \<noteq> None)"

lemma answers_bind: "(\<And>x. answers (f x)) \<Longrightarrow> answers (rd \<bind> f)"
  by (auto simp: answers_def case_prod_unfold)

lemma answers_return: "answers (State_Monad.return (Some x))"
  by (simp add: answers_def)

lemma answers_finished: "answers (finished cs d)"
  by (simp add: finished_def answers_return)

lemma answers_if: "answers a \<Longrightarrow> answers b \<Longrightarrow> answers (if c then a else b)"
  by simp

lemmas answers_intros = answers_bind answers_return answers_finished answers_if

lemma answers_content:
  assumes "\<not> pe_haveZstd env"
  shows "answers (process_content env process d)"
proof -
  have no: "(c \<and> pe_haveZstd env) = False" for c using assms by simp
  show ?thesis
    unfolding process_content_def process_sample_event_def process_tracing_def skip_content_def Let_def no if_False
    by (intro answers_intros)
qed

text \<open>Readers that never lengthen what is left.\<close>

definition shrinks :: "'a reader \<Rightarrow> bool" where
  "shrinks rd \<longleftrightarrow> (\<forall>s. length (ds_rest (snd (run_state rd s))) \<le> length (ds_rest s))"

lemma shrinks_bind: "shrinks rd \<Longrightarrow> (\<And>x. shrinks (f x)) \<Longrightarrow> shrinks (rd \<bind> f)"
  unfolding shrinks_def by (auto simp: case_prod_unfold intro: order_trans)

lemma shrinks_if: "shrinks a \<Longrightarrow> shrinks b \<Longrightarrow> shrinks (if c then a else b)"
  by simp

lemma shrinks_local: "local_reader rd \<Longrightarrow> shrinks rd"
  using local_shrinks [of rd] by (auto simp: shrinks_def) (metis prod.collapse)

lemma shrinks_available: "shrinks available"
  by (simp add: shrinks_def available_def)

lemma shrinks_tracing: "shrinks (process_tracing env d)"
  unfolding process_tracing_def Let_def
  by (intro shrinks_if shrinks_bind shrinks_available) (intro shrinks_local local_intros)+

lemma content_shrinks:
  assumes "run_state (process_content env process d) s = (r, s')"
  shows "length (ds_rest s') \<le> length (ds_rest s)"
proof (cases "eh_type (pd_eventHeader d) = PERF_RECORD_HEADER_TRACING_DATA")
  case False
  from local_shrinks [OF local_content [OF False] assms] show ?thesis by simp
next
  case True
  then have "run_state (process_tracing env d) s = (r, s')"
    using assms by (simp add: process_content_def record_types)
  then show ?thesis using shrinks_tracing [of env d] by (metis shrinks_def snd_conv)
qed

text \<open>An event that is finished takes its header, now or in an earlier call.\<close>

definition work :: "'z perf_data \<Rightarrow> data_stream \<Rightarrow> nat" where
  "work d s = 2 * length (ds_rest s) + (if eh_size (pd_eventHeader d) \<noteq> 0 then 1 else 0)"

lemma skip_rest_shrinks: "length (ds_rest (skip_rest sequential d s s')) \<le> length (ds_rest s')"
  using shrinks_local [OF local_skip, of "uint (contentSize d) - (int (length (ds_rest s)) - int (length (ds_rest s')))"]
  by (auto simp: skip_rest_def shrinks_def Let_def)

lemma body_shrinks:
  assumes "run_state (process_body env process sequential d) s = (r, s')"
  shows "length (ds_rest s') \<le> length (ds_rest s)
    \<and> (case r of Some (SignalFinished, cs, d') \<Rightarrow> eh_size (pd_eventHeader d') = 0 | _ \<Rightarrow> True)"
proof (cases "length (ds_rest s) < unat (contentSize d)")
  case False
  obtain r1 s1 where r1: "run_state (process_content env process d) s = (r1, s1)" by fastforce
  from content_shrinks [OF r1] have 1: "length (ds_rest s1) \<le> length (ds_rest s)" .
  have 2: "length (ds_rest (skip_rest sequential d s s1)) \<le> length (ds_rest s)"
    using skip_rest_shrinks [of sequential d s s1] 1 by simp
  from assms False r1 1 2 show ?thesis
    by (auto simp: process_body_def end_event_def split: option.splits read_status.splits)
qed (use assms in \<open>auto simp: process_body_def\<close>)

lemma process_progress:
  assumes "run_state (processEvents (Suc depth) env sequential d) s = (Some (SignalFinished, cs, d'), s')"
  shows "work d' s' < work d s"
proof -
  obtain status d1 s1 where h: "run_state (process_header d) s = ((status, d1), s1)" by (metis surj_pair)
  with assms have "status = SignalFinished"
    and b: "run_state (process_body env (processEvents depth env False) sequential d1) s1 = (Some (SignalFinished, cs, d'), s')"
    by (auto split: if_splits)
  have "length (ds_rest (snd (run_state read_event_header s))) < length (ds_rest s)" if "\<not> length (ds_rest s) < 8"
    using takesD [OF event_header_r.takes_rd, of s] that by simp
  with h \<open>status = SignalFinished\<close>
  have "eh_size (pd_eventHeader d) \<noteq> 0 \<and> s1 = s \<or> length (ds_rest s1) < length (ds_rest s)"
    by (auto simp: process_header_def eventHeader_fixedLength_def Let_def split: if_splits prod.splits)
  with body_shrinks [OF b] show ?thesis by (auto simp: work_def)
qed

lemma process_answers:
  assumes "\<not> pe_haveZstd env"
  shows "answers (processEvents (Suc depth) env sequential d)"
proof -
  have "answers (process_body env process sequential d')" for process d'
    using answers_content [OF assms, of process d']
    by (auto simp: answers_def process_body_def Let_def split: prod.splits option.splits read_status.splits)
      (metis fst_conv option.distinct(1))
  then show ?thesis by (auto intro!: answers_intros split: prod.splits)
qed

lemma pipe_loop_returns:
  assumes "\<not> pe_haveZstd env"
  shows "pipe_loop (Suc depth) env sequential d s \<noteq> None"
proof (induction "work d s" arbitrary: d s rule: less_induct)
  case less
  obtain status cs d' s' where p: "run_state (processEvents (Suc depth) env sequential d) s = (Some (status, cs, d'), s')"
    using process_answers [OF assms, of depth sequential d] unfolding answers_def by (metis not_None_eq prod.collapse)
  show ?case
  proof (cases "status = SignalFinished")
    case True
    with p process_progress have "work d' s' < work d s" by blast
    from less [OF this] True p show ?thesis
      by (simp add: pipe_loop.simps [of "Suc depth" env sequential d s] bind_eq_None_conv
          del: not_None_eq processEvents.simps)
  qed (use p in \<open>simp add: pipe_loop.simps [of "Suc depth" env sequential d s] del: processEvents.simps\<close>)
qed

lemma file_loop_returns:
  assumes "\<not> pe_haveZstd env"
  shows "file_loop (Suc depth) env size0 next d s \<noteq> None"
proof (induction "work d s" arbitrary: d s "next" rule: less_induct)
  case less
  obtain status cs d' s' where p: "run_state (processEvents (Suc depth) env False d) s = (Some (status, cs, d'), s')"
    using process_answers [OF assms, of depth False d] unfolding answers_def by (metis not_None_eq prod.collapse)
  show ?case
  proof (cases "status = SignalFinished")
    case True
    with p process_progress have "work d' s' < work d s" by blast
    from less [OF this] True p show ?thesis
      by (simp add: file_loop.simps [of "Suc depth" env size0 "next" d s] Let_def bind_eq_None_conv
          del: not_None_eq processEvents.simps)
  qed (use p in \<open>simp add: file_loop.simps [of "Suc depth" env size0 "next" d s] del: processEvents.simps\<close>)
qed

text \<open>
  C20: reading ends. Whatever a device holds - any bytes, cut anywhere, in any state of the reader - a call of
  \<open>doRead\<close> without libzstd comes back, on pipes and files: every event takes at least its header.
\<close>
theorem doRead_returns:
  assumes "\<not> pe_haveZstd env"
  shows "doRead (Suc depth) env sequential isOpen seek d device \<noteq> None"
  by (simp add: doRead_def Let_def pipe_loop_returns [OF assms] file_loop_returns [OF assms] del: not_None_eq)

theorem doRead_returns_witness:
  "doRead 1 example_env True True (\<lambda>_. False) (newPerfData newAttributes) [1, 2, 3] \<noteq> None"
  using doRead_returns [of example_env 0] by (simp add: example_env_def)

section \<open>Decompression in several calls\<close>

text \<open>
  When libzstd fills the output in more than one call, the position of the output is added twice: the second
  byte of this record is written behind a gap, and the gap is taken for the end of the data.
\<close>

definition bytewise :: "unit \<Rightarrow> bytes \<Rightarrow> nat \<Rightarrow> nat \<Rightarrow> nat \<Rightarrow> (bytes \<times> nat \<times> unit) option" where
  "bytewise z input i pos room = Some ([input ! i], Suc i, z)"

lemma decompressed_gap:
  "zstd_loop bytewise 0 4 [7, 8] 0 0 0 4 [0, 0, 0, 0] () = Some (Some (2, [7, 0, 8, 0], ()))"
  by (simp add: zstd_loop.simps [of bytewise 0 4 "[7, 8]" 0] zstd_loop.simps [of bytewise 0 4 "[7, 8]" "Suc 0"]
      zstd_loop.simps [of bytewise 0 4 "[7, 8]" "Suc (Suc 0)"] bytewise_def write_at_def)

end
