(* ===== verification/Demangling.thy ===== *)
theory Demangling
  imports Prelude
begin

text \<open>
  \<open>app/demangler.h\<close>, \<open>app/demangler.cpp\<close> and \<open>demangle\<close> of \<open>app/perfdwarfdiecache.cpp\<close>: the libraries that
  demangle the names of Rust and D, and the C++ ABI's function for the rest. A library is its function: given a
  name and the length of the buffer it fills the buffer or not. Loading the libraries and the ABI's function,
  which may replace the buffer by a longer one, are parameters. What crosses the C interface ends at a zero byte.
\<close>

type_synonym demangle_fun = "bytes \<Rightarrow> nat \<Rightarrow> bytes option"

record demangle_info =
  dg_prefix :: bytes
  dg_demangler :: demangle_fun

definition c_string :: "bytes \<Rightarrow> bytes" where
  "c_string s = takeWhile (\<lambda>b. b \<noteq> 0) s"

text \<open>\<open>startsWith\<close> calls \<open>strcmp\<close>.\<close>

definition startsWith :: "bytes \<Rightarrow> bytes \<Rightarrow> bool" where
  "startsWith s pre \<longleftrightarrow> c_string s = c_string pre"

text \<open>\<open>load\<close>: a library that loads gives a function for some names of symbols.\<close>

definition loadDemangleLib ::
  "(string \<Rightarrow> (string \<Rightarrow> demangle_fun option) option) \<Rightarrow> string \<Rightarrow> string \<Rightarrow> bytes
    \<Rightarrow> demangle_info list \<Rightarrow> demangle_info list"
where
  "loadDemangleLib load name function pre ds =
     (case load name of
        None \<Rightarrow> ds
      | Some resolve \<Rightarrow>
          (case resolve function of
             None \<Rightarrow> ds
           | Some rawSymbol \<Rightarrow> ds @ [\<lparr>dg_prefix = pre, dg_demangler = rawSymbol\<rparr>]))"

definition newDemangler :: "(string \<Rightarrow> (string \<Rightarrow> demangle_fun option) option) \<Rightarrow> demangle_info list" where
  "newDemangler load =
     loadDemangleLib load ''d_demangle'' ''demangle_symbol'' (ascii ''_D'')
       (loadDemangleLib load ''rustc_demangle'' ''rustc_demangle'' (ascii ''_R'') [])"

primrec fast_demangle :: "demangle_info list \<Rightarrow> bytes \<Rightarrow> nat \<Rightarrow> bytes option" where
  "fast_demangle [] s n = None"
| "fast_demangle (d # ds) s n =
     (if startsWith s (dg_prefix d) then
        (case dg_demangler d (c_string s) n of
           Some t \<Rightarrow> Some t
         | None \<Rightarrow> fast_demangle ds s n)
      else fast_demangle ds s n)"

primrec any_demangle :: "demangle_info list \<Rightarrow> bytes \<Rightarrow> nat \<Rightarrow> bytes option" where
  "any_demangle [] s n = None"
| "any_demangle (d # ds) s n =
     (case dg_demangler d (c_string s) n of Some t \<Rightarrow> Some t | None \<Rightarrow> any_demangle ds s n)"

definition demangler_demangle :: "demangle_info list \<Rightarrow> bytes \<Rightarrow> nat \<Rightarrow> bytes option" where
  "demangler_demangle ds s n =
     (case fast_demangle ds s n of Some t \<Rightarrow> Some t | None \<Rightarrow> any_demangle ds s n)"

text \<open>\<open>demangle\<close> with the length of the buffer before and after; \<open>cxa\<close> is \<open>abi::__cxa_demangle\<close>.\<close>

definition demangle ::
  "demangle_info list \<Rightarrow> (bytes \<Rightarrow> nat \<Rightarrow> (bytes \<times> nat) option) \<Rightarrow> bytes \<Rightarrow> nat \<Rightarrow> bytes \<times> nat"
where
  "demangle ds cxa mangledName n =
     (if length mangledName < 3 then (mangledName, n)
      else case demangler_demangle ds mangledName n of
        Some t \<Rightarrow> (c_string t, n)
      | None \<Rightarrow>
          if take 2 mangledName = ascii ''_Z'' then
            (case cxa (c_string mangledName) n of
               Some (t, n') \<Rightarrow> (c_string t, n')
             | None \<Rightarrow> (mangledName, n))
          else (mangledName, n))"

section \<open>Which demangler is asked\<close>

lemma fast_demangle_equal:
  "fast_demangle ds s n = any_demangle (filter (\<lambda>d. startsWith s (dg_prefix d)) ds) s n"
  by (induction ds) (simp_all split: option.split)

lemma any_demangle_result:
  "any_demangle ds s n = (case List.map_filter (\<lambda>d. dg_demangler d (c_string s) n) ds of [] \<Rightarrow> None | t # _ \<Rightarrow> Some t)"
  by (induction ds) (simp_all add: map_filter_simps split: option.split)

lemma no_fast_path:
  assumes "\<And>d. d \<in> set ds \<Longrightarrow> length (dg_prefix d) = 2" "length (c_string s) \<noteq> 2"
    "\<And>d. d \<in> set ds \<Longrightarrow> 0 \<notin> set (dg_prefix d)"
  shows "fast_demangle ds s n = None"
proof -
  have "c_string (dg_prefix d) = dg_prefix d" if "d \<in> set ds" for d
    using assms(3) [OF that] by (auto simp: c_string_def takeWhile_eq_all_conv)
  then have "filter (\<lambda>d. startsWith s (dg_prefix d)) ds = []"
    using assms(1,2) by (auto simp: filter_empty_conv startsWith_def)
  then show ?thesis by (simp add: fast_demangle_equal)
qed

lemma newDemangler_prefixes:
  "d \<in> set (newDemangler load) \<Longrightarrow> length (dg_prefix d) = 2 \<and> 0 \<notin> set (dg_prefix d)"
  by (auto simp: newDemangler_def loadDemangleLib_def ascii_def split: option.splits)

text \<open>
  Which demangler gives the name. No library is asked first for the names with its
  prefix: \<open>startsWith\<close> compares whole strings. All names are given to the libraries in the order they
  were loaded, the first that accepts one wins, then \<open>abi::__cxa_demangle\<close> for those that start with \<open>_Z\<close>.
\<close>
theorem demangle_first_accepting:
  assumes "0 \<notin> set s" "3 \<le> length s"
  shows "demangle (newDemangler load) cxa s n =
    (case List.map_filter (\<lambda>d. dg_demangler d s n) (newDemangler load) of
       t # _ \<Rightarrow> (c_string t, n)
     | [] \<Rightarrow> (case (if take 2 s = ascii ''_Z'' then cxa s n else None) of
         Some (t, n') \<Rightarrow> (c_string t, n')
       | None \<Rightarrow> (s, n)))"
proof -
  have s: "c_string s = s" using assms(1) by (auto simp: c_string_def takeWhile_eq_all_conv)
  have "length s \<noteq> 2" using assms(2) by auto
  then have "fast_demangle (newDemangler load) s n = None"
    using newDemangler_prefixes by (intro no_fast_path) (auto simp: s)
  then show ?thesis
    using assms(2) by (simp add: demangle_def demangler_demangle_def any_demangle_result s split: list.split option.split)
qed

text \<open>A D symbol that the Rust library accepts as well is demangled as Rust, against the prefixes.\<close>

definition both_libraries :: "string \<Rightarrow> (string \<Rightarrow> demangle_fun option) option" where
  "both_libraries name = Some (\<lambda>function. Some (\<lambda>s n. Some (ascii name)))"

theorem demangle_first_accepting_witness:
  "fst (demangle (newDemangler both_libraries) (\<lambda>_ _. None) (ascii ''_D1x'') 1024) = ascii ''rustc_demangle''"
  using demangle_first_accepting [of "ascii ''_D1x''" both_libraries "\<lambda>_ _. None" 1024]
  by (simp add: ascii_def newDemangler_def loadDemangleLib_def both_libraries_def map_filter_simps c_string_def)

end
