(* ===== verification/FileLookup.thy ===== *)
theory FileLookup
  imports Prelude
begin

text \<open>
  Where \<open>PerfSymbolTable\<close> (\<open>app/perfsymboltable.cpp\<close>) and \<open>PerfUnwind\<close> look for binaries, debugging information
  and symbol maps. A path is the bytes of its name; a \<open>QFileInfo\<close> is its path. The file system is a parameter:
  the answers of \<open>QFileInfo\<close>, \<open>QDir\<close> and libelf for a path. The separators are those of Unix.
\<close>

record file_system =
  fs_isFile :: "bytes \<Rightarrow> bool"
  fs_exists :: "bytes \<Rightarrow> bool"
  fs_absoluteFilePath :: "bytes \<Rightarrow> bytes"
  fs_canonicalFilePath :: "bytes \<Rightarrow> bytes"
  fs_absoluteDir :: "bytes \<Rightarrow> bytes"
  fs_path :: "bytes \<Rightarrow> bytes"
  fs_fileName :: "bytes \<Rightarrow> bytes"
  fs_filePath :: "bytes \<Rightarrow> bytes \<Rightarrow> bytes"
  fs_entryList :: "bytes \<Rightarrow> bytes list"
  fs_buildId :: "bytes \<Rightarrow> bytes option"
  fs_isElf :: "bytes \<Rightarrow> bool"
  fs_tempPath :: bytes

text \<open>The paths \<open>PerfUnwind\<close> is given.\<close>

record search_paths =
  sp_systemRoot :: bytes
  sp_extraLibsPath :: bytes
  sp_appPath :: bytes
  sp_debugPath :: bytes
  sp_kallsymsPath :: bytes
  sp_ignoreKallsymsBuildId :: bool
  sp_customPerfMapPath :: bytes

definition sep :: bytes where "sep = ascii ''/''"

text \<open>\<open>QString::split\<close> with \<open>Qt::SkipEmptyParts\<close>.\<close>

fun split_skip :: "u8 \<Rightarrow> bytes \<Rightarrow> bytes \<Rightarrow> bytes list" where
  "split_skip c part [] = (if part = [] then [] else [part])"
| "split_skip c part (b # bs) =
     (if b = c then (if part = [] then [] else [part]) @ split_skip c [] bs
      else split_skip c (part @ [b]) bs)"

definition listSeparator :: u8 where "listSeparator = of_char (CHR '':'')"

definition splitPath :: "bytes \<Rightarrow> bytes list" where
  "splitPath path = split_skip listSeparator [] path"

definition hex_digit :: "u8 \<Rightarrow> u8" where
  "hex_digit n = (if n < 10 then 48 + n else 87 + n)"

definition toHex :: "bytes \<Rightarrow> bytes" where
  "toHex bs = concat (map (\<lambda>b. [hex_digit (b div 16), hex_digit (b mod 16)]) bs)"

definition joined :: "bytes list \<Rightarrow> bytes" where
  "joined parts = (case parts of [] \<Rightarrow> [] | p # ps \<Rightarrow> p @ concat (map (\<lambda>q. sep @ q) ps))"

section \<open>Binaries\<close>

definition findBuildIdPath :: "file_system \<Rightarrow> bytes \<Rightarrow> bytes \<Rightarrow> bool \<times> bytes" where
  "findBuildIdPath fs path fileName =
     (let path = fs_absoluteFilePath fs path @ sep @ fileName in
      if fs_isFile fs path then (True, path)
      else let path = fs_absoluteFilePath fs path @ sep @ ascii ''elf'' in
        (fs_isFile fs path, path))"

definition matchesBuildId :: "file_system \<Rightarrow> bytes \<Rightarrow> bytes \<Rightarrow> bool" where
  "matchesBuildId fs buildId path \<longleftrightarrow> buildId = [] \<or> fs_buildId fs (fs_absoluteFilePath fs path) = Some buildId"

text \<open>
  The search below a directory: whether the file was found, the path looked at last and the canonical paths
  checked so far. \<open>depth\<close> bounds the nesting of the directories; beyond it there is no result.
\<close>

type_synonym search_result = "(bool \<times> bytes \<times> bytes list) option"

primrec search_entries ::
  "(bytes \<Rightarrow> bytes list \<Rightarrow> search_result) \<Rightarrow> file_system \<Rightarrow> bytes \<Rightarrow> bytes list \<Rightarrow> bytes \<Rightarrow> bytes list \<Rightarrow> search_result"
where
  "search_entries search fs absDir [] path checked = Some (False, path, checked)"
| "search_entries search fs absDir (entry # entries) path checked =
     Option.bind (search (fs_filePath fs absDir entry) checked) (\<lambda>(found, path, checked).
       if found then Some (True, path, checked) else search_entries search fs absDir entries path checked)"

primrec findInExtraPath ::
  "file_system \<Rightarrow> bytes \<Rightarrow> nat \<Rightarrow> bytes \<Rightarrow> bytes list \<Rightarrow> search_result"
where
  "findInExtraPath fs fileName 0 = (\<lambda>path checked. None)"
| "findInExtraPath fs fileName (Suc depth) = (\<lambda>path checked.
     let path = fs_absoluteFilePath fs path @ sep @ fileName in
     if fs_isFile fs path then Some (True, path, checked)
     else let canonicalPath = fs_canonicalFilePath fs path in
       if canonicalPath \<in> set checked then Some (False, path, checked)
       else let absDir = fs_absoluteDir fs path in
         search_entries (findInExtraPath fs fileName depth) fs absDir (fs_entryList fs absDir) path
           (canonicalPath # checked))"

primrec search_debug_paths :: "file_system \<Rightarrow> bytes \<Rightarrow> bytes list \<Rightarrow> bytes option" where
  "search_debug_paths fs buildIdPath [] = None"
| "search_debug_paths fs buildIdPath (extraPath # paths) =
     (case findBuildIdPath fs extraPath buildIdPath of
        (True, path) \<Rightarrow> Some path
      | (False, _) \<Rightarrow> search_debug_paths fs buildIdPath paths)"

text \<open>The application's path and the extra paths, one after the other.\<close>

primrec search_extra_paths ::
  "file_system \<Rightarrow> nat \<Rightarrow> bytes \<Rightarrow> bytes \<Rightarrow> bytes list \<Rightarrow> bytes list \<Rightarrow> bytes option option"
where
  "search_extra_paths fs depth fileName buildId [] checked = Some None"
| "search_extra_paths fs depth fileName buildId (extraPath # paths) checked =
     Option.bind (findInExtraPath fs fileName depth extraPath checked) (\<lambda>(found, path, checked).
       if found \<and> matchesBuildId fs buildId path then Some (Some path)
       else search_extra_paths fs depth fileName buildId paths checked)"

definition findFile ::
  "file_system \<Rightarrow> search_paths \<Rightarrow> nat \<Rightarrow> bytes \<Rightarrow> bytes \<Rightarrow> bytes \<Rightarrow> bytes option"
where
  "findFile fs sp depth path fileName buildId =
     (case (if buildId = [] then None
            else search_debug_paths fs (path @ sep @ toHex buildId) (splitPath (sp_debugPath sp))) of
        Some fullPath \<Rightarrow> Some fullPath
      | None \<Rightarrow>
          map_option (\<lambda>r. case r of Some fullPath \<Rightarrow> fullPath | None \<Rightarrow> sp_systemRoot sp @ path)
            (search_extra_paths fs depth fileName buildId
              ((if sp_appPath sp = [] then [] else [sp_appPath sp]) @ splitPath (sp_extraLibsPath sp)) []))"

section \<open>Debugging information\<close>

text \<open>\<open>QString::replace\<close> of every occurrence of a text that is not empty.\<close>

function replace_text :: "bytes \<Rightarrow> bytes \<Rightarrow> bytes \<Rightarrow> bytes" where
  "replace_text old new bs =
     (if bs = [] then []
      else if old \<noteq> [] \<and> starts_with old bs then new @ replace_text old new (drop (length old) bs)
      else hd bs # replace_text old new (tl bs))"
  by pat_completeness auto
termination
  by (relation "measure (\<lambda>(old, new, bs). length bs)") auto

declare replace_text.simps [simp del]

text \<open>The places that are tried, in order.\<close>

definition debug_candidates :: "file_system \<Rightarrow> bytes \<Rightarrow> bytes \<Rightarrow> bytes \<Rightarrow> bytes list" where
  "debug_candidates fs root file' debugLinkString =
     (let dir = fs_path fs root; folder = fs_path fs file';
          usr = sep @ ascii ''usr'' @ sep;
          folderWithoutUsr = replace_text usr sep folder;
          debug = [dir, ascii ''usr'', ascii ''lib'', ascii ''debug''] in
      (if folder = [] then [] else [joined [dir, folder, ascii ''.debug'', debugLinkString]])
      @ [joined [dir, file', ascii ''.debug'', debugLinkString],
         joined (debug @ [folderWithoutUsr, debugLinkString]),
         joined (debug @ [usr @ folderWithoutUsr, debugLinkString]),
         joined (debug @ [folder, debugLinkString]),
         fs_filePath fs dir (joined [ascii ''usr'', ascii ''lib'', ascii ''debug'', debugLinkString])]
      @ (if folder = [] then [] else [joined [dir, folder, debugLinkString]])
      @ [joined [dir, file', debugLinkString]])"

definition findDebugInfoFile :: "file_system \<Rightarrow> bytes \<Rightarrow> bytes \<Rightarrow> bytes \<Rightarrow> bytes" where
  "findDebugInfoFile fs root file' debugLinkString =
     (let candidates = debug_candidates fs root file' debugLinkString in
      case find (fs_isFile fs) candidates of Some p \<Rightarrow> p | None \<Rightarrow> last candidates)"

text \<open>
  The file \<open>findDebugInfo\<close> opens when libdwfl's own search fails and there is a debug link; \<open>originalPath\<close> is
  that of the binary mapped at the module's base. No file: the result of libdwfl's search stays.
\<close>

definition linked_debug_file ::
  "file_system \<Rightarrow> search_paths \<Rightarrow> nat \<Rightarrow> bytes \<Rightarrow> bytes \<Rightarrow> bytes \<Rightarrow> bytes option option"
where
  "linked_debug_file fs sp depth originalPath file' debugLink =
     (let debugLinkString = fs_fileName fs debugLink in
      map_option (\<lambda>debugLinkFile.
        let debugLinkFile = (if \<not> fs_isFile fs debugLinkFile
              then findDebugInfoFile fs (sp_systemRoot sp) originalPath debugLinkString else debugLinkFile);
            debugLinkFile = (if \<not> fs_isFile fs debugLinkFile \<and> starts_with (rev (ascii ''/elf'')) (rev file')
              then file' else debugLinkFile) in
        if fs_isFile fs debugLinkFile then Some (fs_absoluteFilePath fs debugLinkFile) else None)
      (findFile fs sp depth debugLink debugLinkString []))"

section \<open>Symbol maps\<close>

text \<open>\<open>number\<close> writes the process id; \<open>exists\<close> is asked for the custom path only.\<close>

definition perfMapFile :: "file_system \<Rightarrow> (s32 \<Rightarrow> bytes) \<Rightarrow> bytes \<Rightarrow> s32 \<Rightarrow> bytes" where
  "perfMapFile fs number customPerfMapPath pid =
     (let name = ascii ''perf-'' @ number pid @ ascii ''.map'';
          path = customPerfMapPath @ sep @ name in
      if customPerfMapPath \<noteq> [] \<and> fs_exists fs path then path
      else fs_tempPath fs @ sep @ name)"

text \<open>The kernel's symbols under the build id the recording gives, or the path given.\<close>

definition kallsyms_path :: "file_system \<Rightarrow> search_paths \<Rightarrow> (bytes \<rightharpoonup> bytes) \<Rightarrow> bytes" where
  "kallsyms_path fs sp buildIds =
     (let buildId = (case buildIds (ascii ''[kernel.kallsyms]'') of Some b \<Rightarrow> b | None \<Rightarrow> []);
          under = (\<lambda>debugPath. joined [debugPath, ascii ''[kernel.kallsyms]'', toHex buildId, ascii ''kallsyms'']) in
      if sp_ignoreKallsymsBuildId sp \<or> buildId = [] then sp_kallsymsPath sp
      else case find (fs_exists fs) (map under (splitPath (sp_debugPath sp))) of
        Some p \<Rightarrow> p
      | None \<Rightarrow> sp_kallsymsPath sp)"

definition defaultDebugInfoPath :: "bytes \<Rightarrow> bytes" where
  "defaultDebugInfoPath homePath =
     sep @ joined [ascii ''usr'', ascii ''lib'', ascii ''debug''] @ [listSeparator] @ homePath @ sep @ ascii ''.debug''
     @ [listSeparator] @ ascii ''.debug''"

definition defaultKallsymsPath :: bytes where
  "defaultKallsymsPath = sep @ joined [ascii ''proc'', ascii ''kallsyms'']"

section \<open>What is found\<close>

lemma findInExtraPath_file:
  "findInExtraPath fs fileName depth path checked = Some (True, path', checked') \<Longrightarrow> fs_isFile fs path'"
proof (induction depth arbitrary: path checked path' checked')
  case (Suc depth)
  have "search_entries (findInExtraPath fs fileName depth) fs absDir entries p c = Some (True, path', checked')
      \<Longrightarrow> fs_isFile fs path'" for absDir entries p c
    using Suc.IH by (induction entries arbitrary: p c) (auto simp: bind_eq_Some_conv split: if_splits)
  with Suc.prems show ?case by (auto simp: Let_def split: if_splits)
qed simp

lemma search_extra_paths_file:
  "search_extra_paths fs depth fileName buildId paths checked = Some (Some p)
    \<Longrightarrow> fs_isFile fs p \<and> matchesBuildId fs buildId p"
  by (induction paths arbitrary: checked)
    (auto simp: bind_eq_Some_conv dest: findInExtraPath_file split: if_splits)

lemma search_debug_paths_file:
  "search_debug_paths fs b paths = Some p \<Longrightarrow> fs_isFile fs p
    \<and> (\<exists>dir \<in> set paths. let path = fs_absoluteFilePath fs dir @ sep @ b in
        p = path \<or> p = fs_absoluteFilePath fs path @ sep @ ascii ''elf'')"
  by (induction paths) (auto simp: findBuildIdPath_def Let_def split: if_splits bool.splits)

text \<open>
  C17: which binary is taken. Whatever the file system holds, a binary that \<open>findFile\<close> returns is a regular file
  below a debug directory under the recorded path and build id, or a regular file whose own build id is the
  recorded one (any, when none was recorded), or else the recorded path below the system root.
\<close>
theorem findFile_sound:
  assumes "findFile fs sp depth path fileName buildId = Some p"
  shows "p = sp_systemRoot sp @ path
    \<or> fs_isFile fs p \<and> (matchesBuildId fs buildId p
        \<or> (\<exists>dir \<in> set (splitPath (sp_debugPath sp)). \<exists>q. q = fs_absoluteFilePath fs dir @ sep @ path @ sep @ toHex buildId
            \<and> (p = q \<or> p = fs_absoluteFilePath fs q @ sep @ ascii ''elf'')))"
proof (cases "if buildId = [] then None else search_debug_paths fs (path @ sep @ toHex buildId) (splitPath (sp_debugPath sp))")
  case None
  with assms show ?thesis
    by (auto simp: findFile_def split: option.splits dest: search_extra_paths_file)
next
  case (Some q)
  then have "search_debug_paths fs (path @ sep @ toHex buildId) (splitPath (sp_debugPath sp)) = Some q"
    by (auto split: if_splits)
  from search_debug_paths_file [OF this] Some assms show ?thesis
    by (fastforce simp: findFile_def Let_def)
qed

text \<open>A binary that is found under its build id although another one has its name.\<close>

definition two_versions :: file_system where
  "two_versions = \<lparr>fs_isFile = (\<lambda>p. p \<in> {ascii ''/dbg//lib/a/2b/elf'', ascii ''/lib/a''}), fs_exists = (\<lambda>p. True),
     fs_absoluteFilePath = (\<lambda>p. p), fs_canonicalFilePath = (\<lambda>p. p), fs_absoluteDir = (\<lambda>p. p), fs_path = (\<lambda>p. p),
     fs_fileName = (\<lambda>p. p), fs_filePath = (\<lambda>d n. d @ sep @ n), fs_entryList = (\<lambda>p. []),
     fs_buildId = (\<lambda>p. Some [0x2a]), fs_isElf = (\<lambda>p. True), fs_tempPath = ascii ''/tmp''\<rparr>"

definition two_paths :: search_paths where
  "two_paths = \<lparr>sp_systemRoot = [], sp_extraLibsPath = [], sp_appPath = [], sp_debugPath = ascii ''/x:/dbg'',
     sp_kallsymsPath = [], sp_ignoreKallsymsBuildId = False, sp_customPerfMapPath = []\<rparr>"

theorem findFile_sound_witness:
  "findFile two_versions two_paths 1 (ascii ''/lib/a'') (ascii ''a'') [0x2b] = Some (ascii ''/dbg//lib/a/2b/elf'')
    \<and> fs_isFile two_versions (ascii ''/dbg//lib/a/2b/elf'')"
proof -
  have found: "findFile two_versions two_paths 1 (ascii ''/lib/a'') (ascii ''a'') [0x2b] = Some (ascii ''/dbg//lib/a/2b/elf'')"
    by code_simp
  with findFile_sound [OF found] show ?thesis
    by (simp add: two_paths_def ascii_def)
qed

section \<open>How deep the search goes\<close>

text \<open>
  What the search below a directory covers. A file that does not exist has no canonical path, and all of
  them count as the same directory: a directory is searched only itself and in its direct subdirectories, and
  every further one of the same lookup only itself. So the search ends for every file system.
\<close>
theorem findInExtraPath_shallow:
  fixes fs fileName
  defines "below \<equiv> \<lambda>p. fs_absoluteFilePath fs p @ sep @ fileName"
  assumes "\<And>p. \<not> fs_isFile fs (below p) \<Longrightarrow> fs_canonicalFilePath fs (below p) = []"
  shows "map_option fst (findInExtraPath fs fileName (Suc (Suc depth)) path checked) =
    Some (fs_isFile fs (below path)
      \<or> [] \<notin> set checked \<and> (let dir = fs_absoluteDir fs (below path) in
          \<exists>entry \<in> set (fs_entryList fs dir). fs_isFile fs (below (fs_filePath fs dir entry))))"
proof -
  let ?search = "findInExtraPath fs fileName (Suc depth)"
  have direct: "?search p c = Some (fs_isFile fs (below p), below p, c)" if "[] \<in> set c" for p c
    using that assms(2) by (auto simp: Let_def below_def)
  have entries: "map_option fst (search_entries ?search fs dir es p c)
      = Some (\<exists>entry \<in> set es. fs_isFile fs (below (fs_filePath fs dir entry)))" if "[] \<in> set c" for dir es p c
    using that by (induction es arbitrary: p) (auto simp: direct simp del: findInExtraPath.simps(2))
  show ?thesis
    using entries [of "[] # checked"] assms(2) by (auto simp: Let_def below_def simp del: findInExtraPath.simps(2) simp: findInExtraPath.simps(2) [of _ _ "Suc depth"])
qed

text \<open>A library two directories below the path is not found.\<close>

definition nested_directories :: file_system where
  "nested_directories = \<lparr>fs_isFile = (\<lambda>p. p = ascii ''/app/x/y/a''), fs_exists = (\<lambda>p. True),
     fs_absoluteFilePath = (\<lambda>p. p), fs_canonicalFilePath = (\<lambda>p. if p = ascii ''/app/x/y/a'' then p else []),
     fs_absoluteDir = (\<lambda>p. take (length p - 2) p), fs_path = (\<lambda>p. p), fs_fileName = (\<lambda>p. p),
     fs_filePath = (\<lambda>d n. d @ sep @ n), fs_entryList = (\<lambda>p. if p = ascii ''/app'' then [ascii ''x'']
       else if p = ascii ''/app/x'' then [ascii ''y''] else []),
     fs_buildId = (\<lambda>p. None), fs_isElf = (\<lambda>p. True), fs_tempPath = ascii ''/tmp''\<rparr>"

theorem findInExtraPath_shallow_witness:
  "map_option fst (findInExtraPath nested_directories (ascii ''a'') 2 (ascii ''/app'') []) = Some False
    \<and> map_option fst (findInExtraPath nested_directories (ascii ''a'') 2 (ascii ''/app/x'') []) = Some True"
proof -
  have "fs_canonicalFilePath nested_directories p = []" if "\<not> fs_isFile nested_directories p" for p
    using that by (simp add: nested_directories_def)
  note shallow = findInExtraPath_shallow [of nested_directories "ascii ''a''" 0, OF this]
  from shallow [of "ascii ''/app''" "[]"] shallow [of "ascii ''/app/x''" "[]"] show ?thesis
    by (simp add: nested_directories_def sep_def ascii_def numeral_2_eq_2 del: findInExtraPath.simps)
qed

end
