(* ===== verification/DwarfDies.thy ===== *)
theory DwarfDies
  imports Prelude
begin

text \<open>
  \<open>app/perfdwarfdiecache.h\<close>, \<open>app/perfdwarfdiecache.cpp\<close>: the walks over the debugging information entries of
  a compilation unit and the caches built from them. An entry of libdw is the record of what libdw answers for it
  and the list of its children; which entries enclose another and which one specifies it are parameters, as is the
  demangler.
\<close>

datatype die_tag =
    DW_TAG_compile_unit | DW_TAG_module | DW_TAG_lexical_block | DW_TAG_with_stmt | DW_TAG_catch_block
  | DW_TAG_try_block | DW_TAG_entry_point | DW_TAG_inlined_subroutine | DW_TAG_subprogram | DW_TAG_namespace
  | DW_TAG_class_type | DW_TAG_structure_type | DW_TAG_other u32

record dwarf_range =
  dr_low :: u64
  dr_high :: u64

definition range_contains :: "u64 \<Rightarrow> dwarf_range \<Rightarrow> bool" where
  "range_contains addr r \<longleftrightarrow> dr_low r \<le> addr \<and> addr < dr_high r"

text \<open>
  The answers of libdw; the linkage names are attributes that may be there without being strings. \<open>di_callFile\<close>
  is an index into the file table of the unit.
\<close>

record die_info =
  di_offset :: u64
  di_tag :: die_tag
  di_ranges :: "dwarf_range list"
  di_name :: "bytes option"
  di_mipsLinkage :: "bytes option option"
  di_linkage :: "bytes option option"
  di_compDir :: "bytes option"
  di_entry :: "u64 option"
  di_declFile :: "bytes option"
  di_declLine :: "s32 option"
  di_declColumn :: "s32 option"
  di_callFile :: "u64 option"
  di_callLine :: "u64 option"
  di_callColumn :: "u64 option"

datatype die = Die (die_info: die_info) (die_children: "die list")

abbreviation die_offset :: "die \<Rightarrow> u64" where "die_offset d \<equiv> di_offset (die_info d)"
abbreviation die_tag :: "die \<Rightarrow> die_tag" where "die_tag d \<equiv> di_tag (die_info d)"
abbreviation die_ranges :: "die \<Rightarrow> dwarf_range list" where "die_ranges d \<equiv> di_ranges (die_info d)"

record dwarf_access =
  dw_scopes :: "die \<Rightarrow> die list"
  dw_specification :: "die \<Rightarrow> die option"

section \<open>Walks\<close>

datatype walk_result = Recurse | Skip | Return

fun walkDieTree :: "(die \<Rightarrow> 's \<Rightarrow> walk_result \<times> 's) \<Rightarrow> die \<Rightarrow> 's \<Rightarrow> walk_result \<times> 's"
  and walkChildren :: "(die \<Rightarrow> 's \<Rightarrow> walk_result \<times> 's) \<Rightarrow> die list \<Rightarrow> 's \<Rightarrow> walk_result \<times> 's"
where
  "walkDieTree callback (Die i cs) s =
     (let (r, s) = callback (Die i cs) s in
      if r \<noteq> Recurse then (r, s) else walkChildren callback cs s)"
| "walkChildren callback [] s = (Skip, s)"
| "walkChildren callback (c # cs) s =
     (let (r, s) = walkDieTree callback c s in
      if r = Return then (Return, s) else walkChildren callback cs s)"

primrec walkRanges :: "(dwarf_range \<Rightarrow> 's \<Rightarrow> bool \<times> 's) \<Rightarrow> dwarf_range list \<Rightarrow> 's \<Rightarrow> 's" where
  "walkRanges callback [] s = s"
| "walkRanges callback (r # rs) s =
     (let (continue, s) = callback r s in if continue then walkRanges callback rs s else s)"

definition mayHaveScopes :: "die \<Rightarrow> bool" where
  "mayHaveScopes d = (case die_tag d of DW_TAG_other _ \<Rightarrow> False | _ \<Rightarrow> True)"

definition dieContainsAddress :: "u64 \<Rightarrow> die \<Rightarrow> bool" where
  "dieContainsAddress address d =
     walkRanges (\<lambda>r contained. if range_contains address r then (False, True) else (True, contained))
       (die_ranges d) False"

definition findInlineScopes :: "die \<Rightarrow> u64 \<Rightarrow> die list" where
  "findInlineScopes subprogram offset =
     snd (walkDieTree (\<lambda>d scopes.
       if die_tag d \<noteq> DW_TAG_inlined_subroutine then (Recurse, scopes)
       else if dieContainsAddress offset d then (Recurse, scopes @ [d])
       else (Skip, scopes)) subprogram [])"

section \<open>Names\<close>

definition linkageName :: "die \<Rightarrow> bytes option" where
  "linkageName d =
     (case di_mipsLinkage (die_info d) of
        Some s \<Rightarrow> s
      | None \<Rightarrow> (case di_linkage (die_info d) of Some s \<Rightarrow> s | None \<Rightarrow> None))"

type_synonym name_cache = "u64 \<rightharpoonup> bytes"

text \<open>
  The loop over the scopes: the name, the entries to cache with the lengths of what follows them, and the
  specification to go on with.
\<close>

primrec scope_loop ::
  "(bytes \<Rightarrow> bytes) \<Rightarrow> dwarf_access \<Rightarrow> name_cache \<Rightarrow> die list \<Rightarrow> bytes \<Rightarrow> (u64 \<times> nat) list
    \<Rightarrow> bytes \<times> (u64 \<times> nat) list \<times> die option"
where
  "scope_loop dm dw cache [] name ops = (name, ops, None)"
| "scope_loop dm dw cache (scope # scopes) name ops =
     (case cache (die_offset scope) of
        Some cached \<Rightarrow> (cached @ (if name \<noteq> [] then ascii ''::'' @ name else name), ops, None)
      | None \<Rightarrow>
     (case linkageName scope of
        Some scopeLinkageName \<Rightarrow>
          (let name = ascii ''::'' @ name in
           (dm scopeLinkageName @ name, ops @ [(die_offset scope, length name)], None))
      | None \<Rightarrow>
          (let (name, ops) =
             (case di_name (die_info scope) of
                Some scopeName \<Rightarrow>
                  (let name = ascii ''::'' @ name in
                   (scopeName @ name, ops @ [(die_offset scope, length name)]))
              | None \<Rightarrow> (name, ops)) in
           (case dw_specification dw scope of
              Some sp \<Rightarrow> (name, ops @ [(die_offset scope, length name), (die_offset sp, length name)], Some sp)
            | None \<Rightarrow> scope_loop dm dw cache scopes name ops))))"

definition store_names :: "bytes \<Rightarrow> (u64 \<times> nat) list \<Rightarrow> name_cache \<Rightarrow> name_cache" where
  "store_names name ops cache =
     fold (\<lambda>(offset, trailing) m. m(offset \<mapsto> take (length name - trailing) name)) ops cache"

text \<open>The scopes of the entry itself and of the compilation unit are left out. Specifications may form a circle.\<close>

partial_function (option) prependScopeNames ::
  "(bytes \<Rightarrow> bytes) \<Rightarrow> dwarf_access \<Rightarrow> bytes \<Rightarrow> die \<Rightarrow> name_cache \<Rightarrow> (bytes \<times> name_cache) option"
where
  "prependScopeNames dm dw name d cache =
     (case scope_loop dm dw cache (butlast (tl (dw_scopes dw d))) name [] of
        (name, ops, None) \<Rightarrow> Some (name, store_names name ops cache)
      | (name, ops, Some sp) \<Rightarrow>
          Option.bind (prependScopeNames dm dw name sp cache) (\<lambda>(name, cache).
            Some (name, store_names name ops cache)))"

declare prependScopeNames.simps [code]

definition qualifiedDieName ::
  "(bytes \<Rightarrow> bytes) \<Rightarrow> dwarf_access \<Rightarrow> die \<Rightarrow> name_cache \<Rightarrow> (bytes \<times> name_cache) option"
where
  "qualifiedDieName dm dw d cache =
     (case linkageName d of
        Some name \<Rightarrow> Some (name, cache)
      | None \<Rightarrow>
          prependScopeNames dm dw (case di_name (die_info d) of Some s \<Rightarrow> s | None \<Rightarrow> [])
            (case dw_specification dw d of Some sp \<Rightarrow> sp | None \<Rightarrow> d) cache)"

section \<open>Source locations\<close>

definition absoluteSourcePath :: "bytes option \<Rightarrow> die option \<Rightarrow> bytes" where
  "absoluteSourcePath path cuDie =
     (case (path, cuDie) of
        (Some p, Some cu) \<Rightarrow>
          if p \<noteq> [] \<and> hd p = of_char (CHR ''/'') then p
          else (case di_compDir (die_info cu) of
            None \<Rightarrow> p
          | Some compDir \<Rightarrow> compDir @ ascii ''/'' @ p)
      | (Some p, None) \<Rightarrow> p
      | (None, _) \<Rightarrow> [])"

record source_location =
  sl_file :: bytes
  sl_line :: s32
  sl_column :: s32

definition noSource :: source_location where
  "noSource = \<lparr>sl_file = [], sl_line = - 1, sl_column = - 1\<rparr>"

text \<open>
  \<open>getsrc\<close> is the row of the line table for an offset: the name of the file, the line and the column, each of
  which may be missing.
\<close>

definition findSourceLocation ::
  "(die \<Rightarrow> u64 \<Rightarrow> (bytes option \<times> s32 option \<times> s32 option) option) \<Rightarrow> die \<Rightarrow> u64 \<Rightarrow> source_location"
where
  "findSourceLocation getsrc cuDie offset =
     (case getsrc cuDie offset of
        Some (Some srcfile, line, column) \<Rightarrow>
          \<lparr>sl_file = absoluteSourcePath (Some srcfile) (Some cuDie),
           sl_line = (case line of Some n \<Rightarrow> n | None \<Rightarrow> sl_line noSource),
           sl_column = (case column of Some n \<Rightarrow> n | None \<Rightarrow> sl_column noSource)\<rparr>
      | _ \<Rightarrow> noSource)"

section \<open>The caches\<close>

record die_with_ranges =
  dr_die :: die
  dr_ranges :: "dwarf_range list"

definition ranges_contain :: "u64 \<Rightarrow> die_with_ranges \<Rightarrow> bool" where
  "ranges_contain addr r \<longleftrightarrow> list_ex (range_contains addr) (dr_ranges r)"

definition SubProgramDie :: "die \<Rightarrow> die_with_ranges" where
  "SubProgramDie d = \<lparr>dr_die = d, dr_ranges = walkRanges (\<lambda>r rs. (True, rs @ [r])) (die_ranges d) []\<rparr>"

record cu_mapping =
  cu_bias :: u64
  cu_ranges :: die_with_ranges
  cu_subPrograms :: "die_with_ranges list"
  cu_names :: name_cache

definition CuDieRangeMapping :: "die \<Rightarrow> u64 \<Rightarrow> cu_mapping" where
  "CuDieRangeMapping cudie bias =
     \<lparr>cu_bias = bias,
      cu_ranges = \<lparr>dr_die = cudie,
        dr_ranges = walkRanges (\<lambda>r rs. (True, rs @ [\<lparr>dr_low = dr_low r + bias, dr_high = dr_high r + bias\<rparr>]))
          (die_ranges cudie) []\<rparr>,
      cu_subPrograms = [], cu_names = Map.empty\<rparr>"

definition cudie :: "cu_mapping \<Rightarrow> die" where
  "cudie m = dr_die (cu_ranges m)"

definition addSubprograms :: "cu_mapping \<Rightarrow> cu_mapping" where
  "addSubprograms m =
     m\<lparr>cu_subPrograms := snd (walkDieTree (\<lambda>d ps.
         if \<not> mayHaveScopes d then (Skip, ps)
         else if die_tag d = DW_TAG_subprogram then
           (Skip, if dr_ranges (SubProgramDie d) \<noteq> [] then ps @ [SubProgramDie d] else ps)
         else (Recurse, ps)) (cudie m) (cu_subPrograms m))\<rparr>"

definition findSubprogramDie :: "u64 \<Rightarrow> cu_mapping \<Rightarrow> die_with_ranges option \<times> cu_mapping" where
  "findSubprogramDie offset m =
     (let m = (if cu_subPrograms m = [] then addSubprograms m else m) in
      (find (ranges_contain offset) (cu_subPrograms m), m))"

text \<open>The entry is in the cache, still without a name, while its name is composed.\<close>

definition dieName ::
  "(bytes \<Rightarrow> bytes) \<Rightarrow> dwarf_access \<Rightarrow> die \<Rightarrow> cu_mapping \<Rightarrow> (bytes \<times> cu_mapping) option"
where
  "dieName dm dw d m =
     (let name = (case cu_names m (die_offset d) of Some s \<Rightarrow> s | None \<Rightarrow> []) in
      if name \<noteq> [] then Some (name, m)
      else map_option (\<lambda>(qualified, cache).
          (dm qualified, m\<lparr>cu_names := cache(die_offset d \<mapsto> dm qualified)\<rparr>))
        (qualifiedDieName dm dw d ((cu_names m)(die_offset d \<mapsto> name))))"

text \<open>\<open>units\<close>: the compilation units of a module with their biases, in the order libdwfl gives them.\<close>

definition PerfDwarfDieCache :: "(die \<times> u64) list \<Rightarrow> cu_mapping list" where
  "PerfDwarfDieCache units =
     filter (\<lambda>m. dr_ranges (cu_ranges m) \<noteq> []) (map (\<lambda>(d, bias). CuDieRangeMapping d bias) units)"

definition findCuDie :: "u64 \<Rightarrow> cu_mapping list \<Rightarrow> nat option" where
  "findCuDie addr ms = (let n = length (takeWhile (\<lambda>m. \<not> ranges_contain addr (cu_ranges m)) ms) in
     if n = length ms then None else Some n)"

end
