(* ===== verification/DwarfDiesFacts.thy ===== *)
theory DwarfDiesFacts
  imports DwarfDies
begin

text \<open>
  Correctness of the walks and caches of \<open>DwarfDies\<close>: pruning and caching lose nothing.
\<close>

section \<open>Ranges\<close>

lemma walkRanges_any:
  "walkRanges (\<lambda>r c. if p r then (False, True) else (True, c)) rs c \<longleftrightarrow> list_ex p rs \<or> c"
  by (induction rs arbitrary: c) auto

lemma walkRanges_collect: "walkRanges (\<lambda>r xs. (True, xs @ [f r])) rs xs = xs @ map f rs"
  by (induction rs arbitrary: xs) simp_all

lemma dieContainsAddress_iff: "dieContainsAddress a d \<longleftrightarrow> list_ex (range_contains a) (die_ranges d)"
  by (simp add: dieContainsAddress_def walkRanges_any)

lemma SubProgramDie_eq: "SubProgramDie d = \<lparr>dr_die = d, dr_ranges = die_ranges d\<rparr>"
  using walkRanges_collect [of "\<lambda>r. r" "die_ranges d" "[]"] by (simp add: SubProgramDie_def)

section \<open>Walks that collect\<close>

text \<open>A walk that only adds entries, of the whole tree or of the part that is descended into.\<close>

fun preorder :: "die \<Rightarrow> die list" where
  "preorder (Die i cs) = Die i cs # concat (map preorder cs)"

fun collected :: "(die \<Rightarrow> bool) \<Rightarrow> (die \<Rightarrow> 'a list) \<Rightarrow> die \<Rightarrow> 'a list" where
  "collected enter found (Die i cs) =
     found (Die i cs) @ (if enter (Die i cs) then concat (map (collected enter found) cs) else [])"

lemma walk_collector:
  "walkDieTree (\<lambda>d s. (if enter d then Recurse else Skip, s @ found d)) d s = (Skip, s @ collected enter found d)"
proof (induction d arbitrary: s)
  case (Die i cs)
  let ?callback = "\<lambda>d s. (if enter d then Recurse else Skip, s @ found d)"
  have "walkChildren ?callback cs s = (Skip, s @ concat (map (collected enter found) cs))" for s
    using Die by (induction cs arbitrary: s) simp_all
  then show ?case by simp
qed

lemma walk_collects:
  assumes "\<And>d s. callback d s = (if enter d then Recurse else Skip, s @ found d)"
  shows "walkDieTree callback d s = (Skip, s @ collected enter found d)"
proof -
  have "callback = (\<lambda>d s. (if enter d then Recurse else Skip, s @ found d))"
    using assms by (intro ext)
  then show ?thesis by (simp only: walk_collector)
qed

lemma set_collected: "set (collected enter found d) \<subseteq> (\<Union>e \<in> set (preorder d). set (found e))"
  by (induction d) fastforce

lemma preorder_self: "d \<in> set (preorder d)"
  by (cases d) simp

section \<open>Inlined functions\<close>

text \<open>
  What a compiler keeps to: an inlined function that does not contain an address has no inlined functions inside
  that do, and no two functions inlined side by side contain the same address.
\<close>

abbreviation inlined_at :: "u64 \<Rightarrow> die \<Rightarrow> bool" where
  "inlined_at a d \<equiv> die_tag d = DW_TAG_inlined_subroutine \<and> list_ex (range_contains a) (die_ranges d)"

definition active :: "u64 \<Rightarrow> die \<Rightarrow> bool" where
  "active a d \<longleftrightarrow> list_ex (inlined_at a) (preorder d)"

fun well_nested :: "u64 \<Rightarrow> die \<Rightarrow> bool" where
  "well_nested a (Die i cs) \<longleftrightarrow> list_all (well_nested a) cs
     \<and> (di_tag i = DW_TAG_inlined_subroutine \<and> \<not> list_ex (range_contains a) (di_ranges i) \<longrightarrow> \<not> list_ex (active a) cs)
     \<and> length (filter (active a) cs) \<le> 1"

lemma findInlineScopes_collected:
  "findInlineScopes d a = collected (\<lambda>d. die_tag d \<noteq> DW_TAG_inlined_subroutine \<or> inlined_at a d)
     (\<lambda>d. if inlined_at a d then [d] else []) d"
  unfolding findInlineScopes_def
  by (subst walk_collects [where enter = "\<lambda>d. die_tag d \<noteq> DW_TAG_inlined_subroutine \<or> inlined_at a d"
        and found = "\<lambda>d. if inlined_at a d then [d] else []"])
    (auto simp: dieContainsAddress_iff)

lemma inactive_filter: "\<not> active a d \<Longrightarrow> filter (inlined_at a) (preorder d) = []"
  by (auto simp: active_def list_ex_iff filter_empty_conv)

lemma scopes_filter:
  "well_nested a d \<Longrightarrow> findInlineScopes d a = filter (inlined_at a) (preorder d)"
proof (induction d)
  case (Die i cs)
  have IH: "concat (map (\<lambda>c. findInlineScopes c a) cs) = concat (map (\<lambda>c. filter (inlined_at a) (preorder c)) cs)"
    using Die by (intro arg_cong [where f = concat] map_cong) (simp_all add: list_all_iff)
  have "filter (inlined_at a) (concat (map preorder cs)) = concat (map (\<lambda>c. filter (inlined_at a) (preorder c)) cs)"
    by (simp add: filter_concat comp_def)
  moreover have "filter (inlined_at a) (concat (map preorder cs)) = []"
    if "di_tag i = DW_TAG_inlined_subroutine" "\<not> list_ex (range_contains a) (di_ranges i)"
    using Die.prems that inactive_filter by (simp add: filter_concat list_ex_iff)
  ultimately show ?case
    using IH by (simp add: findInlineScopes_collected [abs_def] comp_def)
qed

text \<open>The entries a filter of the children leaves all come from the one child that is active.\<close>

lemma concat_one_active:
  assumes "length (filter p cs) \<le> 1" "\<And>c. c \<in> set cs \<Longrightarrow> \<not> p c \<Longrightarrow> f c = []"
  shows "concat (map f cs) = [] \<or> (\<exists>c \<in> set cs. concat (map f cs) = f c)"
  using assms
proof (induction cs)
  case (Cons c cs)
  show ?case
  proof (cases "p c")
    case True
    then have "filter p cs = []" using Cons.prems(1) by simp
    then have "concat (map f cs) = []" using Cons.prems(2) by (simp add: filter_empty_conv)
    then show ?thesis by simp
  next
    case False
    with Cons show ?thesis by auto
  qed
qed simp

lemma scopes_chain:
  "well_nested a d \<Longrightarrow> sorted_wrt (\<lambda>outer inner. inner \<in> set (preorder outer)) (filter (inlined_at a) (preorder d))"
proof (induction d)
  case (Die i cs)
  let ?f = "\<lambda>c. filter (inlined_at a) (preorder c)"
  let ?chain = "sorted_wrt (\<lambda>outer inner. inner \<in> set (preorder outer))"
  have "concat (map ?f cs) = [] \<or> (\<exists>c \<in> set cs. concat (map ?f cs) = ?f c)"
    using Die.prems inactive_filter by (intro concat_one_active [where p = "active a"]) auto
  then have "?chain (concat (map ?f cs))"
  proof (elim disjE bexE)
    fix c assume c: "c \<in> set cs" "concat (map ?f cs) = ?f c"
    have "?chain (?f c)" using Die c(1) by (simp add: list_all_iff)
    then show ?thesis by (simp only: c(2))
  qed (simp only: sorted_wrt.simps)
  moreover have "set (concat (map ?f cs)) \<subseteq> set (preorder (Die i cs))" by auto
  ultimately show ?case by (auto simp: filter_concat comp_def)
qed


definition no_info :: die_info where
  "no_info = \<lparr>di_offset = 0, di_tag = DW_TAG_compile_unit, di_ranges = [], di_name = None, di_mipsLinkage = None,
     di_linkage = None, di_compDir = None, di_entry = None, di_declFile = None, di_declLine = None,
     di_declColumn = None, di_callFile = None, di_callLine = None, di_callColumn = None\<rparr>"

definition inline_die :: "u64 \<Rightarrow> u64 \<Rightarrow> u64 \<Rightarrow> die list \<Rightarrow> die" where
  "inline_die offset low high = Die (no_info\<lparr>di_offset := offset, di_tag := DW_TAG_inlined_subroutine,
     di_ranges := [\<lparr>dr_low = low, dr_high = high\<rparr>]\<rparr>)"

definition inline_example :: die where
  "inline_example = Die (no_info\<lparr>di_tag := DW_TAG_subprogram\<rparr>)
     [inline_die 1 10 20 [inline_die 2 10 12 []],
      Die (no_info\<lparr>di_tag := DW_TAG_lexical_block\<rparr>) [inline_die 3 30 50 [inline_die 4 32 34 [], inline_die 5 40 50 []]]]"


section \<open>Subprograms\<close>

lemma addSubprograms_collected:
  "cu_subPrograms (addSubprograms m) = cu_subPrograms m @
     collected (\<lambda>d. mayHaveScopes d \<and> die_tag d \<noteq> DW_TAG_subprogram)
       (\<lambda>d. if die_tag d = DW_TAG_subprogram \<and> die_ranges d \<noteq> [] then [SubProgramDie d] else []) (cudie m)"
  unfolding addSubprograms_def
  by (subst walk_collects [where enter = "\<lambda>d. mayHaveScopes d \<and> die_tag d \<noteq> DW_TAG_subprogram"
        and found = "\<lambda>d. if die_tag d = DW_TAG_subprogram \<and> die_ranges d \<noteq> [] then [SubProgramDie d] else []"])
    (auto simp: SubProgramDie_eq mayHaveScopes_def)

text \<open>The subprograms of a unit, but for those inside other subprograms or in entries without scopes.\<close>

fun subprograms :: "die \<Rightarrow> die list" where
  "subprograms (Die i cs) =
     (if di_tag i = DW_TAG_subprogram then [Die i cs]
      else if mayHaveScopes (Die i cs) then concat (map subprograms cs) else [])"

lemma collected_subprograms:
  "collected (\<lambda>d. mayHaveScopes d \<and> die_tag d \<noteq> DW_TAG_subprogram)
     (\<lambda>d. if die_tag d = DW_TAG_subprogram \<and> die_ranges d \<noteq> [] then [SubProgramDie d] else []) d
   = map SubProgramDie (filter (\<lambda>d. die_ranges d \<noteq> []) (subprograms d))"
proof (induction d)
  case (Die i cs)
  let ?f = "collected (\<lambda>d. mayHaveScopes d \<and> die_tag d \<noteq> DW_TAG_subprogram)
     (\<lambda>d. if die_tag d = DW_TAG_subprogram \<and> die_ranges d \<noteq> [] then [SubProgramDie d] else [])"
  have "concat (map ?f cs) = concat (map (\<lambda>c. map SubProgramDie (filter (\<lambda>d. die_ranges d \<noteq> []) (subprograms c))) cs)"
    using Die by (intro arg_cong [where f = concat] map_cong) simp_all
  then show ?case by (simp add: map_concat filter_concat comp_def)
qed

lemma find_map: "find p (map f xs) = map_option f (find (p \<circ> f) xs)"
  by (induction xs) auto

lemma find_filter_implied: "(\<And>x. p x \<Longrightarrow> q x) \<Longrightarrow> find p (filter q xs) = find p xs"
  by (induction xs) auto

lemma find_takeWhile:
  "find p xs = (let n = length (takeWhile (\<lambda>x. \<not> p x) xs) in if n = length xs then None else Some (xs ! n))"
  by (induction xs) auto


definition subprograms_cached :: "cu_mapping \<Rightarrow> bool" where
  "subprograms_cached m \<longleftrightarrow> cu_subPrograms m \<in> {[], map SubProgramDie (filter (\<lambda>d. die_ranges d \<noteq> []) (subprograms (cudie m)))}"

lemma ranges_contain_subprogram: "ranges_contain a (SubProgramDie d) \<longleftrightarrow> list_ex (range_contains a) (die_ranges d)"
  by (simp add: ranges_contain_def SubProgramDie_eq)

lemma cudie_addSubprograms [simp]: "cudie (addSubprograms m) = cudie m"
  by (simp add: addSubprograms_def cudie_def)

lemma findSubprogramDie_first:
  assumes "subprograms_cached m" "findSubprogramDie offset m = (r, m')"
  shows "r = map_option SubProgramDie (find (\<lambda>d. list_ex (range_contains offset) (die_ranges d)) (subprograms (cudie m)))
    \<and> subprograms_cached m' \<and> cudie m' = cudie m"
proof -
  let ?all = "map SubProgramDie (filter (\<lambda>d. die_ranges d \<noteq> []) (subprograms (cudie m)))"
  have m': "m' = (if cu_subPrograms m = [] then addSubprograms m else m)"
    "r = find (ranges_contain offset) (cu_subPrograms m')"
    using assms(2) by (auto simp: findSubprogramDie_def Let_def)
  have "cu_subPrograms m' = ?all"
    using assms(1) m'(1) by (auto simp: subprograms_cached_def addSubprograms_collected collected_subprograms)
  moreover have "find (ranges_contain offset) ?all
      = map_option SubProgramDie (find (\<lambda>d. list_ex (range_contains offset) (die_ranges d)) (subprograms (cudie m)))"
    by (subst find_map, subst find_filter_implied) (auto simp: comp_def ranges_contain_subprogram)
  ultimately show ?thesis using m' by (auto simp: subprograms_cached_def)
qed

lemma CuDieRangeMapping_ranges:
  "dr_ranges (cu_ranges (CuDieRangeMapping d bias))
    = map (\<lambda>r. \<lparr>dr_low = dr_low r + bias, dr_high = dr_high r + bias\<rparr>) (die_ranges d)"
  by (simp add: CuDieRangeMapping_def walkRanges_collect)

lemma cudie_mapping [simp]: "cudie (CuDieRangeMapping d bias) = d" "cu_bias (CuDieRangeMapping d bias) = bias"
  "subprograms_cached (CuDieRangeMapping d bias)"
  by (simp_all add: CuDieRangeMapping_def cudie_def subprograms_cached_def)

text \<open>Whether a unit contains an address, with its bias; a range that wraps around contains nothing.\<close>

definition unit_contains :: "u64 \<Rightarrow> die \<times> u64 \<Rightarrow> bool" where
  "unit_contains addr u \<longleftrightarrow> (case u of (d, bias) \<Rightarrow>
     list_ex (\<lambda>r. dr_low r + bias \<le> addr \<and> addr < dr_high r + bias) (die_ranges d))"

lemma ranges_contain_mapping: "ranges_contain addr (cu_ranges (CuDieRangeMapping d bias)) \<longleftrightarrow> unit_contains addr (d, bias)"
  by (auto simp: ranges_contain_def CuDieRangeMapping_ranges unit_contains_def range_contains_def list_ex_iff)

lemma findCuDie_first:
  "map_option (\<lambda>k. (cudie (PerfDwarfDieCache units ! k), cu_bias (PerfDwarfDieCache units ! k)))
     (findCuDie addr (PerfDwarfDieCache units)) = find (unit_contains addr) units"
proof -
  let ?ms = "map (\<lambda>(d, bias). CuDieRangeMapping d bias) units"
  let ?p = "\<lambda>m. ranges_contain addr (cu_ranges m)" and ?q = "\<lambda>m. dr_ranges (cu_ranges m) \<noteq> []"
  have pq: "?p m \<Longrightarrow> ?q m" for m by (auto simp: ranges_contain_def)
  have "map_option (\<lambda>k. PerfDwarfDieCache units ! k) (findCuDie addr (PerfDwarfDieCache units))
      = find ?p (PerfDwarfDieCache units)"
    by (simp add: findCuDie_def find_takeWhile Let_def)
  also have "\<dots> = find ?p ?ms" unfolding PerfDwarfDieCache_def by (rule find_filter_implied) (rule pq)
  also have "\<dots> = map_option (\<lambda>(d, bias). CuDieRangeMapping d bias) (find (unit_contains addr) units)"
    by (subst find_map) (auto simp: comp_def case_prod_unfold ranges_contain_mapping)
  finally have "map_option (\<lambda>m. (cudie m, cu_bias m)) (map_option (\<lambda>k. PerfDwarfDieCache units ! k) (findCuDie addr (PerfDwarfDieCache units)))
      = map_option (\<lambda>m. (cudie m, cu_bias m)) (map_option (\<lambda>(d, bias). CuDieRangeMapping d bias) (find (unit_contains addr) units))"
    by simp
  then show ?thesis by (simp add: option.map_comp comp_def case_prod_unfold option.map_ident)
qed

section \<open>Names\<close>

text \<open>The scopes around an entry that its name is composed of, innermost first, and the name they give.\<close>

definition enclosing :: "dwarf_access \<Rightarrow> die \<Rightarrow> die list" where
  "enclosing dw d = butlast (tl (dw_scopes dw d))"

definition named :: "die \<Rightarrow> bool" where
  "named d \<longleftrightarrow> linkageName d \<noteq> None \<or> (\<exists>n. di_name (die_info d) = Some n \<and> n \<noteq> [])"

definition within :: "bytes option \<Rightarrow> bytes \<Rightarrow> bytes" where
  "within scope name = (case scope of None \<Rightarrow> name | Some q \<Rightarrow> q @ ascii ''::'' @ name)"

fun scope_name :: "(bytes \<Rightarrow> bytes) \<Rightarrow> die list \<Rightarrow> bytes option" where
  "scope_name dm [] = None"
| "scope_name dm (s # ss) =
     (case linkageName s of
        Some l \<Rightarrow> Some (dm l)
      | None \<Rightarrow> (case di_name (die_info s) of
          Some n \<Rightarrow> Some (within (scope_name dm ss) n)
        | None \<Rightarrow> scope_name dm ss))"

definition full_name :: "(bytes \<Rightarrow> bytes) \<Rightarrow> dwarf_access \<Rightarrow> die \<Rightarrow> bytes" where
  "full_name dm dw d =
     (case linkageName d of
        Some l \<Rightarrow> dm l
      | None \<Rightarrow> within (scope_name dm (enclosing dw (case dw_specification dw d of Some sp \<Rightarrow> sp | None \<Rightarrow> d)))
          (case di_name (die_info d) of Some n \<Rightarrow> n | None \<Rightarrow> []))"

text \<open>
  Entries libdw answers consistently for: offsets identify them, the scopes of a scope are those after it, and no
  scope is itself the completion of another entry. The demangler leaves composed names as they are.
\<close>

definition consistent :: "(bytes \<Rightarrow> bytes) \<Rightarrow> dwarf_access \<Rightarrow> die set \<Rightarrow> bool" where
  "consistent dm dw ds \<longleftrightarrow> inj_on die_offset ds \<and> (\<forall>d \<in> ds.
     (case enclosing dw d of [] \<Rightarrow> True
      | s # ss \<Rightarrow> s \<in> ds \<and> dw_specification dw s = None \<and> enclosing dw s = ss \<and> di_name (die_info s) \<noteq> Some [])
     \<and> (case dw_specification dw d of None \<Rightarrow> True | Some sp \<Rightarrow> sp \<in> ds \<and> d \<notin> set (enclosing dw sp))
     \<and> (named d \<longrightarrow> full_name dm dw d \<noteq> []
         \<and> (linkageName d = None \<longrightarrow> dm (full_name dm dw d) = full_name dm dw d)))"

definition cached_names :: "(bytes \<Rightarrow> bytes) \<Rightarrow> dwarf_access \<Rightarrow> die set \<Rightarrow> name_cache \<Rightarrow> bool" where
  "cached_names dm dw ds cache \<longleftrightarrow>
     (\<forall>d \<in> ds. \<forall>c. cache (die_offset d) = Some c \<longrightarrow> named d \<and> c = full_name dm dw d)"

lemma within_append: "within q (n @ ascii ''::'' @ name) = within q n @ ascii ''::'' @ name"
  by (simp add: within_def split: option.split)

lemma consistent_scope:
  assumes "consistent dm dw ds" "d \<in> ds" "enclosing dw d = s # ss"
  shows "s \<in> ds" "enclosing dw s = ss" "dw_specification dw s = None" "di_name (die_info s) \<noteq> Some []"
    "named s \<Longrightarrow> scope_name dm (s # ss) = Some (full_name dm dw s)"
    "\<not> named s \<Longrightarrow> scope_name dm (s # ss) = scope_name dm ss"
proof -
  show 1: "s \<in> ds" "enclosing dw s = ss" "dw_specification dw s = None" "di_name (die_info s) \<noteq> Some []"
    using assms by (force simp: consistent_def)+
  show "named s \<Longrightarrow> scope_name dm (s # ss) = Some (full_name dm dw s)"
    "\<not> named s \<Longrightarrow> scope_name dm (s # ss) = scope_name dm ss"
    using 1 by (auto simp: named_def full_name_def split: option.splits)
qed

text \<open>Where the operations of the cache point to in the composed name.\<close>

definition names_scope :: "(bytes \<Rightarrow> bytes) \<Rightarrow> dwarf_access \<Rightarrow> die list \<Rightarrow> bytes \<Rightarrow> u64 \<times> nat \<Rightarrow> bool" where
  "names_scope dm dw ss name op \<longleftrightarrow>
     (\<exists>s \<in> set ss. fst op = die_offset s \<and> named s \<and> take (length name - snd op) name = full_name dm dw s)"

lemma names_scope_Cons: "names_scope dm dw ss name op \<Longrightarrow> names_scope dm dw (s # ss) name op"
  by (auto simp: names_scope_def)

lemma scope_loop_names:
  assumes "consistent dm dw ds" "d \<in> ds" "enclosing dw d = ss" "name \<noteq> []"
    and "\<And>s c. s \<in> set ss \<Longrightarrow> cache (die_offset s) = Some c \<Longrightarrow> named s \<and> c = full_name dm dw s"
  shows "\<exists>ops'. scope_loop dm dw cache ss name ops = (within (scope_name dm ss) name, ops @ ops', None)
    \<and> list_all (names_scope dm dw ss (within (scope_name dm ss) name)) ops'"
  using assms(2-)
proof (induction ss arbitrary: d name ops)
  case Nil
  then show ?case by (simp add: within_def)
next
  case (Cons s ss)
  note s = consistent_scope [OF assms(1) Cons.prems(1,2)]
  let ?whole = "within (scope_name dm (s # ss)) name"
  have here: "names_scope dm dw (s # ss) ?whole (die_offset s, length (ascii ''::'' @ name))" if "named s"
    using s(5) [OF that] that by (auto simp: names_scope_def within_def)
  show ?case
  proof (cases "cache (die_offset s)")
    case (Some c)
    with Cons.prems(4) [of s c] s(5) Cons.prems(3) show ?thesis
      by (intro exI [of _ "[]"]) (auto simp: within_def)
  next
    case None
    show ?thesis
    proof (cases "linkageName s")
      case (Some l)
      then have "named s" by (simp add: named_def)
      with here None Some show ?thesis
        by (intro exI [of _ "[(die_offset s, length (ascii ''::'' @ name))]"]) (simp add: within_def)
    next
      case no_link: None
      show ?thesis
      proof (cases "di_name (die_info s)")
        case (Some n)
        then have "named s" using s(4) by (auto simp: named_def)
        let ?name = "n @ ascii ''::'' @ name" and ?op = "(die_offset s, length (ascii ''::'' @ name))"
        have whole: "within (scope_name dm ss) ?name = ?whole"
          using no_link Some by (simp add: within_append) (simp add: within_def)
        obtain ops' where "scope_loop dm dw cache ss ?name (ops @ [?op]) = (?whole, (ops @ [?op]) @ ops', None)"
          "list_all (names_scope dm dw ss ?whole) ops'"
          using Cons.IH [OF s(1,2), of ?name "ops @ [?op]"] Cons.prems(3,4) whole by auto
        then show ?thesis
          using None no_link Some s(3) here [OF \<open>named s\<close>]
          by (intro exI [of _ "?op # ops'"]) (auto simp: list_all_iff intro: names_scope_Cons simp del: scope_name.simps)
      next
        case no_name: None
        with no_link have "\<not> named s" by (simp add: named_def)
        obtain ops' where "scope_loop dm dw cache ss name ops = (within (scope_name dm ss) name, ops @ ops', None)"
          "list_all (names_scope dm dw ss (within (scope_name dm ss) name)) ops'"
          using Cons.IH [OF s(1,2), of name ops] Cons.prems(3,4) by auto
        then show ?thesis
          using None no_link no_name s(3) s(6) [OF \<open>\<not> named s\<close>]
          by (intro exI [of _ ops']) (auto simp: list_all_iff intro: names_scope_Cons simp del: scope_name.simps)
      qed
    qed
  qed
qed

lemma store_names_cases:
  assumes "store_names name ops cache a = Some c"
  shows "cache a = Some c \<or> (\<exists>t. (a, t) \<in> set ops \<and> c = take (length name - t) name)"
  using assms
proof (induction ops arbitrary: cache)
  case (Cons op ops)
  have "store_names name ops (cache(fst op \<mapsto> take (length name - snd op) name)) a = Some c"
    using Cons.prems by (simp add: store_names_def case_prod_unfold)
  from Cons.IH [OF this] show ?case by (cases op) (auto split: if_splits)
qed (simp add: store_names_def)

lemma enclosing_in:
  assumes "consistent dm dw ds" "d \<in> ds"
  shows "set (enclosing dw d) \<subseteq> ds"
  using assms(2)
proof (induction "enclosing dw d" arbitrary: d)
  case (Cons s ss)
  from consistent_scope [OF assms(1) Cons.prems, of s ss] Cons.hyps(2)
  have s: "s \<in> ds" "enclosing dw s = ss" by simp_all
  with Cons.hyps(1) [of s] Cons.hyps(2) show ?case by (simp flip: Cons.hyps(2))
qed simp

lemma enclosing_not_self:
  assumes "consistent dm dw ds" "d \<in> ds"
  shows "d \<notin> set (enclosing dw d)"
proof -
  have "length (enclosing dw e) < length (enclosing dw d)" if "e \<in> set (enclosing dw d)" for e
    using assms(2) that
  proof (induction "enclosing dw d" arbitrary: d)
    case (Cons s ss)
    from consistent_scope [OF assms(1) Cons.prems(1), of s ss] Cons.hyps(2)
    have s: "s \<in> ds" "enclosing dw s = ss" by simp_all
    with Cons.hyps(1) [of s] Cons.hyps(2) Cons.prems(2) show ?case
      by (cases "e = s") (auto simp flip: Cons.hyps(2) intro: less_SucI)
  qed simp
  then show ?thesis by blast
qed

lemma dieName_full:
  assumes "consistent dm dw ds" "cached_names dm dw ds (cu_names m)" "d \<in> ds" "named d"
  shows "\<exists>m'. dieName dm dw d m = Some (full_name dm dw d, m') \<and> cached_names dm dw ds (cu_names m')"
proof -
  have full: "full_name dm dw d \<noteq> []" "linkageName d = None \<Longrightarrow> dm (full_name dm dw d) = full_name dm dw d"
    using assms(1,3,4) by (auto simp: consistent_def)
  have inj: "inj_on die_offset ds" using assms(1) by (simp add: consistent_def)
  have same: "e = d" if "e \<in> ds" "die_offset e = die_offset d" for e
    using inj_onD [OF inj] that assms(3) by blast
  show ?thesis
  proof (cases "cu_names m (die_offset d)")
    case (Some c)
    with assms(2,3) have "c = full_name dm dw d" by (auto simp: cached_names_def)
    with Some assms(2) full show ?thesis by (simp add: dieName_def)
  next
    case None
    let ?cache = "(cu_names m)(die_offset d \<mapsto> [])"
    have store: "cached_names dm dw ds (cache(die_offset d \<mapsto> full_name dm dw d))"
      if "\<And>e c. e \<in> ds \<Longrightarrow> e \<noteq> d \<Longrightarrow> cache (die_offset e) = Some c \<Longrightarrow> named e \<and> c = full_name dm dw e" for cache
      using that same assms(4) by (auto simp: cached_names_def split: if_splits)
    have cache: "named e \<and> c = full_name dm dw e" if "e \<in> ds" "e \<noteq> d" "?cache (die_offset e) = Some c" for e c
      using that same assms(2) by (auto simp: cached_names_def split: if_splits)
    show ?thesis
    proof (cases "linkageName d")
      case (Some l)
      then have "full_name dm dw d = dm l" by (simp add: full_name_def)
      with Some None store [of ?cache] cache show ?thesis
        by (auto simp: dieName_def qualifiedDieName_def)
    next
      case no_link: None
      then obtain n where n: "di_name (die_info d) = Some n" "n \<noteq> []" using assms(4) by (auto simp: named_def)
      define e where "e = (case dw_specification dw d of Some sp \<Rightarrow> sp | None \<Rightarrow> d)"
      have e: "e \<in> ds" "d \<notin> set (enclosing dw e)"
        using assms(1,3) enclosing_not_self [OF assms(1,3)] by (auto simp: e_def consistent_def split: option.splits)
      have whole: "within (scope_name dm (enclosing dw e)) n = full_name dm dw d"
        using no_link n by (simp add: full_name_def e_def)
      have "named s \<and> c = full_name dm dw s" if "s \<in> set (enclosing dw e)" "?cache (die_offset s) = Some c" for s c
        using cache [of s c] that e enclosing_in [OF assms(1) e(1)] by blast
      then obtain ops where loop: "scope_loop dm dw ?cache (enclosing dw e) n [] = (full_name dm dw d, ops, None)"
        and ops: "list_all (names_scope dm dw (enclosing dw e) (full_name dm dw d)) ops"
        using scope_loop_names [OF assms(1) e(1) refl n(2), of ?cache "[]"] unfolding whole by auto
      let ?stored = "store_names (full_name dm dw d) ops ?cache"
      have q: "qualifiedDieName dm dw d ?cache = Some (full_name dm dw d, ?stored)"
        using no_link n loop
        by (simp add: qualifiedDieName_def prependScopeNames.simps [of _ _ _ e] enclosing_def flip: e_def)
      have "named f \<and> c = full_name dm dw f" if "f \<in> ds" "f \<noteq> d" "?stored (die_offset f) = Some c" for f c
        using store_names_cases [OF that(3)]
      proof (elim disjE exE conjE)
        assume "?cache (die_offset f) = Some c"
        then show ?thesis by (rule cache [OF that(1,2)])
      next
        fix t assume "(die_offset f, t) \<in> set ops" and c: "c = take (length (full_name dm dw d) - t) (full_name dm dw d)"
        then obtain s where s: "s \<in> set (enclosing dw e)" "die_offset f = die_offset s" "named s"
          "take (length (full_name dm dw d) - t) (full_name dm dw d) = full_name dm dw s"
          using ops by (auto simp: list_all_iff names_scope_def)
        then have "f = s" using inj_onD [OF inj] that(1) enclosing_in [OF assms(1) e(1)] by blast
        with s c show ?thesis by simp
      qed
      with store [of ?stored] no_link None full(2) q show ?thesis
        by (auto simp: dieName_def)
    qed
  qed
qed

primrec names_of :: "(bytes \<Rightarrow> bytes) \<Rightarrow> dwarf_access \<Rightarrow> die list \<Rightarrow> cu_mapping \<Rightarrow> bytes list option" where
  "names_of dm dw [] m = Some []"
| "names_of dm dw (d # ds) m =
     Option.bind (dieName dm dw d m) (\<lambda>(name, m). map_option ((#) name) (names_of dm dw ds m))"


text \<open>A namespace with a class and two of its functions.\<close>

definition scope_die :: "u64 \<Rightarrow> die_tag \<Rightarrow> string \<Rightarrow> die" where
  "scope_die offset t name = Die (no_info\<lparr>di_offset := offset, di_tag := t, di_name := Some (ascii name)\<rparr>) []"

abbreviation "unit_die \<equiv> scope_die 0 DW_TAG_compile_unit ''a.cpp''"
abbreviation "ns_die \<equiv> scope_die 1 DW_TAG_namespace ''ns''"
abbreviation "class_die \<equiv> scope_die 2 DW_TAG_class_type ''Foo''"
abbreviation "bar_die \<equiv> scope_die 3 DW_TAG_subprogram ''bar''"
abbreviation "baz_die \<equiv> scope_die 4 DW_TAG_subprogram ''baz''"

definition class_access :: dwarf_access where
  "class_access = \<lparr>dw_scopes = (\<lambda>d. if die_offset d \<in> {3, 4} then [d, class_die, ns_die, unit_die]
       else if die_offset d = 2 then [d, ns_die, unit_die] else [d, unit_die]),
     dw_specification = (\<lambda>_. None)\<rparr>"


text \<open>
  A class that completes a declaration elsewhere is cached under what stands in front of its name, with the
  separator: the first of its functions has the right name, the second lacks the class.
\<close>

definition completed_access :: dwarf_access where
  "completed_access = \<lparr>dw_scopes = (\<lambda>d. if die_offset d \<in> {3, 4} then [d, class_die, unit_die]
       else if die_offset d = 5 then [d, ns_die, unit_die] else [d, unit_die]),
     dw_specification = (\<lambda>d. if die_offset d = 2 then Some (scope_die 5 DW_TAG_class_type ''Foo'') else None)\<rparr>"

lemma completed_scope_name:
  "names_of (\<lambda>s. s) completed_access [bar_die, baz_die] (CuDieRangeMapping unit_die 0)
    = Some [ascii ''ns::Foo::bar'', ascii ''ns::::baz'']"
  by code_simp

end
