(* ===== verification/PltSymbols.thy ===== *)
theory PltSymbols
  imports Algorithms FileLookup
begin

text \<open>
  The part of \<open>app/perfsymboltable.cpp\<close> that names an address by the section it is in: the symbol behind an
  entry of the procedure linkage table, and the fake symbols for other sections. An ELF file is the list of its
  sections in order, each with the header libelf gives for it, of 64 or 32 bits, and its data read as the entries
  the code takes it for.
\<close>

record elf_shdr =
  sh_type :: u32
  sh_addr :: u64
  sh_size :: u64
  sh_entsize :: u64
  sh_name :: u64
  sh_link :: u64

record elf_data =
  da_dyn :: "(s64 \<times> u64) list"
  da_rel :: "(u64 \<times> u64) list"
  da_sym :: "u64 list"

text \<open>\<open>None\<close>: a section without a header of either kind.\<close>

datatype elf_section = Section64 elf_shdr elf_data | Section32 elf_shdr elf_data | NoSection

record elf_file =
  ef_sections :: "elf_section list option"
  ef_strptr :: "u64 \<Rightarrow> u64 \<Rightarrow> bytes option"
  ef_shstrndx :: "u64 option"

definition SHT_RELA :: u32 where "SHT_RELA = 4"
definition SHT_DYNAMIC :: u32 where "SHT_DYNAMIC = 6"
definition SHT_REL :: u32 where "SHT_REL = 9"
definition SHT_DYNSYM :: u32 where "SHT_DYNSYM = 11"
definition DT_PLTGOT :: s64 where "DT_PLTGOT = 3"

text \<open>The macros that take the index of the symbol out of a relocation, as an \<open>int\<close>.\<close>

definition symbolIndex64 :: "u64 \<Rightarrow> s32" where
  "symbolIndex64 r_info = ucast (drop_bit 32 r_info)"

definition symbolIndex32 :: "u64 \<Rightarrow> s32" where
  "symbolIndex32 r_info = drop_bit 8 (ucast r_info)"

definition findPltSymbolIndex ::
  "(u64 \<Rightarrow> s32) \<Rightarrow> u64 \<Rightarrow> elf_shdr \<Rightarrow> elf_data \<Rightarrow> u64 \<Rightarrow> s32"
where
  "findPltSymbolIndex symbolIndex relSize shdr d addr =
     (if sh_entsize shdr \<noteq> relSize then - 1
      else let entries = take (unat (sh_size shdr div sh_entsize shdr)) (da_rel d);
               i = lower_bound fst entries addr in
        if i = length entries \<or> fst (entries ! i) \<noteq> addr then - 1
        else symbolIndex (snd (entries ! i)))"

text \<open>A section of entries without a size divides by zero.\<close>

definition findPltGotAddr :: "elf_shdr \<Rightarrow> elf_data \<Rightarrow> u64" where
  "findPltGotAddr shdr d =
     (case find (\<lambda>(tag, _). tag = DT_PLTGOT) (take (unat (sh_size shdr div sh_entsize shdr)) (da_dyn d)) of
        Some (_, p) \<Rightarrow> p
      | None \<Rightarrow> 0)"

fun dynamic_step :: "elf_section \<Rightarrow> u64 \<times> elf_section option \<Rightarrow> u64 \<times> elf_section option" where
  "dynamic_step (Section64 shdr d) (pltGotAddr, symtab) =
     (if sh_type shdr = SHT_DYNAMIC then (findPltGotAddr shdr d, symtab)
      else if sh_type shdr = SHT_DYNSYM then (pltGotAddr, Some (Section64 shdr d))
      else (pltGotAddr, symtab))"
| "dynamic_step (Section32 shdr d) (pltGotAddr, symtab) =
     (if sh_type shdr = SHT_DYNAMIC then (findPltGotAddr shdr d, symtab)
      else if sh_type shdr = SHT_DYNSYM then (pltGotAddr, Some (Section32 shdr d))
      else (pltGotAddr, symtab))"
| "dynamic_step NoSection r = r"

primrec find_dynamic :: "elf_section list \<Rightarrow> u64 \<times> elf_section option \<Rightarrow> u64 \<times> elf_section option" where
  "find_dynamic [] r = r"
| "find_dynamic (s # ss) r =
     (if fst r = 0 \<or> snd r = None then find_dynamic ss (dynamic_step s r) else r)"

definition in_section :: "u64 \<Rightarrow> elf_shdr \<Rightarrow> bool" where
  "in_section a shdr \<longleftrightarrow> sh_addr shdr \<le> a \<and> a < sh_addr shdr + sh_size shdr"

text \<open>The address of the entry of the global offset table; the index is multiplied as a \<open>size_t\<close>.\<close>

fun index_step :: "u64 \<Rightarrow> s32 \<Rightarrow> elf_section \<Rightarrow> u64" where
  "index_step pltGotAddr i (Section64 shdr d) =
     (if in_section pltGotAddr shdr then sh_addr shdr + scast (i + 2) * 8 else 0)"
| "index_step pltGotAddr i (Section32 shdr d) =
     (if in_section pltGotAddr shdr then sh_addr shdr + scast (i + 2) * 4 else 0)"
| "index_step pltGotAddr i NoSection = 0"

primrec find_index :: "u64 \<Rightarrow> s32 \<Rightarrow> elf_section list \<Rightarrow> u64" where
  "find_index pltGotAddr i [] = 0"
| "find_index pltGotAddr i (s # ss) =
     (let indexAddr = index_step pltGotAddr i s in
      if indexAddr \<noteq> 0 then indexAddr else find_index pltGotAddr i ss)"

fun relocation_step :: "u64 \<Rightarrow> elf_section \<Rightarrow> s32" where
  "relocation_step indexAddr (Section64 shdr d) =
     (if sh_type shdr = SHT_REL then findPltSymbolIndex symbolIndex64 16 shdr d indexAddr
      else if sh_type shdr = SHT_RELA then findPltSymbolIndex symbolIndex64 24 shdr d indexAddr
      else - 1)"
| "relocation_step indexAddr (Section32 shdr d) =
     (if sh_type shdr = SHT_REL then findPltSymbolIndex symbolIndex32 8 shdr d indexAddr
      else if sh_type shdr = SHT_RELA then findPltSymbolIndex symbolIndex32 12 shdr d indexAddr
      else - 1)"
| "relocation_step indexAddr NoSection = - 1"

primrec find_relocation :: "u64 \<Rightarrow> elf_section list \<Rightarrow> s32" where
  "find_relocation indexAddr [] = - 1"
| "find_relocation indexAddr (s # ss) =
     (let symbolIndex = relocation_step indexAddr s in
      if symbolIndex \<noteq> - 1 then symbolIndex else find_relocation indexAddr ss)"

fun symbol_string :: "elf_file \<Rightarrow> s32 \<Rightarrow> elf_section \<Rightarrow> bytes option" where
  "symbol_string elf symbolIndex (Section64 shdr d) =
     (if 0 \<le> sint symbolIndex \<and> nat (sint symbolIndex) < unat (sh_size shdr div sh_entsize shdr)
      then ef_strptr elf (sh_link shdr) (da_sym d ! nat (sint symbolIndex)) else None)"
| "symbol_string elf symbolIndex (Section32 shdr d) =
     (if 0 \<le> sint symbolIndex \<and> nat (sint symbolIndex) < unat (sh_size shdr div sh_entsize shdr)
      then ef_strptr elf (sh_link shdr) (da_sym d ! nat (sint symbolIndex)) else None)"
| "symbol_string elf symbolIndex NoSection = None"

definition findPltSymbol :: "elf_file \<Rightarrow> s32 \<Rightarrow> bytes option" where
  "findPltSymbol elf i =
     (if i = 0 then None
      else case ef_sections elf of
        None \<Rightarrow> None
      | Some sections \<Rightarrow>
          (case find_dynamic sections (0, None) of
             (_, None) \<Rightarrow> None
           | (pltGotAddr, Some symtab) \<Rightarrow>
               if pltGotAddr = 0 then None
               else let indexAddr = find_index pltGotAddr i sections in
                 if indexAddr = 0 then None
                 else let symbolIndex = find_relocation indexAddr sections in
                   if symbolIndex = - 1 then None else symbol_string elf symbolIndex symtab))"

text \<open>\<open>QByteArray::number\<close> with base 16.\<close>

function number16 :: "nat \<Rightarrow> bytes" where
  "number16 n = (if n < 16 then [hex_digit (of_nat n)] else number16 (n div 16) @ [hex_digit (of_nat (n mod 16))])"
  by pat_completeness auto
termination by (relation "measure id") auto

declare number16.simps [simp del]

text \<open>
  \<open>elf\<close> is the module's file with its bias, \<open>section\<close> the section an address is in with the address made
  relative to it.
\<close>

definition fakeSymbolFromSection ::
  "(bytes \<Rightarrow> bytes) \<Rightarrow> (elf_file \<times> u64) option \<Rightarrow> (elf_section \<times> u64) option \<Rightarrow> u64 \<Rightarrow> bytes"
where
  "fakeSymbolFromSection dm elf section addr =
     (case (elf, section) of
        (Some (elf, bias), Some (section, relAddr)) \<Rightarrow>
          (let moduleAddr = addr - bias;
               (nameOffset, entsize) = (case section of
                   Section64 shdr _ \<Rightarrow> (sh_name shdr, sh_entsize shdr)
                 | Section32 shdr _ \<Rightarrow> (sh_name shdr, sh_entsize shdr)
                 | NoSection \<Rightarrow> (0, 0)) in
           case Option.bind (ef_shstrndx elf) (\<lambda>i. ef_strptr elf i nameOffset) of
             None \<Rightarrow> []
           | Some str \<Rightarrow>
               if str = ascii ''.text'' then []
               else case (if str = ascii ''.plt'' \<and> entsize > 0
                          then findPltSymbol elf (ucast (relAddr div entsize)) else None) of
                 Some pltSymbol \<Rightarrow> dm pltSymbol @ ascii ''@plt''
               | None \<Rightarrow> ascii ''<'' @ str @ ascii ''+'' @ number16 (unat moduleAddr) @ ascii ''>'')
      | _ \<Rightarrow> [])"

section \<open>Relocations\<close>

lemma findPltSymbolIndex_found:
  assumes "sh_entsize shdr = relSize" "sorted (map fst (da_rel d))" "distinct (map fst (da_rel d))"
    "unat (sh_size shdr div relSize) = length (da_rel d)" "(addr, info) \<in> set (da_rel d)"
  shows "findPltSymbolIndex symbolIndex relSize shdr d addr = symbolIndex info"
proof -
  obtain i where i: "i < length (da_rel d)" "da_rel d ! i = (addr, info)"
    using assms(5) by (auto simp: in_set_conv_nth)
  have st: "sorted_wrt (<) (map fst (da_rel d))" using assms(2,3) by (simp add: strict_sorted_iff)
  have "lower_bound fst (da_rel d) addr = i"
    unfolding lower_bound_def
  proof (rule part_search_point)
    fix j assume "0 \<le> j" "j < i"
    with sorted_wrt_nth_less [OF st, of j i] i show "fst (da_rel d ! j) < addr" by simp
  next
    fix j assume "i \<le> j" "j < 0 + length (da_rel d)"
    then show "\<not> fst (da_rel d ! j) < addr"
      using sorted_wrt_nth_less [OF st, of i j] i by (cases "i = j") auto
  qed (use i in auto)
  with i assms(1,4) show ?thesis by (simp add: findPltSymbolIndex_def Let_def)
qed

end
