(* ===== verification/SymbolTable.thy ===== *)
theory SymbolTable
  imports Unwind AddressCache Kallsyms RegisterInfo DwarfDies PltSymbols
begin

text \<open>
  \<open>PerfSymbolTable\<close> of \<open>app/perfsymboltable.h\<close>, \<open>app/perfsymboltable.cpp\<close>: the binaries of a process, the symbols
  of its JIT compiler, and the resolution of an address to a location. libdwfl and libdw are parameters: a session
  of libdwfl is a value of type \<open>'w\<close>, its modules are values of type \<open>'m\<close>, and a function of the library gives its
  answer with the session after it. \<open>dwfl_begin\<close> is taken to succeed, as the constructor does. What libdwfl calls
  back to find debugging information is \<open>findDebugInfo\<close>; the strings it resolves meanwhile are not modelled.
\<close>

section \<open>The state\<close>

record perf_map_symbol =
  pm_start :: u64
  pm_length :: u64
  pm_name :: bytes

text \<open>The file a table was first opened with, and whether libelf has it open.\<close>

record elf_and_file =
  ea_fullPath :: bytes
  ea_elf :: bool

record ('w, 'm) proc_symbols =
  pt_pid :: s32
  pt_perfMapFile :: bytes
  pt_hasPerfMap :: bool
  pt_linesRead :: nat
  pt_perfMap :: "perf_map_symbol list"
  pt_cacheIsDirty :: bool
  pt_dwfl :: 'w
  pt_firstElf :: elf_and_file
  pt_elfs :: elf_map
  pt_invalidAddressCache :: offset_address_cache
  pt_cuDieRanges :: "'m \<rightharpoonup> cu_mapping list"
  pt_currentFindDebugInfoModule :: s32

text \<open>The part of \<open>PerfUnwind\<close> the tables use.\<close>

record symbol_unwind = unwind +
  su_addressCache :: address_cache
  su_kallsyms :: kallsyms
  su_architecture :: architecture

text \<open>
  Everything that is not in the sources: the file system and the conversions of Qt, the sorts of the standard
  library, the demangler, libdw, and libdwfl. \<open>li_report\<close> reports a file for an address between the calls that
  begin and end a report and gives the module with its bounds; \<open>li_clear\<close> is a report of nothing.
\<close>

record ('w, 'm) symbol_lib =
  li_fs :: file_system
  li_paths :: search_paths
  li_depth :: nat
  li_number :: "s32 \<Rightarrow> bytes"
  li_number16 :: "bytes \<Rightarrow> u64 option"
  li_missing :: "bytes \<Rightarrow> u16 list"
  li_badKallsyms :: "bytes \<Rightarrow> kallsyms_error option \<Rightarrow> u16 list"
  li_sortMap :: "perf_map_symbol list \<Rightarrow> perf_map_symbol list"
  li_sortKallsyms :: "kallsym_entry list \<Rightarrow> kallsym_entry list"
  li_readKallsyms :: "bytes \<Rightarrow> bytes + kallsyms_row list"
  li_demangle :: "bytes \<Rightarrow> bytes"
  li_dwarf :: dwarf_access
  li_getsrc :: "die \<Rightarrow> u64 \<Rightarrow> (bytes option \<times> s32 option \<times> s32 option) option"
  li_filesrc :: "die \<Rightarrow> u64 \<Rightarrow> bytes option"
  li_begin :: 'w
  li_clear :: "'w \<Rightarrow> 'w"
  li_addrmodule :: "'w \<Rightarrow> u64 \<Rightarrow> 'm option"
  li_moduleStart :: "'w \<Rightarrow> 'm \<Rightarrow> u64"
  li_report :: "bytes \<Rightarrow> bytes \<Rightarrow> u64 \<Rightarrow> 'w \<Rightarrow> ('m \<times> u64 \<times> u64) option \<times> 'w"
  li_pid :: "'w \<Rightarrow> s32"
  li_attach :: "elf_and_file \<Rightarrow> s32 \<Rightarrow> 'w \<Rightarrow> 'w option"
  li_symbols :: "'w \<Rightarrow> 'm \<Rightarrow> dwfl_sym option list"
  li_units :: "'w \<Rightarrow> 'm \<Rightarrow> (die \<times> u64) list"
  li_elf :: "'w \<Rightarrow> 'm \<Rightarrow> (elf_file \<times> u64) option"
  li_section :: "'w \<Rightarrow> 'm \<Rightarrow> u64 \<Rightarrow> (elf_section \<times> u64) option"

definition s_kernelPid :: s32 where "s_kernelPid = - 1"

definition ElfAndFile :: "file_system \<Rightarrow> bytes \<Rightarrow> elf_and_file" where
  "ElfAndFile fs path = \<lparr>ea_fullPath = path, ea_elf = fs_isElf fs (fs_absoluteFilePath fs path)\<rparr>"

definition noElfAndFile :: elf_and_file where
  "noElfAndFile = \<lparr>ea_fullPath = [], ea_elf = False\<rparr>"

definition file_info :: "file_system \<Rightarrow> bytes \<Rightarrow> qfileinfo" where
  "file_info fs path = \<lparr>fi_isFile = fs_isFile fs path, fi_fileName = fs_fileName fs path,
     fi_absoluteFilePath = fs_absoluteFilePath fs path\<rparr>"

definition newSymbolTable :: "('w, 'm) symbol_lib \<Rightarrow> s32 \<Rightarrow> ('w, 'm) proc_symbols" where
  "newSymbolTable lib pid =
     (let path = perfMapFile (li_fs lib) (li_number lib) (sp_customPerfMapPath (li_paths lib)) pid in
      \<lparr>pt_pid = pid, pt_perfMapFile = path, pt_hasPerfMap = fs_exists (li_fs lib) path, pt_linesRead = 0,
       pt_perfMap = [], pt_cacheIsDirty = False, pt_dwfl = li_clear lib (li_begin lib),
       pt_firstElf = noElfAndFile, pt_elfs = empty_map, pt_invalidAddressCache = Map.empty,
       pt_cuDieRanges = Map.empty, pt_currentFindDebugInfoModule = - 1\<rparr>)"

section \<open>The symbols of a JIT compiler\<close>

text \<open>
  \<open>symbolFromPerfMap\<close> gives the name and the offset in the symbol; the end of a symbol may wrap around.
\<close>

definition symbolFromPerfMap :: "u64 \<Rightarrow> ('w, 'm) proc_symbols \<Rightarrow> bytes \<times> u64" where
  "symbolFromPerfMap ip t =
     (case upper_bound pm_start (pt_perfMap t) ip of
        0 \<Rightarrow> ([], 0)
      | Suc n \<Rightarrow>
          (let sym = pt_perfMap t ! n in
           if pm_start sym \<le> ip \<and> pm_start sym + pm_length sym > ip then (pm_name sym, ip - pm_start sym)
           else ([], 0)))"

primrec join_words :: "u8 \<Rightarrow> bytes list \<Rightarrow> bytes" where
  "join_words b [] = []"
| "join_words b (w # ws) = w @ concat (map ((#) b) ws)"

definition parse_map_line :: "(bytes \<Rightarrow> u64 option) \<Rightarrow> bytes \<Rightarrow> perf_map_symbol option" where
  "parse_map_line hex line =
     (case split 32 line of
        start # len # name # names \<Rightarrow>
          (case (hex start, hex len) of
             (Some start, Some len) \<Rightarrow>
               Some \<lparr>pm_start = start, pm_length = len, pm_name = trimmed (join_words 32 (name # names))\<rparr>
           | _ \<Rightarrow> None)
      | _ \<Rightarrow> None)"

text \<open>\<open>content\<close>: the lines the file has now, each with its end of line; a file that does not open has none.\<close>

definition updatePerfMap ::
  "('w, 'm) symbol_lib \<Rightarrow> bytes list \<Rightarrow> ('w, 'm) proc_symbols \<Rightarrow> ('w, 'm) proc_symbols"
where
  "updatePerfMap lib content t =
     (if \<not> pt_hasPerfMap t then t
      else let new = List.map_filter (parse_map_line (li_number16 lib)) (drop (pt_linesRead t) content) in
        t\<lparr>pt_linesRead := max (pt_linesRead t) (length content),
          pt_perfMap := (if new = [] then pt_perfMap t else li_sortMap lib (pt_perfMap t @ new))\<rparr>)"

definition containsAddress :: "u64 \<Rightarrow> ('w, 'm) proc_symbols \<Rightarrow> bool" where
  "containsAddress address t = isAddressInRange address (pt_elfs t)"

section \<open>Mappings\<close>

definition clearCache :: "('w, 'm) symbol_lib \<Rightarrow> ('w, 'm) proc_symbols \<Rightarrow> ('w, 'm) proc_symbols" where
  "clearCache lib t = t\<lparr>pt_invalidAddressCache := Map.empty, pt_cuDieRanges := Map.empty, pt_perfMap := [],
     pt_linesRead := 0, pt_dwfl := li_clear lib (pt_dwfl t), pt_cacheIsDirty := False\<rparr>"

text \<open>The slot connected to \<open>aboutToInvalidate\<close>.\<close>

definition about_to_invalidate ::
  "('w, 'm) symbol_lib \<Rightarrow> elf_info \<Rightarrow> ('w, 'm) proc_symbols \<Rightarrow> ('w, 'm) proc_symbols"
where
  "about_to_invalidate lib elf t =
     (if \<not> pt_cacheIsDirty t \<and> li_addrmodule lib (pt_dwfl t) (elf_addr elf) \<noteq> None
      then t\<lparr>pt_cacheIsDirty := True\<rparr> else t)"

definition special_region :: "bytes \<Rightarrow> bool" where
  "special_region filePath \<longleftrightarrow> filePath = []
     \<or> (starts_with (ascii ''['') filePath \<and> of_char CHR '']'' \<in> set filePath)
     \<or> starts_with (ascii ''/dev/'') filePath \<or> starts_with (ascii ''/memfd:'') filePath
     \<or> starts_with (ascii ''/SYSV'') filePath \<or> filePath = ascii ''//anon''"

text \<open>The file a mapping is of, with what finding it does to the table and to the output.\<close>

definition mapped_file ::
  "('w, 'm) symbol_lib \<Rightarrow> s32 \<Rightarrow> bytes \<Rightarrow> bytes \<Rightarrow> bytes \<Rightarrow> ('w, 'm) proc_symbols \<Rightarrow> 'a unwind_scheme
    \<Rightarrow> (qfileinfo \<times> ('w, 'm) proc_symbols \<times> 'a unwind_scheme) option"
where
  "mapped_file lib pid filePath fileName buildId t u =
     (let fs = li_fs lib in
      if special_region filePath then Some (no_file, t, u)
      else if pid \<noteq> s_kernelPid then
        map_option (\<lambda>fullPath.
            if \<not> fs_isFile fs fullPath
            then (file_info fs fullPath, t, sendError MissingElfFile (li_missing lib filePath) u)
            else let elf = ElfAndFile fs fullPath in
              if \<not> ea_elf elf then (no_file, t, u)
              else (file_info fs fullPath, if ea_elf (pt_firstElf t) then t else t\<lparr>pt_firstElf := elf\<rparr>, u))
          (findFile fs (li_paths lib) (li_depth lib) filePath fileName buildId)
      else let fullPath = sp_systemRoot (li_paths lib) @ filePath in
        Some (if ea_elf (ElfAndFile fs fullPath) then file_info fs fullPath else no_file, t, u))"

definition table_registerElf ::
  "('w, 'm) symbol_lib \<Rightarrow> mmap_record \<Rightarrow> bytes \<Rightarrow> ('w, 'm) proc_symbols \<Rightarrow> 'a unwind_scheme
    \<Rightarrow> (('w, 'm) proc_symbols \<times> 'a unwind_scheme) option"
where
  "table_registerElf lib mmap buildId t u =
     (let filePath = mm_filename mmap;
          fileName = (if special_region filePath then [] else fs_fileName (li_fs lib) filePath) in
      map_option (\<lambda>(fullPath, t, u).
          let (elfs, invalidated) =
                registerElf (mm_addr mmap) (mm_len mmap) (mm_pgoff mmap) fullPath fileName filePath (pt_elfs t);
              t = (fold (about_to_invalidate lib) invalidated t)\<lparr>pt_elfs := elfs\<rparr> in
          (if pt_cacheIsDirty t then clearCache lib t else t, u))
        (mapped_file lib (mm_pid mmap) filePath fileName buildId t u))"

definition initAfterFork ::
  "('w, 'm) symbol_lib \<Rightarrow> ('w, 'm) proc_symbols \<Rightarrow> ('w, 'm) proc_symbols \<Rightarrow> ('w, 'm) proc_symbols"
where
  "initAfterFork lib parent t =
     t\<lparr>pt_elfs := copyDataFrom (pt_elfs parent) (pt_elfs t),
       pt_firstElf := ElfAndFile (li_fs lib) (ea_fullPath (pt_firstElf parent))\<rparr>"

end
