(* ===== verification/Examples.thy ===== *)
theory Examples
  imports SymbolTable
begin

text \<open>A library without any module or file, and with two symbols of the kernel, for concrete inputs.\<close>

definition no_files :: file_system where
  "no_files = \<lparr>fs_isFile = \<lambda>_. False, fs_exists = \<lambda>_. False, fs_absoluteFilePath = \<lambda>p. p, fs_canonicalFilePath = \<lambda>_. [],
     fs_absoluteDir = \<lambda>p. p, fs_path = \<lambda>p. p, fs_fileName = \<lambda>p. p, fs_filePath = \<lambda>d e. d @ e, fs_entryList = \<lambda>_. [],
     fs_buildId = \<lambda>_. None, fs_isElf = \<lambda>_. False, fs_tempPath = []\<rparr>"

definition no_paths :: search_paths where
  "no_paths = \<lparr>sp_systemRoot = [], sp_extraLibsPath = [], sp_appPath = [], sp_debugPath = [], sp_kallsymsPath = [],
     sp_ignoreKallsymsBuildId = False, sp_customPerfMapPath = []\<rparr>"

definition example_rows :: "kallsyms_row list" where
  "example_rows = [\<lparr>row_address = [1], row_value = Some 0x9000, row_symbol = ascii ''first'', row_eol = 0, row_module = []\<rparr>,
     \<lparr>row_address = [1], row_value = Some 0x9100, row_symbol = ascii ''second'', row_eol = 0, row_module = []\<rparr>]"

definition example_lib :: "(unit, unit) symbol_lib" where
  "example_lib = \<lparr>li_fs = no_files, li_paths = no_paths, li_depth = 2, li_number = \<lambda>_. [], li_number16 = \<lambda>_. None,
     li_missing = \<lambda>_. [], li_badKallsyms = \<lambda>_ _. [], li_sortMap = sort_key pm_start, li_sortKallsyms = sort_key ks_address,
     li_readKallsyms = \<lambda>_. Inr example_rows, li_demangle = \<lambda>n. n,
     li_dwarf = \<lparr>dw_scopes = \<lambda>_. [], dw_specification = \<lambda>_. None\<rparr>,
     li_getsrc = \<lambda>_ _. None, li_filesrc = \<lambda>_ _. None, li_begin = (), li_clear = \<lambda>w. w, li_addrmodule = \<lambda>_ _. None,
     li_moduleStart = \<lambda>_ _. 0, li_report = \<lambda>_ _ _ w. (None, w), li_pid = \<lambda>_. 7, li_attach = \<lambda>_ _ w. Some w,
     li_symbols = \<lambda>_ _. [], li_units = \<lambda>_ _. [], li_elf = \<lambda>_ _. None, li_section = \<lambda>_ _ _. None\<rparr>"

end
