(* ===== verification/SymbolTableFacts.thy ===== *)
theory SymbolTableFacts
  imports Examples
begin

text \<open>
  The symbols of a JIT compiler: the file is read as it grows, and an address is given to the symbol it lies in.
\<close>

interpretation perf_map: address_table pt_perfMap pm_start "\<lambda>t. sorted (map pm_start (pt_perfMap t))"
  by unfold_locales

definition map_symbols :: "('w, 'm) symbol_lib \<Rightarrow> bytes list \<Rightarrow> perf_map_symbol list" where
  "map_symbols lib ls = List.map_filter (parse_map_line (li_number16 lib)) ls"

definition map_read :: "('w, 'm) symbol_lib \<Rightarrow> bytes list \<Rightarrow> ('w, 'm) proc_symbols \<Rightarrow> bool" where
  "map_read lib ls t \<longleftrightarrow> pt_hasPerfMap t \<and> pt_linesRead t = length ls \<and> sorted (map pm_start (pt_perfMap t))
     \<and> mset (pt_perfMap t) = mset (map_symbols lib ls)"

lemma map_symbols_append: "map_symbols lib (ls @ ls') = map_symbols lib ls @ map_symbols lib ls'"
  by (simp add: map_symbols_def map_filter_def)

lemma updatePerfMap_read:
  assumes "is_std_sort pm_start (li_sortMap lib)" "map_read lib ls t"
  shows "map_read lib (ls @ new) (updatePerfMap lib (ls @ new) t)"
proof -
  have "drop (pt_linesRead t) (ls @ new) = new" using assms(2) by (simp add: map_read_def)
  with assms show ?thesis
    by (auto simp: map_read_def updatePerfMap_def Let_def map_symbols_append is_std_sort_def map_symbols_def [symmetric])
qed

text \<open>
  C18: the map of a JIT compiler is read as it grows. However often and after however many lines the file is looked
  at, the table has the symbols of all its lines, each as often as it is there, ordered by their start; a lookup
  gives a name only of a symbol the address lies in, with the offset in it, and no symbol starts closer before it.
\<close>
theorem perf_map_incremental:
  assumes "is_std_sort pm_start (li_sortMap lib)" "pt_hasPerfMap t" "pt_linesRead t = 0" "pt_perfMap t = []"
  defines "read \<equiv> \<lambda>parts. fold (updatePerfMap lib) (map (\<lambda>n. concat (take n parts)) [0..<Suc (length parts)]) t"
  shows "mset (pt_perfMap (read parts)) = mset (map_symbols lib (concat parts))
    \<and> sorted (map pm_start (pt_perfMap (read parts)))
    \<and> (symbolFromPerfMap ip (read parts) = ([], 0) \<or> (\<exists>sym \<in> set (map_symbols lib (concat parts)).
        symbolFromPerfMap ip (read parts) = (pm_name sym, ip - pm_start sym) \<and> pm_start sym \<le> ip
        \<and> ip < pm_start sym + pm_length sym
        \<and> (\<forall>e \<in> set (map_symbols lib (concat parts)). pm_start e \<le> ip \<longrightarrow> pm_start e \<le> pm_start sym)))"
proof -
  have "map_read lib (concat (take n parts)) (fold (updatePerfMap lib) (map (\<lambda>n. concat (take n parts)) [0..<Suc n]) t)"
    if "n \<le> length parts" for n
    using that
  proof (induction n)
    case 0
    have "map_read lib [] t" using assms(2-4) by (simp add: map_read_def map_symbols_def map_filter_def)
    from updatePerfMap_read [OF assms(1) this, of "[]"] show ?case by simp
  next
    case (Suc n)
    then have "concat (take (Suc n) parts) = concat (take n parts) @ parts ! n"
      by (simp add: take_Suc_conv_app_nth)
    with updatePerfMap_read [OF assms(1) Suc.IH, of "parts ! n"] Suc.prems show ?case by simp
  qed
  from this [of "length parts"] have r: "map_read lib (concat parts) (read parts)" by (simp add: read_def)
  then have inv: "sorted (map pm_start (pt_perfMap (read parts)))"
    and m: "mset (pt_perfMap (read parts)) = mset (map_symbols lib (concat parts))" by (simp_all add: map_read_def)
  note set = mset_eq_setD [OF m]
  show ?thesis
  proof (cases "upper_bound pm_start (pt_perfMap (read parts)) ip")
    case 0
    with inv m show ?thesis by (simp add: symbolFromPerfMap_def)
  next
    case (Suc n)
    let ?sym = "pt_perfMap (read parts) ! n"
    have s: "?sym \<in> set (map_symbols lib (concat parts))" "pm_start ?sym \<le> ip"
      using nth_mem [OF perf_map.floor_start_le(2) [OF inv Suc]] perf_map.floor_start_le(1) [OF inv Suc]
      by (simp_all only: set)
    have closest: "\<forall>e \<in> set (map_symbols lib (concat parts)). pm_start e \<le> ip \<longrightarrow> pm_start e \<le> pm_start ?sym"
      using perf_map.floor_greatest [OF inv Suc] by (simp only: set) blast
    show ?thesis
    proof (cases "ip < pm_start ?sym + pm_length ?sym")
      case True
      then have "symbolFromPerfMap ip (read parts) = (pm_name ?sym, ip - pm_start ?sym)"
        using s(2) Suc by (simp add: symbolFromPerfMap_def Let_def)
      with True s closest have "\<exists>sym \<in> set (map_symbols lib (concat parts)).
          symbolFromPerfMap ip (read parts) = (pm_name sym, ip - pm_start sym) \<and> pm_start sym \<le> ip
          \<and> ip < pm_start sym + pm_length sym
          \<and> (\<forall>e \<in> set (map_symbols lib (concat parts)). pm_start e \<le> ip \<longrightarrow> pm_start e \<le> pm_start sym)"
        by (intro bexI [of _ ?sym]) simp_all
      with inv m show ?thesis by (intro conjI disjI2)
    next
      case False
      then have "symbolFromPerfMap ip (read parts) = ([], 0)" using Suc by (simp add: symbolFromPerfMap_def Let_def)
      with inv m show ?thesis by simp
    qed
  qed
qed

text \<open>Two lines that arrive one after the other.\<close>

definition example_map :: "bytes list" where
  "example_map = [ascii ''20 8 second'', ascii ''10 8 first one'']"

definition example_number :: "bytes \<Rightarrow> u64 option" where
  "example_number b = (if b = ascii ''20'' then Some 0x20 else if b = ascii ''10'' then Some 0x10
     else if b = ascii ''8'' then Some 8 else None)"

definition map_lib :: "(unit, unit) symbol_lib" where
  "map_lib = example_lib\<lparr>li_number16 := example_number, li_fs := no_files\<lparr>fs_exists := \<lambda>_. True\<rparr>\<rparr>"

lemma example_symbols: "map_symbols map_lib example_map = [\<lparr>pm_start = 0x20, pm_length = 8, pm_name = ascii ''second''\<rparr>,
    \<lparr>pm_start = 0x10, pm_length = 8, pm_name = ascii ''first one''\<rparr>]"
  by code_simp

theorem perf_map_incremental_witness:
  "size (mset (pt_perfMap (fold (updatePerfMap map_lib)
      (map (\<lambda>n. concat (take n [[ascii ''20 8 second''], [ascii ''10 8 first one'']])) [0..<3]) (newSymbolTable map_lib 7)))) = 2"
proof -
  have "is_std_sort pm_start (li_sortMap map_lib)" "pt_hasPerfMap (newSymbolTable map_lib 7)"
    "pt_linesRead (newSymbolTable map_lib 7) = 0" "pt_perfMap (newSymbolTable map_lib 7) = []"
    by (simp_all add: map_lib_def example_lib_def newSymbolTable_def is_std_sort_def)
  from conjunct1 [OF perf_map_incremental [OF this, of "[[ascii ''20 8 second''], [ascii ''10 8 first one'']]"]]
  show ?thesis using example_symbols by (simp add: example_map_def numeral_3_eq_3)
qed

end
