(* ===== verification/FrameLookup.thy ===== *)
theory FrameLookup
  imports SymbolTable
begin

text \<open>
  The second half of \<open>PerfSymbolTable\<close> (\<open>app/perfsymboltable.cpp\<close>): reporting binaries to libdwfl, the chain of
  inlined functions, and \<open>lookupFrame\<close>, which resolves an address to a numbered location; with the symbols of the
  kernel (\<open>PerfUnwind::findKallsymEntry\<close>). \<open>None\<close>: a loop or recursion that does not end.
\<close>

section \<open>Modules\<close>

text \<open>\<open>updateElf\<close> is only given entries of the map, for which it is defined.\<close>

definition reportElf ::
  "('w, 'm) symbol_lib \<Rightarrow> elf_info \<Rightarrow> ('w, 'm) proc_symbols \<Rightarrow> 'm option \<times> ('w, 'm) proc_symbols"
where
  "reportElf lib info t =
     (if \<not> isValid info \<or> \<not> isFile info then (None, t)
      else case li_report lib (originalFileName info) (fi_absoluteFilePath (localFile info))
          (elf_addr info - elf_pgoff info) (pt_dwfl t) of
        (None, w) \<Rightarrow> (None, t\<lparr>pt_dwfl := w, pt_cacheIsDirty := True\<rparr>)
      | (Some (m, start, end'), w) \<Rightarrow>
          (Some m, t\<lparr>pt_dwfl := w, pt_elfs := (case updateElf (elf_addr info) start end' (pt_elfs t) of
              Some elfs \<Rightarrow> elfs | None \<Rightarrow> pt_elfs t)\<rparr>))"

text \<open>The module libdwfl has for an address, or the one a binary starts at.\<close>

definition known_module ::
  "('w, 'm) symbol_lib \<Rightarrow> u64 \<Rightarrow> elf_info \<Rightarrow> ('w, 'm) proc_symbols \<Rightarrow> 'm option"
where
  "known_module lib addr elf t =
     (case li_addrmodule lib (pt_dwfl t) addr of
        Some m \<Rightarrow> Some m
      | None \<Rightarrow> if isValid elf then li_addrmodule lib (pt_dwfl t) (elf_addr elf - elf_pgoff elf) else None)"

partial_function (option) module_of ::
  "('w, 'm) symbol_lib \<Rightarrow> u64 \<Rightarrow> elf_info \<Rightarrow> ('w, 'm) proc_symbols \<Rightarrow> ('m option \<times> ('w, 'm) proc_symbols) option"
where
  "module_of lib addr elf t =
     (let base = findElf (baseAddr elf) (pt_elfs t) in
      if hasBaseAddr elf \<and> baseAddr elf \<noteq> elf_addr elf \<and> elf_addr base = baseAddr elf \<and> elf_pgoff base = 0
        \<and> originalPath elf = originalPath base \<and> elf_addr elf \<noteq> elf_addr base
      then module_of lib addr base t
      else case known_module lib addr elf t of
        Some m \<Rightarrow>
          if elf_addr elf - elf_pgoff elf = li_moduleStart lib (pt_dwfl t) m then Some (Some m, t)
          else Some (reportElf lib elf t)
      | None \<Rightarrow> Some (reportElf lib elf t))"

declare module_of.simps [code]

definition module_at ::
  "('w, 'm) symbol_lib \<Rightarrow> u64 \<Rightarrow> ('w, 'm) proc_symbols \<Rightarrow> ('m option \<times> ('w, 'm) proc_symbols) option"
where
  "module_at lib addr t = module_of lib addr (findElf addr (pt_elfs t)) t"

text \<open>
  \<open>standard\<close> is what libdwfl's own search returns, \<open>open'\<close> opens a file. The result is the file descriptor
  with the name of the file that was opened.
\<close>

definition findDebugInfo ::
  "('w, 'm) symbol_lib \<Rightarrow> int \<Rightarrow> (bytes \<Rightarrow> int) \<Rightarrow> bytes \<Rightarrow> u64 \<Rightarrow> bytes \<Rightarrow> bytes option
    \<Rightarrow> ('w, 'm) proc_symbols \<Rightarrow> 'a unwind_scheme
    \<Rightarrow> ((int \<times> bytes option) \<times> ('w, 'm) proc_symbols \<times> 'a unwind_scheme) option"
where
  "findDebugInfo lib standard open' moduleName base file' debugLink t u =
     (let (moduleId, u) = resolveString moduleName u;
          t = t\<lparr>pt_currentFindDebugInfoModule := moduleId\<rparr> in
      if standard \<ge> 0 \<or> debugLink = None \<or> debugLink = Some [] then Some ((standard, None), t, u)
      else map_option (\<lambda>found.
          (case found of
             None \<Rightarrow> (standard, None)
           | Some path \<Rightarrow> if open' path < 0 then (open' path, None) else (open' path, Some path), t, u))
        (linked_debug_file (li_fs lib) (li_paths lib) (li_depth lib)
          (originalPath (findElf base (pt_elfs t))) file' (the debugLink)))"

text \<open>The progress of a download of debugging information, as it is sent.\<close>

definition debuginfod_progress ::
  "bytes \<Rightarrow> s64 \<Rightarrow> s64 \<Rightarrow> ('w, 'm) proc_symbols \<Rightarrow> 'a unwind_scheme \<Rightarrow> 'a unwind_scheme"
where
  "debuginfod_progress url numerator denominator t u =
     (let (urlId, u) = resolveString url u in
      sendDebugInfoDownloadProgress (pt_currentFindDebugInfoModule t) urlId numerator denominator u)"

text \<open>The session when it can unwind for the sampled process.\<close>

definition attachDwfl ::
  "('w, 'm) symbol_lib \<Rightarrow> sample_record \<Rightarrow> ('w, 'm) proc_symbols \<Rightarrow> bool \<times> ('w, 'm) proc_symbols"
where
  "attachDwfl lib sample t =
     (if pt_pid t = li_pid lib (pt_dwfl t) then (True, t)
      else if \<not> sr_has sample SAMPLE_REGS_USER \<or> \<not> sr_has sample SAMPLE_STACK_USER then (False, t)
      else case li_attach lib (pt_firstElf t) (pt_pid t) (pt_dwfl t) of
        None \<Rightarrow> (False, t)
      | Some w \<Rightarrow> (True, t\<lparr>pt_dwfl := w\<rparr>))"

section \<open>Inlined functions\<close>

text \<open>What is known of a symbol before its debugging information is read.\<close>

record symbol_origin =
  so_start :: u64
  so_size :: u64
  so_relAddr :: u64
  so_binary :: s32
  so_path :: s32
  so_actualPath :: s32
  so_isKernel :: bool

definition origin_symbol :: "symbol_origin \<Rightarrow> s32 \<Rightarrow> bool \<Rightarrow> symbol" where
  "origin_symbol org name isInline = \<lparr>sy_name = name, sy_relAddr = so_start org, sy_size = so_size org,
     sy_binary = so_binary org, sy_path = so_path org, sy_actualPath = so_actualPath org,
     sy_isKernel = so_isKernel org, sy_isInline = isInline\<rparr>"

definition insertSubprogram ::
  "('w, 'm) symbol_lib \<Rightarrow> s32 \<Rightarrow> symbol_origin \<Rightarrow> die \<Rightarrow> u64 \<Rightarrow> s32 \<Rightarrow> bool \<Rightarrow> cu_mapping \<Rightarrow> 'a unwind_scheme
    \<Rightarrow> (s32 \<times> cu_mapping \<times> 'a unwind_scheme) option"
where
  "insertSubprogram lib pid org die entry inlineCallLocationId isInline m u =
     (let line = (case di_declLine (die_info die) of Some n \<Rightarrow> n | None \<Rightarrow> 0);
          column = (case di_declColumn (die_info die) of Some n \<Rightarrow> n | None \<Rightarrow> 0);
          (fileId, u) = resolveString (absoluteSourcePath (di_declFile (die_info die)) (Some (cudie m))) u;
          (locationId, u) = resolveLocation \<lparr>lc_address = entry, lc_relAddr = so_relAddr org, lc_file = fileId,
            lc_pid = pid, lc_line = line, lc_column = column, lc_parent = inlineCallLocationId\<rparr> u in
      map_option (\<lambda>(name, m).
          let (symId, u) = resolveString name u in
          (locationId, m, resolveSymbol locationId (origin_symbol org symId isInline) u))
        (dieName (li_demangle lib) (li_dwarf lib) die m))"

definition parseDie ::
  "('w, 'm) symbol_lib \<Rightarrow> s32 \<Rightarrow> symbol_origin \<Rightarrow> die \<Rightarrow> u64 \<Rightarrow> s32 \<Rightarrow> cu_mapping \<Rightarrow> 'a unwind_scheme
    \<Rightarrow> (s32 \<times> cu_mapping \<times> 'a unwind_scheme) option"
where
  "parseDie lib pid org die entry parentLocationId m u =
     (case die_tag die of
        DW_TAG_inlined_subroutine \<Rightarrow>
          (let i = die_info die;
               path = (case di_callFile i of Some n \<Rightarrow> li_filesrc lib (cudie m) n | None \<Rightarrow> Some []);
               (fileId, u) = resolveString (absoluteSourcePath path (Some (cudie m))) u;
               location = (newLocation entry)\<lparr>lc_file := fileId,
                 lc_line := (case di_callLine i of Some n \<Rightarrow> ucast n | None \<Rightarrow> - 1),
                 lc_column := (case di_callColumn i of Some n \<Rightarrow> ucast n | None \<Rightarrow> - 1),
                 lc_pid := pid, lc_parent := parentLocationId\<rparr>;
               (callLocationId, u) = resolveLocation location u in
           insertSubprogram lib pid org die entry callLocationId True m u)
      | DW_TAG_subprogram \<Rightarrow> insertSubprogram lib pid org die entry (- 1) False m u
      | _ \<Rightarrow> Some (- 1, m, u))"

text \<open>The subprogram and the inlined functions in it, from the outside in.\<close>

primrec parseDwarf ::
  "('w, 'm) symbol_lib \<Rightarrow> s32 \<Rightarrow> symbol_origin \<Rightarrow> u64 \<Rightarrow> die list \<Rightarrow> s32 \<Rightarrow> cu_mapping \<Rightarrow> 'a unwind_scheme
    \<Rightarrow> (s32 \<times> cu_mapping \<times> 'a unwind_scheme) option"
where
  "parseDwarf lib pid org bias [] parentLocationId m u = Some (parentLocationId, m, u)"
| "parseDwarf lib pid org bias (scope # scopes) parentLocationId m u =
     (let scopeAddr = bias + (case di_entry (die_info scope) of Some entry \<Rightarrow> entry | None \<Rightarrow> 0) in
      Option.bind (parseDie lib pid org scope scopeAddr parentLocationId m u) (\<lambda>(locationId, m, u).
        parseDwarf lib pid org bias scopes (if locationId \<noteq> - 1 then locationId else parentLocationId) m u))"

section \<open>Frames\<close>

text \<open>What is found out of a frame: the two locations and the name of the symbol.\<close>

record frame_info =
  fr_address :: location
  fr_function :: location
  fr_symname :: bytes

definition resolve_source ::
  "('w, 'm) symbol_lib \<Rightarrow> cu_mapping \<Rightarrow> u64 \<Rightarrow> frame_info \<Rightarrow> 'a unwind_scheme \<Rightarrow> frame_info \<times> 'a unwind_scheme"
where
  "resolve_source lib m offset f u =
     (let srcloc = findSourceLocation (li_getsrc lib) (cudie m) offset in
      if sl_file srcloc = [] then (f, u)
      else let (fileId, u) = resolveString (sl_file srcloc) u in
        (f\<lparr>fr_address := (fr_address f)\<lparr>lc_file := fileId, lc_line := sl_line srcloc,
           lc_column := sl_column srcloc\<rparr>\<rparr>, u))"

text \<open>The entry point of the innermost function and the chain of those it is inlined in.\<close>

definition entry_location :: "die_info \<Rightarrow> u64 \<Rightarrow> s32 \<Rightarrow> location \<Rightarrow> location" where
  "entry_location i bias fileId function = function\<lparr>
     lc_address := (case di_entry i of Some e \<Rightarrow> e | None \<Rightarrow> 0) + bias, lc_file := fileId,
     lc_line := (case di_declLine i of Some n \<Rightarrow> n | None \<Rightarrow> lc_line function),
     lc_column := (case di_declColumn i of Some n \<Rightarrow> n | None \<Rightarrow> lc_column function)\<rparr>"

definition resolve_subprogram ::
  "('w, 'm) symbol_lib \<Rightarrow> s32 \<Rightarrow> symbol_origin \<Rightarrow> u64 \<Rightarrow> die \<Rightarrow> frame_info \<Rightarrow> cu_mapping \<Rightarrow> 'a unwind_scheme
    \<Rightarrow> (frame_info \<times> cu_mapping \<times> 'a unwind_scheme) option"
where
  "resolve_subprogram lib pid org offset subprogram f m u =
     (let scopes = findInlineScopes subprogram offset; bias = cu_bias m;
          d = (if scopes = [] then subprogram else last scopes); i = die_info d in
      Option.bind (dieName (li_demangle lib) (li_dwarf lib) d m) (\<lambda>(name, m).
        let (fileId, u) = resolveString (absoluteSourcePath (di_declFile i) (Some (cudie m))) u;
            f = f\<lparr>fr_function := entry_location i bias fileId (fr_function f), fr_symname := name\<rparr>;
            parent = lookupLocation (fr_function f) u in
        map_option (\<lambda>(parent, m, u). (f\<lparr>fr_address := (fr_address f)\<lparr>lc_parent := parent\<rparr>\<rparr>, m, u))
          (if scopes \<noteq> [] \<and> \<not> hasSymbol parent u
           then parseDwarf lib pid org bias (subprogram # scopes) (- 1) m u
           else Some (parent, m, u))))"

definition resolve_debug ::
  "('w, 'm) symbol_lib \<Rightarrow> s32 \<Rightarrow> symbol_origin \<Rightarrow> frame_info \<Rightarrow> cu_mapping \<Rightarrow> 'a unwind_scheme
    \<Rightarrow> (frame_info \<times> cu_mapping \<times> 'a unwind_scheme) option"
where
  "resolve_debug lib pid org f m u =
     (let offset = lc_address (fr_address f) - cu_bias m;
          (f, u) = resolve_source lib m offset f u;
          (subprogram, m) = findSubprogramDie offset m in
      case subprogram of
        None \<Rightarrow> Some (f, m, u)
      | Some sp \<Rightarrow> resolve_subprogram lib pid org offset (dr_die sp) f m u)"

text \<open>The frame's function is numbered unless it is known, and named unless it has a symbol.\<close>

definition resolve_function :: "frame_info \<Rightarrow> 'a unwind_scheme \<Rightarrow> frame_info \<times> 'a unwind_scheme" where
  "resolve_function f u =
     (let (parent, u) = resolveLocation (fr_function f) u in
      (f\<lparr>fr_address := (fr_address f)\<lparr>lc_parent := parent\<rparr>\<rparr>, u))"

definition number_function :: "frame_info \<Rightarrow> 'a unwind_scheme \<Rightarrow> frame_info \<times> 'a unwind_scheme" where
  "number_function f u = (if lc_parent (fr_address f) = - 1 then resolve_function f u else (f, u))"

definition name_function :: "symbol_origin \<Rightarrow> frame_info \<Rightarrow> 'a unwind_scheme \<Rightarrow> 'a unwind_scheme" where
  "name_function org f u =
     (let parent = lc_parent (fr_address f) in
      if hasSymbol parent u then u
      else let (symId, u) = resolveString (fr_symname f) u in
        resolveSymbol parent (origin_symbol org symId False) u)"

definition isArmArch :: "'a symbol_unwind_scheme \<Rightarrow> bool" where
  "isArmArch u \<longleftrightarrow> su_architecture u = ARCH_ARM"

text \<open>The symbol of an address in a module, from the cache of the binary's symbols, filled on first use.\<close>

definition module_symbol ::
  "('w, 'm) symbol_lib \<Rightarrow> bytes \<Rightarrow> u64 \<Rightarrow> 'm \<Rightarrow> u64 \<Rightarrow> ('w, 'm) proc_symbols \<Rightarrow> 'a symbol_unwind_scheme
    \<Rightarrow> symbol_cache_entry \<times> 'a symbol_unwind_scheme"
where
  "module_symbol lib path elfStart module address t u =
     (let cache = su_addressCache u;
          cache = (if hasSymbolCache path cache then cache
            else setSymbolCache path (extractSymbols (li_symbols lib (pt_dwfl t) module) elfStart (isArmArch u)) cache);
          (entry, cache) = findSymbol (li_demangle lib) path (address - elfStart) cache in
      (entry, u\<lparr>su_addressCache := cache\<rparr>))"

text \<open>What the symbol tells of a frame, \<open>off\<close> being the offset of the address in it.\<close>

definition symbol_of_entry :: "symbol_cache_entry \<Rightarrow> u64 \<Rightarrow> bool \<Rightarrow> symbol_origin \<Rightarrow> symbol_origin" where
  "symbol_of_entry entry off arm org = org\<lparr>so_start := sym_value entry, so_size := sym_size entry,
     so_relAddr := alignedAddress (sym_value entry + off) arm\<rparr>"

definition frame_of_entry :: "symbol_cache_entry \<Rightarrow> u64 \<Rightarrow> frame_info \<Rightarrow> frame_info" where
  "frame_of_entry entry off f = f\<lparr>fr_symname := symname entry,
     fr_function := (fr_function f)\<lparr>lc_address := lc_address (fr_function f) - off\<rparr>\<rparr>"

text \<open>The debugging information of an address, if its module has a unit for it.\<close>

definition resolve_unit ::
  "('w, 'm) symbol_lib \<Rightarrow> s32 \<Rightarrow> symbol_origin \<Rightarrow> frame_info \<Rightarrow> cu_mapping list \<Rightarrow> 'a unwind_scheme
    \<Rightarrow> (frame_info \<times> cu_mapping list \<times> 'a unwind_scheme) option"
where
  "resolve_unit lib pid org f units u =
     (case findCuDie (lc_address (fr_address f)) units of
        None \<Rightarrow> Some (f, units, u)
      | Some k \<Rightarrow> map_option (\<lambda>(f, m, u). (f, units[k := m], u)) (resolve_debug lib pid org f (units ! k) u))"

definition resolve_in_module ::
  "('w, 'm) symbol_lib \<Rightarrow> elf_info \<Rightarrow> u64 \<Rightarrow> 'm \<Rightarrow> symbol_origin \<Rightarrow> frame_info \<Rightarrow> ('w, 'm) proc_symbols
    \<Rightarrow> 'a symbol_unwind_scheme
    \<Rightarrow> (symbol_origin \<times> frame_info \<times> ('w, 'm) proc_symbols \<times> 'a symbol_unwind_scheme) option"
where
  "resolve_in_module lib elf elfStart module org f t u =
     (let address = lc_address (fr_address f);
          (entry, u) = module_symbol lib (originalPath elf) elfStart module address t u in
      if symbolValid entry then
        let off = address - elfStart - sym_offset entry;
            org = symbol_of_entry entry off (isArmArch u) org;
            units = (case pt_cuDieRanges t module of Some ms \<Rightarrow> ms
              | None \<Rightarrow> PerfDwarfDieCache (li_units lib (pt_dwfl t) module)) in
        map_option (\<lambda>(f, units, u).
            let (f, u) = number_function f u in
            (org, f, t\<lparr>pt_cuDieRanges := (pt_cuDieRanges t)(module \<mapsto> units)\<rparr>, u))
          (resolve_unit lib (pt_pid t) org (frame_of_entry entry off f) units u)
      else
        let (f, u) = resolve_function (f\<lparr>fr_symname := fakeSymbolFromSection (li_demangle lib)
              (li_elf lib (pt_dwfl t) module) (li_section lib (pt_dwfl t) module address) address\<rparr>) u in
        Some (org, f, t, u))"

section \<open>Symbols of the kernel and of JIT compilers\<close>

definition findKallsymEntry ::
  "('w, 'm) symbol_lib \<Rightarrow> u64 \<Rightarrow> 'a symbol_unwind_scheme \<Rightarrow> kallsym_entry \<times> 'a symbol_unwind_scheme"
where
  "findKallsymEntry lib address u =
     (let u =
        (if kallsymsEmpty (su_kallsyms u) \<and> ks_errorString (su_kallsyms u) = None then
           let path = kallsyms_path (li_fs lib) (li_paths lib) (uw_buildIds u);
               (ok, kallsyms) = parseMapping (li_sortKallsyms lib) (li_readKallsyms lib path);
               u = u\<lparr>su_kallsyms := kallsyms\<rparr> in
           if ok then u
           else sendError InvalidKallsyms (li_badKallsyms lib path (ks_errorString kallsyms)) u
         else u) in
      (findEntry address (su_kallsyms u), u))"

text \<open>The name of an address that is in no module, with its offset in the symbol.\<close>

definition name_without_module ::
  "('w, 'm) symbol_lib \<Rightarrow> u64 \<Rightarrow> symbol_origin \<Rightarrow> ('w, 'm) proc_symbols \<Rightarrow> 'a symbol_unwind_scheme
    \<Rightarrow> bytes \<times> u64 \<times> symbol_origin \<times> 'a symbol_unwind_scheme"
where
  "name_without_module lib address org t u =
     (if so_isKernel org then
        let (entry, u) = findKallsymEntry lib address u;
            (org, u) = (if ks_module entry = [] then (org, u)
              else let (binaryId, u) = resolveString (ks_module entry) u in (org\<lparr>so_binary := binaryId\<rparr>, u)) in
        (ks_symbol entry, address - ks_address entry, org, u)
      else let (name, off) = symbolFromPerfMap address t in (name, off, org, u))"

definition resolve_without_module ::
  "('w, 'm) symbol_lib \<Rightarrow> u64 \<Rightarrow> symbol_origin \<Rightarrow> frame_info \<Rightarrow> ('w, 'm) proc_symbols \<Rightarrow> 'a symbol_unwind_scheme
    \<Rightarrow> symbol_origin \<times> frame_info \<times> 'a symbol_unwind_scheme"
where
  "resolve_without_module lib elfStart org f t u =
     (let (name, off, org, u) = name_without_module lib (lc_address (fr_address f)) org t u;
          function = (fr_function f)\<lparr>lc_address :=
            (if off \<noteq> 0 then lc_address (fr_function f) - off else elfStart)\<rparr>;
          (f, u) = resolve_function (f\<lparr>fr_symname := name, fr_function := function\<rparr>) u in
      (org, f, u))"

definition resolve_binary :: "elf_info \<Rightarrow> bool \<Rightarrow> 'a unwind_scheme \<Rightarrow> symbol_origin \<times> 'a unwind_scheme" where
  "resolve_binary elf isKernel u =
     (let org = \<lparr>so_start = 0, so_size = 0, so_relAddr = 0, so_binary = - 1, so_path = - 1, so_actualPath = - 1,
            so_isKernel = isKernel\<rparr> in
      if \<not> isValid elf then (org, u)
      else let (binaryId, u) = resolveString (originalFileName elf) u;
               (binaryPathId, u) = resolveString (originalPath elf) u;
               (actualPathId, u) = resolveString (fi_absoluteFilePath (localFile elf)) u in
        (org\<lparr>so_binary := binaryId, so_path := binaryPathId, so_actualPath := actualPathId\<rparr>, u))"

definition is_interworking :: "bytes \<Rightarrow> bool" where
  "is_interworking name \<longleftrightarrow> name = ascii ''$a'' \<or> name = ascii ''$t''"

definition resolve_place ::
  "('w, 'm) symbol_lib \<Rightarrow> elf_info \<Rightarrow> u64 \<Rightarrow> 'm option \<Rightarrow> symbol_origin \<Rightarrow> frame_info \<Rightarrow> ('w, 'm) proc_symbols
    \<Rightarrow> 'a symbol_unwind_scheme
    \<Rightarrow> (symbol_origin \<times> frame_info \<times> ('w, 'm) proc_symbols \<times> 'a symbol_unwind_scheme) option"
where
  "resolve_place lib elf elfStart module org f t u =
     (case module of
        Some m \<Rightarrow> resolve_in_module lib elf elfStart m org f t u
      | None \<Rightarrow> (case resolve_without_module lib elfStart org f t u of (org, f, u) \<Rightarrow> Some (org, f, t, u)))"

text \<open>The end: the function gets a symbol and the address its number.\<close>

definition finish_frame ::
  "symbol_origin \<Rightarrow> frame_info \<Rightarrow> 'a unwind_scheme \<Rightarrow> (s32 \<times> bool) \<times> 'a unwind_scheme"
where
  "finish_frame org f u =
     (let u = name_function org f u;
          (locationId, u) = resolveLocation ((fr_address f)\<lparr>lc_relAddr := so_relAddr org\<rparr>) u in
      ((locationId, is_interworking (fr_symname f)), u))"

definition frame_start :: "u64 \<Rightarrow> s32 \<Rightarrow> frame_info" where
  "frame_start address pid =
     (let location = (newLocation address)\<lparr>lc_pid := pid\<rparr> in
      \<lparr>fr_address = location, fr_function = location, fr_symname = []\<rparr>)"

definition resolve_frame ::
  "('w, 'm) symbol_lib \<Rightarrow> u64 \<Rightarrow> bool \<Rightarrow> elf_info \<Rightarrow> ('w, 'm) proc_symbols \<Rightarrow> 'a symbol_unwind_scheme
    \<Rightarrow> ((s32 \<times> bool) \<times> ('w, 'm) proc_symbols \<times> 'a symbol_unwind_scheme) option"
where
  "resolve_frame lib ip isKernel elf t u =
     (let (org, u) = resolve_binary elf isKernel u;
          elfStart = (if isValid elf then elfBase elf else 0);
          f = frame_start (symbolAddress ip (isArmArch u)) (pt_pid t) in
      Option.bind (module_of lib ip elf t) (\<lambda>(module, t).
        map_option (\<lambda>(org, f, t, u). let (i, u) = finish_frame org f u in (i, t, u))
          (resolve_place lib elf elfStart module org f t u)))"

text \<open>The location of an address and whether it is a veneer, from the cache or resolved and cached.\<close>

definition lookupFrame ::
  "('w, 'm) symbol_lib \<Rightarrow> u64 \<Rightarrow> bool \<Rightarrow> ('w, 'm) proc_symbols \<Rightarrow> 'a symbol_unwind_scheme
    \<Rightarrow> ((s32 \<times> bool) \<times> ('w, 'm) proc_symbols \<times> 'a symbol_unwind_scheme) option"
where
  "lookupFrame lib ip isKernel t u =
     (let elf = findElf ip (pt_elfs t);
          cached = findAddress elf ip (pt_invalidAddressCache t) (su_addressCache u) in
      if locationValid cached then Some ((word_of_int (locationId cached), isInterworking cached), t, u)
      else map_option (\<lambda>((i, interworking), t, u).
          let (cache, invalid) = cacheAddress elf ip \<lparr>locationId = sint i, isInterworking = interworking\<rparr>
                (pt_invalidAddressCache t) (su_addressCache u) in
          ((i, interworking), t\<lparr>pt_invalidAddressCache := invalid\<rparr>, u\<lparr>su_addressCache := cache\<rparr>))
        (resolve_frame lib ip isKernel elf t u))"

end
