(* ===== verification/LookupReturns.thy ===== *)
theory LookupReturns
  imports FrameLookup ElfMapFacts
begin

text \<open>
  Two recursions on the way of \<open>lookupFrame\<close> could go on forever: from a mapping to the one its file starts in, and
  along the specifications of debugging information entries. Base addresses lie below the mappings they belong to,
  so the first always ends; the second ends unless an entry is, in the end, its own specification.
\<close>

section \<open>Modules\<close>

lemma part_search_le: "part_search p xs i len \<le> i + len"
  by (induction p xs i len rule: part_search.induct) (subst part_search.simps, force simp: Let_def)

lemma upper_bound_index: "upper_bound key xs a = Suc n \<Longrightarrow> n < length xs"
  using part_search_le [of _ xs 0] by (metis upper_bound_def Suc_le_lessD add_0)

lemma findElf_cases: "findElf ip m = noElf \<or> findElf ip m \<in> set (m_elfs m)"
proof (cases "upper_bound elf_addr (m_elfs m) ip")
  case (Suc n)
  then have "n < length (m_elfs m)" by (rule upper_bound_index)
  with Suc show ?thesis by (auto simp: findElf_def Let_def)
qed (simp add: findElf_def)

lemma noElf_base: "\<not> hasBaseAddr noElf"
  by (simp add: noElf_def hasBaseAddr_def ElfInfo_def INVALID_BASE_ADDR_def)

lemma findElf_base: "base_inv m \<Longrightarrow> hasBaseAddr (findElf ip m) \<Longrightarrow> baseAddr (findElf ip m) < elf_addr (findElf ip m)"
  using findElf_cases [of ip m] noElf_base by (auto simp: base_inv_def)

lemma module_of_returns:
  assumes "base_inv (pt_elfs t)" "hasBaseAddr elf \<longrightarrow> baseAddr elf < elf_addr elf"
  shows "module_of lib addr elf t \<noteq> None"
  using assms(2)
proof (induction "unat (elf_addr elf)" arbitrary: elf rule: less_induct)
  case less
  let ?base = "findElf (baseAddr elf) (pt_elfs t)"
  show ?case
  proof (cases "hasBaseAddr elf \<and> baseAddr elf \<noteq> elf_addr elf \<and> elf_addr ?base = baseAddr elf \<and> elf_pgoff ?base = 0
      \<and> originalPath elf = originalPath ?base \<and> elf_addr elf \<noteq> elf_addr ?base")
    case True
    then have "unat (elf_addr ?base) < unat (elf_addr elf)" using less.prems by (simp add: word_less_nat_alt)
    with less.hyps [of ?base] findElf_base [OF assms(1)] have "module_of lib addr ?base t \<noteq> None" by blast
    moreover have "module_of lib addr elf t = module_of lib addr ?base t"
      by (subst module_of.simps) (simp only: Let_def if_P [OF True])
    ultimately show ?thesis by simp
  next
    case False
    then show ?thesis
      by (subst module_of.simps) (simp only: Let_def if_not_P [OF False] split: option.split if_split, simp)
  qed
qed

lemma base_inv_updateElf:
  assumes "base_inv m" "updateElf addr start end' m = Some m'"
  shows "base_inv m'"
proof -
  obtain n where n: "upper_bound elf_addr (m_elfs m) addr = Suc n"
    "m_elfs m' = (m_elfs m)[n := (m_elfs m ! n)\<lparr>dwflStart := start, dwflEnd := end'\<rparr>]"
    using assms(2) by (auto simp: updateElf_def split: nat.splits)
  with set_update_subset_insert have
    "set (m_elfs m') \<subseteq> insert ((m_elfs m ! n)\<lparr>dwflStart := start, dwflEnd := end'\<rparr>) (set (m_elfs m))" by metis
  moreover have "m_elfs m ! n \<in> set (m_elfs m)" using upper_bound_index [OF n(1)] by simp
  ultimately show ?thesis using assms(1) by (auto simp: base_inv_def hasBaseAddr_def)
qed

lemma base_inv_reportElf: "base_inv (pt_elfs t) \<Longrightarrow> base_inv (pt_elfs (snd (reportElf lib elf t)))"
  by (auto simp: reportElf_def base_inv_updateElf split: prod.splits option.splits)

lemma base_inv_module_of:
  assumes "module_of lib addr elf t = Some y" "base_inv (pt_elfs t)"
  shows "base_inv (pt_elfs (snd y))"
  using assms
proof (induction lib addr elf t y rule: module_of.raw_induct [rotated, consumes 1])
  case (1 module_of lib addr elf t y)
  from 1 show ?case using base_inv_reportElf [of t lib elf]
    by (auto simp: Let_def split: if_splits option.splits)
qed

section \<open>Names\<close>

text \<open>\<open>rank\<close> decreases from an entry to what specifies one of its scopes.\<close>

definition specifications_end :: "dwarf_access \<Rightarrow> (die \<Rightarrow> nat) \<Rightarrow> bool" where
  "specifications_end dw rank \<longleftrightarrow>
     (\<forall>d. \<forall>s \<in> set (dw_scopes dw d). \<forall>sp. dw_specification dw s = Some sp \<longrightarrow> rank sp < rank d)"

lemma scope_loop_specification:
  "scope_loop dm dw cache scopes name ops = (name', ops', Some sp) \<Longrightarrow> \<exists>s \<in> set scopes. dw_specification dw s = Some sp"
  by (induction scopes arbitrary: name ops)
    (auto simp: Let_def split: option.splits prod.splits)

lemma prependScopeNames_returns:
  assumes "specifications_end dw rank"
  shows "prependScopeNames dm dw name d cache \<noteq> None"
proof (induction "rank d" arbitrary: name d cache rule: less_induct)
  case less
  obtain name' ops sp where loop: "scope_loop dm dw cache (butlast (tl (dw_scopes dw d))) name [] = (name', ops, sp)"
    by (cases "scope_loop dm dw cache (butlast (tl (dw_scopes dw d))) name []") auto
  show ?case
  proof (cases sp)
    case (Some sp')
    then obtain s where "s \<in> set (butlast (tl (dw_scopes dw d)))" "dw_specification dw s = Some sp'"
      using scope_loop_specification loop by blast
    moreover from this(1) have "s \<in> set (dw_scopes dw d)"
      by (metis in_set_butlastD list.set_sel(2) tl_Nil)
    ultimately have "rank sp' < rank d" using assms by (auto simp: specifications_end_def)
    from less [OF this] obtain name'' cache' where "prependScopeNames dm dw name' sp' cache = Some (name'', cache')" by fast
    with Some loop show ?thesis by (subst prependScopeNames.simps) simp
  qed (subst prependScopeNames.simps, simp add: loop)
qed

lemma dieName_returns: "specifications_end dw rank \<Longrightarrow> dieName dm dw d m \<noteq> None"
  using prependScopeNames_returns [of dw rank dm]
  by (simp add: dieName_def qualifiedDieName_def Let_def split: option.split)

section \<open>Lookups\<close>

abbreviation names_end :: "('w, 'm) symbol_lib \<Rightarrow> (die \<Rightarrow> nat) \<Rightarrow> bool" where
  "names_end lib \<equiv> specifications_end (li_dwarf lib)"

lemma insertSubprogram_returns:
  "names_end lib rank \<Longrightarrow> insertSubprogram lib pid org d entry call b m u \<noteq> None"
  using dieName_returns [of "li_dwarf lib" rank "li_demangle lib"]
  by (simp add: insertSubprogram_def Let_def del: not_None_eq split: prod.split)

lemma parseDie_returns: "names_end lib rank \<Longrightarrow> parseDie lib pid org d entry parent m u \<noteq> None"
  by (simp add: insertSubprogram_returns [where rank = rank] parseDie_def Let_def del: not_None_eq split: prod.split die_tag.split)

lemma parseDwarf_returns: "names_end lib rank \<Longrightarrow> parseDwarf lib pid org bias ds parent m u \<noteq> None"
proof (induction ds arbitrary: parent m u)
  case (Cons d ds)
  obtain y where "parseDie lib pid org d (bias + (case di_entry (die_info d) of Some entry \<Rightarrow> entry | None \<Rightarrow> 0))
      parent m u = Some y"
    using parseDie_returns [OF Cons.prems] by blast
  with Cons show ?case by (simp add: Let_def del: not_None_eq split: prod.split)
qed simp

lemma resolve_subprogram_returns:
  assumes "names_end lib rank"
  shows "resolve_subprogram lib pid org offset sp f m u \<noteq> None"
proof -
  define scopes where "scopes = findInlineScopes sp offset"
  obtain name m' where "dieName (li_demangle lib) (li_dwarf lib) (if scopes = [] then sp else last scopes) m = Some (name, m')"
    using dieName_returns [OF assms] by fast
  then show ?thesis
    unfolding resolve_subprogram_def Let_def scopes_def [symmetric]
    by (simp add: parseDwarf_returns [OF assms] del: parseDwarf.simps not_None_eq split: prod.split)
qed

lemma resolve_unit_returns: "names_end lib rank \<Longrightarrow> resolve_unit lib pid org f units u \<noteq> None"
  by (simp add: resolve_subprogram_returns [where rank = rank] resolve_unit_def resolve_debug_def Let_def del: not_None_eq split: prod.split option.split)

lemma resolve_place_returns: "names_end lib rank \<Longrightarrow> resolve_place lib elf start module org f t u \<noteq> None"
  by (simp add: resolve_unit_returns [where rank = rank] resolve_place_def resolve_in_module_def Let_def del: not_None_eq split: prod.split option.split)

lemma resolve_frame_returns:
  assumes "names_end lib rank" "base_inv (pt_elfs t)"
  shows "resolve_frame lib ip isKernel (findElf ip (pt_elfs t)) t u \<noteq> None"
proof -
  obtain module t' where "module_of lib ip (findElf ip (pt_elfs t)) t = Some (module, t')"
    using module_of_returns [OF assms(2), of "findElf ip (pt_elfs t)"] findElf_base [OF assms(2)] by fast
  then show ?thesis
    by (simp add: resolve_place_returns [OF assms(1)] resolve_frame_def Let_def del: not_None_eq split: prod.split)
qed

lemma resolve_in_module_elfs:
  "resolve_in_module lib elf start module org f t u = Some (org', f', t', u') \<Longrightarrow> pt_elfs t' = pt_elfs t"
  by (auto simp: resolve_in_module_def Let_def case_prod_beta split: if_splits)

lemma resolve_place_elfs:
  "resolve_place lib elf start module org f t u = Some (org', f', t', u') \<Longrightarrow> pt_elfs t' = pt_elfs t"
  by (auto simp: resolve_place_def resolve_in_module_elfs split: prod.splits option.splits)

lemma resolve_frame_base_inv:
  assumes "resolve_frame lib ip isKernel elf t u = Some (r, t', u')" "base_inv (pt_elfs t)"
  shows "base_inv (pt_elfs t')"
proof -
  obtain org v where v: "resolve_binary elf isKernel u = (org, v)" by fastforce
  define start where "start = (if isValid elf then elfBase elf else 0)"
  define f where "f = frame_start (symbolAddress ip (isArmArch v)) (pt_pid t)"
  note eq = assms(1) [unfolded resolve_frame_def Let_def v prod.case, folded start_def f_def]
  then obtain module t1 where t1: "module_of lib ip elf t = Some (module, t1)"
    by (cases "module_of lib ip elf t") auto
  obtain org' f' t2 w where r: "resolve_place lib elf start module org f t1 v = Some (org', f', t2, w)"
    using eq t1 by (cases "resolve_place lib elf start module org f t1 v") auto
  then have "t' = t2" using eq t1 by (auto split: prod.splits)
  with base_inv_module_of [OF t1 assms(2)] resolve_place_elfs [OF r] show ?thesis by simp
qed

lemma lookupFrame_base_inv:
  assumes "lookupFrame lib ip isKernel t u = Some (r, t', u')" "base_inv (pt_elfs t)"
  shows "base_inv (pt_elfs t')"
proof (cases "locationValid (findAddress (findElf ip (pt_elfs t)) ip (pt_invalidAddressCache t) (su_addressCache u))")
  case True
  with assms show ?thesis by (simp add: lookupFrame_def Let_def)
next
  case False
  note eq = assms(1) [unfolded lookupFrame_def Let_def if_not_P [OF False]]
  then obtain j t1 v where r: "resolve_frame lib ip isKernel (findElf ip (pt_elfs t)) t u = Some (j, t1, v)"
    by (cases "resolve_frame lib ip isKernel (findElf ip (pt_elfs t)) t u") auto
  with eq have "pt_elfs t' = pt_elfs t1" by (auto split: prod.splits)
  with resolve_frame_base_inv [OF r assms(2)] show ?thesis by simp
qed

lemma lookupFrame_defined:
  assumes "names_end lib rank" "base_inv (pt_elfs t)"
  shows "lookupFrame lib ip isKernel t u \<noteq> None"
  by (simp add: resolve_frame_returns [OF assms] lookupFrame_def Let_def del: not_None_eq split: prod.split)

end
