(* ===== verification/Unwinding.thy ===== *)
theory Unwinding
  imports FrameLookup TraceData
begin

text \<open>
  The unwinding of the user stack in \<open>app/perfunwind.cpp\<close>: the callbacks libdwfl calls for memory, registers and
  frames, and \<open>unwindStack\<close>. The unwinder of libdwfl is a parameter: a thread and a frame of it are values of type
  \<open>'d\<close>. What it does between two frames may read memory, and what it does next depends on what it read and on the
  modules reported meanwhile: a \<open>reading\<close>. A recursion over frames need not end, as with a stack that is corrupted:
  \<open>None\<close>.
\<close>

section \<open>The state\<close>

text \<open>
  \<open>PerfUnwind\<close> with its symbol tables and the members of \<open>UnwindInfo\<close>; its \<open>sample\<close> is an argument. A stack value
  that was not read is \<open>None\<close>.
\<close>

record ('w, 'm) analysis = symbol_unwind +
  an_tables :: "s32 \<rightharpoonup> ('w, 'm) proc_symbols"
  an_byteOrder :: byte_order
  an_stackValues :: "s32 \<Rightarrow> u64 \<rightharpoonup> u64"
  an_frames :: "s32 list"
  an_maxFrames :: int
  an_firstGuessedFrame :: int
  an_isInterworking :: bool

text \<open>The state after the constructor, and the setters.\<close>

definition newAnalysis :: "u32 \<Rightarrow> u32 \<Rightarrow> bool \<Rightarrow> ('w, 'm) analysis" where
  "newAnalysis version taskSize printStats = unwind.extend (newUnwind version taskSize printStats)
     \<lparr>su_addressCache = emptyCache, su_kallsyms = emptyKallsyms, su_architecture = ARCH_INVALID,
      an_tables = Map.empty, an_byteOrder = LittleEndian, an_stackValues = (\<lambda>_. Map.empty), an_frames = [], an_maxFrames = 64,
      an_firstGuessedFrame = - 1, an_isInterworking = False\<rparr>"

definition setMaxUnwindFrames :: "int \<Rightarrow> ('w, 'm) analysis \<Rightarrow> ('w, 'm) analysis" where
  "setMaxUnwindFrames n s = s\<lparr>an_maxFrames := n\<rparr>"

definition setArchitecture :: "architecture \<Rightarrow> ('w, 'm) analysis \<Rightarrow> ('w, 'm) analysis" where
  "setArchitecture a s = s\<lparr>su_architecture := a\<rparr>"

definition unwind_setByteOrder :: "byte_order \<Rightarrow> ('w, 'm) analysis \<Rightarrow> ('w, 'm) analysis" where
  "unwind_setByteOrder order s = s\<lparr>an_byteOrder := order\<rparr>"

datatype ('w, 'r) reading = Ready 'r | ReadMemory u64 "'w \<Rightarrow> u64 option \<Rightarrow> ('w, 'r) reading"

text \<open>
  \<open>ul_thread\<close> is a thread without registers. The activation flag of a frame may only be known after unwinding
  further, so asking for it reads memory. \<open>ul_sectionData\<close> is the data of the section an address of a module is in,
  and the address in it; \<open>ul_behind\<close> is what lies behind that data.
\<close>

record ('w, 'm, 'd) unwind_lib =
  ul_lib :: "('w, 'm) symbol_lib"
  ul_thread :: "'w \<Rightarrow> 'd"
  ul_setRegisters :: "int \<Rightarrow> u64 list \<Rightarrow> 'd \<Rightarrow> 'd option"
  ul_pc :: "'d \<Rightarrow> u64 option"
  ul_activation :: "'w \<Rightarrow> 'd \<Rightarrow> ('w, bool \<times> 'd) reading"
  ul_unwind :: "'w \<Rightarrow> 'd \<Rightarrow> ('w, 'd option) reading"
  ul_sectionData :: "'w \<Rightarrow> 'm \<Rightarrow> u64 \<Rightarrow> (bytes \<times> u64) option"
  ul_behind :: bytes
  ul_mapLines :: "bytes \<Rightarrow> sample_record \<Rightarrow> bytes list"
  ul_fields :: "(s32 \<rightharpoonup> trace_value) \<Rightarrow> s32 list"

section \<open>Symbol tables\<close>

definition symbolTable ::
  "('w, 'm, 'd) unwind_lib \<Rightarrow> s32 \<Rightarrow> ('w, 'm) analysis \<Rightarrow> ('w, 'm) proc_symbols \<times> ('w, 'm) analysis"
where
  "symbolTable ul pid s =
     (case an_tables s pid of
        Some t \<Rightarrow> (t, s)
      | None \<Rightarrow> let t = newSymbolTable (ul_lib ul) pid in (t, s\<lparr>an_tables := (an_tables s)(pid \<mapsto> t)\<rparr>))"

text \<open>A table is changed in place.\<close>

definition putTable :: "s32 \<Rightarrow> ('w, 'm) proc_symbols \<Rightarrow> ('w, 'm) analysis \<Rightarrow> ('w, 'm) analysis" where
  "putTable pid t s = s\<lparr>an_tables := (an_tables s)(pid \<mapsto> t)\<rparr>"

definition session :: "('w, 'm, 'd) unwind_lib \<Rightarrow> s32 \<Rightarrow> ('w, 'm) analysis \<Rightarrow> 'w" where
  "session ul pid s = pt_dwfl (fst (symbolTable ul pid s))"

definition cacheIsDirty :: "('w, 'm, 'd) unwind_lib \<Rightarrow> s32 \<Rightarrow> ('w, 'm) analysis \<Rightarrow> bool" where
  "cacheIsDirty ul pid s = pt_cacheIsDirty (fst (symbolTable ul pid s))"

definition report_module ::
  "('w, 'm, 'd) unwind_lib \<Rightarrow> s32 \<Rightarrow> u64 \<Rightarrow> ('w, 'm) analysis \<Rightarrow> ('m option \<times> ('w, 'm) analysis) option"
where
  "report_module ul pid addr s =
     (let (t, s) = symbolTable ul pid s in
      map_option (\<lambda>(m, t). (m, putTable pid t s)) (module_at (ul_lib ul) addr t))"

definition look_up ::
  "('w, 'm, 'd) unwind_lib \<Rightarrow> s32 \<Rightarrow> u64 \<Rightarrow> bool \<Rightarrow> ('w, 'm) analysis \<Rightarrow> ((s32 \<times> bool) \<times> ('w, 'm) analysis) option"
where
  "look_up ul pid ip isKernel s =
     (let (t, s) = symbolTable ul pid s in
      map_option (\<lambda>(r, t, s). (r, putTable pid t s)) (lookupFrame (ul_lib ul) ip isKernel t s))"

definition attach ::
  "('w, 'm, 'd) unwind_lib \<Rightarrow> s32 \<Rightarrow> sample_record \<Rightarrow> ('w, 'm) analysis \<Rightarrow> bool \<times> ('w, 'm) analysis"
where
  "attach ul pid sample s =
     (let (t, s) = symbolTable ul pid s; (attached, t) = attachDwfl (ul_lib ul) sample t in
      (attached, putTable pid t s))"

definition ipIsInKernelSpace :: "u64 \<Rightarrow> ('w, 'm) analysis \<Rightarrow> bool" where
  "ipIsInKernelSpace ip s =
     (case an_tables s s_kernelPid of None \<Rightarrow> False | Some t \<Rightarrow> containsAddress ip t)"

section \<open>Memory and registers\<close>

abbreviation sample_pid :: "sample_record \<Rightarrow> s32" where
  "sample_pid sample \<equiv> sid_pid (r_sampleId sample)"

definition registerAbi :: "sample_record \<Rightarrow> nat" where
  "registerAbi sample = unat (sr_registerAbi sample - 1)"

definition arch :: "('w, 'm) analysis \<Rightarrow> nat" where
  "arch s = arch_index (su_architecture s)"

text \<open>A word of the target in the low bytes of the host's.\<close>

definition doMemcpy :: "bytes \<Rightarrow> int \<Rightarrow> u64" where
  "doMemcpy src wordWidth = decode LittleEndian (take (nat wordWidth) src)"

definition guess :: "('w, 'm) analysis \<Rightarrow> ('w, 'm) analysis" where
  "guess s = s\<lparr>an_firstGuessedFrame := int (length (an_frames s))\<rparr>"

definition accessDsoMem ::
  "('w, 'm, 'd) unwind_lib \<Rightarrow> sample_record \<Rightarrow> u64 \<Rightarrow> int \<Rightarrow> ('w, 'm) analysis
    \<Rightarrow> (u64 option \<times> ('w, 'm) analysis) option"
where
  "accessDsoMem ul sample addr wordWidth s =
     map_option (\<lambda>(m, s). (Option.bind m (\<lambda>m.
         case ul_sectionData ul (session ul (sample_pid sample) s) m addr of
           Some (bs, i) \<Rightarrow>
             if unat i < length bs then Some (doMemcpy (drop (unat i) bs @ ul_behind ul) wordWidth) else None
         | None \<Rightarrow> None), s))
       (report_module ul (sample_pid sample) addr s)"

definition memoryRead ::
  "('w, 'm, 'd) unwind_lib \<Rightarrow> sample_record \<Rightarrow> u64 \<Rightarrow> ('w, 'm) analysis \<Rightarrow> (u64 option \<times> ('w, 'm) analysis) option"
where
  "memoryRead ul sample addr s =
     (let wordWidth = s_wordWidth ! arch s ! registerAbi sample; pid = sample_pid sample in
      if addr + 8 < addr then Some (None, guess s)
      else
        let stack = sr_userStack sample;
            start = registerValue (nat (s_perfSp ! arch s)) sample;
            end' = start + of_nat (length stack) in
        if addr < start \<or> addr + 8 > end' then
          if ipIsInKernelSpace addr s then Some (None, s)
          else map_option (\<lambda>(v, s).
              (case v of Some w \<Rightarrow> (Some w, s) | None \<Rightarrow> (an_stackValues s pid addr, guess s)))
            (accessDsoMem ul sample addr wordWidth s)
        else
          let w = doMemcpy (drop (unat (addr - start)) stack) wordWidth in
          Some (Some w, s\<lparr>an_stackValues := (an_stackValues s)(pid := (an_stackValues s pid)(addr \<mapsto> w))\<rparr>))"

primrec run_reading ::
  "('w, 'm, 'd) unwind_lib \<Rightarrow> sample_record \<Rightarrow> ('w, 'r) reading \<Rightarrow> ('w, 'm) analysis \<Rightarrow> ('r \<times> ('w, 'm) analysis) option"
where
  "run_reading ul sample (Ready r) = (\<lambda>s. Some (r, s))"
| "run_reading ul sample (ReadMemory addr k) = (\<lambda>s.
     Option.bind (memoryRead ul sample addr s) (\<lambda>(v, s).
       run_reading ul sample (k (session ul (sample_pid sample) s) v) s))"

definition setInitialRegisters ::
  "('w, 'm, 'd) unwind_lib \<Rightarrow> sample_record \<Rightarrow> 'd \<Rightarrow> ('w, 'm) analysis \<Rightarrow> 'd option"
where
  "setInitialRegisters ul sample thread s =
     (let abi = registerAbi sample; a = arch s;
          regs = map (\<lambda>i. registerValue (nat (s_perfToDwarf ! a ! abi ! i)) sample)
            [0..<nat (s_numRegisters ! a ! abi)];
          regs = (if an_isInterworking s
            then regs[nat (s_dwarfIp ! a ! abi) := regs ! nat (s_dwarfLr ! a ! abi)] else regs);
          dummyBegin = s_dummyRegisters ! a ! 0;
          dummyNum = s_dummyRegisters ! a ! 1 - dummyBegin in
      Option.bind
        (if dummyNum > 0 then ul_setRegisters ul dummyBegin (replicate (nat dummyNum) 0) thread else Some thread)
        (ul_setRegisters ul 0 regs))"

section \<open>Frames\<close>

text \<open>What the callback for a frame returns, \<open>DWARF_CB_OK\<close> or not, with the frame, which asking it may change.\<close>

definition frameCallback ::
  "('w, 'm, 'd) unwind_lib \<Rightarrow> sample_record \<Rightarrow> 'd \<Rightarrow> ('w, 'm) analysis \<Rightarrow> (bool \<times> 'd \<times> ('w, 'm) analysis) option"
where
  "frameCallback ul sample d s =
     (case ul_pc ul d of
        None \<Rightarrow> Some (False, d, guess s)
      | Some pc \<Rightarrow>
          if (an_maxFrames s \<noteq> - 1 \<and> int (length (an_frames s)) > an_maxFrames s) \<or> pc = 0
          then Some (False, d, guess s)
          else
            let pid = sample_pid sample in
            Option.bind (report_module ul pid pc s) (\<lambda>(_, s).
            Option.bind (run_reading ul sample (ul_activation ul (session ul pid s) d) s) (\<lambda>((isactivation, d), s).
            map_option (\<lambda>((frame, interworking), s).
                if cacheIsDirty ul pid s then (False, d, s)
                else
                  let s = s\<lparr>an_frames := an_frames s @ [frame]\<rparr> in
                  (True, d, if interworking \<and> length (an_frames s) = 1 then s\<lparr>an_isInterworking := True\<rparr> else s))
              (look_up ul pid (pc - (if isactivation then 0 else 1)) False s))))"

text \<open>The frames of a thread: libdwfl calls back for each and unwinds it, until there is no next one.\<close>

partial_function (option) thread_frames ::
  "('w, 'm, 'd) unwind_lib \<Rightarrow> sample_record \<Rightarrow> 'd \<Rightarrow> ('w, 'm) analysis \<Rightarrow> ('w, 'm) analysis option"
where
  "thread_frames ul sample d s =
     Option.bind (frameCallback ul sample d s) (\<lambda>(ok, d, s).
       if \<not> ok then Some s
       else Option.bind (run_reading ul sample (ul_unwind ul (session ul (sample_pid sample) s) d) s) (\<lambda>(next, s).
         case next of None \<Rightarrow> Some s | Some d \<Rightarrow> thread_frames ul sample d s))"

declare thread_frames.simps [code]

text \<open>The one thread, if it has not been returned yet.\<close>

definition nextThread :: "s32 \<Rightarrow> bool \<Rightarrow> s32" where
  "nextThread dwflPid returned = (if returned then 0 else dwflPid)"

definition getthread_frames ::
  "('w, 'm, 'd) unwind_lib \<Rightarrow> sample_record \<Rightarrow> ('w, 'm) analysis \<Rightarrow> ('w, 'm) analysis option"
where
  "getthread_frames ul sample s =
     (let w = session ul (sample_pid sample) s in
      if nextThread (li_pid (ul_lib ul) w) False \<noteq> sample_pid sample then Some s
      else case setInitialRegisters ul sample (ul_thread ul w) s of
        None \<Rightarrow> Some s
      | Some d \<Rightarrow> thread_frames ul sample d s)"

definition unwindStack ::
  "('w, 'm, 'd) unwind_lib \<Rightarrow> sample_record \<Rightarrow> ('w, 'm) analysis \<Rightarrow> ('w, 'm) analysis option"
where
  "unwindStack ul sample s =
     (let (attached, s) = attach ul (sample_pid sample) sample s in
      if \<not> attached then Some s
      else Option.bind (getthread_frames ul sample s) (\<lambda>s.
        if \<not> an_isInterworking s then Some s
        else
          let savedFrames = an_frames s in
          map_option (\<lambda>s. if length savedFrames > length (an_frames s) then s\<lparr>an_frames := savedFrames\<rparr> else s)
            (getthread_frames ul sample (s\<lparr>an_frames := take 1 (an_frames s @ [0])\<rparr>))))"

end
