(* ===== verification/Analysis.thy ===== *)
theory Analysis
  imports Unwinding
begin

text \<open>
  The analysis of a sample in \<open>app/perfunwind.cpp\<close>: the frames of its call chain and branch stack, of its user
  stack, or of its instruction pointer; the message for the client; and what the event buffer makes \<open>PerfUnwind\<close> do
  with its symbol tables. \<open>None\<close>: a lookup or unwinding that does not end.
\<close>

section \<open>Call chains\<close>

definition PERF_CONTEXT_HV :: u64 where "PERF_CONTEXT_HV = - 32"
definition PERF_CONTEXT_KERNEL :: u64 where "PERF_CONTEXT_KERNEL = - 128"
definition PERF_CONTEXT_USER :: u64 where "PERF_CONTEXT_USER = - 512"
definition PERF_CONTEXT_MAX :: u64 where "PERF_CONTEXT_MAX = - 4095"

text \<open>The table in use is that of the kernel or of the process, as \<open>isKernel\<close> says.\<close>

definition table_pid :: "sample_record \<Rightarrow> bool \<Rightarrow> s32" where
  "table_pid sample isKernel = (if isKernel then s_kernelPid else sample_pid sample)"

definition report_ip ::
  "('w, 'm, 'd) unwind_lib \<Rightarrow> sample_record \<Rightarrow> bool \<Rightarrow> u64 \<Rightarrow> ('w, 'm) analysis \<Rightarrow> (bool \<times> ('w, 'm) analysis) option"
where
  "report_ip ul sample isKernel ip s =
     (let pid = table_pid sample isKernel; (_, s) = attach ul pid sample s in
      map_option (\<lambda>((frame, interworking), s).
          (\<not> cacheIsDirty ul pid s, s\<lparr>an_frames := an_frames s @ [frame], an_isInterworking := interworking\<rparr>))
        (look_up ul pid ip isKernel s))"

text \<open>The result of the loop: whether it was left by its end or a break, and then whether in the kernel.\<close>

datatype chain_end = Returned | Left bool

fun callchain_loop ::
  "('w, 'm, 'd) unwind_lib \<Rightarrow> sample_record \<Rightarrow> u64 list \<Rightarrow> bool \<Rightarrow> bool \<Rightarrow> ('w, 'm) analysis
    \<Rightarrow> (chain_end \<times> ('w, 'm) analysis) option"
where
  "callchain_loop ul sample [] isKernel addedUserFrames s = Some (Left isKernel, s)"
| "callchain_loop ul sample (ip # ips) isKernel addedUserFrames s =
     (if ip > PERF_CONTEXT_MAX then
        if ip = PERF_CONTEXT_HV \<or> ip = PERF_CONTEXT_KERNEL then callchain_loop ul sample ips True addedUserFrames s
        else if ip = PERF_CONTEXT_USER then callchain_loop ul sample ips False addedUserFrames s
        else Some (Returned, s)
      else
        Option.bind
          (if \<not> addedUserFrames \<and> \<not> isKernel \<and> ip \<noteq> sr_ip sample then report_ip ul sample isKernel (sr_ip sample) s
           else Some (True, s)) (\<lambda>(ok, s).
        if \<not> ok then Some (Returned, s)
        else if sr_branchStack sample \<noteq> [] \<and> \<not> isKernel then Some (Left isKernel, s)
        else Option.bind (report_ip ul sample isKernel ip s) (\<lambda>(ok, s).
          if \<not> ok then Some (Returned, s)
          else callchain_loop ul sample ips isKernel (addedUserFrames \<or> \<not> isKernel) s)))"

text \<open>Addresses are reported until one makes the cache dirty.\<close>

primrec report_ips ::
  "('w, 'm, 'd) unwind_lib \<Rightarrow> sample_record \<Rightarrow> u64 list \<Rightarrow> ('w, 'm) analysis \<Rightarrow> ('w, 'm) analysis option"
where
  "report_ips ul sample [] s = Some s"
| "report_ips ul sample (ip # ips) s =
     Option.bind (report_ip ul sample False ip s) (\<lambda>(ok, s). if ok then report_ips ul sample ips s else Some s)"

text \<open>The first callee of the branch stack and all its callers.\<close>

definition branch_ips :: "branch_entry list \<Rightarrow> u64 list" where
  "branch_ips es = (case es of [] \<Rightarrow> [] | e # _ \<Rightarrow> be_to e # map be_from es)"

definition resolveCallchain ::
  "('w, 'm, 'd) unwind_lib \<Rightarrow> sample_record \<Rightarrow> ('w, 'm) analysis \<Rightarrow> ('w, 'm) analysis option"
where
  "resolveCallchain ul sample s =
     Option.bind (callchain_loop ul sample (sr_callchain sample) False False (snd (symbolTable ul (sample_pid sample) s)))
       (\<lambda>(e, s). case e of
          Left False \<Rightarrow> report_ips ul sample (branch_ips (sr_branchStack sample)) s
        | _ \<Rightarrow> Some s)"

section \<open>The analysis\<close>

definition start_attempt :: "('w, 'm, 'd) unwind_lib \<Rightarrow> sample_record \<Rightarrow> ('w, 'm) analysis \<Rightarrow> ('w, 'm) analysis" where
  "start_attempt ul sample s =
     (let (t, s) = symbolTable ul (sample_pid sample) s in
      (putTable (sample_pid sample) (updatePerfMap (ul_lib ul) (ul_mapLines ul (pt_perfMapFile t) sample) t) s)
        \<lparr>an_isInterworking := False, an_firstGuessedFrame := - 1, an_frames := []\<rparr>)"

definition clear_table :: "('w, 'm, 'd) unwind_lib \<Rightarrow> s32 \<Rightarrow> ('w, 'm) analysis \<Rightarrow> ('w, 'm) analysis" where
  "clear_table ul pid s = (let (t, s) = symbolTable ul pid s in putTable pid (clearCache (ul_lib ul) t) s)"

text \<open>One of the attempts, with whether another one may help.\<close>

definition attempt ::
  "('w, 'm, 'd) unwind_lib \<Rightarrow> sample_record \<Rightarrow> ('w, 'm) analysis \<Rightarrow> (bool \<times> ('w, 'm) analysis) option"
where
  "attempt ul sample s =
     (let pid = sample_pid sample; s = start_attempt ul sample s in
      Option.bind
        (if sr_callchain sample \<noteq> [] \<or> sr_branchStack sample \<noteq> [] then resolveCallchain ul sample s else Some s) (\<lambda>s.
      let userDirty = cacheIsDirty ul pid s; kernelDirty = cacheIsDirty ul s_kernelPid s in
      if \<not> userDirty \<and> \<not> kernelDirty \<and> (sr_registerAbi sample = 0 \<or> sr_userStack sample = []) then Some (False, s)
      else Option.bind (if \<not> userDirty \<and> \<not> kernelDirty then unwindStack ul sample s else Some s) (\<lambda>s.
      let userDirty = (if \<not> userDirty \<and> \<not> kernelDirty then cacheIsDirty ul pid s else userDirty);
          s = (if userDirty then clear_table ul pid s else s);
          s = (if kernelDirty then clear_table ul s_kernelPid s else s) in
      Some (userDirty \<or> kernelDirty, s))))"

primrec attempts ::
  "('w, 'm, 'd) unwind_lib \<Rightarrow> sample_record \<Rightarrow> nat \<Rightarrow> ('w, 'm) analysis \<Rightarrow> ('w, 'm) analysis option"
where
  "attempts ul sample 0 s = Some s"
| "attempts ul sample (Suc n) s =
     Option.bind (attempt ul sample s) (\<lambda>(again, s). if again then attempts ul sample n s else Some s)"

text \<open>Without any frame, the instruction pointer is looked up.\<close>

definition at_least_ip ::
  "('w, 'm, 'd) unwind_lib \<Rightarrow> sample_record \<Rightarrow> ('w, 'm) analysis \<Rightarrow> ('w, 'm) analysis option"
where
  "at_least_ip ul sample s =
     (if an_frames s \<noteq> [] then Some s
      else let isKernel = ipIsInKernelSpace (sr_ip sample) s in
        map_option (\<lambda>((frame, interworking), s). s\<lparr>an_frames := [frame], an_isInterworking := interworking\<rparr>)
          (look_up ul (table_pid sample isKernel) (sr_ip sample) isKernel s))"

definition find_frames ::
  "('w, 'm, 'd) unwind_lib \<Rightarrow> sample_record \<Rightarrow> ('w, 'm) analysis \<Rightarrow> ('w, 'm) analysis option"
where
  "find_frames ul sample s =
     (let (_, s) = symbolTable ul s_kernelPid s; (_, s) = symbolTable ul (sample_pid sample) s in
      Option.bind (attempts ul sample 2 s) (at_least_ip ul sample))"

definition numGuessedFrames :: "('w, 'm) analysis \<Rightarrow> u8" where
  "numGuessedFrames s =
     (if an_firstGuessedFrame s = - 1 then 0
      else word_of_int (min 255 (int (length (an_frames s)) - an_firstGuessedFrame s)))"

section \<open>The message\<close>

definition attributesId :: "u64 \<Rightarrow> 'a unwind_scheme \<Rightarrow> s32" where
  "attributesId i u = (case uw_attributeIds u i of Some a \<Rightarrow> a | None \<Rightarrow> - 1)"

text \<open>The number of the format of a trace point, if the sample is of one.\<close>

definition tracepoint_format :: "sample_record \<Rightarrow> 'a unwind_scheme \<Rightarrow> s32 option" where
  "tracepoint_format sample u =
     (let n = attributesId (sid_id (r_sampleId sample)) u in
      if n = - 1 then None
      else let a = uw_attributes u ! nat (sint n) in
        if a_type a \<noteq> TYPE_TRACEPOINT then None
        else Some (if uint (a_config a) > intMax then - 1 else ucast (a_config a)))"

definition sample_values :: "sample_record \<Rightarrow> 'a unwind_scheme \<Rightarrow> (s32 \<times> u64) list" where
  "sample_values sample u =
     (if sr_readFormats sample = []
      then [(attributesId (sid_id (r_sampleId sample)) u, sr_period sample)]
      else map (\<lambda>f. (attributesId (rv_id f) u, rv_value f)) (sr_readFormats sample))"

primrec trace_fields ::
  "bytes \<Rightarrow> bool \<Rightarrow> 'a unwind_scheme \<Rightarrow> format_field list \<Rightarrow> (s32 \<rightharpoonup> trace_value) \<Rightarrow> (s32 \<rightharpoonup> trace_value) option"
where
  "trace_fields dat byteSwap u [] m = Some m"
| "trace_fields dat byteSwap u (f # fs) m =
     Option.bind (readTraceData dat f byteSwap) (\<lambda>v. trace_fields dat byteSwap u fs (m(lookupString (ff_name f) u \<mapsto> v)))"

text \<open>\<open>order\<close> is the order in which the hash of values is written.\<close>

definition trace_values ::
  "((s32 \<rightharpoonup> trace_value) \<Rightarrow> s32 list) \<Rightarrow> sample_record \<Rightarrow> bool \<Rightarrow> 'a unwind_scheme
    \<Rightarrow> (s32 \<times> trace_value) list option option"
where
  "trace_values order sample byteSwap u =
     (case tracepoint_format sample u of
        None \<Rightarrow> Some None
      | Some i \<Rightarrow> map_option (\<lambda>m. Some (map (\<lambda>k. (k, the (m k))) (order m)))
          (trace_fields (sr_rawData sample) byteSwap u (ef_fields (eventFormat i (uw_tracing u))) Map.empty))"

definition sample_message_of ::
  "('w, 'm, 'd) unwind_lib \<Rightarrow> sample_record \<Rightarrow> ('w, 'm) analysis \<Rightarrow> sample_message option"
where
  "sample_message_of ul sample s =
     map_option (\<lambda>trace. \<lparr>sm_trace = trace, sm_pid = sample_pid sample, sm_tid = sid_tid (r_sampleId sample),
         sm_time = record_time sample, sm_cpu = record_cpu sample, sm_frames = an_frames s,
         sm_guessed = numGuessedFrames s, sm_values = sample_values sample s\<rparr>)
       (trace_values (ul_fields ul) sample (an_byteOrder s \<noteq> hostByteOrder) s)"

definition analyze ::
  "('w, 'm, 'd) unwind_lib \<Rightarrow> (trace_value \<Rightarrow> bytes) \<Rightarrow> sample_record \<Rightarrow> ('w, 'm) analysis \<Rightarrow> ('w, 'm) analysis option"
where
  "analyze ul wr sample s =
     (if st_enabled (eb_stats s) then Some s
      else Option.bind (find_frames ul sample s) (\<lambda>s.
        map_option (\<lambda>m. sendBuffer (write_sample_message wr m) s) (sample_message_of ul sample s)))"

section \<open>Events\<close>

text \<open>What the event buffer makes \<open>PerfUnwind\<close> do, the messages it sends itself as in \<open>perform\<close>.\<close>

fun act ::
  "('w, 'm, 'd) unwind_lib \<Rightarrow> (trace_value \<Rightarrow> bytes) \<Rightarrow> (u64 \<Rightarrow> u64 \<Rightarrow> u16 list) \<Rightarrow> action \<Rightarrow> ('w, 'm) analysis
    \<Rightarrow> ('w, 'm) analysis option"
where
  "act ul wr tr (RegisterElf mmap) s =
     (let buildId = (case uw_buildIds s (mm_filename mmap) of Some i \<Rightarrow> i | None \<Rightarrow> []);
          (t, s) = symbolTable ul (mm_pid mmap) s in
      map_option (\<lambda>(t, s). putTable (mm_pid mmap) t s) (table_registerElf (ul_lib ul) mmap buildId t s))"
| "act ul wr tr (InitAfterFork child parent) s =
     (let (_, s) = symbolTable ul child s; (parentTable, s) = symbolTable ul parent s;
          (childTable, s) = symbolTable ul child s in
      Some (putTable child (initAfterFork (ul_lib ul) parentTable childTable) s))"
| "act ul wr tr (DropTable pid) s = Some (s\<lparr>an_tables := (an_tables s)(pid := None)\<rparr>)"
| "act ul wr tr (Analyze sample) s = analyze ul wr sample s"
| "act ul wr tr a s = Some (perform (\<lambda>_ s. s) tr a s)"

primrec act_all ::
  "('w, 'm, 'd) unwind_lib \<Rightarrow> (trace_value \<Rightarrow> bytes) \<Rightarrow> (u64 \<Rightarrow> u64 \<Rightarrow> u16 list) \<Rightarrow> action list \<Rightarrow> ('w, 'm) analysis
    \<Rightarrow> ('w, 'm) analysis option"
where
  "act_all ul wr tr [] s = Some s"
| "act_all ul wr tr (a # as) s = Option.bind (act ul wr tr a s) (act_all ul wr tr as)"

text \<open>An operation of the buffer with what it makes \<open>PerfUnwind\<close> do.\<close>

definition run_actions ::
  "('w, 'm, 'd) unwind_lib \<Rightarrow> (trace_value \<Rightarrow> bytes) \<Rightarrow> (u64 \<Rightarrow> u64 \<Rightarrow> u16 list)
    \<Rightarrow> (('w, 'm) analysis \<Rightarrow> ('w, 'm) analysis \<times> action list) \<Rightarrow> ('w, 'm) analysis \<Rightarrow> ('w, 'm) analysis option"
where
  "run_actions ul wr tr step s = (let (s, as) = step s in act_all ul wr tr as s)"

end
