(* ===== verification/Resolving.thy ===== *)
theory Resolving
  imports ClientRefinement
begin

text \<open>
  What the symbol tables do to \<open>PerfUnwind\<close>, as a step relation: they resolve strings, locations and symbols and
  send errors and progress, in any order, and change nothing else that a client can see. Every such run keeps the
  numbers it has given, and a client that was in step stays in step.
\<close>

section \<open>The relation\<close>

text \<open>The part of \<open>fits_location\<close> that does not speak of the size of the table.\<close>

definition refers :: "'a unwind_scheme \<Rightarrow> location \<Rightarrow> bool" where
  "refers u l \<longleftrightarrow> lc_pid l \<noteq> 0 \<and> (lc_file l = - 1 \<or> known_string u (lc_file l))
     \<and> (lc_parent l = - 1 \<or> known_location u (lc_parent l))"

text \<open>A change of what only \<open>PerfUnwind\<close> sees.\<close>

definition same_output :: "'a unwind_scheme \<Rightarrow> 'a unwind_scheme \<Rightarrow> bool" where
  "same_output u u' \<longleftrightarrow> same_tables u u' \<and> uw_strings u' = uw_strings u \<and> uw_output u' = uw_output u
     \<and> st_enabled (eb_stats u') = st_enabled (eb_stats u) \<and> uw_attributeIds u' = uw_attributeIds u
     \<and> uw_tracing u' = uw_tracing u \<and> event_buffer.truncate u' = event_buffer.truncate u"

text \<open>\<open>keep\<close> restricts the changes that are not seen.\<close>

inductive resolves ::
  "('a unwind_scheme \<Rightarrow> 'a unwind_scheme \<Rightarrow> bool) \<Rightarrow> 'a unwind_scheme \<Rightarrow> 'a unwind_scheme \<Rightarrow> bool"
  for keep
where
  resolves_refl: "resolves keep u u"
| resolves_string: "resolves keep u v \<Longrightarrow> resolves keep u (snd (resolveString s v))"
| resolves_location: "resolves keep u v \<Longrightarrow> refers v l \<Longrightarrow> resolves keep u (snd (resolveLocation l v))"
| resolves_symbol: "resolves keep u v \<Longrightarrow> fits_symbol v i s \<Longrightarrow> resolves keep u (resolveSymbol i s v)"
| resolves_error: "resolves keep u v \<Longrightarrow> length msg < 2 ^ 30 - 5 \<Longrightarrow> resolves keep u (sendError e msg v)"
| resolves_private: "resolves keep u v \<Longrightarrow> same_output v w \<Longrightarrow> keep v w \<Longrightarrow> resolves keep u w"

lemma resolves_trans [trans]: "resolves keep u v \<Longrightarrow> resolves keep v w \<Longrightarrow> resolves keep u w"
  by (rotate_tac) (induction rule: resolves.induct, auto intro: resolves.intros)

lemma resolves_mono_keep: "resolves keep u v \<Longrightarrow> (\<And>v w. keep v w \<Longrightarrow> keep' v w) \<Longrightarrow> resolves keep' u v"
  by (induction rule: resolves.induct) (auto intro: resolves.intros)

section \<open>What a run keeps\<close>

text \<open>The numbers of \<open>u\<close> are numbers of \<open>v\<close>, for the same strings; symbols are not taken away.\<close>

definition extends :: "'a unwind_scheme \<Rightarrow> 'a unwind_scheme \<Rightarrow> bool" where
  "extends u v \<longleftrightarrow> (\<exists>ss. uw_strings v = ss @ uw_strings u) \<and> (\<exists>ls. uw_locations v = ls @ uw_locations u)
     \<and> dom (uw_symbols u) \<subseteq> dom (uw_symbols v) \<and> uw_attributes v = uw_attributes u
     \<and> st_enabled (eb_stats v) = st_enabled (eb_stats u) \<and> uw_attributeIds v = uw_attributeIds u
     \<and> uw_tracing v = uw_tracing u \<and> event_buffer.truncate v = event_buffer.truncate u"

lemma extends_refl: "extends u u"
  by (simp add: extends_def)

lemma extends_trans: "extends u v \<Longrightarrow> extends v w \<Longrightarrow> extends u w"
  by (auto simp: extends_def)

lemma sendBuffer_tables [simp]:
  "uw_strings (sendBuffer m u) = uw_strings u" "uw_locations (sendBuffer m u) = uw_locations u"
  "uw_symbols (sendBuffer m u) = uw_symbols u" "uw_attributes (sendBuffer m u) = uw_attributes u"
  "eb_stats (sendBuffer m u) = eb_stats u" "uw_attributeIds (sendBuffer m u) = uw_attributeIds u"
  "uw_tracing (sendBuffer m u) = uw_tracing u"
  by (simp_all add: sendBuffer_def)

lemma buffer_unchanged [simp]:
  "event_buffer.truncate (sendBuffer m u) = event_buffer.truncate u"
  "event_buffer.truncate (u\<lparr>uw_strings := ss\<rparr>) = event_buffer.truncate u"
  "event_buffer.truncate (u\<lparr>uw_locations := ls\<rparr>) = event_buffer.truncate u"
  "event_buffer.truncate (u\<lparr>uw_symbols := ys\<rparr>) = event_buffer.truncate u"
  by (simp_all add: sendBuffer_def event_buffer.defs)

lemma extends_string: "extends u (snd (resolveString s u))"
  by (simp add: extends_def resolveString_def sendString_def Let_def split: option.split)

lemma extends_location: "extends u (snd (resolveLocation l u))"
  by (simp add: extends_def resolveLocation_def sendLocation_def Let_def split: option.split)

lemma extends_symbol: "extends u (resolveSymbol i s u)"
  by (auto simp: extends_def resolveSymbol_def sendSymbol_def)

lemma resolves_extends: "resolves keep u v \<Longrightarrow> extends u v"
proof (induction rule: resolves.induct)
  case (resolves_error u v msg e)
  then show ?case by (simp add: extends_def sendError_def)
next
  case (resolves_private u v w)
  then show ?case by (auto simp: extends_def same_output_def same_tables_def)
qed (auto intro: extends_refl extends_trans [OF _ extends_string] extends_trans [OF _ extends_location]
    extends_trans [OF _ extends_symbol])

lemma known_string_mono: "extends u v \<Longrightarrow> known_string u i \<Longrightarrow> known_string v i"
  and known_location_mono: "extends u v \<Longrightarrow> known_location u i \<Longrightarrow> known_location v i"
  and hasSymbol_mono: "extends u v \<Longrightarrow> hasSymbol i u \<Longrightarrow> hasSymbol i v"
  by (auto simp: extends_def known_string_def known_location_def hasSymbol_def)

section \<open>What the operations return\<close>

lemma resolveString_known: "resolveString s u = (i, v) \<Longrightarrow> i = - 1 \<or> known_string v i"
  by (auto simp: resolveString_def known_string_def sendString_def Let_def split: if_splits option.splits
      dest!: map_of_SomeD intro!: image_eqI [of _ snd "(s, i)"])

lemma resolveLocation_known: "resolveLocation l u = (i, v) \<Longrightarrow> known_location v i"
  by (auto simp: resolveLocation_def known_location_def sendLocation_def Let_def split: option.splits
      dest!: find_location_in intro!: image_eqI [where f = snd])

lemma lookupLocation_known: "lookupLocation l u = - 1 \<or> known_location u (lookupLocation l u)"
  by (cases "find_location l u")
    (auto simp: lookupLocation_def known_location_def dest!: find_location_in intro!: image_eqI [where f = snd])

section \<open>The client\<close>

text \<open>Sizes and counts stay within a positive \<open>int\<close>.\<close>

definition fits :: "'a unwind_scheme \<Rightarrow> bool" where
  "fits u \<longleftrightarrow> length (uw_strings u) < 2 ^ 31 - 1 \<and> length (uw_locations u) < 2 ^ 31 - 1
     \<and> (\<forall>s \<in> fst ` set (uw_strings u). length s < 2 ^ 31 - 9)"

lemma fits_mono: "extends u v \<Longrightarrow> fits v \<Longrightarrow> fits u"
  by (auto simp: extends_def fits_def)

lemma resolveString_fits:
  assumes "fits (snd (resolveString s u))"
  shows "length s < 2 ^ 31 - 9"
proof (cases "s = []")
  case False
  then have "s \<in> fst ` set (uw_strings (snd (resolveString s u)))"
    by (auto simp: resolveString_def sendString_def Let_def split: option.split dest: map_of_SomeD intro: rev_image_eqI)
  then show ?thesis using assms by (auto simp: fits_def)
qed simp

lemma resolves_in_step:
  assumes "resolves keep u v" "in_step rd later version u c" "fits v"
  shows "\<exists>c'. in_step rd later version v c' \<and> cl_formats c' = cl_formats c \<and> cl_samples c' = cl_samples c \<and> cl_progress c' = cl_progress c"
  using assms
proof (induction arbitrary: c rule: resolves.induct)
  case (resolves_string u v s)
  from extends_string resolves_string.prems(2) have "fits v" by (rule fits_mono)
  with resolves_string.IH resolves_string.prems obtain c' where c': "in_step rd later version v c'"
    "cl_formats c' = cl_formats c" "cl_samples c' = cl_samples c" "cl_progress c' = cl_progress c" by blast
  obtain i w where w: "resolveString s v = (i, w)" by fastforce
  from resolveString_step [OF c'(1) resolveString_fits [OF resolves_string.prems(2)] _ w] \<open>fits v\<close>
  obtain c'' where c'': "in_step rd later version w c''" "more_strings c' c''" by (auto simp: fits_def)
  then have "cl_formats c'' = cl_formats c' \<and> cl_samples c'' = cl_samples c' \<and> cl_progress c'' = cl_progress c'" by (auto simp: more_strings_def)
  with c' c''(1) w show ?case by auto
next
  case (resolves_location u v l)
  from extends_location resolves_location.prems(2) have "fits v" by (rule fits_mono)
  with resolves_location.IH resolves_location.prems obtain c' where c': "in_step rd later version v c'"
    "cl_formats c' = cl_formats c" "cl_samples c' = cl_samples c" "cl_progress c' = cl_progress c" by blast
  obtain i w where w: "resolveLocation l v = (i, w)" by fastforce
  have "fits_location v l"
    using \<open>fits v\<close> resolves_location.hyps by (simp add: fits_location_def refers_def fits_def)
  from resolveLocation_step [OF c'(1) this w] c' w show ?case by auto
next
  case (resolves_symbol u v i s)
  from extends_symbol resolves_symbol.prems(2) have "fits v" by (rule fits_mono)
  with resolves_symbol.IH resolves_symbol.prems obtain c' where c': "in_step rd later version v c'"
    "cl_formats c' = cl_formats c" "cl_samples c' = cl_samples c" "cl_progress c' = cl_progress c" by blast
  from resolveSymbol_step [OF c'(1) resolves_symbol.hyps(2)] c' show ?case by auto
next
  case (resolves_error u v msg e)
  then have "fits v" by (simp add: fits_def sendError_def)
  with resolves_error.IH resolves_error.prems obtain c' where c': "in_step rd later version v c'"
    "cl_formats c' = cl_formats c" "cl_samples c' = cl_samples c" "cl_progress c' = cl_progress c" by blast
  with sendError_step [OF c'(1) resolves_error.hyps(2)] show ?case by auto
next
  case (resolves_private u v w)
  then have "fits v" by (simp add: fits_def same_output_def same_tables_def)
  with resolves_private.IH resolves_private.prems obtain c' where c': "in_step rd later version v c'"
    "cl_formats c' = cl_formats c" "cl_samples c' = cl_samples c" "cl_progress c' = cl_progress c" by blast
  moreover have "in_step rd later version w c'"
    using c'(1) resolves_private.hyps(2) by (auto simp: in_step_def synced_def same_output_def same_tables_def)
  ultimately show ?case by blast
qed auto

end
