(* ===== verification/FrameLookupFacts.thy ===== *)
theory FrameLookupFacts
  imports FrameLookup Resolving
begin

text \<open>
  What \<open>lookupFrame\<close> does to the client: everything it sends refers to what was sent before, and the number it
  returns, from the cache or not, is that of a location the client has, with a symbol for the function it is in.
\<close>

section \<open>What a frame refers to\<close>

definition origin_ok :: "'a unwind_scheme \<Rightarrow> symbol_origin \<Rightarrow> bool" where
  "origin_ok u org \<longleftrightarrow> so_binary org = - 1 \<or> known_string u (so_binary org)"

definition frame_ok :: "'a unwind_scheme \<Rightarrow> frame_info \<Rightarrow> bool" where
  "frame_ok u f \<longleftrightarrow> refers u (fr_address f) \<and> refers u (fr_function f) \<and> lc_parent (fr_function f) = - 1"

lemma refers_mono: "resolves keep u v \<Longrightarrow> refers u l \<Longrightarrow> refers v l"
  by (auto simp: refers_def dest: known_string_mono [OF resolves_extends] known_location_mono [OF resolves_extends])

lemma origin_ok_mono: "resolves keep u v \<Longrightarrow> origin_ok u org \<Longrightarrow> origin_ok v org"
  by (auto simp: origin_ok_def dest: known_string_mono [OF resolves_extends])

lemma frame_ok_mono: "resolves keep u v \<Longrightarrow> frame_ok u f \<Longrightarrow> frame_ok v f"
  by (auto simp: frame_ok_def dest: refers_mono)

lemmas mono = refers_mono origin_ok_mono frame_ok_mono known_location_mono [OF resolves_extends]
  known_string_mono [OF resolves_extends] hasSymbol_mono [OF resolves_extends]

lemma resolveString_ok: "resolveString s u = (i, v) \<Longrightarrow> resolves keep u v \<and> (i = - 1 \<or> known_string v i)"
  using resolves_string [OF resolves_refl [of keep u], of s] resolveString_known [of s u i v] by simp

lemma resolveLocation_ok: "resolveLocation l u = (i, v) \<Longrightarrow> refers u l \<Longrightarrow> resolves keep u v \<and> known_location v i"
  using resolves_location [OF resolves_refl [of keep u], of l] resolveLocation_known [of l u i v] by simp

lemma resolveSymbol_ok:
  assumes "known_location u i" "origin_ok u org" "name = - 1 \<or> known_string u name"
  shows "resolves keep u (resolveSymbol i (origin_symbol org name b) u)" "hasSymbol i (resolveSymbol i (origin_symbol org name b) u)"
    "known_location (resolveSymbol i (origin_symbol org name b) u) i"
proof -
  have "fits_symbol u i (origin_symbol org name b)"
    using assms by (simp add: fits_symbol_def origin_ok_def origin_symbol_def)
  then show r: "resolves keep u (resolveSymbol i (origin_symbol org name b) u)"
    by (rule resolves_symbol [OF resolves_refl])
  from mono(4) [OF this assms(1)] show "known_location (resolveSymbol i (origin_symbol org name b) u) i" .
qed (simp add: hasSymbol_def resolveSymbol_def sendSymbol_def)

section \<open>Inlined functions\<close>

lemma insertSubprogram_ok:
  assumes "insertSubprogram lib pid org d entry call b m u = Some (i, m', u')" "pid \<noteq> 0" "origin_ok u org"
    "call = - 1 \<or> known_location u call"
  shows "resolves keep u u' \<and> known_location u' i \<and> hasSymbol i u'"
proof -
  obtain fileId v where v: "resolveString (absoluteSourcePath (di_declFile (die_info d)) (Some (cudie m))) u = (fileId, v)"
    by fastforce
  note v' = resolveString_ok [where keep = keep, OF v]
  obtain j w where w: "resolveLocation \<lparr>lc_address = entry, lc_relAddr = so_relAddr org, lc_file = fileId, lc_pid = pid,
      lc_line = (case di_declLine (die_info d) of Some n \<Rightarrow> n | None \<Rightarrow> 0),
      lc_column = (case di_declColumn (die_info d) of Some n \<Rightarrow> n | None \<Rightarrow> 0), lc_parent = call\<rparr> v = (j, w)"
    by fastforce
  have w': "resolves keep v w \<and> known_location w j"
    using v' assms(2,4) mono(4) [where keep = keep, of u v call] by (intro resolveLocation_ok [where keep = keep, OF w]) (auto simp: refers_def)
  from assms(1) obtain name x symId where x: "resolveString name w = (symId, x)" "i = j"
    "u' = resolveSymbol j (origin_symbol org symId b) x"
    by (auto simp: insertSubprogram_def v w Let_def split: prod.splits) (metis surj_pair)
  note x' = resolveString_ok [where keep = keep, OF x(1)]
  have r: "resolves keep u x" using v' w' x' by (blast intro: resolves_trans)
  have "known_location x j" using w' x' mono(4) by blast
  from resolveSymbol_ok [OF this mono(2) [OF r assms(3)]] x' x(2,3) r
  show ?thesis by (auto intro: resolves_trans)
qed

lemma parseDie_ok:
  assumes "parseDie lib pid org d entry parent m u = Some (i, m', u')" "pid \<noteq> 0" "origin_ok u org"
    "parent = - 1 \<or> known_location u parent"
  shows "resolves keep u u' \<and> (i = - 1 \<or> known_location u' i \<and> hasSymbol i u')"
proof (cases "di_tag (die_info d) = DW_TAG_inlined_subroutine")
  case True
  then obtain fileId v call w l where v: "resolveString (absoluteSourcePath (case di_callFile (die_info d) of
        Some n \<Rightarrow> li_filesrc lib (cudie m) n | None \<Rightarrow> Some []) (Some (cudie m))) u = (fileId, v)"
    and w: "resolveLocation l v = (call, w)" and l: "lc_file l = fileId" "lc_pid l = pid" "lc_parent l = parent"
    and sub: "insertSubprogram lib pid org d entry call True m w = Some (i, m', u')"
    using assms(1) by (auto simp: parseDie_def Let_def split: prod.splits)
  note v' = resolveString_ok [where keep = keep, OF v]
  have w': "resolves keep v w \<and> known_location w call"
    using v' l assms(2,4) mono(4) [where keep = keep, of u v parent] by (intro resolveLocation_ok [where keep = keep, OF w]) (auto simp: refers_def)
  have r: "resolves keep u w" using v' w' by (blast intro: resolves_trans)
  have "resolves keep w u' \<and> known_location u' i \<and> hasSymbol i u'"
    using w' by (intro insertSubprogram_ok [where keep = keep, OF sub assms(2) mono(2) [OF r assms(3)]]) blast
  with r show ?thesis by (blast intro: resolves_trans)
next
  case False
  moreover have "resolves keep u u' \<and> known_location u' i \<and> hasSymbol i u'"
    if "insertSubprogram lib pid org d entry (- 1) False m u = Some (i, m', u')"
    using that by (rule insertSubprogram_ok [where keep = keep, OF _ assms(2,3)]) simp
  ultimately show ?thesis
    using assms(1) by (cases "di_tag (die_info d) = DW_TAG_subprogram")
      (auto simp: parseDie_def resolves_refl split: die_tag.splits)
qed

lemma parseDwarf_ok:
  assumes "parseDwarf lib pid org bias ds parent m u = Some (i, m', u')" "pid \<noteq> 0" "origin_ok u org"
    "parent = - 1 \<or> known_location u parent \<and> hasSymbol parent u"
  shows "resolves keep u u' \<and> (i = - 1 \<or> known_location u' i \<and> hasSymbol i u')"
  using assms
proof (induction ds arbitrary: parent m u)
  case Nil
  then show ?case by (auto simp: resolves_refl)
next
  case (Cons d ds)
  then obtain j m1 v where d: "parseDie lib pid org d (bias + (case di_entry (die_info d) of Some entry \<Rightarrow> entry | None \<Rightarrow> 0))
      parent m u = Some (j, m1, v)"
    and ds: "parseDwarf lib pid org bias ds (if j \<noteq> - 1 then j else parent) m1 v = Some (i, m', u')"
    by (auto simp: Let_def bind_eq_Some_conv)
  from Cons.prems(4) have "parent = - 1 \<or> known_location u parent" by blast
  from parseDie_ok [where keep = keep, OF d Cons.prems(2,3) this] have v: "resolves keep u v" "j = - 1 \<or> known_location v j \<and> hasSymbol j v"
    by auto
  have "parent = - 1 \<or> known_location v parent \<and> hasSymbol parent v"
    using Cons.prems(4) mono(4,6) [OF v(1)] by blast
  then have "resolves keep v u' \<and> (i = - 1 \<or> known_location u' i \<and> hasSymbol i u')"
    using v(2) by (intro Cons.IH [OF ds Cons.prems(2) mono(2) [OF v(1) Cons.prems(3)]]) auto
  with v(1) show ?case by (blast intro: resolves_trans)
qed

section \<open>Frames\<close>

lemma resolve_source_ok:
  assumes "resolve_source lib m offset f u = (f', u')" "frame_ok u f"
  shows "resolves keep u u' \<and> frame_ok u' f'"
proof (cases "sl_file (findSourceLocation (li_getsrc lib) (cudie m) offset) = []")
  case False
  then obtain fileId where r: "resolveString (sl_file (findSourceLocation (li_getsrc lib) (cudie m) offset)) u = (fileId, u')"
    and f: "f' = f\<lparr>fr_address := (fr_address f)\<lparr>lc_file := fileId,
      lc_line := sl_line (findSourceLocation (li_getsrc lib) (cudie m) offset),
      lc_column := sl_column (findSourceLocation (li_getsrc lib) (cudie m) offset)\<rparr>\<rparr>"
    using assms(1) by (auto simp: resolve_source_def Let_def split: prod.splits)
  note r' = resolveString_ok [where keep = keep, OF r]
  with mono(3) [OF conjunct1 [OF r'] assms(2)] show ?thesis by (auto simp: f frame_ok_def refers_def)
qed (use assms in \<open>auto simp: resolve_source_def resolves_refl\<close>)

lemma resolve_subprogram_ok:
  assumes "resolve_subprogram lib pid org offset sp f m u = Some (f', m', u')" "pid \<noteq> 0" "origin_ok u org"
    "frame_ok u f"
  shows "resolves keep u u' \<and> frame_ok u' f'"
proof -
  define scopes where "scopes = findInlineScopes sp offset"
  define i where "i = die_info (if scopes = [] then sp else last scopes)"
  note eq = assms(1) [unfolded resolve_subprogram_def Let_def, folded scopes_def, folded i_def]
  obtain name m1 where name: "dieName (li_demangle lib) (li_dwarf lib) (if scopes = [] then sp else last scopes) m = Some (name, m1)"
    using eq by (cases "dieName (li_demangle lib) (li_dwarf lib) (if scopes = [] then sp else last scopes) m") auto
  obtain fileId v where v: "resolveString (absoluteSourcePath (di_declFile i) (Some (cudie m1))) u = (fileId, v)"
    by fastforce
  define g where "g = f\<lparr>fr_function := entry_location i (cu_bias m) fileId (fr_function f), fr_symname := name\<rparr>"
  define parent where "parent = lookupLocation (fr_function g) v"
  from eq have "map_option (\<lambda>(parent, m, u). (g\<lparr>fr_address := (fr_address g)\<lparr>lc_parent := parent\<rparr>\<rparr>, m, u))
      (if scopes \<noteq> [] \<and> \<not> hasSymbol parent v then parseDwarf lib pid org (cu_bias m) (sp # scopes) (- 1) m1 v
       else Some (parent, m1, v)) = Some (f', m', u')"
    unfolding parent_def g_def by (simp only: name v bind.simps prod.case)
  then obtain parent' where f': "f' = g\<lparr>fr_address := (fr_address g)\<lparr>lc_parent := parent'\<rparr>\<rparr>"
    and chain: "(if scopes \<noteq> [] \<and> \<not> hasSymbol parent v then parseDwarf lib pid org (cu_bias m) (sp # scopes) (- 1) m1 v
      else Some (parent, m1, v)) = Some (parent', m', u')" by auto
  note v' = resolveString_ok [where keep = keep, OF v]
  have g: "frame_ok v g"
    using v' mono(3) [OF conjunct1 [OF v'] assms(4)] by (auto simp: g_def frame_ok_def refers_def entry_location_def)
  have "resolves keep v u' \<and> (parent' = - 1 \<or> known_location u' parent')"
  proof (cases "scopes \<noteq> [] \<and> \<not> hasSymbol parent v")
    case True
    then have "parseDwarf lib pid org (cu_bias m) (sp # scopes) (- 1) m1 v = Some (parent', m', u')" using chain by simp
    from parseDwarf_ok [where keep = keep, OF this assms(2) mono(2) [OF conjunct1 [OF v'] assms(3)]] show ?thesis by auto
  next
    case False
    then have "parent' = parent" "u' = v" using chain by (auto split: if_splits)
    then show ?thesis using lookupLocation_known [of "fr_function g" v] by (simp add: resolves_refl parent_def)
  qed
  with v' mono(3) [where keep = keep, of v u' g] g show ?thesis by (auto simp: f' frame_ok_def refers_def intro: resolves_trans)
qed

lemma resolve_function_ok:
  assumes "resolve_function f u = (f', u')" "frame_ok u f"
  shows "resolves keep u u' \<and> frame_ok u' f' \<and> known_location u' (lc_parent (fr_address f'))"
proof -
  obtain parent where r: "resolveLocation (fr_function f) u = (parent, u')"
    and f: "f' = f\<lparr>fr_address := (fr_address f)\<lparr>lc_parent := parent\<rparr>\<rparr>"
    using assms(1) by (auto simp: resolve_function_def split: prod.splits)
  have r': "resolves keep u u' \<and> known_location u' parent"
    using assms(2) by (intro resolveLocation_ok [where keep = keep, OF r]) (simp add: frame_ok_def)
  with mono(3) [OF conjunct1 [OF r'] assms(2)] show ?thesis by (auto simp: f frame_ok_def refers_def)
qed

lemma number_function_ok:
  assumes "number_function f u = (f', u')" "frame_ok u f"
  shows "resolves keep u u' \<and> frame_ok u' f' \<and> known_location u' (lc_parent (fr_address f'))"
proof (cases "lc_parent (fr_address f) = - 1")
  case True
  with assms resolve_function_ok show ?thesis by (simp add: number_function_def)
next
  case False
  with assms show ?thesis by (auto simp: number_function_def resolves_refl frame_ok_def refers_def)
qed

lemma name_function_ok:
  assumes "known_location u (lc_parent (fr_address f))" "origin_ok u org"
  shows "resolves keep u (name_function org f u)" "hasSymbol (lc_parent (fr_address f)) (name_function org f u)"
proof -
  obtain symId v where v: "resolveString (fr_symname f) u = (symId, v)" by fastforce
  note v' = resolveString_ok [where keep = keep, OF v]
  then have "known_location v (lc_parent (fr_address f))" "origin_ok v org" using mono(2,4) assms by blast+
  from resolveSymbol_ok [OF this conjunct2 [OF v']] v'
  show "resolves keep u (name_function org f u)" "hasSymbol (lc_parent (fr_address f)) (name_function org f u)"
    by (auto simp: name_function_def v Let_def resolves_refl intro: resolves_trans)
qed

lemma resolve_debug_ok:
  assumes "resolve_debug lib pid org f m u = Some (f', m', u')" "pid \<noteq> 0" "origin_ok u org" "frame_ok u f"
  shows "resolves keep u u' \<and> frame_ok u' f'"
proof -
  let ?offset = "lc_address (fr_address f) - cu_bias m"
  obtain f1 v where v: "resolve_source lib m ?offset f u = (f1, v)" by fastforce
  obtain sp m1 where sp: "findSubprogramDie ?offset m = (sp, m1)" by fastforce
  note v' = resolve_source_ok [where keep = keep, OF v assms(4)]
  show ?thesis
  proof (cases sp)
    case None
    with assms(1) v' show ?thesis by (simp add: resolve_debug_def v sp)
  next
    case (Some r)
    then have "resolve_subprogram lib pid org ?offset (dr_die r) f1 m1 v = Some (f', m', u')"
      using assms(1) by (simp add: resolve_debug_def v sp)
    from resolve_subprogram_ok [where keep = keep, OF this assms(2) mono(2) [OF conjunct1 [OF v'] assms(3)]] v'
    show ?thesis by (blast intro: resolves_trans)
  qed
qed

lemma same_output_refl: "same_output u u"
  by (simp add: same_output_def same_tables_def)

text \<open>What a lookup does not touch: the owner of the tables, and until its end the locations in the cache.\<close>

definition keeps_owner :: "'a symbol_unwind_scheme \<Rightarrow> 'a symbol_unwind_scheme \<Rightarrow> bool" where
  "keeps_owner u v \<longleftrightarrow> symbol_unwind.more v = symbol_unwind.more u"

definition keeps_locations :: "'a symbol_unwind_scheme \<Rightarrow> 'a symbol_unwind_scheme \<Rightarrow> bool" where
  "keeps_locations u v \<longleftrightarrow> m_cache (su_addressCache v) = m_cache (su_addressCache u) \<and> keeps_owner u v"

lemma private_update:
  "m_cache c = m_cache (su_addressCache u) \<Longrightarrow> resolves keeps_locations u (u\<lparr>su_addressCache := c\<rparr>)"
  "resolves keeps_locations u (u\<lparr>su_kallsyms := k\<rparr>)"
  by (auto intro!: resolves_private [OF resolves_refl] simp: same_output_def same_tables_def keeps_locations_def
      keeps_owner_def event_buffer.defs)

lemma module_symbol_ok: "module_symbol lib path elfStart module address t u = (entry, u') \<Longrightarrow> resolves keeps_locations u u'"
  by (auto simp: module_symbol_def Let_def findSymbol_def setSymbolCache_def
      split: prod.splits option.splits if_splits intro!: private_update(1))

lemma resolve_unit_ok:
  assumes "resolve_unit lib pid org f units u = Some (f', units', u')" "pid \<noteq> 0" "origin_ok u org" "frame_ok u f"
  shows "resolves keeps_locations u u' \<and> frame_ok u' f'"
proof (cases "findCuDie (lc_address (fr_address f)) units")
  case (Some k)
  then obtain m where "resolve_debug lib pid org f (units ! k) u = Some (f', m, u')"
    using assms(1) by (auto simp: resolve_unit_def)
  from resolve_debug_ok [where keep = keeps_locations, OF this assms(2-4)] show ?thesis .
qed (use assms in \<open>simp add: resolve_unit_def resolves_refl\<close>)

lemma resolve_in_module_ok:
  assumes "resolve_in_module lib elf elfStart module org f t u = Some (org', f', t', u')" "pt_pid t \<noteq> 0"
    "origin_ok u org" "frame_ok u f"
  shows "resolves keeps_locations u u' \<and> origin_ok u' org' \<and> frame_ok u' f' \<and> known_location u' (lc_parent (fr_address f'))
    \<and> pt_pid t' = pt_pid t \<and> pt_invalidAddressCache t' = pt_invalidAddressCache t"
proof -
  obtain entry v where v: "module_symbol lib (originalPath elf) elfStart module (lc_address (fr_address f)) t u = (entry, v)"
    by fastforce
  note v' = module_symbol_ok [OF v]
  note org = mono(2) [OF v' assms(3)] and f = mono(3) [OF v' assms(4)]
  show ?thesis
  proof (cases "symbolValid entry")
    case True
    define off where "off = lc_address (fr_address f) - elfStart - sym_offset entry"
    define units where "units = (case pt_cuDieRanges t module of Some ms \<Rightarrow> ms
      | None \<Rightarrow> PerfDwarfDieCache (li_units lib (pt_dwfl t) module))"
    let ?org = "symbol_of_entry entry off (isArmArch v) org"
    have "map_option (\<lambda>(f, units, u). let (f, u) = number_function f u in
          (?org, f, t\<lparr>pt_cuDieRanges := (pt_cuDieRanges t)(module \<mapsto> units)\<rparr>, u))
        (resolve_unit lib (pt_pid t) ?org (frame_of_entry entry off f) units v) = Some (org', f', t', u')"
      using assms(1) True unfolding off_def units_def resolve_in_module_def by (simp only: v Let_def prod.case if_True)
    then obtain g units' w where w: "resolve_unit lib (pt_pid t) ?org (frame_of_entry entry off f) units v = Some (g, units', w)"
      and f': "number_function g w = (f', u')"
      and rest: "org' = ?org" "t' = t\<lparr>pt_cuDieRanges := (pt_cuDieRanges t)(module \<mapsto> units')\<rparr>"
      by (auto split: prod.splits) (metis surj_pair)
    have org': "origin_ok v (symbol_of_entry entry off (isArmArch v) org)"
      using org by (simp add: origin_ok_def symbol_of_entry_def)
    moreover have "frame_ok v (frame_of_entry entry off f)"
      using f by (simp add: frame_ok_def frame_of_entry_def refers_def)
    ultimately have w': "resolves keeps_locations v w" "frame_ok w g" using resolve_unit_ok [OF w assms(2)] by blast+
    note u' = number_function_ok [where keep = keeps_locations, OF f' w'(2)]
    with org' w' have "origin_ok u' org'" using mono(2) rest(1) by blast
    with u' v' w' rest(2) show ?thesis by (auto intro: resolves_trans)
  next
    case False
    then obtain name where "resolve_function (f\<lparr>fr_symname := name\<rparr>) v = (f', u')" "org' = org" "t' = t"
      using assms(1) by (auto simp: resolve_in_module_def v Let_def split: prod.splits)
    moreover have "frame_ok v (f\<lparr>fr_symname := name\<rparr>)" using f by (simp add: frame_ok_def)
    ultimately show ?thesis using resolve_function_ok org v' mono(2) by (blast intro: resolves_trans)
  qed
qed

lemma findKallsymEntry_ok:
  assumes "findKallsymEntry lib address u = (e, u')" "\<forall>p e. length (li_badKallsyms lib p e) < 2 ^ 30 - 5"
  shows "resolves keeps_locations u u'"
proof -
  have "resolves keeps_locations u (sendError InvalidKallsyms (li_badKallsyms lib p e) (u\<lparr>su_kallsyms := k\<rparr>))" for p e k
    using assms(2) by (intro resolves_error [OF private_update(2)]) simp
  with assms(1) show ?thesis
    by (auto simp: findKallsymEntry_def Let_def resolves_refl private_update split: prod.splits if_splits)
qed

lemma name_without_module_ok:
  assumes "name_without_module lib address org t u = (name, off, org', u')"
    "\<forall>p e. length (li_badKallsyms lib p e) < 2 ^ 30 - 5" "origin_ok u org"
  shows "resolves keeps_locations u u' \<and> origin_ok u' org'"
proof (cases "so_isKernel org")
  case True
  obtain e v where v: "findKallsymEntry lib address u = (e, v)" by fastforce
  note v' = findKallsymEntry_ok [OF v assms(2)]
  show ?thesis
  proof (cases "ks_module e = []")
    case True
    with assms(1) \<open>so_isKernel org\<close> v' mono(2) [OF v' assms(3)] show ?thesis
      by (simp add: name_without_module_def v)
  next
    case False
    then obtain i where i: "resolveString (ks_module e) v = (i, u')" "org' = org\<lparr>so_binary := i\<rparr>"
      using assms(1) \<open>so_isKernel org\<close> by (auto simp: name_without_module_def v split: prod.splits)
    from resolveString_ok [where keep = keeps_locations, OF i(1)] i(2) v' show ?thesis by (auto simp: origin_ok_def intro: resolves_trans)
  qed
next
  case False
  with assms show ?thesis by (auto simp: name_without_module_def resolves_refl split: prod.splits)
qed

lemma resolve_without_module_ok:
  assumes "resolve_without_module lib elfStart org f t u = (org', f', u')"
    "\<forall>p e. length (li_badKallsyms lib p e) < 2 ^ 30 - 5" "origin_ok u org" "frame_ok u f"
  shows "resolves keeps_locations u u' \<and> origin_ok u' org' \<and> frame_ok u' f' \<and> known_location u' (lc_parent (fr_address f'))"
proof -
  obtain name off v where v: "name_without_module lib (lc_address (fr_address f)) org t u = (name, off, org', v)"
    and r: "resolve_function (f\<lparr>fr_symname := name, fr_function := (fr_function f)\<lparr>lc_address :=
      (if off \<noteq> 0 then lc_address (fr_function f) - off else elfStart)\<rparr>\<rparr>) v = (f', u')"
    using assms(1) by (auto simp: resolve_without_module_def Let_def split: prod.splits)
  note v' = name_without_module_ok [OF v assms(2,3)]
  have "frame_ok v (f\<lparr>fr_symname := name, fr_function := (fr_function f)\<lparr>lc_address :=
      (if off \<noteq> 0 then lc_address (fr_function f) - off else elfStart)\<rparr>\<rparr>)"
    using mono(3) [OF conjunct1 [OF v'] assms(4)] by (simp add: frame_ok_def refers_def)
  from resolve_function_ok [where keep = keeps_locations, OF r this] v' mono(2) show ?thesis by (blast intro: resolves_trans)
qed

lemma resolve_binary_ok:
  assumes "resolve_binary elf isKernel u = (org, u')"
  shows "resolves keeps_locations u u' \<and> origin_ok u' org"
proof (cases "isValid elf")
  case True
  obtain a v where v: "resolveString (originalFileName elf) u = (a, v)" by fastforce
  obtain b w where w: "resolveString (originalPath elf) v = (b, w)" by fastforce
  obtain c x where x: "resolveString (fi_absoluteFilePath (localFile elf)) w = (c, x)" by fastforce
  note facts = resolveString_ok [where keep = keeps_locations, OF v] resolveString_ok [where keep = keeps_locations, OF w] resolveString_ok [where keep = keeps_locations, OF x]
  then have "resolves keeps_locations v x" by (blast intro: resolves_trans)
  with facts mono(5) have "a = - 1 \<or> known_string x a" by blast
  with True assms facts show ?thesis
    by (auto simp: resolve_binary_def v w x origin_ok_def intro: resolves_trans)
qed (use assms in \<open>auto simp: resolve_binary_def resolves_refl origin_ok_def\<close>)

section \<open>Lookups\<close>

text \<open>What reporting a binary leaves alone.\<close>

definition same_process :: "('w, 'm) proc_symbols \<Rightarrow> ('w, 'm) proc_symbols \<Rightarrow> bool" where
  "same_process t t' \<longleftrightarrow> pt_pid t' = pt_pid t \<and> pt_invalidAddressCache t' = pt_invalidAddressCache t"

lemma reportElf_process: "same_process t (snd (reportElf lib elf t))"
  by (auto simp: reportElf_def same_process_def split: prod.splits option.splits)

lemma module_of_process:
  assumes "module_of lib addr elf t = Some y"
  shows "same_process t (snd y)"
  using assms
proof (induction lib addr elf t y rule: module_of.raw_induct [rotated, consumes 1])
  case (1 module_of lib addr elf t y)
  have "same_process t t" by (simp add: same_process_def)
  with 1 show ?case using reportElf_process [of t lib elf]
    by (auto simp: Let_def split: if_splits option.splits)
qed

lemma resolve_place_ok:
  assumes "resolve_place lib elf start module org f t u = Some (org', f', t', u')" "pt_pid t \<noteq> 0"
    "\<forall>p e. length (li_badKallsyms lib p e) < 2 ^ 30 - 5" "origin_ok u org" "frame_ok u f"
  shows "resolves keeps_locations u u' \<and> origin_ok u' org' \<and> frame_ok u' f'
    \<and> known_location u' (lc_parent (fr_address f')) \<and> same_process t t'"
proof (cases module)
  case None
  then have "resolve_without_module lib start org f t u = (org', f', u')" "t' = t"
    using assms(1) by (auto simp: resolve_place_def split: prod.splits)
  with resolve_without_module_ok [OF this(1) assms(3-5)] show ?thesis by (simp add: same_process_def)
next
  case (Some m)
  then have "resolve_in_module lib elf start m org f t u = Some (org', f', t', u')"
    using assms(1) by (simp add: resolve_place_def)
  from resolve_in_module_ok [OF this assms(2,4,5)] show ?thesis by (simp add: same_process_def)
qed

lemma finish_frame_ok:
  assumes "finish_frame org f u = ((i, b), u')" "origin_ok u org" "frame_ok u f" "known_location u (lc_parent (fr_address f))"
  shows "resolves keep u u' \<and> known_location u' i"
proof -
  let ?v = "name_function org f u" and ?l = "(fr_address f)\<lparr>lc_relAddr := so_relAddr org\<rparr>"
  have v: "resolves keep u ?v" using assms(2,4) by (rule name_function_ok(1) [rotated])
  have l: "refers ?v ?l" using mono(3) [OF v assms(3)] by (simp add: frame_ok_def refers_def)
  have "resolveLocation ?l ?v = (i, u')"
    using assms(1) by (auto simp: finish_frame_def Let_def split: prod.splits)
  from resolveLocation_ok [where keep = keep, OF this l] v show ?thesis by (blast intro: resolves_trans)
qed

lemma resolve_frame_ok:
  assumes "resolve_frame lib ip isKernel elf t u = Some ((i, b), t', u')" "pt_pid t \<noteq> 0"
    "\<forall>p e. length (li_badKallsyms lib p e) < 2 ^ 30 - 5"
  shows "resolves keeps_locations u u' \<and> known_location u' i \<and> same_process t t'"
proof -
  obtain org v where v: "resolve_binary elf isKernel u = (org, v)" by fastforce
  define start where "start = (if isValid elf then elfBase elf else 0)"
  define f where "f = frame_start (symbolAddress ip (isArmArch v)) (pt_pid t)"
  note eq = assms(1) [unfolded resolve_frame_def Let_def v prod.case, folded start_def f_def]
  then obtain module t1 where t1: "module_of lib ip elf t = Some (module, t1)"
    by (cases "module_of lib ip elf t") auto
  have t1': "same_process t t1" using module_of_process [OF t1] by simp
  obtain org' f' t2 w where r: "resolve_place lib elf start module org f t1 v = Some (org', f', t2, w)"
    using eq t1 by (cases "resolve_place lib elf start module org f t1 v") auto
  obtain j x where "finish_frame org' f' w = (j, x)" by fastforce
  with eq t1 r have rest: "resolve_place lib elf start module org f t1 v = Some (org', f', t', w)"
    and i: "finish_frame org' f' w = ((i, b), u')" by simp_all
  have v': "resolves keeps_locations u v" "origin_ok v org" using resolve_binary_ok [OF v] by blast+
  have f: "frame_ok v f" using assms(2) by (simp add: frame_ok_def f_def frame_start_def refers_def newLocation_def Let_def)
  have "pt_pid t1 \<noteq> 0" using t1' assms(2) by (simp add: same_process_def)
  from resolve_place_ok [OF rest this assms(3) v'(2) f] have w: "resolves keeps_locations v w" "origin_ok w org'"
    "frame_ok w f'" "known_location w (lc_parent (fr_address f'))" "same_process t1 t'" by blast+
  from finish_frame_ok [where keep = keeps_locations, OF i w(2-4)] v'(1) w(1,5) t1'
  show ?thesis by (auto simp: same_process_def intro: resolves_trans)
qed

text \<open>The locations in the caches are ones that were sent.\<close>

definition locations_known :: "'a unwind_scheme \<Rightarrow> offset_address_cache \<Rightarrow> bool" where
  "locations_known u m \<longleftrightarrow> (\<forall>e \<in> ran m. locationValid e \<longrightarrow> known_location u (word_of_int (locationId e)))"

definition cache_ok :: "'a symbol_unwind_scheme \<Rightarrow> bool" where
  "cache_ok u \<longleftrightarrow> (\<forall>m \<in> ran (m_cache (su_addressCache u)). locations_known u m)"

lemma locations_known_mono: "extends u v \<Longrightarrow> locations_known u m \<Longrightarrow> locations_known v m"
  by (auto simp: locations_known_def dest: known_location_mono)

lemma cache_ok_mono: "extends u v \<Longrightarrow> keeps_locations u v \<Longrightarrow> cache_ok u \<Longrightarrow> cache_ok v"
  by (auto simp: cache_ok_def keeps_locations_def dest: locations_known_mono)

lemma sends_keep_owner:
  "keeps_owner u v \<Longrightarrow> keeps_owner u (sendError e msg v)"
  "keeps_owner u v \<Longrightarrow> keeps_owner u (snd (resolveString s v))"
  "keeps_owner u v \<Longrightarrow> keeps_owner u (snd (resolveLocation l v))"
  "keeps_owner u v \<Longrightarrow> keeps_owner u (resolveSymbol i y v)"
  by (simp_all add: keeps_owner_def sendBuffer_def sendError_def resolveString_def sendString_def resolveLocation_def
      sendLocation_def resolveSymbol_def sendSymbol_def Let_def split: option.split)

lemma sends_keep_locations:
  "keeps_locations u v \<Longrightarrow> keeps_locations u (sendError e msg v)"
  "keeps_locations u v \<Longrightarrow> keeps_locations u (snd (resolveString s v))"
  "keeps_locations u v \<Longrightarrow> keeps_locations u (snd (resolveLocation l v))"
  "keeps_locations u v \<Longrightarrow> keeps_locations u (resolveSymbol i y v)"
  by (simp_all add: sends_keep_owner keeps_locations_def)
    (simp_all add: sendBuffer_def sendError_def resolveString_def sendString_def resolveLocation_def
      sendLocation_def resolveSymbol_def sendSymbol_def Let_def split: option.split)

lemma resolves_keeps_owner: "resolves keeps_owner u v \<Longrightarrow> keeps_owner u v"
proof (induction rule: resolves.induct)
  case (resolves_private u v w)
  then show ?case by (simp add: keeps_owner_def)
qed (simp_all add: sends_keep_owner, simp add: keeps_owner_def)

lemma resolves_keeps_locations: "resolves keeps_locations u v \<Longrightarrow> keeps_locations u v"
proof (induction rule: resolves.induct)
  case (resolves_private u v w)
  then show ?case by (simp add: keeps_locations_def keeps_owner_def)
qed (simp_all add: sends_keep_locations, simp add: keeps_locations_def keeps_owner_def)

lemma findAddress_known:
  assumes "cache_ok u" "locations_known u m" "locationValid (findAddress elf ip m (su_addressCache u))"
  shows "known_location u (word_of_int (locationId (findAddress elf ip m (su_addressCache u))))"
  using assms
  by (auto simp: findAddress_def hash_value_def cache_ok_def locations_known_def ran_def locationValid_def noLocation_def
      split: if_splits option.splits)

lemma locations_known_private [simp]: "locations_known (u\<lparr>su_addressCache := c\<rparr>) m \<longleftrightarrow> locations_known u m"
  by (simp add: locations_known_def known_location_def)

lemma locations_known_update:
  "locations_known u m \<Longrightarrow> (locationValid e \<Longrightarrow> known_location u (word_of_int (locationId e)))
    \<Longrightarrow> locations_known u (m(a \<mapsto> e))"
  by (auto simp: locations_known_def ran_def split: if_splits)

lemma cacheAddress_ok:
  assumes "cacheAddress elf ip \<lparr>locationId = sint i, isInterworking = b\<rparr> m (su_addressCache u) = (c, m')"
    "known_location u i" "cache_ok u" "locations_known u m"
  shows "cache_ok (u\<lparr>su_addressCache := c\<rparr>) \<and> locations_known u m'"
proof -
  let ?e = "\<lparr>locationId = sint i, isInterworking = b\<rparr>"
  let ?m = "hash_value (m_cache (su_addressCache u)) (originalPath elf) Map.empty"
  have "locations_known u ?m"
    using assms(3) by (auto simp: hash_value_def cache_ok_def ran_def locations_known_def split: option.splits)
  then have "locations_known u (?m(relativeAddress elf ip \<mapsto> ?e))" "locations_known u (m(ip \<mapsto> ?e))"
    using assms(2,4) by (auto intro!: locations_known_update)
  moreover have "\<forall>a x. m_cache (su_addressCache u) a = Some x \<longrightarrow> locations_known u x"
    using assms(3) by (auto simp: cache_ok_def ran_def)
  ultimately show ?thesis
    using assms(1,4) by (auto simp: cacheAddress_def cache_ok_def ran_def split: if_splits)
qed

text \<open>A lookup, from the cache or not: the number is that of a location that was sent.\<close>

lemma lookupFrame_ok:
  assumes "lookupFrame lib ip isKernel t u = Some ((i, b), t', u')" "pt_pid t \<noteq> 0"
    "\<forall>p e. length (li_badKallsyms lib p e) < 2 ^ 30 - 5" "cache_ok u" "locations_known u (pt_invalidAddressCache t)"
  shows "resolves keeps_owner u u' \<and> known_location u' i \<and> pt_pid t' = pt_pid t \<and> cache_ok u'
    \<and> locations_known u' (pt_invalidAddressCache t')"
proof (cases "locationValid (findAddress (findElf ip (pt_elfs t)) ip (pt_invalidAddressCache t) (su_addressCache u))")
  case True
  with assms findAddress_known [OF assms(4,5) True] show ?thesis
    by (auto simp: lookupFrame_def Let_def resolves_refl)
next
  case False
  note eq = assms(1) [unfolded lookupFrame_def Let_def if_not_P [OF False]]
  then obtain j t1 v where r: "resolve_frame lib ip isKernel (findElf ip (pt_elfs t)) t u = Some (j, t1, v)"
    by (cases "resolve_frame lib ip isKernel (findElf ip (pt_elfs t)) t u") auto
  with eq have v: "resolve_frame lib ip isKernel (findElf ip (pt_elfs t)) t u = Some ((i, b), t1, v)"
    by (auto split: prod.splits)
  obtain cache m where cm: "cacheAddress (findElf ip (pt_elfs t)) ip \<lparr>locationId = sint i, isInterworking = b\<rparr>
      (pt_invalidAddressCache t1) (su_addressCache v) = (cache, m)" by fastforce
  with eq v have u': "u' = v\<lparr>su_addressCache := cache\<rparr>" "t' = t1\<lparr>pt_invalidAddressCache := m\<rparr>" by simp_all
  from resolve_frame_ok [OF v assms(2,3)] have v': "resolves keeps_locations u v" "known_location v i" "same_process t t1"
    by blast+
  have "cache_ok v"
    using cache_ok_mono [OF resolves_extends [OF v'(1)] resolves_keeps_locations [OF v'(1)] assms(4)] .
  moreover have "locations_known v (pt_invalidAddressCache t1)"
    using locations_known_mono [OF resolves_extends [OF v'(1)] assms(5)] v'(3) by (simp add: same_process_def)
  ultimately have ok: "cache_ok u' \<and> locations_known v m" using cacheAddress_ok [OF cm v'(2)] u'(1) by blast
  have hidden: "resolves keeps_owner v u'"
    by (rule resolves_private [OF resolves_refl]) (simp_all add: u' same_output_def same_tables_def keeps_owner_def event_buffer.defs)
  have "resolves keeps_owner u v" by (rule resolves_mono_keep [OF v'(1)]) (simp add: keeps_locations_def)
  then have "resolves keeps_owner u u'" using hidden by (rule resolves_trans)
  with ok hidden v'(2,3) u' locations_known_mono [OF resolves_extends [OF hidden]] mono(4) [OF hidden]
  show ?thesis by (auto simp: same_process_def)
qed

end
