(* ===== verification/UnwindingFacts.thy ===== *)
theory UnwindingFacts
  imports Unwinding FrameLookupFacts LookupReturns
begin

text \<open>
  Unwinding keeps \<open>PerfUnwind\<close> in order: each table is that of its process and well-formed, the caches and the
  frames are numbers of locations that were sent, and no frame is guessed before the first. With a limit on the
  frames unwinding ends, with at most one frame more than the limit.
\<close>

section \<open>The invariant\<close>

abbreviation sent :: "'a unwind_scheme \<Rightarrow> 'a unwind_scheme \<Rightarrow> bool" where
  "sent \<equiv> resolves (\<lambda>_ _. True)"

definition table_ok :: "'a unwind_scheme \<Rightarrow> s32 \<Rightarrow> ('w, 'm) proc_symbols \<Rightarrow> bool" where
  "table_ok u pid t \<longleftrightarrow> pt_pid t = pid \<and> locations_known u (pt_invalidAddressCache t) \<and> base_inv (pt_elfs t)"

definition tables_ok :: "('w, 'm) analysis \<Rightarrow> bool" where
  "tables_ok s \<longleftrightarrow> (\<forall>pid t. an_tables s pid = Some t \<longrightarrow> table_ok s pid t)"

text \<open>
  While the frames of a second run are collected the guess may be one of the first run, which had \<open>k\<close> frames.
  Only a frame makes a sample one of a veneer.
\<close>

definition guess_ok :: "nat \<Rightarrow> ('w, 'm) analysis \<Rightarrow> bool" where
  "guess_ok k s \<longleftrightarrow> (an_firstGuessedFrame s = - 1
     \<or> 0 \<le> an_firstGuessedFrame s \<and> an_firstGuessedFrame s \<le> int (max k (length (an_frames s))))
     \<and> (an_isInterworking s \<longrightarrow> an_frames s \<noteq> [])"

definition in_order :: "nat \<Rightarrow> ('w, 'm) analysis \<Rightarrow> bool" where
  "in_order k s \<longleftrightarrow> cache_ok s \<and> tables_ok s \<and> list_all (known_location s) (an_frames s) \<and> guess_ok k s"

text \<open>What the library can be relied on for: a message for an error has a size, names end.\<close>

definition lib_ok :: "('w, 'm) symbol_lib \<Rightarrow> (die \<Rightarrow> nat) \<Rightarrow> bool" where
  "lib_ok lib rank \<longleftrightarrow> (\<forall>p e. length (li_badKallsyms lib p e) < 2 ^ 30 - 5)
     \<and> (\<forall>p. length (li_missing lib p) < 2 ^ 30 - 5) \<and> names_end lib rank"

text \<open>A step that keeps the order and neither shortens the frames nor changes their limit.\<close>

definition proceeds :: "nat \<Rightarrow> ('w, 'm) analysis \<Rightarrow> ('w, 'm) analysis \<Rightarrow> bool" where
  "proceeds k s s' \<longleftrightarrow> sent s s' \<and> in_order k s' \<and> an_maxFrames s' = an_maxFrames s \<and> an_frames s' = an_frames s"

lemma proceeds_refl: "in_order k s \<Longrightarrow> proceeds k s s"
  by (simp add: proceeds_def resolves_refl)

lemma proceeds_trans [trans]: "proceeds k s s' \<Longrightarrow> proceeds k s' s'' \<Longrightarrow> proceeds k s s''"
  by (auto simp: proceeds_def intro: resolves_trans)

lemma unseen: "unwind.truncate s' = unwind.truncate s \<Longrightarrow> sent s s'"
  by (rule resolves_private [OF resolves_refl]) (simp_all add: same_output_def same_tables_def unwind.defs event_buffer.defs)

section \<open>Symbol tables\<close>

lemma locations_known_cong:
  "uw_locations u' = uw_locations u \<Longrightarrow> locations_known u' m = locations_known u m"
  "uw_locations u' = uw_locations u \<Longrightarrow> known_location u' = known_location u"
  by (auto simp: locations_known_def known_location_def fun_eq_iff)

lemma table_ok_mono: "sent u v \<Longrightarrow> table_ok u pid t \<Longrightarrow> table_ok v pid t"
  by (auto simp: table_ok_def intro: locations_known_mono [OF resolves_extends])

lemma putTable_proceeds: "in_order k s \<Longrightarrow> table_ok s pid t \<Longrightarrow> proceeds k s (putTable pid t s)"
  by (auto simp: proceeds_def in_order_def putTable_def cache_ok_def tables_ok_def table_ok_def guess_ok_def
      unwind.defs locations_known_cong [of "s\<lparr>an_tables := m\<rparr>" s for m] intro: unseen)

lemma newSymbolTable_ok: "table_ok u pid (newSymbolTable lib pid)"
  by (simp add: table_ok_def newSymbolTable_def Let_def locations_known_def)

lemma symbolTable_proceeds:
  assumes "symbolTable ul pid s = (t, s')" "in_order k s"
  shows "proceeds k s s' \<and> table_ok s' pid t"
proof (cases "an_tables s pid")
  case None
  then have "s' = putTable pid t s" "t = newSymbolTable (ul_lib ul) pid"
    using assms(1) by (auto simp: symbolTable_def putTable_def Let_def)
  with putTable_proceeds [OF assms(2)] newSymbolTable_ok table_ok_mono show ?thesis
    by (metis proceeds_def)
next
  case (Some t')
  with assms show ?thesis by (auto simp: symbolTable_def in_order_def tables_ok_def intro: proceeds_refl [unfolded in_order_def])
qed

lemma report_module_proceeds:
  assumes "report_module ul pid addr s = Some (m, s')" "in_order k s"
  shows "proceeds k s s'"
proof -
  obtain t s1 where t: "symbolTable ul pid s = (t, s1)" by fastforce
  note s1 = symbolTable_proceeds [OF t assms(2)]
  obtain t' where t': "module_at (ul_lib ul) addr t = Some (m, t')" "s' = putTable pid t' s1"
    using assms(1) by (auto simp: report_module_def t)
  then have "module_of (ul_lib ul) addr (findElf addr (pt_elfs t)) t = Some (m, t')" by (simp add: module_at_def)
  from module_of_process [OF this] base_inv_module_of [OF this] s1 have "table_ok s1 pid t'"
    by (simp add: table_ok_def same_process_def)
  with putTable_proceeds t'(2) s1 show ?thesis by (auto simp: proceeds_def intro: resolves_trans)
qed

lemma report_module_returns:
  assumes "in_order k s"
  shows "report_module ul pid addr s \<noteq> None"
proof -
  obtain t s1 where t: "symbolTable ul pid s = (t, s1)" by fastforce
  have b: "base_inv (pt_elfs t)" using symbolTable_proceeds [OF t assms] by (simp add: table_ok_def)
  have "hasBaseAddr (findElf addr (pt_elfs t)) \<longrightarrow> baseAddr (findElf addr (pt_elfs t)) < elf_addr (findElf addr (pt_elfs t))"
    using findElf_base [OF b] by blast
  from module_of_returns [OF b this] show ?thesis
    by (simp add: report_module_def t module_at_def del: not_None_eq)
qed

text \<open>A lookup gives the number of a location that was sent.\<close>

lemma look_up_proceeds:
  assumes "look_up ul pid ip isKernel s = Some ((i, b), s')" "pid \<noteq> 0" "lib_ok (ul_lib ul) rank" "in_order k s"
  shows "proceeds k s s' \<and> known_location s' i"
proof -
  obtain t s1 where t: "symbolTable ul pid s = (t, s1)" by fastforce
  note s1 = symbolTable_proceeds [OF t assms(4)]
  obtain t' s2 where r: "lookupFrame (ul_lib ul) ip isKernel t s1 = Some ((i, b), t', s2)" and s': "s' = putTable pid t' s2"
    using assms(1) by (auto simp: look_up_def t)
  have "resolves keeps_owner s1 s2 \<and> known_location s2 i \<and> pt_pid t' = pt_pid t \<and> cache_ok s2
      \<and> locations_known s2 (pt_invalidAddressCache t')"
    using s1 assms(2,3) by (intro lookupFrame_ok [OF r]) (auto simp: proceeds_def in_order_def table_ok_def lib_ok_def)
  then have s2: "resolves keeps_owner s1 s2" "known_location s2 i" "pt_pid t' = pt_pid t" "cache_ok s2"
    "locations_known s2 (pt_invalidAddressCache t')" by blast+
  have sent: "sent s1 s2" using s2(1) by (rule resolves_mono_keep) simp
  have same: "an_tables s2 = an_tables s1 \<and> an_isInterworking s2 = an_isInterworking s1 \<and> an_frames s2 = an_frames s1 \<and> an_maxFrames s2 = an_maxFrames s1
      \<and> an_firstGuessedFrame s2 = an_firstGuessedFrame s1"
    using resolves_keeps_owner [OF s2(1)] by (cases s1; cases s2) (auto simp: keeps_owner_def)
  have "proceeds k s1 s2"
    using s1 s2(4) same sent
    by (auto simp: proceeds_def in_order_def tables_ok_def guess_ok_def list_all_iff
        intro: table_ok_mono mono(4))
  moreover have "table_ok s2 pid t'"
    using s1 s2(3,5) lookupFrame_base_inv [OF r] by (simp add: table_ok_def)
  ultimately have "proceeds k s2 s'" unfolding s' by (intro putTable_proceeds) (simp_all add: proceeds_def)
  moreover from this s2(2) have "known_location s' i" by (auto simp: proceeds_def intro: mono(4))
  ultimately show ?thesis using s1 \<open>proceeds k s1 s2\<close> by (blast intro: proceeds_trans)
qed

lemma look_up_returns:
  assumes "lib_ok (ul_lib ul) rank" "in_order k s"
  shows "look_up ul pid ip isKernel s \<noteq> None"
proof -
  obtain t s1 where t: "symbolTable ul pid s = (t, s1)" by fastforce
  have "base_inv (pt_elfs t)" using symbolTable_proceeds [OF t assms(2)] by (simp add: table_ok_def)
  with assms(1) have "lookupFrame (ul_lib ul) ip isKernel t s1 \<noteq> None"
    by (intro lookupFrame_defined [where rank = rank]) (simp_all add: lib_ok_def)
  then show ?thesis by (simp add: look_up_def t del: not_None_eq)
qed

lemma attach_proceeds:
  assumes "attach ul pid sample s = (ok, s')" "in_order k s"
  shows "proceeds k s s'"
proof -
  obtain t s1 where t: "symbolTable ul pid s = (t, s1)" by fastforce
  obtain t' where t': "attachDwfl (ul_lib ul) sample t = (ok, t')" "s' = putTable pid t' s1"
    using assms(1) by (auto simp: attach_def t split: prod.splits)
  note s1 = symbolTable_proceeds [OF t assms(2)]
  moreover have "table_ok s1 pid t'"
    using s1 t'(1) by (auto simp: attachDwfl_def table_ok_def split: if_splits option.splits)
  ultimately show ?thesis unfolding t'(2) by (blast intro: proceeds_trans putTable_proceeds dest: proceeds_def [THEN iffD1])
qed

section \<open>Memory\<close>

lemma guess_proceeds: "in_order k s \<Longrightarrow> proceeds k s (guess s)"
  by (auto simp: proceeds_def in_order_def guess_def cache_ok_def tables_ok_def table_ok_def guess_ok_def unwind.defs
      locations_known_cong [of "s\<lparr>an_firstGuessedFrame := n\<rparr>" s for n] intro: unseen)

lemma stackValues_proceeds: "in_order k s \<Longrightarrow> proceeds k s (s\<lparr>an_stackValues := v\<rparr>)"
  by (auto simp: proceeds_def in_order_def cache_ok_def tables_ok_def table_ok_def guess_ok_def unwind.defs
      locations_known_cong [of "s\<lparr>an_stackValues := n\<rparr>" s for n] intro: unseen)

lemma memoryRead_proceeds:
  assumes "memoryRead ul sample addr s = Some (v, s')" "in_order k s"
  shows "proceeds k s s'"
proof -
  have dso: "proceeds k s s1" if "accessDsoMem ul sample addr w s = Some (r, s1)" for w r s1
    using that assms(2) by (auto simp: accessDsoMem_def dest: report_module_proceeds)
  then have "proceeds k s (guess s1)" if "accessDsoMem ul sample addr w s = Some (r, s1)" for w r s1
    using that guess_proceeds [of k s1] by (meson proceeds_def proceeds_trans)
  with assms dso show ?thesis
    by (auto simp: memoryRead_def Let_def split: if_splits option.splits
        intro: proceeds_refl guess_proceeds stackValues_proceeds)
qed

lemma memoryRead_returns: "in_order k s \<Longrightarrow> memoryRead ul sample addr s \<noteq> None"
  using report_module_returns [of k s ul]
  by (simp add: memoryRead_def accessDsoMem_def Let_def del: not_None_eq)

lemma run_reading_proceeds:
  "run_reading ul sample r s = Some (x, s') \<Longrightarrow> in_order k s \<Longrightarrow> proceeds k s s'"
proof (induction r arbitrary: s)
  case (ReadMemory addr rest)
  then obtain v s1 where m: "memoryRead ul sample addr s = Some (v, s1)"
    and n: "run_reading ul sample (rest (session ul (sample_pid sample) s1) v) s1 = Some (x, s')"
    by (auto simp: bind_eq_Some_conv)
  note s1 = memoryRead_proceeds [OF m ReadMemory.prems(2)]
  have "proceeds k s1 s'" using s1 by (intro ReadMemory.IH [OF _ _ n]) (auto simp: proceeds_def)
  with s1 show ?case by (rule proceeds_trans)
qed (simp add: proceeds_refl)

lemma run_reading_returns: "in_order k s \<Longrightarrow> run_reading ul sample r s \<noteq> None"
proof (induction r arbitrary: s)
  case (ReadMemory addr rest)
  obtain v s1 where m: "memoryRead ul sample addr s = Some (v, s1)"
    using memoryRead_returns [OF ReadMemory.prems] by fast
  then have "in_order k s1" using memoryRead_proceeds [OF m ReadMemory.prems] by (simp add: proceeds_def)
  with ReadMemory.IH [OF rangeI rangeI] m show ?case by simp
qed simp

section \<open>Frames\<close>

text \<open>A step that may add frames.\<close>

definition grows :: "nat \<Rightarrow> ('w, 'm) analysis \<Rightarrow> ('w, 'm) analysis \<Rightarrow> bool" where
  "grows k s s' \<longleftrightarrow> sent s s' \<and> in_order k s' \<and> an_maxFrames s' = an_maxFrames s \<and> (\<exists>fs. an_frames s' = an_frames s @ fs)"

lemma proceeds_grows: "proceeds k s s' \<Longrightarrow> grows k s s'"
  by (simp add: proceeds_def grows_def)

lemma grows_trans [trans]: "grows k s s' \<Longrightarrow> grows k s' s'' \<Longrightarrow> grows k s s''"
  by (auto simp: grows_def intro: resolves_trans)

lemma grows_in_order: "grows k s s' \<Longrightarrow> in_order k s'" and proceeds_in_order: "proceeds k s s' \<Longrightarrow> in_order k s'"
  by (simp_all add: grows_def proceeds_def)

lemma append_frame_grows:
  assumes "in_order k s" "known_location s i"
  shows "grows k s (s\<lparr>an_frames := an_frames s @ [i]\<rparr>)"
    "grows k s (s\<lparr>an_frames := an_frames s @ [i], an_isInterworking := b\<rparr>)"
  using assms
  by (auto simp: grows_def in_order_def cache_ok_def tables_ok_def table_ok_def guess_ok_def unwind.defs
      locations_known_cong [of "s\<lparr>an_frames := n\<rparr>" s for n]
      locations_known_cong [of "s\<lparr>an_frames := n, an_isInterworking := b\<rparr>" s for n] intro: unseen)

text \<open>The callback adds one frame or stops, and stops when there are more frames than the limit.\<close>

lemma frameCallback_grows:
  assumes "frameCallback ul sample d s = Some (ok, d', s')" "sample_pid sample \<noteq> 0" "lib_ok (ul_lib ul) rank" "in_order k s"
  shows "grows k s s'" "ok \<Longrightarrow> length (an_frames s') = Suc (length (an_frames s))"
    "ok \<Longrightarrow> an_maxFrames s \<noteq> - 1 \<Longrightarrow> int (length (an_frames s)) \<le> an_maxFrames s"
    "\<not> ok \<Longrightarrow> an_frames s' = an_frames s"
proof -
  let ?pid = "sample_pid sample"
  let ?stop = "ul_pc ul d = None \<or> an_maxFrames s \<noteq> - 1 \<and> int (length (an_frames s)) > an_maxFrames s \<or> ul_pc ul d = Some 0"
  have goals: "grows k s s' \<and> (ok \<longrightarrow> length (an_frames s') = Suc (length (an_frames s))
      \<and> (an_maxFrames s \<noteq> - 1 \<longrightarrow> int (length (an_frames s)) \<le> an_maxFrames s))
    \<and> (\<not> ok \<longrightarrow> an_frames s' = an_frames s)"
  proof (cases ?stop)
    case True
    with assms(1) have "s' = guess s \<and> \<not> ok" by (auto simp: frameCallback_def split: option.splits)
    with guess_proceeds [OF assms(4)] show ?thesis by (auto simp: proceeds_grows proceeds_def)
  next
    case False
    then obtain pc where pc: "ul_pc ul d = Some pc" by (cases "ul_pc ul d") auto
    note eq = assms(1) [unfolded frameCallback_def pc option.case Let_def]
    with False pc obtain m s1 where m: "report_module ul ?pid pc s = Some (m, s1)"
      by (cases "report_module ul ?pid pc s") auto
    with eq False pc obtain act d1 s2 where r: "run_reading ul sample (ul_activation ul (session ul ?pid s1) d) s1 = Some ((act, d1), s2)"
      by (cases "run_reading ul sample (ul_activation ul (session ul ?pid s1) d) s1") auto
    define ip where "ip = pc - (if act then 0 else 1)"
    obtain i b s3 where l: "look_up ul ?pid ip False s2 = Some ((i, b), s3)"
      using eq False pc m r by (cases "look_up ul ?pid ip False s2") (auto simp: ip_def)
    note s1 = report_module_proceeds [OF m assms(4)]
    note s2 = run_reading_proceeds [OF r proceeds_in_order [OF s1]]
    note s3 = look_up_proceeds [OF l assms(2,3) proceeds_in_order [OF s2]]
    have p: "proceeds k s s3" using s1 s2 s3 by (blast intro: proceeds_trans)
    then have "grows k s s3" "an_frames s3 = an_frames s" by (auto simp: proceeds_grows proceeds_def)
    moreover have "s' = s3 \<and> \<not> ok \<or> ok \<and> (s' = s3\<lparr>an_frames := an_frames s3 @ [i]\<rparr>
        \<or> s' = s3\<lparr>an_frames := an_frames s3 @ [i], an_isInterworking := True\<rparr>)"
      using eq False pc m r l by (auto simp: ip_def [symmetric] Let_def split: if_splits)
    moreover note append_frame_grows [OF proceeds_in_order [OF conjunct1 [OF s3]] conjunct2 [OF s3]]
    ultimately show ?thesis using False by (auto intro: grows_trans)
  qed
  then show "grows k s s'" "ok \<Longrightarrow> length (an_frames s') = Suc (length (an_frames s))"
    "ok \<Longrightarrow> an_maxFrames s \<noteq> - 1 \<Longrightarrow> int (length (an_frames s)) \<le> an_maxFrames s"
    "\<not> ok \<Longrightarrow> an_frames s' = an_frames s" by blast+
qed

lemma frameCallback_returns:
  assumes "lib_ok (ul_lib ul) rank" "in_order k s"
  shows "frameCallback ul sample d s \<noteq> None"
proof (cases "ul_pc ul d")
  case (Some pc)
  let ?pid = "sample_pid sample"
  obtain m s1 where m: "report_module ul ?pid pc s = Some (m, s1)"
    using report_module_returns [OF assms(2)] by fast
  note s1 = proceeds_in_order [OF report_module_proceeds [OF m assms(2)]]
  obtain act d1 s2 where r: "run_reading ul sample (ul_activation ul (session ul ?pid s1) d) s1 = Some ((act, d1), s2)"
    using run_reading_returns [OF s1, of ul sample "ul_activation ul (session ul ?pid s1) d"] by fast
  have "look_up ul ?pid (pc - (if act then 0 else 1)) False s2 \<noteq> None"
    by (rule look_up_returns [OF assms(1) proceeds_in_order [OF run_reading_proceeds [OF r s1]]])
  then show ?thesis using Some m r by (simp add: frameCallback_def Let_def del: not_None_eq)
qed (simp add: frameCallback_def)

text \<open>With a limit there is at most one frame more than it, or none is added.\<close>

lemma thread_frames_grows:
  assumes "thread_frames ul sample d s = Some s'" "sample_pid sample \<noteq> 0" "lib_ok (ul_lib ul) rank" "in_order k s"
  shows "grows k s s' \<and> (an_maxFrames s \<noteq> - 1 \<longrightarrow>
    int (length (an_frames s')) \<le> max (int (length (an_frames s))) (an_maxFrames s + 1))"
  using assms
proof (induction ul sample d s s' rule: thread_frames.raw_induct [rotated, consumes 1])
  case (1 thread_frames ul sample d s s')
  from 1(2) obtain ok d1 s1 where c: "frameCallback ul sample d s = Some (ok, d1, s1)"
    by (cases "frameCallback ul sample d s") auto
  note cb = frameCallback_grows [OF c 1(3-5)]
  show ?case
  proof (cases ok)
    case False
    with 1(2) c cb show ?thesis by auto
  next
    case True
    with 1(2) c obtain d2 s2 where r: "run_reading ul sample (ul_unwind ul (session ul (sample_pid sample) s1) d1) s1 = Some (d2, s2)"
      by (cases "run_reading ul sample (ul_unwind ul (session ul (sample_pid sample) s1) d1) s1") auto
    note s2 = run_reading_proceeds [OF r grows_in_order [OF cb(1)]]
    have g: "grows k s s2" "length (an_frames s2) = Suc (length (an_frames s))" "an_maxFrames s2 = an_maxFrames s"
      using cb(1,2) True s2 by (auto intro: grows_trans proceeds_grows) (auto simp: grows_def proceeds_def)
    show ?thesis
    proof (cases d2)
      case None
      with 1(2) c r True g cb(3) show ?thesis by auto
    next
      case (Some d3)
      then have "thread_frames ul sample d3 s2 = Some s'" using 1(2) c r True by simp
      from 1(1) [OF this 1(3,4) grows_in_order [OF g(1)]] g cb(3) True show ?thesis
        by (auto intro: grows_trans)
    qed
  qed
qed

lemma thread_frames_returns:
  assumes "sample_pid sample \<noteq> 0" "lib_ok (ul_lib ul) rank" "in_order k s" "an_maxFrames s \<noteq> - 1"
  shows "thread_frames ul sample d s \<noteq> None"
  using assms(3,4)
proof (induction "nat (an_maxFrames s + 1 - int (length (an_frames s)))" arbitrary: d s rule: less_induct)
  case less
  obtain ok d1 s1 where c: "frameCallback ul sample d s = Some (ok, d1, s1)"
    using frameCallback_returns [OF assms(2) less.prems(1)] by fast
  note cb = frameCallback_grows [OF c assms(1,2) less.prems(1)]
  show ?case
  proof (cases ok)
    case False
    then show ?thesis by (subst thread_frames.simps) (simp add: c)
  next
    case True
    obtain d2 s2 where r: "run_reading ul sample (ul_unwind ul (session ul (sample_pid sample) s1) d1) s1 = Some (d2, s2)"
      using run_reading_returns [OF grows_in_order [OF cb(1)], of ul sample] by fast
    note s2 = run_reading_proceeds [OF r grows_in_order [OF cb(1)]]
    show ?thesis
    proof (cases d2)
      case None
      with True r c show ?thesis by (subst thread_frames.simps) simp
    next
      case (Some d3)
      have "an_maxFrames s2 = an_maxFrames s" "length (an_frames s2) = Suc (length (an_frames s))"
        using cb(1,2) s2 True by (auto simp: grows_def proceeds_def)
      with cb(3) [OF True less.prems(2)] less.prems(2) have "thread_frames ul sample d3 s2 \<noteq> None"
        by (intro less.hyps proceeds_in_order [OF s2]) simp_all
      with Some True r c show ?thesis by (subst thread_frames.simps) (simp del: not_None_eq)
    qed
  qed
qed

lemma getthread_frames_grows:
  assumes "getthread_frames ul sample s = Some s'" "sample_pid sample \<noteq> 0" "lib_ok (ul_lib ul) rank" "in_order k s"
  shows "grows k s s' \<and> (an_maxFrames s \<noteq> - 1 \<longrightarrow>
    int (length (an_frames s')) \<le> max (int (length (an_frames s))) (an_maxFrames s + 1))"
  using assms thread_frames_grows [OF _ assms(2-4)]
  by (auto simp: getthread_frames_def Let_def proceeds_refl proceeds_grows split: if_splits option.splits)

lemma getthread_frames_returns:
  "sample_pid sample \<noteq> 0 \<Longrightarrow> lib_ok (ul_lib ul) rank \<Longrightarrow> in_order k s \<Longrightarrow> an_maxFrames s \<noteq> - 1
    \<Longrightarrow> getthread_frames ul sample s \<noteq> None"
  using thread_frames_returns [of sample ul rank k s]
  by (simp add: getthread_frames_def Let_def del: not_None_eq split: option.split)

text \<open>The whole stack: no frame is lost, and the frames that are guessed are among those there are.\<close>

lemma clear_frames_order:
  assumes "in_order 0 s" "an_isInterworking s"
  shows "in_order (length (an_frames s)) (s\<lparr>an_frames := take 1 (an_frames s @ [0])\<rparr>)"
    "sent s (s\<lparr>an_frames := take 1 (an_frames s @ [0])\<rparr>)" "length (take 1 (an_frames s @ [0])) \<le> length (an_frames s)"
proof -
  have "an_frames s \<noteq> []" using assms by (auto simp: in_order_def guess_ok_def)
  then obtain f fs where "an_frames s = f # fs" by (cases "an_frames s") auto
  with assms show "in_order (length (an_frames s)) (s\<lparr>an_frames := take 1 (an_frames s @ [0])\<rparr>)"
    "length (take 1 (an_frames s @ [0])) \<le> length (an_frames s)"
    by (auto simp: in_order_def cache_ok_def tables_ok_def table_ok_def guess_ok_def
        locations_known_cong [of "s\<lparr>an_frames := n\<rparr>" s for n])
qed (simp add: unseen unwind.defs)

lemma restore_frames_order:
  assumes "in_order k s" "list_all (known_location s) fs" "k = length fs" "length (an_frames s) < length fs"
  shows "in_order 0 (s\<lparr>an_frames := fs\<rparr>)" "sent s (s\<lparr>an_frames := fs\<rparr>)"
  using assms
  by (auto simp: in_order_def cache_ok_def tables_ok_def table_ok_def guess_ok_def unwind.defs
      locations_known_cong [of "s\<lparr>an_frames := n\<rparr>" s for n] intro: unseen)

lemma in_order_frames: "in_order k s \<Longrightarrow> k \<le> length (an_frames s) \<Longrightarrow> in_order 0 s"
  by (auto simp: in_order_def guess_ok_def max_def split: if_splits)

lemma unwindStack_ok:
  assumes "unwindStack ul sample s = Some s'" "sample_pid sample \<noteq> 0" "lib_ok (ul_lib ul) rank" "in_order 0 s"
  shows "sent s s' \<and> in_order 0 s' \<and> an_maxFrames s' = an_maxFrames s \<and> length (an_frames s) \<le> length (an_frames s')
    \<and> (an_maxFrames s \<noteq> - 1 \<longrightarrow> int (length (an_frames s')) \<le> max (int (length (an_frames s))) (an_maxFrames s + 1))"
proof -
  obtain ok s1 where a: "attach ul (sample_pid sample) sample s = (ok, s1)" by fastforce
  note s1 = attach_proceeds [OF a assms(4)]
  show ?thesis
  proof (cases ok)
    case False
    with assms(1) a s1 show ?thesis by (auto simp: unwindStack_def proceeds_def)
  next
    case True
    then obtain s2 where g: "getthread_frames ul sample s1 = Some s2"
      using assms(1) a by (cases "getthread_frames ul sample s1") (auto simp: unwindStack_def)
    note s2 = getthread_frames_grows [OF g assms(2,3) proceeds_in_order [OF s1]]
    have r2: "sent s s2" "in_order 0 s2" "an_maxFrames s2 = an_maxFrames s" "length (an_frames s) \<le> length (an_frames s2)"
      "an_maxFrames s \<noteq> - 1 \<longrightarrow> int (length (an_frames s2)) \<le> max (int (length (an_frames s))) (an_maxFrames s + 1)"
      using s1 s2 by (auto simp: grows_def proceeds_def intro: resolves_trans)
    show ?thesis
    proof (cases "an_isInterworking s2")
      case False
      with assms(1) a True g r2 show ?thesis by (auto simp: unwindStack_def)
    next
      case veneer: True
      let ?s = "s2\<lparr>an_frames := take 1 (an_frames s2 @ [0])\<rparr>"
      note c = clear_frames_order [OF r2(2) veneer]
      obtain s3 where g3: "getthread_frames ul sample ?s = Some s3"
        and s': "s' = (if length (an_frames s2) > length (an_frames s3) then s3\<lparr>an_frames := an_frames s2\<rparr> else s3)"
        using assms(1) a True g veneer by (auto simp: unwindStack_def Let_def)
      note s3 = getthread_frames_grows [OF g3 assms(2,3) c(1)]
      have r3: "sent s2 s3" "in_order (length (an_frames s2)) s3" "an_maxFrames s3 = an_maxFrames s"
        using s3 c(2) r2(3) by (auto simp: grows_def intro: resolves_trans)
      have known: "list_all (known_location s3) (an_frames s2)"
        using r2(2) mono(4) [OF r3(1)] by (auto simp: in_order_def list_all_iff)
      show ?thesis
      proof (cases "length (an_frames s2) > length (an_frames s3)")
        case True
        with restore_frames_order [OF r3(2) known refl True] r2 r3 s' show ?thesis
          by (auto intro: resolves_trans)
      next
        case False
        then have "in_order 0 s3" by (intro in_order_frames [OF r3(2)]) simp
        moreover have "an_maxFrames s \<noteq> - 1 \<longrightarrow> int (length (an_frames s3)) \<le> max (int (length (an_frames s))) (an_maxFrames s + 1)"
          using conjunct2 [OF s3] c(3) r2(3,5) by (auto simp: max_def split: if_splits)
        ultimately show ?thesis using False r2 r3 s' by (auto intro: resolves_trans)
      qed
    qed
  qed
qed

lemma unwindStack_returns:
  assumes "sample_pid sample \<noteq> 0" "lib_ok (ul_lib ul) rank" "in_order 0 s" "an_maxFrames s \<noteq> - 1"
  shows "unwindStack ul sample s \<noteq> None"
proof -
  obtain ok s1 where a: "attach ul (sample_pid sample) sample s = (ok, s1)" by fastforce
  have s1: "in_order 0 s1" "an_maxFrames s1 \<noteq> - 1"
    using attach_proceeds [OF a assms(3)] assms(4) by (auto simp: proceeds_def)
  obtain s2 where g: "getthread_frames ul sample s1 = Some s2"
    using getthread_frames_returns [OF assms(1,2) s1] by blast
  note s2 = getthread_frames_grows [OF g assms(1,2) s1(1)]
  have "getthread_frames ul sample (s2\<lparr>an_frames := take 1 (an_frames s2 @ [0])\<rparr>) \<noteq> None" if "an_isInterworking s2"
  proof (rule getthread_frames_returns [OF assms(1,2) clear_frames_order(1) [OF _ that]])
    show "in_order 0 s2" "an_maxFrames (s2\<lparr>an_frames := take 1 (an_frames s2 @ [0])\<rparr>) \<noteq> - 1"
      using s1 s2 by (auto simp: grows_def)
  qed
  then show ?thesis by (simp add: unwindStack_def a g Let_def del: not_None_eq)
qed

end
