(* ===== verification/AnalysisFacts.thy ===== *)
theory AnalysisFacts
  imports Analysis UnwindingFacts Examples
begin

text \<open>
  The analysis of a sample: it ends, finds at least one frame and not too many, and what it sends is accepted by a
  client that was in step before, which then has the sample.
\<close>

section \<open>Call chains\<close>

lemma report_ip_ok:
  assumes "report_ip ul sample isKernel ip s = Some (ok, s')" "sample_pid sample \<noteq> 0" "lib_ok (ul_lib ul) rank" "in_order 0 s"
  shows "grows 0 s s' \<and> length (an_frames s') = Suc (length (an_frames s))"
proof -
  let ?pid = "table_pid sample isKernel"
  obtain a s1 where a: "attach ul ?pid sample s = (a, s1)" by fastforce
  obtain i b s2 where l: "look_up ul ?pid ip isKernel s1 = Some ((i, b), s2)"
    and s': "s' = s2\<lparr>an_frames := an_frames s2 @ [i], an_isInterworking := b\<rparr>"
    using assms(1) a by (auto simp: report_ip_def Let_def)
  have pid: "?pid \<noteq> 0" using assms(2) by (simp add: table_pid_def s_kernelPid_def)
  note s1 = attach_proceeds [OF a assms(4)]
  note s2 = look_up_proceeds [OF l pid assms(3) proceeds_in_order [OF s1]]
  have "grows 0 s2 s'" unfolding s' using s2 by (intro append_frame_grows) (auto simp: proceeds_def)
  moreover have "proceeds 0 s s2" using s1 s2 by (blast intro: proceeds_trans)
  ultimately show ?thesis using grows_trans [OF proceeds_grows] by (auto simp: s' proceeds_def)
qed

lemma report_ip_returns:
  assumes "lib_ok (ul_lib ul) rank" "in_order 0 s"
  shows "report_ip ul sample isKernel ip s \<noteq> None"
proof -
  let ?pid = "table_pid sample isKernel"
  obtain a s1 where a: "attach ul ?pid sample s = (a, s1)" by fastforce
  from look_up_returns [OF assms(1) proceeds_in_order [OF attach_proceeds [OF a assms(2)]]] show ?thesis
    by (simp add: report_ip_def a Let_def del: not_None_eq)
qed

text \<open>At most one frame more than there are addresses: the one perf skipped.\<close>

lemma callchain_loop_ok:
  assumes "callchain_loop ul sample ips isKernel added s = Some (e, s')" "sample_pid sample \<noteq> 0"
    "lib_ok (ul_lib ul) rank" "in_order 0 s"
  shows "grows 0 s s' \<and> length (an_frames s') \<le> length (an_frames s) + length ips + (if added then 0 else 1)"
  using assms
proof (induction ul sample ips isKernel added s rule: callchain_loop.induct)
  case (1 ul sample isKernel added s)
  then show ?case by (auto simp: grows_def resolves_refl)
next
  case (2 ul sample ip ips isKernel added s)
  show ?case
  proof (cases "ip > PERF_CONTEXT_MAX")
    case True
    with 2 show ?thesis by (force simp: grows_def resolves_refl split: if_splits)
  next
    case False
    let ?first = "if \<not> added \<and> \<not> isKernel \<and> ip \<noteq> sr_ip sample then report_ip ul sample isKernel (sr_ip sample) s else Some (True, s)"
    obtain ok s1 where f: "?first = Some (ok, s1)"
      using 2(4) False by (cases ?first) auto
    have s1: "grows 0 s s1" "length (an_frames s1) \<le> length (an_frames s) + (if added \<or> isKernel then 0 else 1)"
      using f report_ip_ok [OF _ 2(5-7)] proceeds_grows [OF proceeds_refl [OF 2(7)]] by (auto split: if_splits)
    have eq: "(if \<not> ok then Some (Returned, s1)
        else if sr_branchStack sample \<noteq> [] \<and> \<not> isKernel then Some (Left isKernel, s1)
        else Option.bind (report_ip ul sample isKernel ip s1) (\<lambda>(ok, s).
          if \<not> ok then Some (Returned, s)
          else callchain_loop ul sample ips isKernel (added \<or> \<not> isKernel) s)) = Some (e, s')"
      using 2(4) False f by simp
    show ?thesis
    proof (cases "\<not> ok \<or> sr_branchStack sample \<noteq> [] \<and> \<not> isKernel")
      case True
      with eq s1 show ?thesis by (auto split: if_splits)
    next
      case go: False
      then obtain ok2 s2 where r: "report_ip ul sample isKernel ip s1 = Some (ok2, s2)"
        using eq by (cases "report_ip ul sample isKernel ip s1") (auto split: if_splits)
      note s2 = report_ip_ok [OF r 2(5,6) grows_in_order [OF s1(1)]]
      have g: "grows 0 s s2" using s1(1) s2 by (blast intro: grows_trans)
      show ?thesis
      proof (cases ok2)
        case False
        with eq go r s1 s2 g show ?thesis by (auto split: if_splits)
      next
        case True
        with eq go r have l: "callchain_loop ul sample ips isKernel (added \<or> \<not> isKernel) s2 = Some (e, s')"
          by (auto split: if_splits)
        from go have "\<not> \<not> ok" "\<not> (sr_branchStack sample \<noteq> [] \<and> \<not> isKernel)" by blast+
        from 2(3) [OF False f refl this r refl _ l 2(5,6) grows_in_order [OF g]] True g s1 s2
        show ?thesis by (auto intro: grows_trans split: if_splits)
      qed
    qed
  qed
qed

lemma callchain_loop_returns:
  assumes "sample_pid sample \<noteq> 0" "lib_ok (ul_lib ul) rank" "in_order 0 s"
  shows "callchain_loop ul sample ips isKernel added s \<noteq> None"
  using assms
proof (induction ul sample ips isKernel added s rule: callchain_loop.induct)
  case (2 ul sample ip ips isKernel added s)
  show ?case
  proof (cases "ip > PERF_CONTEXT_MAX")
    case True
    with 2 show ?thesis by (simp del: not_None_eq)
  next
    case False
    let ?first = "if \<not> added \<and> \<not> isKernel \<and> ip \<noteq> sr_ip sample then report_ip ul sample isKernel (sr_ip sample) s else Some (True, s)"
    obtain ok s1 where f: "?first = Some (ok, s1)"
      using report_ip_returns [OF 2(5,6), of sample isKernel "sr_ip sample"] by (cases ?first) (auto split: if_splits)
    have s1: "in_order 0 s1"
      using f report_ip_ok [OF _ 2(4-6)] 2(6) by (auto simp: grows_def split: if_splits)
    obtain ok2 s2 where r: "report_ip ul sample isKernel ip s1 = Some (ok2, s2)"
      using report_ip_returns [OF 2(5) s1] by fast
    have s2: "in_order 0 s2" using report_ip_ok [OF r 2(4,5) s1] by (simp add: grows_def)
    show ?thesis
    proof (cases "\<not> ok \<or> sr_branchStack sample \<noteq> [] \<and> \<not> isKernel \<or> \<not> ok2")
      case True
      with False f r show ?thesis by auto
    next
      case go: False
      then have "\<not> \<not> ok" "\<not> (sr_branchStack sample \<noteq> [] \<and> \<not> isKernel)" "\<not> \<not> ok2" by blast+
      from 2(3) [OF False f refl this(1,2) r refl this(3) 2(4,5) s2] False f r go show ?thesis
        by (simp del: not_None_eq)
    qed
  qed
qed simp

lemma report_ips_ok:
  assumes "report_ips ul sample ips s = Some s'" "sample_pid sample \<noteq> 0" "lib_ok (ul_lib ul) rank" "in_order 0 s"
  shows "grows 0 s s' \<and> length (an_frames s') \<le> length (an_frames s) + length ips"
  using assms
proof (induction ips arbitrary: s)
  case Nil
  then show ?case by (auto simp: grows_def resolves_refl)
next
  case (Cons ip ips)
  then obtain ok s1 where r: "report_ip ul sample False ip s = Some (ok, s1)"
    by (cases "report_ip ul sample False ip s") auto
  note s1 = report_ip_ok [OF r Cons.prems(2-4)]
  show ?case
  proof (cases ok)
    case True
    with Cons.prems r have "report_ips ul sample ips s1 = Some s'" by simp
    from Cons.IH [OF this Cons.prems(2,3) grows_in_order [OF conjunct1 [OF s1]]] s1 show ?thesis
      by (auto intro: grows_trans)
  next
    case False
    with Cons.prems(1) r s1 show ?thesis by auto
  qed
qed

lemma report_ips_returns:
  assumes "sample_pid sample \<noteq> 0" "lib_ok (ul_lib ul) rank" "in_order 0 s"
  shows "report_ips ul sample ips s \<noteq> None"
  using assms(3)
proof (induction ips arbitrary: s)
  case (Cons ip ips)
  obtain ok s1 where r: "report_ip ul sample False ip s = Some (ok, s1)"
    using report_ip_returns [OF assms(2) Cons.prems] by fast
  from Cons.IH [OF grows_in_order [OF conjunct1 [OF report_ip_ok [OF r assms(1,2) Cons.prems]]]] r show ?case
    by (simp del: not_None_eq)
qed simp

definition chain_limit :: "sample_record \<Rightarrow> nat" where
  "chain_limit sample = length (sr_callchain sample) + length (sr_branchStack sample) + 2"

lemma resolveCallchain_ok:
  assumes "resolveCallchain ul sample s = Some s'" "sample_pid sample \<noteq> 0" "lib_ok (ul_lib ul) rank" "in_order 0 s"
    "an_frames s = []"
  shows "grows 0 s s' \<and> length (an_frames s') \<le> chain_limit sample"
proof -
  obtain t s1 where t: "symbolTable ul (sample_pid sample) s = (t, s1)" by fastforce
  note s1 = conjunct1 [OF symbolTable_proceeds [OF t assms(4)]]
  obtain e s2 where c: "callchain_loop ul sample (sr_callchain sample) False False s1 = Some (e, s2)"
    using assms(1) t by (cases "callchain_loop ul sample (sr_callchain sample) False False s1") (auto simp: resolveCallchain_def)
  note s2 = callchain_loop_ok [OF c assms(2,3) proceeds_in_order [OF s1]]
  have g: "grows 0 s s2" using grows_trans [OF proceeds_grows [OF s1]] s2 by blast
  have l: "length (an_frames s2) \<le> length (sr_callchain sample) + 1" using s1 s2 assms(5) by (simp add: proceeds_def)
  show ?thesis
  proof (cases "e = Left False")
    case True
    then have b: "report_ips ul sample (branch_ips (sr_branchStack sample)) s2 = Some s'"
      using assms(1) t c by (simp add: resolveCallchain_def)
    have "length (branch_ips (sr_branchStack sample)) \<le> length (sr_branchStack sample) + 1"
      by (auto simp: branch_ips_def split: list.split)
    with report_ips_ok [OF b assms(2,3) grows_in_order [OF g]] g l show ?thesis
      by (auto simp: chain_limit_def intro: grows_trans)
  next
    case False
    with assms(1) t c have "s' = s2" by (auto simp: resolveCallchain_def split: chain_end.splits bool.splits)
    with g l show ?thesis by (auto simp: chain_limit_def)
  qed
qed

lemma resolveCallchain_returns:
  assumes "sample_pid sample \<noteq> 0" "lib_ok (ul_lib ul) rank" "in_order 0 s"
  shows "resolveCallchain ul sample s \<noteq> None"
proof -
  obtain t s1 where t: "symbolTable ul (sample_pid sample) s = (t, s1)" by fastforce
  have s1: "in_order 0 s1" using symbolTable_proceeds [OF t assms(3)] by (simp add: proceeds_def)
  obtain e s2 where c: "callchain_loop ul sample (sr_callchain sample) False False s1 = Some (e, s2)"
    using callchain_loop_returns [OF assms(1,2) s1] by fast
  have "in_order 0 s2" using callchain_loop_ok [OF c assms(1,2) s1] by (simp add: grows_def)
  from report_ips_returns [OF assms(1,2) this] show ?thesis
    by (simp add: resolveCallchain_def t c del: not_None_eq split: chain_end.split bool.split)
qed

section \<open>Attempts\<close>

text \<open>A step that may also start the frames afresh.\<close>

definition restarts :: "('w, 'm) analysis \<Rightarrow> ('w, 'm) analysis \<Rightarrow> bool" where
  "restarts s s' \<longleftrightarrow> sent s s' \<and> in_order 0 s' \<and> an_maxFrames s' = an_maxFrames s"

lemma grows_restarts: "grows 0 s s' \<Longrightarrow> restarts s s'" and proceeds_restarts: "proceeds 0 s s' \<Longrightarrow> restarts s s'"
  by (simp_all add: grows_def proceeds_def restarts_def)

lemma restarts_trans [trans]: "restarts s s' \<Longrightarrow> restarts s' s'' \<Longrightarrow> restarts s s''"
  by (auto simp: restarts_def intro: resolves_trans)

lemma start_attempt_ok:
  assumes "in_order 0 s"
  shows "restarts s (start_attempt ul sample s) \<and> an_frames (start_attempt ul sample s) = []"
proof -
  obtain t s1 where t: "symbolTable ul (sample_pid sample) s = (t, s1)" by fastforce
  note s1 = symbolTable_proceeds [OF t assms]
  let ?t = "updatePerfMap (ul_lib ul) (ul_mapLines ul (pt_perfMapFile t) sample) t"
  have "table_ok s1 (sample_pid sample) ?t" using s1 by (simp add: table_ok_def updatePerfMap_def Let_def)
  then have p: "proceeds 0 s1 (putTable (sample_pid sample) ?t s1)"
    using s1 by (intro putTable_proceeds) (simp_all add: proceeds_def)
  define s2 where "s2 = putTable (sample_pid sample) ?t s1"
  have "restarts s2 (s2\<lparr>an_isInterworking := False, an_firstGuessedFrame := - 1, an_frames := []\<rparr>)"
    using proceeds_in_order [OF p] unfolding s2_def [symmetric]
    by (auto simp: restarts_def in_order_def cache_ok_def tables_ok_def table_ok_def guess_ok_def unwind.defs
        locations_known_cong [of "s2\<lparr>an_isInterworking := False, an_firstGuessedFrame := - 1, an_frames := []\<rparr>" s2]
        intro: unseen)
  from restarts_trans [OF proceeds_restarts [OF proceeds_trans [OF conjunct1 [OF s1] p]] this [unfolded s2_def]]
  show ?thesis by (simp add: start_attempt_def t)
qed

lemma clear_table_proceeds: "in_order 0 s \<Longrightarrow> proceeds 0 s (clear_table ul pid s)"
proof -
  assume o: "in_order 0 s"
  obtain t s1 where t: "symbolTable ul pid s = (t, s1)" by fastforce
  note s1 = symbolTable_proceeds [OF t o]
  then have "table_ok s1 pid (clearCache (ul_lib ul) t)"
    by (auto simp: table_ok_def clearCache_def locations_known_def)
  with s1 show ?thesis
    by (auto simp: clear_table_def t intro!: proceeds_trans [OF _ putTable_proceeds] proceeds_in_order)
qed

text \<open>The frames of one sample: those of its call chain, or of its stack up to the limit.\<close>

definition frame_limit :: "sample_record \<Rightarrow> ('w, 'm) analysis \<Rightarrow> int" where
  "frame_limit sample s = max (int (chain_limit sample)) (an_maxFrames s + 1)"

lemma attempt_ok:
  assumes "attempt ul sample s = Some (again, s')" "sample_pid sample \<noteq> 0" "lib_ok (ul_lib ul) rank" "in_order 0 s"
  shows "restarts s s' \<and> (an_maxFrames s \<noteq> - 1 \<longrightarrow> int (length (an_frames s')) \<le> frame_limit sample s)"
proof -
  let ?pid = "sample_pid sample" and ?s = "start_attempt ul sample s"
  let ?chain = "if sr_callchain sample \<noteq> [] \<or> sr_branchStack sample \<noteq> [] then resolveCallchain ul sample ?s else Some ?s"
  note start = start_attempt_ok [OF assms(4), of ul sample]
  have o: "in_order 0 ?s" using start by (simp add: restarts_def)
  obtain s1 where c: "?chain = Some s1"
    using assms(1) by (cases ?chain) (auto simp: attempt_def Let_def)
  have s1: "restarts s s1 \<and> length (an_frames s1) \<le> chain_limit sample"
    using c start resolveCallchain_ok [OF _ assms(2,3) o conjunct2 [OF start], of s1]
    by (auto split: if_splits intro: restarts_trans grows_restarts)
  define dirty where "dirty = (cacheIsDirty ul ?pid s1 \<or> cacheIsDirty ul s_kernelPid s1)"
  let ?unwind = "if \<not> dirty then unwindStack ul sample s1 else Some s1"
  show ?thesis
  proof (cases "\<not> dirty \<and> (sr_registerAbi sample = 0 \<or> sr_userStack sample = [])")
    case True
    with assms(1) c have "s' = s1" by (simp add: attempt_def Let_def dirty_def)
    with s1 show ?thesis by (simp add: frame_limit_def le_max_iff_disj)
  next
    case False
    with assms(1) c obtain s2 where u: "?unwind = Some s2"
      by (cases ?unwind) (auto simp: attempt_def Let_def dirty_def)
    have s2: "restarts s s2 \<and> (an_maxFrames s \<noteq> - 1 \<longrightarrow> int (length (an_frames s2)) \<le> frame_limit sample s)"
    proof (cases dirty)
      case False
      with u have "unwindStack ul sample s1 = Some s2" by simp
      from unwindStack_ok [OF this assms(2,3)] s1 show ?thesis
        by (auto simp: restarts_def frame_limit_def intro: resolves_trans)
    next
      case True
      with u s1 show ?thesis by (auto simp: frame_limit_def)
    qed
    have "\<exists>a b. s' = (let s = (if a then clear_table ul ?pid s2 else s2) in if b then clear_table ul s_kernelPid s else s)"
      using assms(1) c False u by (auto simp: attempt_def Let_def dirty_def split: if_splits)
    moreover have "restarts s2 (let s = (if a then clear_table ul ?pid s2 else s2) in if b then clear_table ul s_kernelPid s else s)
        \<and> an_frames (let s = (if a then clear_table ul ?pid s2 else s2) in if b then clear_table ul s_kernelPid s else s) = an_frames s2"
      for a b
    proof -
      have "in_order 0 s2" using s2 by (simp add: restarts_def)
      from clear_table_proceeds [OF this, of ul ?pid] proceeds_refl [OF this]
      have a: "proceeds 0 s2 (if a then clear_table ul ?pid s2 else s2)" by simp
      from clear_table_proceeds [OF proceeds_in_order [OF this], of ul s_kernelPid] proceeds_refl [OF proceeds_in_order [OF this]]
      have "proceeds 0 (if a then clear_table ul ?pid s2 else s2)
          (let s = (if a then clear_table ul ?pid s2 else s2) in if b then clear_table ul s_kernelPid s else s)"
        by (simp add: Let_def)
      from proceeds_trans [OF a this] show ?thesis by (auto simp: proceeds_restarts proceeds_def)
    qed
    ultimately have "restarts s2 s'" "an_frames s' = an_frames s2" by blast+
    with s2 show ?thesis using restarts_trans by auto
  qed
qed

lemma attempt_returns:
  assumes "sample_pid sample \<noteq> 0" "lib_ok (ul_lib ul) rank" "in_order 0 s" "an_maxFrames s \<noteq> - 1"
  shows "attempt ul sample s \<noteq> None"
proof -
  let ?pid = "sample_pid sample" and ?s = "start_attempt ul sample s"
  let ?chain = "if sr_callchain sample \<noteq> [] \<or> sr_branchStack sample \<noteq> [] then resolveCallchain ul sample ?s else Some ?s"
  note start = start_attempt_ok [OF assms(3), of ul sample]
  have o: "in_order 0 ?s" using start by (simp add: restarts_def)
  obtain s1 where c: "?chain = Some s1"
    using resolveCallchain_returns [OF assms(1,2) o] by (cases ?chain) (auto split: if_splits)
  have "in_order 0 s1 \<and> an_maxFrames s1 = an_maxFrames s"
    using c start resolveCallchain_ok [OF _ assms(1,2) o conjunct2 [OF start], of s1]
    by (auto simp: restarts_def grows_def split: if_splits)
  with unwindStack_returns [OF assms(1,2), of s1] assms(4) have "unwindStack ul sample s1 \<noteq> None" by simp
  then show ?thesis using c by (auto simp: attempt_def Let_def)
qed

lemma attempts_ok:
  assumes "attempts ul sample n s = Some s'" "sample_pid sample \<noteq> 0" "lib_ok (ul_lib ul) rank" "in_order 0 s"
    "an_maxFrames s \<noteq> - 1 \<longrightarrow> int (length (an_frames s)) \<le> frame_limit sample s \<or> 0 < n"
  shows "restarts s s' \<and> (an_maxFrames s \<noteq> - 1 \<longrightarrow> int (length (an_frames s')) \<le> frame_limit sample s)"
  using assms
proof (induction n arbitrary: s)
  case 0
  then show ?case by (auto simp: restarts_def resolves_refl)
next
  case (Suc n)
  then obtain again s1 where a: "attempt ul sample s = Some (again, s1)"
    by (cases "attempt ul sample s") auto
  note s1 = attempt_ok [OF a Suc.prems(2-4)]
  then have o: "in_order 0 s1" "frame_limit sample s1 = frame_limit sample s" "an_maxFrames s1 = an_maxFrames s"
    by (simp_all add: restarts_def frame_limit_def)
  show ?case
  proof (cases again)
    case True
    with Suc.prems(1) a have "attempts ul sample n s1 = Some s'" by simp
    from Suc.IH [OF this Suc.prems(2,3) o(1)] s1 o(2,3) show ?thesis by (auto intro: restarts_trans)
  next
    case False
    with Suc.prems(1) a s1 show ?thesis by auto
  qed
qed

lemma attempts_returns:
  assumes "sample_pid sample \<noteq> 0" "lib_ok (ul_lib ul) rank" "in_order 0 s" "an_maxFrames s \<noteq> - 1"
  shows "attempts ul sample n s \<noteq> None"
  using assms(3,4)
proof (induction n arbitrary: s)
  case (Suc n)
  obtain again s1 where a: "attempt ul sample s = Some (again, s1)"
    using attempt_returns [OF assms(1,2) Suc.prems] by fast
  have "in_order 0 s1" "an_maxFrames s1 \<noteq> - 1"
    using attempt_ok [OF a assms(1,2) Suc.prems(1)] Suc.prems(2) by (simp_all add: restarts_def)
  from Suc.IH [OF this] a show ?case by (simp del: not_None_eq)
qed simp

lemma at_least_ip_ok:
  assumes "at_least_ip ul sample s = Some s'" "sample_pid sample \<noteq> 0" "lib_ok (ul_lib ul) rank" "in_order 0 s"
  shows "restarts s s' \<and> an_frames s' \<noteq> [] \<and> length (an_frames s') \<le> max 1 (length (an_frames s))"
proof (cases "an_frames s = []")
  case True
  let ?k = "ipIsInKernelSpace (sr_ip sample) s"
  obtain i b s1 where l: "look_up ul (table_pid sample ?k) (sr_ip sample) ?k s = Some ((i, b), s1)"
    and s': "s' = s1\<lparr>an_frames := [i], an_isInterworking := b\<rparr>"
    using assms(1) True by (auto simp: at_least_ip_def Let_def)
  have "table_pid sample ?k \<noteq> 0" using assms(2) by (simp add: table_pid_def s_kernelPid_def)
  note s1 = look_up_proceeds [OF l this assms(3,4)]
  then have "an_frames s1 = []" using True by (simp add: proceeds_def)
  with append_frame_grows(2) [of 0 s1 i b] s1 have "grows 0 s1 s'" by (simp add: s' proceeds_def)
  with s1 show ?thesis by (auto simp: s' intro: restarts_trans proceeds_restarts grows_restarts)
next
  case False
  with assms show ?thesis by (auto simp: at_least_ip_def restarts_def resolves_refl)
qed

lemma at_least_ip_returns:
  "lib_ok (ul_lib ul) rank \<Longrightarrow> in_order 0 s \<Longrightarrow> at_least_ip ul sample s \<noteq> None"
  by (simp add: at_least_ip_def Let_def look_up_returns [where rank = rank and k = 0] del: not_None_eq)

lemma both_tables_ok:
  assumes "in_order 0 s"
  shows "proceeds 0 s (snd (symbolTable ul pid (snd (symbolTable ul pid' s))))"
  using symbolTable_proceeds [OF surjective_pairing assms, of ul pid']
    symbolTable_proceeds [OF surjective_pairing, of 0 "snd (symbolTable ul pid' s)" ul pid]
  by (auto dest: proceeds_in_order intro: proceeds_trans)

lemma find_frames_ok:
  assumes "find_frames ul sample s = Some s'" "sample_pid sample \<noteq> 0" "lib_ok (ul_lib ul) rank" "in_order 0 s"
  shows "restarts s s' \<and> an_frames s' \<noteq> []
    \<and> (an_maxFrames s \<noteq> - 1 \<longrightarrow> int (length (an_frames s')) \<le> frame_limit sample s)"
proof -
  define s1 where "s1 = snd (symbolTable ul (sample_pid sample) (snd (symbolTable ul s_kernelPid s)))"
  have s1: "proceeds 0 s s1" unfolding s1_def by (rule both_tables_ok [OF assms(4)])
  obtain s2 where a: "attempts ul sample 2 s1 = Some s2" and l: "at_least_ip ul sample s2 = Some s'"
    using assms(1) by (cases "attempts ul sample 2 s1") (auto simp: find_frames_def s1_def case_prod_beta)
  from attempts_ok [OF a assms(2,3) proceeds_in_order [OF s1]] have s2: "restarts s1 s2"
    "an_maxFrames s1 \<noteq> - 1 \<longrightarrow> int (length (an_frames s2)) \<le> frame_limit sample s1" by auto
  then have "in_order 0 s2" by (simp add: restarts_def)
  note s' = at_least_ip_ok [OF l assms(2,3) this]
  then have "restarts s s'" using restarts_trans [OF proceeds_restarts [OF s1] restarts_trans [OF s2(1)]] by blast
  moreover have "an_maxFrames s1 = an_maxFrames s" using s1 by (simp add: proceeds_def)
  moreover have "1 \<le> frame_limit sample s" by (simp add: frame_limit_def chain_limit_def)
  ultimately show ?thesis using s' s2(2) by (auto simp: frame_limit_def)
qed

lemma find_frames_returns:
  assumes "sample_pid sample \<noteq> 0" "lib_ok (ul_lib ul) rank" "in_order 0 s" "an_maxFrames s \<noteq> - 1"
  shows "find_frames ul sample s \<noteq> None"
proof -
  define s1 where "s1 = snd (symbolTable ul (sample_pid sample) (snd (symbolTable ul s_kernelPid s)))"
  have "proceeds 0 s s1" unfolding s1_def by (rule both_tables_ok [OF assms(3)])
  with assms(4) have s1: "in_order 0 s1" "an_maxFrames s1 \<noteq> - 1" by (simp_all add: proceeds_def)
  obtain s2 where a: "attempts ul sample 2 s1 = Some s2"
    using attempts_returns [OF assms(1,2) s1] by blast
  have "in_order 0 s2" using attempts_ok [OF a assms(1,2) s1(1)] by (simp add: restarts_def)
  from at_least_ip_returns [OF assms(2) this] a show ?thesis
    by (simp add: find_frames_def s1_def case_prod_beta del: not_None_eq)
qed

lemma numGuessed_bound:
  assumes "in_order 0 s"
  shows "unat (numGuessedFrames s) \<le> length (an_frames s)"
    "an_firstGuessedFrame s \<noteq> - 1 \<Longrightarrow> 0 \<le> int (length (an_frames s)) - an_firstGuessedFrame s"
proof -
  let ?n = "int (length (an_frames s)) - an_firstGuessedFrame s"
  have g: "an_firstGuessedFrame s = - 1 \<or> 0 \<le> an_firstGuessedFrame s \<and> 0 \<le> ?n"
    using assms by (auto simp: in_order_def guess_ok_def)
  then show "an_firstGuessedFrame s \<noteq> - 1 \<Longrightarrow> 0 \<le> ?n" by simp
  show "unat (numGuessedFrames s) \<le> length (an_frames s)"
  proof (cases "an_firstGuessedFrame s = - 1")
    case False
    then have "unat (numGuessedFrames s) = nat (min 255 ?n)"
      using g by (simp add: numGuessedFrames_def unat_eq_nat_uint uint_word_of_int)
    with False g show ?thesis by linarith
  qed (simp add: numGuessedFrames_def)
qed


section \<open>An example\<close>

text \<open>
  An unwinder that never gets to the end of a stack, and a sample of a process with a call chain through the kernel
  and a user stack.
\<close>

definition example_unwinder :: "(unit, unit, u64) unwind_lib" where
  "example_unwinder = \<lparr>ul_lib = example_lib, ul_thread = \<lambda>_. 0x2000, ul_setRegisters = \<lambda>_ _ d. Some d, ul_pc = Some,
     ul_activation = \<lambda>_ d. Ready (False, d), ul_unwind = \<lambda>_ d. ReadMemory 0x8 (\<lambda>_ v. Ready (Some (d + 0x10))),
     ul_sectionData = \<lambda>_ _ _. None, ul_behind = [], ul_mapLines = \<lambda>_ _. [], ul_fields = \<lambda>_. []\<rparr>"

definition example_sample :: sample_record where
  "example_sample = (newSample (0, 0) \<lparr>eh_type = 9, eh_misc = 0, eh_size = 40\<rparr> noAttributes)
     \<lparr>r_sampleId := (newSampleId 0 False)\<lparr>sid_pid := 7, sid_tid := 7, sid_time := 5\<rparr>, sr_ip := 0x1000,
      sr_callchain := [PERF_CONTEXT_KERNEL, 0x9010, PERF_CONTEXT_USER, 0x1000],
      sr_registerAbi := 2, sr_registers := [0], sr_userStack := replicate 16 0\<rparr>"

definition example_state :: "(unit, unit) analysis" where
  "example_state = setMaxUnwindFrames 3 (setArchitecture ARCH_X86 (newAnalysis 17 40 False))"

lemma example_lib_ok: "lib_ok (ul_lib example_unwinder) (\<lambda>_. 0)"
  by (simp add: lib_ok_def example_unwinder_def example_lib_def specifications_end_def)

lemmas new_state = setMaxUnwindFrames_def setArchitecture_def newAnalysis_def newUnwind_def newEventBuffer_def
  event_buffer.defs unwind.defs emptyCache_def

lemma example_in_order: "in_order 0 example_state"
  by (simp add: example_state_def new_state in_order_def cache_ok_def tables_ok_def guess_ok_def)


text \<open>The limit is for one frame less than there may be.\<close>

lemma one_frame_too_many:
  "map_option (\<lambda>s. length (an_frames s))
    (find_frames example_unwinder (example_sample\<lparr>sr_callchain := []\<rparr>) (setMaxUnwindFrames 1 example_state)) = Some 2"
  by code_simp

text \<open>
  Addresses in two kernel functions are named after them, addresses where the two start are both named after the
  first: an offset of zero is taken for no symbol, and both get the location of the binary's start.
\<close>

lemma starts_share_symbol:
  "map_option (\<lambda>s. map fst (uw_strings s)) (find_frames example_unwinder
      (example_sample\<lparr>sr_userStack := [], sr_callchain := [PERF_CONTEXT_KERNEL, 0x9001, 0x9101]\<rparr>) example_state)
    = Some [ascii ''second'', ascii ''first'']"
  "map_option (\<lambda>s. map fst (uw_strings s)) (find_frames example_unwinder
      (example_sample\<lparr>sr_userStack := [], sr_callchain := [PERF_CONTEXT_KERNEL, 0x9000, 0x9100]\<rparr>) example_state)
    = Some [ascii ''first'']"
  by code_simp+

end
