(* ===== verification/AnalysisClient.thy ===== *)
theory AnalysisClient
  imports AnalysisFacts
begin

text \<open>
  The symbol tables and the analysis with the client: what the event buffer makes \<open>PerfUnwind\<close> do is accepted by a
  client, which ends with one sample for each that was analysed, in order.
\<close>

section \<open>One sample\<close>

text \<open>
  What a sample needs: its process, attributes that were sent, and names of fields that were sent with their format.
  The values are listed by the names they have, each with a value.
\<close>

definition names_sent :: "sample_record \<Rightarrow> 'a unwind_scheme \<Rightarrow> bool" where
  "names_sent sample u \<longleftrightarrow> (case tracepoint_format sample u of None \<Rightarrow> True
     | Some i \<Rightarrow> \<forall>f \<in> set (ef_fields (eventFormat i (uw_tracing u))). ff_name f \<in> fst ` set (uw_strings u))"

definition sample_ok :: "('w, 'm, 'd) unwind_lib \<Rightarrow> sample_record \<Rightarrow> 'a unwind_scheme \<Rightarrow> bool" where
  "sample_ok ul sample u \<longleftrightarrow> sample_pid sample \<noteq> 0 \<and> list_all (known_attribute u \<circ> fst) (sample_values sample u)
     \<and> names_sent sample u \<and> (\<forall>m. set (ul_fields ul m) \<subseteq> dom m)"

lemma same_attributes:
  assumes "extends u v"
  shows "attributesId i v = attributesId i u" "tracepoint_format sample v = tracepoint_format sample u"
    "sample_values sample v = sample_values sample u" "known_attribute v = known_attribute u"
  using assms
proof -
  have eq: "uw_attributeIds v = uw_attributeIds u" "uw_attributes v = uw_attributes u" using assms by (simp_all add: extends_def)
  then have ids: "attributesId i v = attributesId i u" for i by (simp add: attributesId_def)
  show "attributesId i v = attributesId i u" "tracepoint_format sample v = tracepoint_format sample u"
    "sample_values sample v = sample_values sample u" "known_attribute v = known_attribute u"
    by (simp_all add: ids eq tracepoint_format_def sample_values_def known_attribute_def Let_def fun_eq_iff)
qed

lemma names_sent_mono: "extends u v \<Longrightarrow> names_sent sample u \<Longrightarrow> names_sent sample v"
  using same_attributes(2) [of u v sample] by (auto simp: names_sent_def extends_def split: option.splits)

lemma lookupString_sent: "s \<in> fst ` set (uw_strings u) \<Longrightarrow> known_string u (lookupString s u)"
proof -
  assume "s \<in> fst ` set (uw_strings u)"
  then obtain i where i: "map_of (uw_strings u) s = Some i" by (metis map_of_eq_None_iff option.exhaust)
  then have "(s, i) \<in> set (uw_strings u)" by (rule map_of_SomeD)
  with i show ?thesis by (force simp: lookupString_def known_string_def)
qed

lemma trace_fields_known:
  assumes "trace_fields dat byteSwap u fs m = Some m'" "\<forall>f \<in> set fs. ff_name f \<in> fst ` set (uw_strings u)"
    "\<forall>k \<in> dom m. known_string u k"
  shows "\<forall>k \<in> dom m'. known_string u k"
  using assms
proof (induction fs arbitrary: m)
  case (Cons f fs)
  then obtain v where v: "readTraceData dat f byteSwap = Some v"
    "trace_fields dat byteSwap u fs (m(lookupString (ff_name f) u \<mapsto> v)) = Some m'"
    by (auto simp: bind_eq_Some_conv)
  have "known_string u (lookupString (ff_name f) u)" using Cons.prems(2) by (intro lookupString_sent) simp
  then show ?case using Cons.prems(2,3) by (intro Cons.IH [OF v(2)]) (auto split: if_splits)
qed simp

lemma trace_values_known:
  assumes "trace_values order sample byteSwap u = Some (Some vs)" "names_sent sample u" "\<forall>m. set (order m) \<subseteq> dom m"
  shows "list_all (known_string u \<circ> fst) vs"
proof -
  obtain i m where m: "tracepoint_format sample u = Some i"
    "trace_fields (sr_rawData sample) byteSwap u (ef_fields (eventFormat i (uw_tracing u))) Map.empty = Some m"
    "vs = map (\<lambda>k. (k, the (m k))) (order m)"
    using assms(1) by (auto simp: trace_values_def split: option.splits)
  from trace_fields_known [OF m(2)] m(1) assms(2) have "\<forall>k \<in> dom m. known_string u k" by (simp add: names_sent_def)
  with assms(3) m(3) show ?thesis by (auto simp: list_all_iff subset_iff)
qed

lemma sample_message_sent: "sample_message_of ul sample (sendBuffer m s) = sample_message_of ul sample s"
proof -
  have "sendBuffer m s = s \<or> sendBuffer m s = s\<lparr>uw_output := uw_output s @ frame m\<rparr>" by (simp add: sendBuffer_def)
  moreover have "trace_fields d b (s\<lparr>uw_output := x\<rparr>) fs m = trace_fields d b s fs m" for d b x fs m
    by (induction fs arbitrary: m) (simp_all add: lookupString_def split: option.split bind_split)
  ultimately show ?thesis
    by (auto simp: sample_message_of_def trace_values_def tracepoint_format_def sample_values_def attributesId_def
        numGuessedFrames_def Let_def cong: if_cong option.case_cong)
qed

lemma in_order_send: "in_order k s \<Longrightarrow> in_order k (sendBuffer m s)"
  by (simp add: sendBuffer_def in_order_def cache_ok_def tables_ok_def table_ok_def guess_ok_def
      locations_known_cong [of "s\<lparr>uw_output := x\<rparr>" s for x])

text \<open>
  One sample: the client that was in step reads what was found out for its frames and accepts the sample, which has
  at least one frame.
\<close>

lemma analyze_step:
  assumes "analyze ul wr sample s = Some s'" "in_step rd later version s c" "in_order 0 s" "lib_ok (ul_lib ul) rank"
    "sample_ok ul sample s" "fits s'"
    "\<forall>m. sample_message_of ul sample s' = Some m \<longrightarrow> fits_sample rd wr m \<and> length (write_sample_message wr m) < 2 ^ 31"
  shows "in_order 0 s' \<and> (\<exists>c' m. in_step rd later version s' c' \<and> dom (cl_formats c') = dom (cl_formats c)
    \<and> cl_samples c' = cl_samples c @ [m] \<and> cl_progress c' = cl_progress c \<and> sample_message_of ul sample s' = Some m \<and> sm_frames m \<noteq> [])"
proof -
  have "\<not> st_enabled (eb_stats s)" using assms(2) by (simp add: in_step_def)
  then obtain s1 m where f: "find_frames ul sample s = Some s1" and m1: "sample_message_of ul sample s1 = Some m"
    and s': "s' = sendBuffer (write_sample_message wr m) s1"
    using assms(1) by (auto simp: analyze_def bind_eq_Some_conv)
  have pid: "sample_pid sample \<noteq> 0" using assms(5) by (simp add: sample_ok_def)
  note s1 = find_frames_ok [OF f pid assms(4,3)]
  then have r: "sent s s1" "in_order 0 s1" "an_frames s1 \<noteq> []" by (auto simp: restarts_def)
  have m: "sample_message_of ul sample s' = Some m" using m1 by (simp add: s' sample_message_sent)
  have "fits s1" using assms(6) by (simp add: s' fits_def)
  from resolves_in_step [OF r(1) assms(2) this] obtain c1 where c1: "in_step rd later version s1 c1"
    "cl_formats c1 = cl_formats c" "cl_samples c1 = cl_samples c" "cl_progress c1 = cl_progress c" by blast
  note ext = resolves_extends [OF r(1)]
  have fields: "sm_frames m = an_frames s1" "sm_values m = sample_values sample s1"
    "trace_values (ul_fields ul) sample (an_byteOrder s1 \<noteq> hostByteOrder) s1 = Some (sm_trace m)"
    using m1 by (auto simp: sample_message_of_def)
  have "names_sent sample s1" using names_sent_mono [OF ext] assms(5) by (simp add: sample_ok_def)
  then have "case sm_trace m of None \<Rightarrow> True | Some vs \<Rightarrow> list_all (known_string s1 \<circ> fst) vs"
    using trace_values_known fields(3) assms(5) by (auto simp: sample_ok_def split: option.split)
  then have "allowed rd wr (dom (cl_formats c1)) (ReqSample m) s1"
    using assms(5,7) m r(2) fields(1,2) same_attributes(3,4) [OF ext]
    by (simp add: in_order_def sample_ok_def)
  from exec_step [OF c1(1) refl this] obtain c' where c': "in_step rd later version s' c'"
    "cl_samples c' = cl_samples c @ [m]" "cl_progress c' = cl_progress c" "dom (cl_formats c') = dom (cl_formats c)"
    using c1(2,3,4) by (auto simp: s' samples_sent_def formats_sent_def)
  moreover have "in_order 0 s'" using r(2) unfolding s' by (rule in_order_send)
  ultimately show ?thesis using m r(3) fields(1) by metis
qed

section \<open>Mappings\<close>

lemma mapped_file_ok:
  assumes "mapped_file lib pid filePath fileName buildId t u = Some (full, t', u')"
    "\<forall>p. length (li_missing lib p) < 2 ^ 30 - 5"
  shows "sent u u' \<and> pt_pid t' = pt_pid t \<and> pt_invalidAddressCache t' = pt_invalidAddressCache t \<and> pt_elfs t' = pt_elfs t
    \<and> (u' = u \<or> (\<exists>e msg. u' = sendError e msg u))"
proof -
  have "sent u (sendError MissingElfFile (li_missing lib filePath) u)"
    using assms(2) by (intro resolves_error [OF resolves_refl]) simp
  with assms(1) show ?thesis
    by (auto simp: mapped_file_def Let_def resolves_refl split: if_splits)
qed

lemma invalidate_same:
  "pt_pid (fold (about_to_invalidate lib) es t) = pt_pid t
    \<and> pt_invalidAddressCache (fold (about_to_invalidate lib) es t) = pt_invalidAddressCache t"
proof (induction es arbitrary: t)
  case (Cons e es)
  then show ?case by (simp add: about_to_invalidate_def)
qed simp

lemma table_registerElf_ok:
  assumes "table_registerElf (ul_lib ul) mmap buildId t s = Some (t', s')" "lib_ok (ul_lib ul) rank" "in_order 0 s"
    "table_ok s pid t"
  shows "restarts s s' \<and> table_ok s' pid t'"
proof -
  define fileName where "fileName = (if special_region (mm_filename mmap) then []
    else fs_fileName (li_fs (ul_lib ul)) (mm_filename mmap))"
  obtain full t1 s1 where m: "mapped_file (ul_lib ul) (mm_pid mmap) (mm_filename mmap) fileName buildId t s = Some (full, t1, s1)"
    using assms(1)
    by (cases "mapped_file (ul_lib ul) (mm_pid mmap) (mm_filename mmap) fileName buildId t s")
      (auto simp: table_registerElf_def Let_def fileName_def)
  obtain elfs es where r: "registerElf (mm_addr mmap) (mm_len mmap) (mm_pgoff mmap) full fileName (mm_filename mmap) (pt_elfs t1)
      = (elfs, es)" by fastforce
  let ?t = "(fold (about_to_invalidate (ul_lib ul)) es t1)\<lparr>pt_elfs := elfs\<rparr>"
  have eq: "s' = s1" "t' = (if pt_cacheIsDirty ?t then clearCache (ul_lib ul) ?t else ?t)"
    using assms(1) m r by (simp_all add: table_registerElf_def Let_def fileName_def [symmetric])
  have "\<forall>p. length (li_missing (ul_lib ul) p) < 2 ^ 30 - 5" using assms(2) by (simp add: lib_ok_def)
  note mf = mapped_file_ok [OF m this]
  then have "table_ok s' pid t1" using assms(4) table_ok_mono [of s s' pid t] by (simp add: table_ok_def eq(1))
  moreover from this have "base_inv elfs"
    using base_inv_registerElf [of "pt_elfs t1"] arg_cong [OF r, of fst] by (metis fst_conv table_ok_def)
  ultimately have "table_ok s' pid t'"
    using invalidate_same [of "ul_lib ul" es t1] by (simp add: eq(2) table_ok_def clearCache_def locations_known_def)
  moreover have "restarts s s'"
    using mf assms(3) in_order_send [OF assms(3)] by (auto simp: eq(1) restarts_def sendError_def sendBuffer_def)
  ultimately show ?thesis by blast
qed

section \<open>Runs of the event buffer\<close>

definition act_ok ::
  "trace_value reader \<Rightarrow> (trace_value \<Rightarrow> bytes) \<Rightarrow> ('w, 'm, 'd) unwind_lib \<Rightarrow> (u64 \<Rightarrow> u64 \<Rightarrow> u16 list) \<Rightarrow> action
    \<Rightarrow> ('w, 'm) analysis \<Rightarrow> bool"
where
  "act_ok rd wr ul tr a s \<longleftrightarrow> (case a of
       SendTask e \<Rightarrow> is_task e \<and> (te_type e = Command \<longrightarrow> known_string s (payload_int (te_payload e)))
     | TimeOrderError time lastTime \<Rightarrow> length (tr time lastTime) < 2 ^ 30 - 5
     | Analyze sample \<Rightarrow> sample_ok ul sample s \<and> (\<forall>s' m. analyze ul wr sample s = Some s' \<longrightarrow>
         sample_message_of ul sample s' = Some m \<longrightarrow> fits_sample rd wr m \<and> length (write_sample_message wr m) < 2 ^ 31)
     | _ \<Rightarrow> True)"

primrec acts_ok ::
  "trace_value reader \<Rightarrow> (trace_value \<Rightarrow> bytes) \<Rightarrow> ('w, 'm, 'd) unwind_lib \<Rightarrow> (u64 \<Rightarrow> u64 \<Rightarrow> u16 list) \<Rightarrow> action list
    \<Rightarrow> ('w, 'm) analysis \<Rightarrow> bool"
where
  "acts_ok rd wr ul tr [] s \<longleftrightarrow> True"
| "acts_ok rd wr ul tr (a # as) s \<longleftrightarrow>
     act_ok rd wr ul tr a s \<and> (\<forall>s'. act ul wr tr a s = Some s' \<longrightarrow> acts_ok rd wr ul tr as s')"

text \<open>What a sample is recognised by, and the samples of a run.\<close>

definition sample_key :: "sample_record \<Rightarrow> s32 \<times> s32 \<times> u64 \<times> u32" where
  "sample_key r = (sample_pid r, sid_tid (r_sampleId r), record_time r, record_cpu r)"

definition message_key :: "sample_message \<Rightarrow> s32 \<times> s32 \<times> u64 \<times> u32" where
  "message_key m = (sm_pid m, sm_tid m, sm_time m, sm_cpu m)"

definition samples_in :: "action list \<Rightarrow> sample_record list" where
  "samples_in as = concat (map (\<lambda>a. case a of Analyze r \<Rightarrow> [r] | _ \<Rightarrow> []) as)"

lemma symbolTable_restarts:
  "in_order 0 s \<Longrightarrow> symbolTable ul pid s = (t, s') \<Longrightarrow> restarts s s' \<and> table_ok s' pid t"
  using symbolTable_proceeds [of ul pid s t s' 0] proceeds_restarts by blast

lemma putTable_restarts: "restarts s s' \<Longrightarrow> table_ok s' pid t \<Longrightarrow> restarts s (putTable pid t s')"
  using restarts_trans [OF _ proceeds_restarts [OF putTable_proceeds]] by (auto simp: restarts_def)

text \<open>The tables are changed by steps the client does not see, but for an error.\<close>

lemma act_tables:
  assumes "act ul wr tr a s = Some s'" "in_order 0 s" "lib_ok (ul_lib ul) rank"
    "(\<exists>m. a = RegisterElf m) \<or> (\<exists>c p. a = InitAfterFork c p) \<or> (\<exists>p. a = DropTable p)"
  shows "restarts s s'"
proof -
  consider m where "a = RegisterElf m" | c p where "a = InitAfterFork c p" | p where "a = DropTable p"
    using assms(4) by blast
  then show ?thesis
  proof cases
    case 1
    define buildId where "buildId = (case uw_buildIds s (mm_filename m) of Some i \<Rightarrow> i | None \<Rightarrow> [])"
    obtain t1 s1 where t1: "symbolTable ul (mm_pid m) s = (t1, s1)" by fastforce
    obtain t2 s2 where t2: "table_registerElf (ul_lib ul) m buildId t1 s1 = Some (t2, s2)" "s' = putTable (mm_pid m) t2 s2"
      using assms(1) 1 by (auto simp: t1 buildId_def)
    note r1 = symbolTable_restarts [OF assms(2) t1]
    then have "in_order 0 s1" by (simp add: restarts_def)
    from table_registerElf_ok [OF t2(1) assms(3) this conjunct2 [OF r1]] r1 t2(2) show ?thesis
      by (auto intro: putTable_restarts restarts_trans)
  next
    case 2
    obtain t1 s1 where t1: "symbolTable ul c s = (t1, s1)" by fastforce
    obtain t2 s2 where t2: "symbolTable ul p s1 = (t2, s2)" by fastforce
    obtain t3 s3 where t3: "symbolTable ul c s2 = (t3, s3)" by fastforce
    note r1 = symbolTable_restarts [OF assms(2) t1]
    then have "in_order 0 s1" by (simp add: restarts_def)
    note r2 = symbolTable_restarts [OF this t2]
    then have "in_order 0 s2" by (simp add: restarts_def)
    note r3 = symbolTable_restarts [OF this t3]
    have "table_ok s3 c (initAfterFork (ul_lib ul) t2 t3)"
      using r2 r3 by (auto simp: initAfterFork_def table_ok_def copyDataFrom_def base_inv_def)
    moreover have "restarts s s3" using r1 r2 r3 by (blast intro: restarts_trans)
    ultimately have "restarts s (putTable c (initAfterFork (ul_lib ul) t2 t3) s3)" by (rule putTable_restarts [rotated])
    then show ?thesis using assms(1) 2 by (simp add: t1 t2 t3)
  next
    case 3
    then show ?thesis
      using assms(1,2)
      by (auto simp: restarts_def in_order_def cache_ok_def tables_ok_def table_ok_def guess_ok_def unwind.defs
          locations_known_cong [of "s\<lparr>an_tables := n\<rparr>" s for n] intro: unseen split: if_splits)
  qed
qed

lemma extends_send: "extends u v \<Longrightarrow> extends u (sendBuffer m v)"
  by (simp add: extends_def)

lemma act_extends:
  assumes "act ul wr tr a s = Some s'" "in_order 0 s" "lib_ok (ul_lib ul) rank" "act_ok rd wr ul tr a s"
  shows "extends s s' \<and> in_order 0 s'"
proof (cases "(\<exists>m. a = RegisterElf m) \<or> (\<exists>c p. a = InitAfterFork c p) \<or> (\<exists>p. a = DropTable p)")
  case True
  from act_tables [OF assms(1-3) this] show ?thesis by (auto simp: restarts_def intro: resolves_extends)
next
  case other: False
  show ?thesis
  proof (cases "\<exists>r. a = Analyze r")
    case True
    then obtain r where r: "a = Analyze r" by blast
    then have an: "analyze ul wr r s = Some s'" "sample_pid r \<noteq> 0"
      using assms(1,4) by (simp_all add: act_ok_def sample_ok_def)
    show ?thesis
    proof (cases "st_enabled (eb_stats s)")
      case True
      with an(1) assms(2) show ?thesis by (simp add: analyze_def extends_refl)
    next
      case False
      then obtain s1 m where f: "find_frames ul r s = Some s1" and s': "s' = sendBuffer (write_sample_message wr m) s1"
        using an(1) by (auto simp: analyze_def bind_eq_Some_conv)
      from find_frames_ok [OF f an(2) assms(3,2)] show ?thesis
        unfolding s' by (auto simp: restarts_def intro: extends_send resolves_extends in_order_send)
    qed
  next
    case False
    with other assms(1,2) show ?thesis
      by (cases a) (auto simp: perform_def sendTaskEvent_def sendError_def
          intro: extends_send extends_refl in_order_send)
  qed
qed

lemma act_all_extends:
  assumes "act_all ul wr tr as s = Some s'" "in_order 0 s" "lib_ok (ul_lib ul) rank" "acts_ok rd wr ul tr as s"
  shows "extends s s'"
  using assms(1,2,4)
proof (induction as arbitrary: s)
  case (Cons a as)
  then obtain s1 where a: "act ul wr tr a s = Some s1" "act_all ul wr tr as s1 = Some s'"
    by (auto simp: bind_eq_Some_conv)
  with Cons.prems(3) act_extends [OF a(1) Cons.prems(2) assms(3)] Cons.IH [OF a(2)] show ?case
    by (auto intro: extends_trans)
qed (simp add: extends_refl)

lemma act_step:
  assumes "act ul wr tr a s = Some s'" "in_step rd later version s c" "in_order 0 s" "lib_ok (ul_lib ul) rank"
    "act_ok rd wr ul tr a s" "fits s'"
  shows "\<exists>c' ms. in_step rd later version s' c' \<and> dom (cl_formats c') = dom (cl_formats c)
    \<and> cl_samples c' = cl_samples c @ ms \<and> cl_progress c' = cl_progress c
    \<and> map message_key ms = map sample_key (samples_in [a]) \<and> list_all (\<lambda>m. sm_frames m \<noteq> []) ms"
proof (cases "(\<exists>m. a = RegisterElf m) \<or> (\<exists>c p. a = InitAfterFork c p) \<or> (\<exists>p. a = DropTable p)")
  case True
  from act_tables [OF assms(1,3,4) True] have r: "sent s s'" "in_order 0 s'" by (simp_all add: restarts_def)
  from resolves_in_step [OF r(1) assms(2,6)] r(2) True show ?thesis
    by (auto simp: samples_in_def intro!: exI [of _ "[]"])
next
  case other: False
  have send: "in_order 0 (sendBuffer m s)" for m using assms(3) by (rule in_order_send)
  show ?thesis
  proof (cases a)
    case (SendTask e)
    then have "allowed rd wr (dom (cl_formats c)) (ReqTask e) s" using assms(5) by (simp add: act_ok_def)
    from exec_step [OF assms(2) refl this] send show ?thesis
      using assms(1) SendTask
      by (auto simp: samples_sent_def formats_sent_def samples_in_def perform_def sendTaskEvent_def)
  next
    case (TimeOrderError time lastTime)
    then have "length (tr time lastTime) < 2 ^ 30 - 5" using assms(5) by (simp add: act_ok_def)
    from sendError_step [OF assms(2) this] send show ?thesis
      using assms(1) TimeOrderError by (auto simp: samples_in_def perform_def sendError_def intro!: exI [of _ "[]"])
  next
    case (Analyze r)
    then have an: "analyze ul wr r s = Some s'" and ok: "sample_ok ul r s"
      and m: "\<forall>m. sample_message_of ul r s' = Some m \<longrightarrow> fits_sample rd wr m \<and> length (write_sample_message wr m) < 2 ^ 31"
      using assms(1,5) by (auto simp: act_ok_def)
    from analyze_step [OF an assms(2-4) ok assms(6) m] obtain c' m where c': "in_order 0 s'" "in_step rd later version s' c'"
      "dom (cl_formats c') = dom (cl_formats c)" "cl_samples c' = cl_samples c @ [m]" "cl_progress c' = cl_progress c"
      "sample_message_of ul r s' = Some m" "sm_frames m \<noteq> []" by blast
    moreover have "message_key m = sample_key r"
      using c'(6) by (auto simp: sample_message_of_def message_key_def sample_key_def)
    ultimately show ?thesis using Analyze by (auto simp: samples_in_def intro!: exI [of _ c'] exI [of _ "[m]"])
  qed (use other in auto)
qed

text \<open>A run of actions: the client gets the samples in the order they were analysed, and no formats.\<close>

lemma samples_in_Cons: "samples_in (a # as) = samples_in [a] @ samples_in as"
  by (simp add: samples_in_def)

lemma act_all_step:
  assumes "act_all ul wr tr as s = Some s'" "in_step rd later version s c" "in_order 0 s" "lib_ok (ul_lib ul) rank"
    "acts_ok rd wr ul tr as s" "fits s'"
  shows "in_order 0 s' \<and> (\<exists>c' ms. in_step rd later version s' c' \<and> dom (cl_formats c') = dom (cl_formats c)
    \<and> cl_samples c' = cl_samples c @ ms \<and> cl_progress c' = cl_progress c \<and> map message_key ms = map sample_key (samples_in as)
    \<and> list_all (\<lambda>m. sm_frames m \<noteq> []) ms)"
  using assms(1,2,3,5)
proof (induction as arbitrary: s c)
  case (Cons a as)
  then obtain s1 where a: "act ul wr tr a s = Some s1" and as: "act_all ul wr tr as s1 = Some s'"
    by (auto simp: bind_eq_Some_conv)
  have ok: "act_ok rd wr ul tr a s" "acts_ok rd wr ul tr as s1" using Cons.prems(4) a by simp_all
  then have s1: "in_order 0 s1" using act_extends [OF a Cons.prems(3) assms(4)] by blast
  from act_all_extends [OF as s1 assms(4) ok(2)] assms(6) have "fits s1" by (rule fits_mono)
  from act_step [OF a Cons.prems(2,3) assms(4) ok(1) this] obtain c1 ms where c1: "in_step rd later version s1 c1"
    "dom (cl_formats c1) = dom (cl_formats c)" "cl_samples c1 = cl_samples c @ ms" "cl_progress c1 = cl_progress c"
    "map message_key ms = map sample_key (samples_in [a])" "list_all (\<lambda>m. sm_frames m \<noteq> []) ms" by blast
  from Cons.IH [OF as c1(1) s1 ok(2)] obtain c' ms' where "in_order 0 s'" "in_step rd later version s' c'"
    "dom (cl_formats c') = dom (cl_formats c)" "cl_samples c' = cl_samples c @ ms @ ms'" "cl_progress c' = cl_progress c"
    "map message_key ms' = map sample_key (samples_in as)"
    "list_all (\<lambda>m. sm_frames m \<noteq> []) ms'" by (auto simp: c1(2,3,4))
  then show ?case using c1(5,6) samples_in_Cons [of a as]
    by (intro conjI exI [of _ c'] exI [of _ "ms @ ms'"]) simp_all
qed (auto simp: samples_in_def)


text \<open>The example sample, after an attribute for it was sent.\<close>

definition example_client_state :: "(unit, unit) analysis" where
  "example_client_state = unwind_addAttributes noAttributes (ascii ''cycles'') [] (setMaxUnwindFrames 1 example_state)"

definition example_actions :: "action list" where
  "example_actions = [RegisterElf \<lparr>r_header = \<lparr>eh_type = 1, eh_misc = 0, eh_size = 40\<rparr>, r_sampleId = newSampleId 0 False, mm_pid = 7,
     mm_tid = 7, mm_addr = 0x1000, mm_len = 0x100, mm_pgoff = 0, mm_filename = ascii ''/lib''\<rparr>,
     Analyze (example_sample\<lparr>sr_userStack := []\<rparr>)]"


lemma example_accepted_run:
  "map_option (\<lambda>s. (length (uw_strings s), length (uw_locations s), list_all (\<lambda>p. length (fst p) < 20) (uw_strings s),
      an_frames s))
    (act_all example_unwinder (\<lambda>_. []) (\<lambda>_ _. []) example_actions example_client_state) = Some (3, 3, True, [1, 2])"
  by code_simp

lemma example_client_in_order: "in_order 0 example_client_state"
  by (simp add: example_client_state_def example_state_def new_state example_simps in_order_def cache_ok_def tables_ok_def
      guess_ok_def)

lemma example_in_step: "\<exists>c. in_step example_get (\<lambda>_ _. True) 17 example_client_state c \<and> cl_samples c = []"
proof -
  let ?s = "setMaxUnwindFrames 1 example_state"
  have "in_step example_get (\<lambda>_ _. True) 17 ?s newClient"
    using in_step_start [of example_get "\<lambda>_ _. True" 17 40]
    by (simp add: in_step_def synced_def example_state_def new_state)
  moreover have "allowed example_get (\<lambda>_. []) {} (ReqAttributes noAttributes (ascii ''cycles'') []) ?s"
    by (simp add: example_state_def new_state ascii_def)
  ultimately show ?thesis
    using exec_step [of example_get "\<lambda>_ _. True" 17 ?s newClient "{}" "\<lambda>_. []" "ReqAttributes noAttributes (ascii ''cycles'') []"]
    by (auto simp: newClient_def samples_sent_def example_client_state_def)
qed

lemma small_message:
  assumes "sample_message_of ul r s = Some m" "tracepoint_format r s = None" "sr_readFormats r = []"
    "length (an_frames s) < 2 ^ 20"
  shows "fits_sample rd wr m \<and> length (write_sample_message wr m) < 2 ^ 31"
proof -
  have m: "sm_trace m = None" "sm_frames m = an_frames s" "length (sm_values m) = 1"
    using assms(1-3) by (auto simp: sample_message_of_def trace_values_def sample_values_def)
  have "length (concat (map put32 fs)) = 4 * length fs" for fs :: "u32 list" by (induction fs) simp_all
  moreover have "length (concat (map (\<lambda>(i, v). put32 i @ put64 v) vs)) = 12 * length vs" for vs :: "(s32 \<times> u64) list"
    by (induction vs) auto
  ultimately show ?thesis using m assms(4) by (simp add: fits_sample_def write_sample_message_def put_list_def)
qed

text \<open>A state that knows the attributes of the sample.\<close>

definition ready_for :: "sample_record \<Rightarrow> 'a unwind_scheme \<Rightarrow> bool" where
  "ready_for r s \<longleftrightarrow> tracepoint_format r s = None \<and> sample_values r s = [(0, 0)] \<and> known_attribute s 0
     \<and> \<not> st_enabled (eb_stats s)"

lemma ready_mono: "extends s v \<Longrightarrow> ready_for r s \<Longrightarrow> ready_for r v"
  by (simp add: ready_for_def same_attributes) (simp add: extends_def)

lemma example_ready: "ready_for (example_sample\<lparr>sr_userStack := []\<rparr>) example_client_state"
  by (simp add: ready_for_def tracepoint_format_def sample_values_def attributesId_def known_attribute_def
      example_client_state_def example_state_def new_state example_simps example_sample_def newSample_def newSampleId_def)

lemma example_analyze_ok:
  assumes "ready_for (example_sample\<lparr>sr_userStack := []\<rparr>) s" "in_order 0 s" "an_maxFrames s = 1"
  shows "act_ok example_get (\<lambda>_. []) example_unwinder (\<lambda>_ _. []) (Analyze (example_sample\<lparr>sr_userStack := []\<rparr>)) s"
proof -
  let ?r = "example_sample\<lparr>sr_userStack := []\<rparr>"
  have "sample_ok example_unwinder ?r s"
    using assms(1) by (simp add: ready_for_def sample_ok_def names_sent_def example_sample_def example_unwinder_def)
  moreover have "fits_sample example_get (\<lambda>_. []) m \<and> length (write_sample_message (\<lambda>_. []) m) < 2 ^ 31"
    if a: "analyze example_unwinder (\<lambda>_. []) ?r s = Some s'" and m: "sample_message_of example_unwinder ?r s' = Some m" for s' m
  proof -
    have en: "\<not> st_enabled (eb_stats s)" using assms(1) by (simp add: ready_for_def)
    then obtain s1 m1 where f: "find_frames example_unwinder ?r s = Some s1" and s': "s' = sendBuffer m1 s1"
      using a by (auto simp: analyze_def bind_eq_Some_conv)
    have "sample_pid ?r \<noteq> 0" by (simp add: example_sample_def)
    from find_frames_ok [OF f this example_lib_ok assms(2)] assms(3)
    have s1: "sent s s1" "int (length (an_frames s1)) \<le> frame_limit ?r s" by (auto simp: restarts_def)
    then have "length (an_frames s') \<le> 6"
      using assms(3) by (simp add: s' sendBuffer_def frame_limit_def chain_limit_def example_sample_def newSample_def)
    moreover have "extends s s'" unfolding s' by (rule extends_send [OF resolves_extends [OF s1(1)]])
    then have "tracepoint_format ?r s' = None" using assms(1) by (simp add: same_attributes ready_for_def)
    moreover have "sr_readFormats ?r = []" by (simp add: example_sample_def newSample_def)
    ultimately show ?thesis using small_message [OF m] by simp
  qed
  ultimately show ?thesis by (simp add: act_ok_def)
qed

lemma example_limit: "an_maxFrames example_client_state = 1"
  by (simp add: example_client_state_def example_state_def new_state example_simps)


end
