(* ===== verification/Calls.thy ===== *)
theory Calls
  imports Analysis PerfData
begin

text \<open>
  The events of a recording on the whole of \<open>PerfUnwind\<close> (\<open>app/perfunwind.h\<close>, \<open>app/perfunwind.cpp\<close>), with its symbol
  tables: each call is a step of the buffer and the numbering, followed by what a flush makes \<open>PerfUnwind\<close> do. The
  actions of a call are part of the result. \<open>None\<close>: a lookup or unwinding that does not end.
\<close>

section \<open>Events\<close>

text \<open>The steps of the handlers of \<open>Unwind\<close> without what a flush triggers.\<close>

definition task_of :: "'b perf_record_scheme \<Rightarrow> event_type \<Rightarrow> payload \<Rightarrow> task_event" where
  "task_of r t p = \<lparr>te_pid = sid_pid (r_sampleId r), te_tid = sid_tid (r_sampleId r), te_time = record_time r,
     te_cpu = record_cpu r, te_type = t, te_payload = p\<rparr>"

fun call_step ::
  "((s32 \<rightharpoonup> event_format) \<Rightarrow> s32 list) \<Rightarrow> call \<Rightarrow> 'a unwind_scheme \<Rightarrow> 'a unwind_scheme \<times> action list"
where
  "call_step keys (CallRegisterElf m) u = bufferMmap m u"
| "call_step keys (CallLost l) u = bufferTask (task_of l LostDefinition (ULongPayload (lr_lost l))) u"
| "call_step keys (CallComm c) u =
     (let (commId, u) = resolveString (cm_comm c) u in
      bufferTask ((task_of c Command (IntPayload commId))\<lparr>te_pid := cm_pid c, te_tid := cm_tid c\<rparr>) u)"
| "call_step keys (CallSample s) u = bufferSample s u"
| "call_step keys (CallAttr r) u = (attr_event r u, [])"
| "call_step keys (CallFork r) u =
     bufferTask ((task_of r ThreadStart (IntPayload (fk_ppid r)))\<lparr>te_pid := fk_pid r, te_tid := fk_tid r\<rparr>) u"
| "call_step keys (CallExit r) u =
     bufferTask ((task_of r ThreadEnd NoPayload)\<lparr>te_pid := fk_pid r, te_tid := fk_tid r\<rparr>) u"
| "call_step keys (CallTracing td) u = (unwind_tracing keys td u, [])"
| "call_step keys CallFinishedRound u = finishedRound (hasTracePointAttributes u) u"
| "call_step keys (CallContextSwitch r) u =
     bufferTask (task_of r ContextSwitchDefinition
       (BoolPayload (and (eh_misc (r_header r)) PERF_RECORD_MISC_SWITCH_OUT \<noteq> 0))) u"
| "call_step keys (CallProgress percent) u = (sendProgress percent u, [])"

text \<open>They are those of the handlers.\<close>

lemma run_call_step:
  "run_call keys other tr c u = (let (u, as) = call_step keys c u in fold (perform other tr) as u)"
  by (cases c)
    (simp_all add: run_call_def registerElf_event_def lost_event_def comm_event_def sample_event_def fork_event_def
      exit_event_def round_event_def contextSwitch_event_def run_buffer_def task_of_def split: prod.split)

definition handle_step ::
  "('w, 'm, 'd) unwind_lib \<Rightarrow> (trace_value \<Rightarrow> bytes) \<Rightarrow> (u64 \<Rightarrow> u64 \<Rightarrow> u16 list)
    \<Rightarrow> (('w, 'm) analysis \<Rightarrow> ('w, 'm) analysis \<times> action list) \<Rightarrow> ('w, 'm) analysis
    \<Rightarrow> (action list \<times> ('w, 'm) analysis) option"
where
  "handle_step ul wr tr step s = (let (s, as) = step s in map_option (Pair as) (act_all ul wr tr as s))"

section \<open>What the program asks of \<open>PerfUnwind\<close>\<close>

text \<open>The calls of \<open>PerfData\<close>, and those of \<open>main\<close>.\<close>

datatype request_call =
    UseArchitecture architecture
  | UseByteOrder byte_order
  | SendFeatures perf_features
  | Event call

record unwind_env =
  ue_keys :: "(s32 \<rightharpoonup> event_format) \<Rightarrow> s32 list"
  ue_since3_17 :: "bytes \<Rightarrow> bool"
  ue_put :: "trace_value \<Rightarrow> bytes"
  ue_violation :: "u64 \<Rightarrow> u64 \<Rightarrow> u16 list"

fun request_step :: "unwind_env \<Rightarrow> request_call \<Rightarrow> ('w, 'm) analysis \<Rightarrow> ('w, 'm) analysis \<times> action list" where
  "request_step ue (UseArchitecture a) s = (setArchitecture a s, [])"
| "request_step ue (UseByteOrder order) s = (unwind_setByteOrder order s, [])"
| "request_step ue (SendFeatures f) s = (unwind_features (ue_keys ue) (ue_since3_17 ue) f s, [])"
| "request_step ue (Event c) s = call_step (ue_keys ue) c s"

definition handle ::
  "('w, 'm, 'd) unwind_lib \<Rightarrow> unwind_env \<Rightarrow> request_call \<Rightarrow> ('w, 'm) analysis
    \<Rightarrow> (action list \<times> ('w, 'm) analysis) option"
where
  "handle ul ue r = handle_step ul (ue_put ue) (ue_violation ue) (request_step ue r)"

primrec handle_all ::
  "('w, 'm, 'd) unwind_lib \<Rightarrow> unwind_env \<Rightarrow> request_call list \<Rightarrow> ('w, 'm) analysis
    \<Rightarrow> (action list \<times> ('w, 'm) analysis) option"
where
  "handle_all ul ue [] s = Some ([], s)"
| "handle_all ul ue (r # rs) s =
     Option.bind (handle ul ue r s) (\<lambda>(as, s).
       map_option (\<lambda>(bs, s). (as @ bs, s)) (handle_all ul ue rs s))"

text \<open>\<open>PerfUnwind\<close> as \<open>main\<close> sets it up: the sizes of the buffer and the number of frames.\<close>

definition configured :: "u32 \<Rightarrow> u32 \<Rightarrow> bool \<Rightarrow> u32 \<Rightarrow> u32 \<Rightarrow> int \<Rightarrow> ('w, 'm) analysis" where
  "configured version taskSize printStats targetSize maxSize frames =
     setMaxUnwindFrames frames (setMaxEventBufferSize maxSize (setTargetEventBufferSize targetSize
       (newAnalysis version taskSize printStats)))"

section \<open>The destructor\<close>

text \<open>\<open>finalize\<close>: a round and a flush, each with what it triggers.\<close>

definition finalize_all ::
  "('w, 'm, 'd) unwind_lib \<Rightarrow> unwind_env \<Rightarrow> ('w, 'm) analysis \<Rightarrow> (action list \<times> ('w, 'm) analysis) option"
where
  "finalize_all ul ue s =
     Option.bind (handle ul ue (Event CallFinishedRound) s) (\<lambda>(as, s).
       map_option (\<lambda>(bs, s). (as @ bs, s))
         (handle_step ul (ue_put ue) (ue_violation ue) (flushEventBuffer 0) s))"

text \<open>The statistics, as a text stream writes them.\<close>

definition stats_line :: "string \<Rightarrow> 'a::len word \<Rightarrow> bytes" where
  "stats_line name n = ascii name @ ascii '': '' @ ascii (to_base 10 (unat n)) @ [10]"

definition stats_text :: "stats \<Rightarrow> bytes" where
  "stats_text st = stats_line ''samples'' (st_numSamples st) @ stats_line ''mmaps'' (st_numMmaps st)
     @ stats_line ''rounds'' (st_numRounds st) @ stats_line ''buffer flushes'' (st_numBufferFlushes st)
     @ stats_line ''samples time violations'' (st_numTimeViolatingSamples st)
     @ stats_line ''mmaps time violations'' (st_numTimeViolatingMmaps st)
     @ stats_line ''max samples per round'' (st_maxSamplesPerRound st)
     @ stats_line ''max mmaps per round'' (st_maxMmapsPerRound st)
     @ stats_line ''max task events per round'' (st_maxTaskEventsPerRound st)
     @ stats_line ''max samples per flush'' (st_maxSamplesPerFlush st)
     @ stats_line ''max mmaps per flush'' (st_maxMmapsPerFlush st)
     @ stats_line ''max task events per flush'' (st_maxTaskEventsPerFlush st)
     @ stats_line ''max buffer size'' (st_maxBufferSize st)
     @ stats_line ''max total event size per round'' (st_maxTotalEventSizePerRound st)
     @ stats_line ''max time'' (st_maxTime st) @ stats_line ''max time between rounds'' (st_maxTimeBetweenRounds st)
     @ stats_line ''max reorder time'' (st_maxReorderTime st)"

definition destroy ::
  "('w, 'm, 'd) unwind_lib \<Rightarrow> unwind_env \<Rightarrow> ('w, 'm) analysis \<Rightarrow> (action list \<times> ('w, 'm) analysis) option"
where
  "destroy ul ue s = map_option (\<lambda>(as, s).
       (as, if st_enabled (eb_stats s) then s\<lparr>uw_output := uw_output s @ stats_text (eb_stats s)\<rparr> else s))
     (finalize_all ul ue s)"

end
