(* ===== verification/Options.thy ===== *)
theory Options
  imports Calls
begin

text \<open>
  The start of \<open>main\<close> (\<open>app/main.cpp\<close>): what the options of the command line make of \<open>PerfUnwind\<close>, which devices are
  read and written, and the connection to a remote host. Conversions of Qt from text to numbers, the paths of the
  platform and whether a device can be opened are parameters.
\<close>

section \<open>Exit codes\<close>

datatype exit_code =
    ExitNoError | ExitTcpSocketError | ExitCannotOpen | ExitBadMagic | ExitHeaderError | ExitDataError
  | ExitMissingData | ExitInvalidOption | ExitBufferingError

primrec exit_number :: "exit_code \<Rightarrow> nat" where
  "exit_number ExitNoError = 0"
| "exit_number ExitTcpSocketError = 1"
| "exit_number ExitCannotOpen = 2"
| "exit_number ExitBadMagic = 3"
| "exit_number ExitHeaderError = 4"
| "exit_number ExitDataError = 5"
| "exit_number ExitMissingData = 6"
| "exit_number ExitInvalidOption = 7"
| "exit_number ExitBufferingError = 8"

section \<open>Options\<close>

text \<open>The options of the command line, the name of each and the value it has when it is not given.\<close>

datatype command_option =
    OptInput | OptHost | OptPort | OptOutput | OptSysroot | OptDebug | OptExtra | OptApp | OptArch | OptKallsyms
  | OptPrintStats | OptBufferSize | OptMaxBufferSize | OptMaxFrames | OptPerfMapPath

primrec option_name :: "command_option \<Rightarrow> string" where
  "option_name OptInput = ''input''"
| "option_name OptHost = ''host''"
| "option_name OptPort = ''port''"
| "option_name OptOutput = ''output''"
| "option_name OptSysroot = ''sysroot''"
| "option_name OptDebug = ''debug''"
| "option_name OptExtra = ''extra''"
| "option_name OptApp = ''app''"
| "option_name OptArch = ''arch''"
| "option_name OptKallsyms = ''kallsyms''"
| "option_name OptPrintStats = ''print-stats''"
| "option_name OptBufferSize = ''buffer-size''"
| "option_name OptMaxBufferSize = ''max-buffer-size''"
| "option_name OptMaxFrames = ''max-frames''"
| "option_name OptPerfMapPath = ''perf-map-path''"

text \<open>What Qt and the platform give. A conversion that fails gives \<open>None\<close>, and zero where \<open>main\<close> does not ask.\<close>

record platform =
  pl_rootPath :: bytes
  pl_homePath :: bytes
  pl_arch :: bytes
  pl_toUInt :: "bytes \<Rightarrow> u32 option"
  pl_toInt :: "bytes \<Rightarrow> s32 option"
  pl_toUShort :: "bytes \<Rightarrow> u16 option"
  pl_toLatin1 :: "bytes \<Rightarrow> bytes"

primrec option_default :: "platform \<Rightarrow> command_option \<Rightarrow> bytes" where
  "option_default pl OptInput = []"
| "option_default pl OptHost = []"
| "option_default pl OptPort = ascii ''9327''"
| "option_default pl OptOutput = []"
| "option_default pl OptSysroot = pl_rootPath pl"
| "option_default pl OptDebug = defaultDebugInfoPath (pl_homePath pl)"
| "option_default pl OptExtra = []"
| "option_default pl OptApp = []"
| "option_default pl OptArch = pl_arch pl"
| "option_default pl OptKallsyms = defaultKallsymsPath"
| "option_default pl OptPrintStats = []"
| "option_default pl OptBufferSize = ascii (to_base 10 (2 ^ 15))"
| "option_default pl OptMaxBufferSize = ascii (to_base 10 (2 ^ 20))"
| "option_default pl OptMaxFrames = ascii ''64''"
| "option_default pl OptPerfMapPath = []"

text \<open>
  The options the parser has found on the command line, in order, with their values. An option may be given more than
  once; the last value counts.
\<close>

type_synonym arguments = "(command_option \<times> bytes) list"

definition isSet :: "arguments \<Rightarrow> command_option \<Rightarrow> bool" where
  "isSet args opt \<longleftrightarrow> opt \<in> fst ` set args"

definition option_value :: "platform \<Rightarrow> arguments \<Rightarrow> command_option \<Rightarrow> bytes" where
  "option_value pl args opt = (case map_of (rev args) opt of Some v \<Rightarrow> v | None \<Rightarrow> option_default pl opt)"

record settings =
  se_paths :: search_paths
  se_printStats :: bool
  se_targetSize :: u32
  se_maxSize :: u32
  se_maxFrames :: s32
  se_arch :: bytes

text \<open>The paths \<open>main\<close> gives to \<open>PerfUnwind\<close>.\<close>

definition paths_of :: "platform \<Rightarrow> arguments \<Rightarrow> search_paths" where
  "paths_of pl args =
     (let under_root = (\<lambda>opt. if isSet args opt then option_value pl args opt
            else option_value pl args OptSysroot @ option_value pl args opt) in
      \<lparr>sp_systemRoot = option_value pl args OptSysroot, sp_extraLibsPath = option_value pl args OptExtra,
       sp_appPath = option_value pl args OptApp, sp_debugPath = under_root OptDebug,
       sp_kallsymsPath = under_root OptKallsyms, sp_ignoreKallsymsBuildId = isSet args OptKallsyms,
       sp_customPerfMapPath = (if isSet args OptPerfMapPath then option_value pl args OptPerfMapPath else [])\<rparr>)"

text \<open>Sizes are kilobytes; the product is a \<open>uint\<close>.\<close>

definition configure :: "platform \<Rightarrow> arguments \<Rightarrow> exit_code + settings" where
  "configure pl args =
     (case pl_toUInt pl (option_value pl args OptBufferSize) of
        None \<Rightarrow> Inl ExitInvalidOption
      | Some target \<Rightarrow>
     (case pl_toUInt pl (option_value pl args OptMaxBufferSize) of
        None \<Rightarrow> Inl ExitInvalidOption
      | Some maxSize \<Rightarrow>
     (case pl_toInt pl (option_value pl args OptMaxFrames) of
        None \<Rightarrow> Inl ExitInvalidOption
      | Some frames \<Rightarrow>
           Inr \<lparr>se_paths = paths_of pl args, se_printStats = isSet args OptPrintStats,
             se_targetSize = target * 1024, se_maxSize = maxSize * 1024, se_maxFrames = frames,
             se_arch = pl_toLatin1 pl (option_value pl args OptArch)\<rparr>)))"

text \<open>The list of paths that libdwfl is given for debugging information: it starts with the empty one.\<close>

definition debugInfoPath :: "search_paths \<Rightarrow> bytes" where
  "debugInfoPath sp = [listSeparator] @ sp_debugPath sp @ [listSeparator] @ sp_appPath sp @ [listSeparator]
     @ sp_extraLibsPath sp @ [listSeparator] @ sp_systemRoot sp"

definition unwind_of :: "u32 \<Rightarrow> u32 \<Rightarrow> settings \<Rightarrow> ('w, 'm) analysis" where
  "unwind_of version taskSize se = configured version taskSize (se_printStats se) (se_targetSize se) (se_maxSize se)
     (sint (se_maxFrames se))"

section \<open>Devices\<close>

datatype in_device = InSocket bytes u16 | InFile bytes | InStdin

definition initInfile :: "platform \<Rightarrow> arguments \<Rightarrow> in_device" where
  "initInfile pl args =
     (if isSet args OptHost then InSocket (option_value pl args OptHost)
        (case pl_toUShort pl (option_value pl args OptPort) of Some port \<Rightarrow> port | None \<Rightarrow> 0)
      else if isSet args OptInput then InFile (option_value pl args OptInput)
      else InStdin)"

datatype out_device = OutFile bytes | OutStdout

text \<open>The device, and the exit that is asked for when it cannot be opened.\<close>

definition initOutfile :: "platform \<Rightarrow> (out_device \<Rightarrow> bool) \<Rightarrow> arguments \<Rightarrow> out_device \<times> exit_code list" where
  "initOutfile pl opens args =
     (let dev = (if isSet args OptOutput then OutFile (option_value pl args OptOutput) else OutStdout) in
      (dev, if opens dev then [] else [ExitCannotOpen]))"

text \<open>
  \<open>main\<close> up to the event loop: the code it returns, or what runs. \<open>QCoreApplication::exit\<close> does nothing while no
  event loop runs, so the exit for an output that cannot be opened is lost.
\<close>

definition start_main ::
  "platform \<Rightarrow> (out_device \<Rightarrow> bool) \<Rightarrow> (in_device \<Rightarrow> bool) \<Rightarrow> arguments \<Rightarrow> exit_code + (in_device \<times> out_device \<times> settings)"
where
  "start_main pl opensOut opensIn args =
     (let (out, _) = initOutfile pl opensOut args; inp = initInfile pl args in
      case configure pl args of
        Inl e \<Rightarrow> Inl e
      | Inr se \<Rightarrow>
          if \<not> isSet args OptHost \<and> \<not> opensIn inp then Inl ExitCannotOpen else Inr (inp, out, se))"

section \<open>The connection to a remote host\<close>

record tcp_socket =
  ts_host :: bytes
  ts_port :: u16
  ts_tries :: u16

definition newTcpSocket :: "bytes \<Rightarrow> u16 \<Rightarrow> tcp_socket" where
  "newTcpSocket host port = \<lparr>ts_host = host, ts_port = port, ts_tries = 0\<rparr>"

definition tryConnect :: "tcp_socket \<Rightarrow> tcp_socket" where
  "tryConnect s = s\<lparr>ts_tries := ts_tries s + 1\<rparr>"

text \<open>What happens at an error: nothing, the program exits, or the socket tries again after some milliseconds.\<close>

datatype socket_reaction = SocketIgnores | SocketExits | SocketRetries s32

definition processError :: "bool \<Rightarrow> bool \<Rightarrow> tcp_socket \<Rightarrow> socket_reaction" where
  "processError remoteClosed connected s =
     (if remoteClosed then SocketIgnores
      else if connected \<or> ts_tries s > 10 then SocketExits
      else SocketRetries (push_bit (unat (ts_tries s)) 1))"

text \<open>\<open>n\<close> attempts fail before one would succeed: whether the socket gets there, the delays and the attempts made.\<close>

primrec connecting :: "nat \<Rightarrow> tcp_socket \<Rightarrow> bool \<times> s32 list \<times> tcp_socket" where
  "connecting 0 s = (True, [], tryConnect s)"
| "connecting (Suc n) s =
     (let s = tryConnect s in
      case processError False False s of
        SocketRetries delay \<Rightarrow> (let (ok, delays, s) = connecting n s in (ok, delay # delays, s))
      | _ \<Rightarrow> (False, [], s))"

section \<open>Correctness\<close>

lemma connecting_from:
  assumes "unat (ts_tries s) \<le> 10"
  shows "connecting n s = (n + unat (ts_tries s) \<le> 10,
    map (\<lambda>i. 2 ^ i) [Suc (unat (ts_tries s))..<Suc (min (n + unat (ts_tries s)) 10)],
    s\<lparr>ts_tries := of_nat (min (Suc (n + unat (ts_tries s))) 11)\<rparr>)"
  using assms
proof (induction n arbitrary: s)
  case 0
  then show ?case by (simp add: tryConnect_def)
next
  case (Suc n)
  let ?s = "tryConnect s"
  have t: "unat (ts_tries ?s) = Suc (unat (ts_tries s))"
    using Suc.prems by (simp add: tryConnect_def unat_word_ariths)
  show ?case
  proof (cases "unat (ts_tries ?s) \<le> 10")
    case True
    have "\<not> 10 < ts_tries ?s" using True by (simp add: word_less_nat_alt)
    then have "processError False False ?s = SocketRetries (2 ^ unat (ts_tries ?s))"
      by (simp add: processError_def push_bit_eq_mult)
    moreover have "?s\<lparr>ts_tries := x\<rparr> = s\<lparr>ts_tries := x\<rparr>" for x by (simp add: tryConnect_def)
    ultimately show ?thesis using Suc.IH [OF True] t True by (simp add: upt_conv_Cons del: upt_Suc)
  next
    case False
    then have "10 < ts_tries ?s" by (simp add: word_less_nat_alt)
    then have "processError False False ?s = SocketExits" by (simp add: processError_def)
    moreover have "unat (ts_tries s) = 10" using False t Suc.prems by simp
    then have "ts_tries s = 10" by (simp add: word_unat_eq_iff)
    ultimately show ?thesis by (simp add: tryConnect_def)
  qed
qed

text \<open>
  C40: a remote host is tried eleven times. The socket gets a connection exactly if at most ten attempts fail first; it
  waits twice as long after each, two milliseconds first and a bit over two seconds in all, and counts its attempts.
\<close>
theorem socket_attempts:
  "connecting n (newTcpSocket host port) = (n \<le> 10, map (\<lambda>i. 2 ^ i) [1..<Suc (min n 10)],
     \<lparr>ts_host = host, ts_port = port, ts_tries = of_nat (min (Suc n) 11)\<rparr>)"
  using connecting_from [of "newTcpSocket host port" n] by (simp add: newTcpSocket_def)

text \<open>The buffer as the options set it up; without options it is as the constructor leaves it, but for the last size.\<close>

lemma configured_sizes:
  "eb_targetSize (configured version k stats n m frames) = min n m" "eb_maxSize (configured version k stats n m frames) = m"
  "an_maxFrames (configured version k stats n m frames) = frames"
  by (auto simp: configured_def setMaxUnwindFrames_def setMaxEventBufferSize_def setTargetEventBufferSize_def Let_def)

lemma configure_defaults:
  assumes "pl_toUInt pl (ascii ''32768'') = Some 32768" "pl_toUInt pl (ascii ''1048576'') = Some 1048576"
    "pl_toInt pl (ascii ''64'') = Some 64"
  shows "configure pl [] = Inr \<lparr>se_paths = \<lparr>sp_systemRoot = pl_rootPath pl, sp_extraLibsPath = [], sp_appPath = [],
       sp_debugPath = pl_rootPath pl @ defaultDebugInfoPath (pl_homePath pl), sp_kallsymsPath = pl_rootPath pl @ defaultKallsymsPath,
       sp_ignoreKallsymsBuildId = False, sp_customPerfMapPath = []\<rparr>,
     se_printStats = False, se_targetSize = push_bit 25 1, se_maxSize = push_bit 30 1, se_maxFrames = 64,
     se_arch = pl_toLatin1 pl (pl_arch pl)\<rparr>"
proof -
  have "to_base 10 (2 ^ 15) = ''32768''" "to_base 10 (2 ^ 20) = ''1048576''"
    by (simp_all add: to_base.simps digit_def)
  with assms show ?thesis by (simp add: configure_def option_value_def paths_of_def isSet_def Let_def)
qed

lemma configure_target:
  assumes "pl_toUInt pl (option_value pl args OptBufferSize) = Some w" "configure pl args = Inr se"
  shows "se_targetSize se = w * 1024"
  using assms by (auto simp: configure_def split: option.splits)

text \<open>The last of several values of an option counts.\<close>

lemma option_value_last: "option_value pl (args @ [(opt, v)]) opt = v"
  by (simp add: option_value_def)

text \<open>A buffer of four gigabytes or a multiple wraps to none: events are then buffered until a round ends.\<close>

lemma buffer_size_wraps:
  assumes "pl_toUInt pl (option_value pl args OptBufferSize) = Some (4194304 * n)" "configure pl args = Inr se"
  shows "se_targetSize se = 0"
proof -
  have wraps: "(4194304 :: u32) * 1024 = 0" by simp
  have "a * n * b = n * (a * b)" for a b :: u32 by (simp add: ac_simps)
  from this [of 4194304 1024] have "4194304 * n * 1024 = 0" by (simp only: wraps mult_zero_right)
  then show ?thesis using configure_target [OF assms] by (simp only:)
qed

text \<open>A program whose output cannot be opened runs all the same.\<close>

lemma unopened_output:
  assumes "configure pl args = Inr se" "\<not> isSet args OptHost \<longrightarrow> opensIn (initInfile pl args)" "\<And>dev. \<not> opensOut dev"
  shows "snd (initOutfile pl opensOut args) = [ExitCannotOpen]"
    "start_main pl opensOut opensIn args = Inr (initInfile pl args, fst (initOutfile pl opensOut args), se)"
  using assms by (auto simp: start_main_def initOutfile_def Let_def split_beta)

end
