(* ===== verification/Program.thy ===== *)
theory Program
  imports Options
begin

text \<open>
  \<open>main\<close> of \<open>app/main.cpp\<close> once the event loop runs: the lambdas connected to the signals of the input device,
  \<open>PerfHeader\<close> and \<open>PerfData\<close>, and the copy that a recording with a file header gets when it comes in a stream. The
  calls to \<open>PerfUnwind\<close> are collected. What the devices do, Qt's and the operating system's part, is given: a file
  of random access has its contents, what a stream brings arrives in pieces until it closes. \<open>None\<close>: a reading or
  writing that does not end.
\<close>

section \<open>The state\<close>

datatype phase = ReadingHeader | Buffering | ReadingData | Done

text \<open>
  \<open>pg_file\<close> is what a device of random access holds, \<open>pg_rest\<close> what can be read from the current position on,
  \<open>pg_temp\<close> the copy, \<open>pg_exits\<close> the exits asked for; the attributes are those of \<open>PerfData\<close>.
\<close>

record 'z program =
  pg_phase :: phase
  pg_sequential :: bool
  pg_file :: bytes
  pg_rest :: bytes
  pg_temp :: bytes
  pg_header :: perf_header
  pg_features :: perf_features
  pg_data :: "'z perf_data"
  pg_calls :: "request_call list"
  pg_exits :: "exit_code list"

text \<open>
  What is given: what \<open>PerfData\<close> is given and the bound on nested records, orders of hashes, whether a file of some
  length can be read from a position on, what a stream there reads when it cannot, what is left to read after a header
  could not be read, the contents of members that are not initialised, whether the copy can be opened and reset, and how much of what is written to it is taken.
\<close>

record 'z program_env =
  pv_perf :: "'z perf_env"
  pv_depth :: nat
  pv_sections :: "(feature \<times> file_section) list \<Rightarrow> (feature \<times> file_section) list"
  pv_attributes :: "(u64 \<rightharpoonup> event_attributes) \<Rightarrow> u64 list"
  pv_canSeek :: "nat \<Rightarrow> s64 \<Rightarrow> bool"
  pv_unsought :: "bytes \<Rightarrow> s64 \<Rightarrow> bytes"
  pv_left :: bytes
  pv_cpus :: nr_cpus
  pv_memory :: u64
  pv_openTemp :: bool
  pv_resetTemp :: bool
  pv_write :: "bytes \<Rightarrow> bytes \<Rightarrow> int"

definition newProgram :: "'z program_env \<Rightarrow> bool \<Rightarrow> bytes \<Rightarrow> bytes \<Rightarrow> 'z program" where
  "newProgram pv sequential content fallbackArch = \<lparr>pg_phase = ReadingHeader, pg_sequential = sequential,
     pg_file = content, pg_rest = content, pg_temp = [], pg_header = newHeader,
     pg_features = (newFeatures (pv_cpus pv) (pv_memory pv))\<lparr>pf_arch := fallbackArch\<rparr>, pg_data = newPerfData newAttributes, pg_calls = [], pg_exits = []\<rparr>"

definition exit_with :: "exit_code \<Rightarrow> 'z program \<Rightarrow> 'z program" where
  "exit_with e p = p\<lparr>pg_exits := pg_exits p @ [e]\<rparr>"

definition call_unwind :: "request_call list \<Rightarrow> 'z program \<Rightarrow> 'z program" where
  "call_unwind rs p = p\<lparr>pg_calls := pg_calls p @ rs\<rparr>"

definition perf_env_of :: "'z program_env \<Rightarrow> 'z program \<Rightarrow> 'z perf_env" where
  "perf_env_of pv p = (pv_perf pv)\<lparr>pe_header := pg_header p\<rparr>"

text \<open>What a file has from a position on.\<close>

definition content_at :: "'z program_env \<Rightarrow> bytes \<Rightarrow> s64 \<Rightarrow> bytes option" where
  "content_at pv bs pos = (if pv_canSeek pv (length bs) pos then Some (drop (nat (sint pos)) bs) else None)"

definition stream_from :: "'z program_env \<Rightarrow> bytes \<Rightarrow> s64 \<Rightarrow> bytes" where
  "stream_from pv bs pos = (case content_at pv bs pos of Some r \<Rightarrow> r | None \<Rightarrow> pv_unsought pv bs pos)"

section \<open>The header's sections\<close>

definition attr_of_file :: "perf_attributes \<Rightarrow> u64 \<Rightarrow> request_call" where
  "attr_of_file p i = Event (CallAttr \<lparr>r_header = noEventHeader, r_sampleId = newSampleId 0 False,
     ar_attr = the (pa_attributes p i), ar_ids = [i]\<rparr>)"

definition header_unread :: "'z program_env \<Rightarrow> 'z program \<Rightarrow> 'z program" where
  "header_unread pv p = exit_with ExitDataError (p\<lparr>pg_rest := pv_left pv\<rparr>)"

text \<open>The features are sent first, then the attributes; what is left to read is as before.\<close>

definition send_header :: "'z program_env \<Rightarrow> 'z program \<Rightarrow> 'z program" where
  "send_header pv p =
     (let (ok, d) = setCompressed (perf_env_of pv p) (pf_compressed (pg_features p)) (pg_data p);
          compressed = hasFeature COMPRESSED (pg_header p);
          p = (if compressed then p\<lparr>pg_data := d\<rparr> else p);
          attrs = pd_attributes (pg_data p) in
      if compressed \<and> \<not> ok then exit_with ExitDataError p
      else call_unwind (SendFeatures (pg_features p) # map (attr_of_file attrs) (pv_attributes pv (pa_attributes attrs))) p)"

definition readFileHeader :: "'z program_env \<Rightarrow> 'z program \<Rightarrow> 'z program option" where
  "readFileHeader pv p =
     (let junk = pe_junk (pv_perf pv);
          (ok, attrs) = readAttributes junk (content_at pv (pg_file p)) (pg_header p) (pd_attributes (pg_data p));
          p = p\<lparr>pg_data := (pg_data p)\<lparr>pd_attributes := attrs\<rparr>\<rparr> in
      if \<not> ok then Some (header_unread pv p)
      else map_option (\<lambda>(ok, f). let p = p\<lparr>pg_features := f\<rparr> in if ok then send_header pv p else header_unread pv p)
        (readFeatures (pv_sections pv) (pe_conv (pv_perf pv)) junk (\<lambda>pos. content_at pv (pg_file p) pos \<noteq> None)
          (stream_from pv (pg_file p)) (pg_header p) (pg_features p)))"

section \<open>The data\<close>

text \<open>What \<open>PerfData\<close> signals and \<open>main\<close> has connected to it: a finished reader leaves the device alone.\<close>

definition data_signalled :: "data_signal \<Rightarrow> 'z program \<Rightarrow> 'z program" where
  "data_signalled sig p =
     (case sig of
        DataWaiting \<Rightarrow> p
      | DataFinished \<Rightarrow> exit_with ExitNoError (p\<lparr>pg_phase := Done\<rparr>)
      | DataError \<Rightarrow> exit_with ExitDataError (p\<lparr>pg_phase := Done\<rparr>))"

text \<open>\<open>read\<close> and \<open>finishReading\<close> on the device, which is open while it is about to close.\<close>

definition with_data ::
  "('z perf_data \<Rightarrow> bytes \<Rightarrow> (data_signal \<times> call list \<times> 'z perf_data \<times> bytes) option) \<Rightarrow> 'z program \<Rightarrow> 'z program option"
where
  "with_data reads p =
     map_option (\<lambda>(sig, cs, d, rest). data_signalled sig (call_unwind (map Event cs) (p\<lparr>pg_data := d, pg_rest := rest\<rparr>)))
       (reads (pg_data p) (if isPipe (pg_header p) then pg_rest p else pg_file p))"

definition data_read :: "'z program_env \<Rightarrow> 'z program \<Rightarrow> 'z program option" where
  "data_read pv p = with_data (readRecording (pv_depth pv) (perf_env_of pv p) (pg_sequential p) True
     (pv_canSeek pv (length (pg_file p)))) p"

definition data_finish :: "'z program_env \<Rightarrow> 'z program \<Rightarrow> 'z program option" where
  "data_finish pv p = with_data (finishReading (pv_depth pv) (perf_env_of pv p) (pg_sequential p) True
     (pv_canSeek pv (length (pg_file p)))) p"

definition start_data :: "'z program_env \<Rightarrow> 'z program \<Rightarrow> 'z program option" where
  "start_data pv p =
     (let arch = archByName (pf_arch (pg_features p)); p = call_unwind [UseArchitecture arch] p in
      if arch = ARCH_INVALID then Some (exit_with ExitMissingData p)
      else let p = p\<lparr>pg_phase := ReadingData\<rparr> in
        if pg_rest p \<noteq> [] then data_read pv p else Some p)"

section \<open>The copy of a stream\<close>

partial_function (option) writeBytes :: "(bytes \<Rightarrow> bytes \<Rightarrow> int) \<Rightarrow> bytes \<Rightarrow> bytes \<Rightarrow> (bool \<times> bytes) option" where
  "writeBytes write target data =
     (if data = [] then Some (True, target)
      else if write target data < 0 then Some (False, target)
      else writeBytes write (target @ take (nat (write target data)) data) (drop (nat (write target data)) data))"

declare writeBytes.simps [code]

text \<open>What one call reads from a device at most.\<close>

definition s_bufferSize :: nat where "s_bufferSize = 2 ^ 25"

definition copy_to_temp :: "'z program_env \<Rightarrow> bytes \<Rightarrow> ('z program \<Rightarrow> 'z program option) \<Rightarrow> 'z program \<Rightarrow> 'z program option" where
  "copy_to_temp pv data goOn p =
     Option.bind (writeBytes (pv_write pv) (pg_temp p) data) (\<lambda>(ok, temp).
       if ok then goOn (p\<lparr>pg_temp := temp\<rparr>) else Some (exit_with ExitBufferingError (p\<lparr>pg_temp := temp\<rparr>)))"

definition bufferSequentialData :: "'z program_env \<Rightarrow> 'z program \<Rightarrow> 'z program option" where
  "bufferSequentialData pv p =
     copy_to_temp pv (take s_bufferSize (pg_rest p)) Some (p\<lparr>pg_rest := drop s_bufferSize (pg_rest p)\<rparr>)"

text \<open>The copy starts with as many zeros as the header has bytes.\<close>

definition start_buffering :: "'z program_env \<Rightarrow> 'z program \<Rightarrow> 'z program option" where
  "start_buffering pv p =
     (if \<not> pv_openTemp pv then Some (exit_with ExitBufferingError p)
      else copy_to_temp pv (replicate (nat (sint (h_size (pg_header p)))) 0)
        (\<lambda>p. let p = p\<lparr>pg_phase := Buffering\<rparr> in if pg_rest p \<noteq> [] then bufferSequentialData pv p else Some p) p)"

definition read_file :: "'z program_env \<Rightarrow> 'z program \<Rightarrow> 'z program option" where
  "read_file pv p = Option.bind (readFileHeader pv p) (start_data pv)"

text \<open>When the stream closes the copy is read in its place.\<close>

definition end_buffering :: "'z program_env \<Rightarrow> 'z program \<Rightarrow> 'z program option" where
  "end_buffering pv p =
     (let p = p\<lparr>pg_sequential := False, pg_file := pg_temp p, pg_rest := pg_temp p\<rparr> in
      if \<not> pv_resetTemp pv then Some (exit_with ExitBufferingError p) else read_file pv p)"

section \<open>The signals\<close>

definition header_finished :: "'z program_env \<Rightarrow> 'z program \<Rightarrow> 'z program option" where
  "header_finished pv p =
     (let p = call_unwind [UseByteOrder (byteOrder (pg_header p))] p in
      if isPipe (pg_header p) then start_data pv p
      else if pg_sequential p then start_buffering pv p
      else read_file pv p)"

definition header_read :: "'z program_env \<Rightarrow> 'z program \<Rightarrow> 'z program option" where
  "header_read pv p =
     (let (sig, h, rest) = readHeader (pe_junk (pv_perf pv)) (pg_sequential p) (int (length (pg_file p))) (pg_rest p) (pg_header p);
          p = p\<lparr>pg_header := h, pg_rest := rest\<rparr> in
      case sig of
        HeaderWaiting \<Rightarrow> Some p
      | HeaderError \<Rightarrow> Some (exit_with ExitHeaderError p)
      | HeaderFinished \<Rightarrow> header_finished pv p)"

text \<open>\<open>readyRead\<close> after something arrived, and \<open>aboutToClose\<close>.\<close>

datatype device_signal = Arrived bytes | Closing

fun device_step :: "'z program_env \<Rightarrow> device_signal \<Rightarrow> 'z program \<Rightarrow> 'z program option" where
  "device_step pv (Arrived bs) p =
     (let p = p\<lparr>pg_rest := pg_rest p @ bs\<rparr> in
      case pg_phase p of
        ReadingHeader \<Rightarrow> header_read pv p
      | Buffering \<Rightarrow> bufferSequentialData pv p
      | ReadingData \<Rightarrow> data_read pv p
      | Done \<Rightarrow> Some p)"
| "device_step pv Closing p =
     (case pg_phase p of
        ReadingHeader \<Rightarrow> Some (exit_with ExitHeaderError p)
      | Buffering \<Rightarrow> end_buffering pv p
      | ReadingData \<Rightarrow> data_finish pv p
      | Done \<Rightarrow> Some p)"

text \<open>The event loop delivers signals until an exit was asked for; a file is read by the timer that \<open>main\<close> starts.\<close>

primrec event_loop :: "'z program_env \<Rightarrow> device_signal list \<Rightarrow> 'z program \<Rightarrow> 'z program option" where
  "event_loop pv [] p = Some p"
| "event_loop pv (e # es) p = (if pg_exits p \<noteq> [] then Some p else Option.bind (device_step pv e p) (event_loop pv es))"

definition run_file :: "'z program_env \<Rightarrow> bytes \<Rightarrow> bytes \<Rightarrow> 'z program option" where
  "run_file pv fallbackArch content = header_read pv (newProgram pv False content fallbackArch)"

definition run_stream :: "'z program_env \<Rightarrow> bytes \<Rightarrow> device_signal list \<Rightarrow> 'z program option" where
  "run_stream pv fallbackArch signals = event_loop pv signals (newProgram pv True [] fallbackArch)"

text \<open>The code \<open>exec\<close> returns: that of the last exit asked for before the loop was left.\<close>

definition exit_status :: "'z program \<Rightarrow> exit_code option" where
  "exit_status p = (if pg_exits p = [] then None else Some (last (pg_exits p)))"

end
