(* ===== verification/ProgramFacts.thy ===== *)
theory ProgramFacts
  imports Program PerfDataFacts FeatureFileFacts
begin

text \<open>
  What runs of the program guarantee: on a file it comes to an exit, \<open>PerfUnwind\<close> is called in the right order, and a
  recording that comes in a stream is read like the same recording in a file.
\<close>

section \<open>Exits\<close>

lemma readHeader_file: "fst (readHeader junk False (int (length bs)) bs newHeader) \<noteq> HeaderWaiting"
proof -
  have r: "length (ds_rest (snd (run_state rd s))) + n = length (ds_rest s)"
    if "takes rd n" "n \<le> length (ds_rest s)" for rd :: "'b reader" and n s
    using takesD [OF that] that by simp
  have size: "length (ds_rest s) + pipeHeaderFixedLength = length bs"
    if "read_pipe_header False (int (length bs)) newHeader (open_stream junk bs) = Inr (h, s)" for h s
  proof -
    obtain m s1 where 1: "run_state read_u64 (open_stream junk bs) = (m, s1)" by fastforce
    define s2 where "s2 = snd (run_state (setByteOrder (byteOrder (newHeader\<lparr>h_magic := m\<rparr>))) s1)"
    have len: "16 \<le> length bs"
      using that by (auto simp: read_pipe_header_def newHeader_def pipeHeaderFixedLength_def split: if_splits)
    then have "length (ds_rest s1) + 8 = length bs"
      using r [OF takes_ints(4), of "open_stream junk bs"] 1 by (simp add: open_stream_def)
    moreover have "ds_rest s2 = ds_rest s1" by (simp add: s2_def setByteOrder_def)
    moreover have "s = snd (run_state read_u64 s2)"
      using that 1 by (auto simp: read_pipe_header_def newHeader_def Let_def s2_def split_beta split: if_splits)
    ultimately show ?thesis
      using r [OF takes_ints(4), of s2] len by (simp add: pipeHeaderFixedLength_def)
  qed
  show ?thesis
  proof (cases "read_pipe_header False (int (length bs)) newHeader (open_stream junk bs)")
    case (Inl x)
    then show ?thesis by (auto simp: readHeader_def read_pipe_header_def open_stream_def Let_def newHeader_def
        pipeHeaderFixedLength_def split: if_splits prod.splits)
  next
    case (Inr x)
    obtain h s where x: "x = (h, s)" by (cases x)
    from size [of h s] Inr x have "length (ds_rest s) + pipeHeaderFixedLength = length bs" by simp
    then show ?thesis
      by (auto simp: readHeader_def Inr x read_extended_header_def Let_def pipeHeaderFixedLength_def fileHeaderFixedLength_def
          section_fixedLength_def split: prod.split)
  qed
qed

lemma file_loop_ends:
  assumes "file_loop depth env size0 at d s = Some r"
  shows "fst r \<noteq> Rerun"
proof (rule file_loop.raw_induct [where P = "\<lambda>depth env size0 at d s r. fst r \<noteq> Rerun", OF _ assms])
  fix loop depth and env :: "'z perf_env" and size0 nextAt d s r
  assume IH: "\<And>depth env size0 nextAt d s r. loop depth env size0 nextAt d s = Some r \<Longrightarrow> fst r \<noteq> Rerun"
    and r: "(if position size0 s < sint (dataOffset (pe_header env) + dataSize (pe_header env)) then
        (case run_state (processEvents depth env False d) s of
           (None, s') \<Rightarrow> None
         | (Some (status, cs, d'), s') \<Rightarrow>
             if status = SignalFinished then
               let report = position size0 s' \<ge> nextAt in
               Option.bind
                 (loop depth env size0
                   (if report then nextAt + progress_step (dataSize (pe_header env)) else nextAt) d' s')
                 (\<lambda>r. Some (calls_before (cs @ (if report then send_progress env (position size0 s') else [])) r))
             else Some (SignalError, cs, d', s'))
      else Some (SignalFinished, [], d, s)) = Some r"
  have "fst (calls_before cs x) = fst x" for cs and x :: "read_status \<times> call list \<times> 'z perf_data \<times> data_stream"
    by (cases x) (simp add: calls_before_def)
  with r show "fst r \<noteq> Rerun"
    by (auto simp: Let_def bind_eq_Some_conv split: if_splits prod.splits option.splits dest!: IH)
qed

lemma file_reading_ends:
  assumes "readRecording depth env False isOpen seek d device = Some (sig, r)"
  shows "sig \<noteq> DataWaiting"
proof -
  obtain status where "doRead depth env False isOpen seek d device = Some (status, r)" "sig = data_signal_of status"
    using assms by (auto simp: readRecording_def)
  then show ?thesis
    by (auto simp: doRead_def Let_def pipe_status_def data_signal_of_def dest!: file_loop_ends
        split: if_splits read_status.splits)
qed

lemma file_data_ends:
  assumes "with_data (readRecording depth env False True seek) p = Some q"
  shows "pg_exits q \<noteq> []"
proof -
  obtain sig cs d rest where r: "readRecording depth env False True seek (pg_data p) (if isPipe (pg_header p) then pg_rest p else pg_file p)
      = Some (sig, cs, d, rest)" "q = data_signalled sig (call_unwind (map Event cs) (p\<lparr>pg_data := d, pg_rest := rest\<rparr>))"
    using assms by (auto simp: with_data_def)
  then show ?thesis
    using file_reading_ends [OF r(1)] by (cases sig) (simp_all add: data_signalled_def exit_with_def)
qed

text \<open>The features are read when there are no build ids among them.\<close>

lemma section_table_features:
  "fst ` set (fst (run_state (read_section_table h fs) s)) \<subseteq> {i \<in> set fs. hasFeature i h}"
proof (induction fs arbitrary: s)
  case (Cons i fs)
  obtain sec s' where r: "run_state read_section s = (sec, s')" by fastforce
  obtain t s'' where t: "run_state (read_section_table h fs) s' = (t, s'')" by fastforce
  from Cons.IH [of s'] Cons.IH [of s] show ?case by (auto simp: r t)
qed simp

lemma create_features_answers: "BUILD_ID \<notin> fst ` set table \<Longrightarrow> create_features conv junk from order table f \<noteq> None"
proof (induction table arbitrary: f)
  case (Cons e table)
  have "fst e \<noteq> BUILD_ID" using Cons.prems by auto
  from read_feature_total [OF this] obtain f' where "createFeature conv junk from order (fst e) (snd e) f = Some f'"
    unfolding createFeature_def by blast
  with Cons show ?case by (cases e) simp
qed simp

lemma readFeatures_answers:
  assumes "\<not> hasFeature BUILD_ID h" "\<And>t. set (hashed t) \<subseteq> set t"
  shows "readFeatures hashed conv junk seek from h f \<noteq> None"
proof -
  have "BUILD_ID \<notin> fst ` set (hashed (fst (run_state (read_section_table h all_features) s)))" for s
    using section_table_features [of h all_features s] assms(1) image_mono [OF assms(2), of fst] by blast
  then have "create_features conv junk from order (hashed (fst (run_state (read_section_table h all_features) s))) f \<noteq> None" for order s
    by (rule create_features_answers)
  then show ?thesis unfolding readFeatures_def Let_def result_def by (simp del: not_None_eq)
qed

text \<open>What the data of a file comes to: an exit, unless there is nothing left in the device.\<close>

definition ended :: "'z program option \<Rightarrow> bool" where
  "ended r \<longleftrightarrow> (\<exists>p. r = Some p \<and> (pg_exits p \<noteq> [] \<or> pg_phase p = ReadingData \<and> pg_rest p = []))"

lemma ended_exit: "ended (Some (exit_with e p))"
  by (simp add: ended_def exit_with_def)

lemma start_data_ends:
  assumes "\<not> pe_haveZstd (pv_perf pv)" "pv_depth pv = Suc depth" "\<not> pg_sequential p"
  shows "ended (start_data pv p)"
proof -
  have "readRecording (pv_depth pv) (perf_env_of pv q) False True seek d bs \<noteq> None" for q :: "'a program" and seek d bs
    using assms(1,2) doRead_returns [of "perf_env_of pv q" depth] by (simp add: readRecording_def perf_env_of_def del: not_None_eq)
  then have "data_read pv q \<noteq> None" if "\<not> pg_sequential q" for q
    using that by (simp add: data_read_def with_data_def del: not_None_eq)
  then have "\<exists>r. data_read pv q = Some r \<and> pg_exits r \<noteq> []" if "\<not> pg_sequential q" for q
    using that file_data_ends by (fastforce simp: data_read_def)
  then have "ended (data_read pv q)" if "\<not> pg_sequential q" for q
    using that by (auto simp: ended_def)
  then show ?thesis
    using assms(3) by (simp add: start_data_def Let_def call_unwind_def ended_exit) (simp add: ended_def)
qed

lemma readFileHeader_ends:
  assumes "\<not> hasFeature BUILD_ID (pg_header p)" "\<And>t. set (pv_sections pv t) \<subseteq> set t"
  shows "\<exists>q. readFileHeader pv p = Some q \<and> pg_sequential q = pg_sequential p"
proof -
  have "\<exists>r. readFeatures (pv_sections pv) conv junk seek from (pg_header p) f = Some r" for conv junk seek "from" f
    using readFeatures_answers [of "pg_header p" "pv_sections pv"] assms by simp
  then have "\<exists>q. readFileHeader pv p = Some q" by (simp add: readFileHeader_def Let_def split_beta)
  moreover have "pg_sequential q = pg_sequential p" if "readFileHeader pv p = Some q" for q
    using that by (auto simp: readFileHeader_def Let_def split_beta header_unread_def send_header_def exit_with_def call_unwind_def
        split: if_splits)
  ultimately show ?thesis by blast
qed

lemma run_file_ended:
  assumes "\<not> pe_haveZstd (pv_perf pv)" "pv_depth pv = Suc depth" "\<And>t. set (pv_sections pv t) \<subseteq> set t"
    "\<not> hasFeature BUILD_ID (fst (snd (readHeader (pe_junk (pv_perf pv)) False (int (length content)) content newHeader)))"
  shows "ended (run_file pv fallback content)"
proof -
  let ?n = "newProgram pv False content fallback"
  obtain sig h rest where r: "readHeader (pe_junk (pv_perf pv)) False (int (length content)) content newHeader = (sig, h, rest)"
    by (metis prod.exhaust)
  define p where "p = call_unwind [UseByteOrder (byteOrder h)] (?n\<lparr>pg_header := h, pg_rest := rest\<rparr>)"
  have p: "\<not> pg_sequential p" "pg_header p = h" by (simp_all add: p_def call_unwind_def newProgram_def)
  obtain q where q: "readFileHeader pv p = Some q" "\<not> pg_sequential q"
    using readFileHeader_ends [of p pv] assms(3,4) p r by auto
  have "ended (header_finished pv (?n\<lparr>pg_header := h, pg_rest := rest\<rparr>))"
    using start_data_ends [OF assms(1,2)] p q by (simp add: header_finished_def p_def [symmetric] read_file_def Let_def
        newProgram_def [THEN arg_cong [where f = pg_header]])
  moreover have "sig \<noteq> HeaderWaiting" using readHeader_file [of "pe_junk (pv_perf pv)" content] r by simp
  ultimately show ?thesis
    using r by (cases sig) (auto simp: run_file_def header_read_def newProgram_def ended_exit)
qed


section \<open>The order of the calls\<close>

text \<open>
  Before the architecture is known there may be the byte order alone, or with the features and attributes of the file.
\<close>

definition set_up :: "request_call list \<Rightarrow> bool" where
  "set_up rs \<longleftrightarrow> (\<exists>order hs. rs = UseByteOrder order # hs
     \<and> (hs = [] \<or> (\<exists>f as. hs = SendFeatures f # map (\<lambda>a. Event (CallAttr a)) as)))"

definition reading_data :: "request_call list \<Rightarrow> bool" where
  "reading_data rs \<longleftrightarrow> (\<exists>us a cs. rs = us @ UseArchitecture a # map Event cs \<and> set_up us \<and> a \<noteq> ARCH_INVALID)"

definition in_turn :: "request_call list \<Rightarrow> bool" where
  "in_turn rs \<longleftrightarrow> rs = [] \<or> set_up rs \<or> (\<exists>us. rs = us @ [UseArchitecture ARCH_INVALID] \<and> set_up us) \<or> reading_data rs"

definition in_phase :: "'z program \<Rightarrow> bool" where
  "in_phase p \<longleftrightarrow> in_turn (pg_calls p) \<and> (pg_exits p = [] \<longrightarrow> (case pg_phase p of
       ReadingHeader \<Rightarrow> pg_calls p = [] | Buffering \<Rightarrow> \<exists>order. pg_calls p = [UseByteOrder order]
     | ReadingData \<Rightarrow> reading_data (pg_calls p) | Done \<Rightarrow> True))"

lemma exit_in_phase: "in_turn (pg_calls p) \<Longrightarrow> in_phase (exit_with e p)"
  by (simp add: in_phase_def exit_with_def)

lemma set_up_order: "set_up [UseByteOrder order]"
  by (simp add: set_up_def)

lemma reading_start: "set_up us \<Longrightarrow> a \<noteq> ARCH_INVALID \<Longrightarrow> reading_data (us @ [UseArchitecture a])"
  unfolding reading_data_def by (intro exI [of _ us] exI [of _ a] exI [of _ "[]"]) simp

lemma reading_more: "reading_data rs \<Longrightarrow> reading_data (rs @ map Event cs)"
proof -
  assume "reading_data rs"
  then obtain us a cs' where "rs = us @ UseArchitecture a # map Event cs'" "set_up us" "a \<noteq> ARCH_INVALID"
    by (auto simp: reading_data_def)
  then show ?thesis unfolding reading_data_def by (intro exI [of _ us] exI [of _ a] exI [of _ "cs' @ cs"]) simp
qed

lemma with_data_phase:
  assumes "with_data reads p = Some q" "reading_data (pg_calls p)" "pg_phase p = ReadingData"
  shows "in_phase q"
  using assms reading_more
  by (auto simp: with_data_def data_signalled_def call_unwind_def exit_with_def in_phase_def in_turn_def split: data_signal.split)

lemma start_data_phase:
  assumes "start_data pv p = Some q" "set_up (pg_calls p)"
  shows "in_phase q"
proof (cases "archByName (pf_arch (pg_features p)) = ARCH_INVALID")
  case True
  with assms show ?thesis
    by (auto simp: start_data_def Let_def call_unwind_def in_turn_def intro!: exit_in_phase)
next
  case False
  let ?p = "(call_unwind [UseArchitecture (archByName (pf_arch (pg_features p)))] p)\<lparr>pg_phase := ReadingData\<rparr>"
  have "reading_data (pg_calls ?p)" "pg_phase ?p = ReadingData"
    using assms(2) False reading_start by (simp_all add: call_unwind_def)
  moreover from this have "in_phase ?p" by (simp add: in_phase_def in_turn_def)
  ultimately show ?thesis
    using assms(1) False with_data_phase [of _ ?p q] by (auto simp: start_data_def Let_def data_read_def split: if_splits)
qed

lemma attrs_of_file: "\<exists>as. map (attr_of_file x) ks = map (\<lambda>a. Event (CallAttr a)) as"
proof (intro exI)
  show "map (attr_of_file x) ks = map (\<lambda>a. Event (CallAttr a)) (map (\<lambda>i. \<lparr>r_header = noEventHeader,
      r_sampleId = newSampleId 0 False, ar_attr = the (pa_attributes x i), ar_ids = [i]\<rparr>) ks)"
    by (simp add: attr_of_file_def)
qed

lemma readFileHeader_set_up:
  assumes "readFileHeader pv p = Some q" "pg_calls p = [UseByteOrder order]"
  shows "set_up (pg_calls q)"
proof -
  have "set_up (pg_calls (send_header pv r))" if "pg_calls r = [UseByteOrder order]" for r
    using that unfolding send_header_def Let_def split_beta
    by (auto simp: set_up_def call_unwind_def exit_with_def attrs_of_file)
  moreover have "set_up (pg_calls (header_unread pv r))" if "pg_calls r = [UseByteOrder order]" for r
    using that by (simp add: header_unread_def exit_with_def set_up_order)
  ultimately show ?thesis
    using assms by (auto simp: readFileHeader_def Let_def split: prod.splits if_splits)
qed

lemma read_file_phase:
  assumes "read_file pv p = Some q" "pg_calls p = [UseByteOrder order]"
  shows "in_phase q"
proof -
  obtain r where r: "readFileHeader pv p = Some r" "start_data pv r = Some q"
    using assms(1) unfolding read_file_def bind_eq_Some_conv by blast
  show ?thesis by (rule start_data_phase [OF r(2) readFileHeader_set_up [OF r(1) assms(2)]])
qed

lemma copy_in_phase:
  assumes "copy_to_temp pv bs goOn p = Some q" "pg_calls p = [UseByteOrder order]"
    "\<And>r. goOn r = Some q \<Longrightarrow> pg_calls r = [UseByteOrder order] \<Longrightarrow> in_phase q"
  shows "in_phase q"
  using assms by (auto simp: copy_to_temp_def bind_eq_Some_conv in_turn_def set_up_order split: if_splits intro!: exit_in_phase)

lemma buffering_phase:
  assumes "bufferSequentialData pv p = Some q" "pg_calls p = [UseByteOrder order]" "pg_phase p = Buffering"
  shows "in_phase q"
proof -
  have "pg_calls q = [UseByteOrder order] \<and> (pg_exits q = [] \<longrightarrow> pg_phase q = Buffering)"
    using assms by (auto simp: bufferSequentialData_def copy_to_temp_def bind_eq_Some_conv exit_with_def split: if_splits)
  then show ?thesis by (auto simp: in_phase_def in_turn_def set_up_order)
qed

lemma start_buffering_phase:
  assumes "start_buffering pv p = Some q" "pg_calls p = [UseByteOrder order]"
  shows "in_phase q"
proof (cases "pv_openTemp pv")
  case False
  with assms show ?thesis by (auto simp: start_buffering_def in_turn_def set_up_order intro!: exit_in_phase)
next
  case True
  show ?thesis
  proof (rule copy_in_phase [OF _ assms(2)])
    show "copy_to_temp pv (replicate (nat (sint (h_size (pg_header p)))) 0)
        (\<lambda>p. let p = p\<lparr>pg_phase := Buffering\<rparr> in if pg_rest p \<noteq> [] then bufferSequentialData pv p else Some p) p = Some q"
      using assms(1) True by (simp add: start_buffering_def)
  next
    fix r
    assume "(let p = r\<lparr>pg_phase := Buffering\<rparr> in if pg_rest p \<noteq> [] then bufferSequentialData pv p else Some p) = Some q"
      "pg_calls r = [UseByteOrder order]"
    then show "in_phase q"
      using buffering_phase [of pv "r\<lparr>pg_phase := Buffering\<rparr>" q order]
      by (auto simp: Let_def in_phase_def in_turn_def set_up_order split: if_splits)
  qed
qed

lemma header_read_phase:
  assumes "header_read pv p = Some q" "pg_calls p = []" "pg_phase p = ReadingHeader"
  shows "in_phase q"
proof -
  obtain sig h rest where r: "readHeader (pe_junk (pv_perf pv)) (pg_sequential p) (int (length (pg_file p))) (pg_rest p) (pg_header p)
      = (sig, h, rest)" by (metis prod.exhaust)
  let ?p = "p\<lparr>pg_header := h, pg_rest := rest\<rparr>"
  show ?thesis
  proof (cases sig)
    case HeaderFinished
    let ?q = "call_unwind [UseByteOrder (byteOrder h)] ?p"
    have "pg_calls ?q = [UseByteOrder (byteOrder h)]" using assms(2) by (simp add: call_unwind_def)
    with HeaderFinished assms(1) r show ?thesis
      using start_data_phase [of pv ?q q] start_buffering_phase [of pv ?q q] read_file_phase [of pv ?q q] set_up_order
      by (auto simp: header_read_def header_finished_def Let_def split: if_splits)
  next
    case HeaderError
    with assms r show ?thesis by (auto simp: header_read_def in_turn_def intro!: exit_in_phase)
  next
    case HeaderWaiting
    with assms r show ?thesis by (auto simp: header_read_def in_phase_def in_turn_def)
  qed
qed

lemma device_step_phase:
  assumes "device_step pv e p = Some q" "in_phase p" "pg_exits p = []"
  shows "in_phase q"
proof (cases "pg_phase p")
  case ReadingHeader
  with assms(2,3) have "pg_calls p = []" by (simp add: in_phase_def)
  with ReadingHeader assms(1) show ?thesis
    by (cases e) (auto simp: in_turn_def intro!: exit_in_phase header_read_phase [of pv "p\<lparr>pg_rest := x\<rparr>" for x])
next
  case Buffering
  with assms(2,3) obtain order where o: "pg_calls p = [UseByteOrder order]" by (auto simp: in_phase_def)
  show ?thesis
  proof (cases e)
    case (Arrived bs)
    with Buffering assms(1) o show ?thesis by (auto intro!: buffering_phase [of pv "p\<lparr>pg_rest := x\<rparr>" for x])
  next
    case Closing
    with Buffering assms(1) o show ?thesis
      by (auto simp: end_buffering_def Let_def in_turn_def set_up_order split: if_splits intro!: exit_in_phase read_file_phase)
  qed
next
  case ReadingData
  with assms(2,3) have "reading_data (pg_calls p)" by (simp add: in_phase_def)
  show ?thesis
  proof (cases e)
    case (Arrived bs)
    with ReadingData assms(1) have "data_read pv (p\<lparr>pg_rest := pg_rest p @ bs\<rparr>) = Some q" by (simp add: Let_def)
    with with_data_phase [of _ "p\<lparr>pg_rest := pg_rest p @ bs\<rparr>" q] ReadingData \<open>reading_data (pg_calls p)\<close>
    show ?thesis by (simp add: data_read_def)
  next
    case Closing
    with ReadingData assms(1) have "data_finish pv p = Some q" by simp
    with with_data_phase [of _ p q] ReadingData \<open>reading_data (pg_calls p)\<close>
    show ?thesis by (simp add: data_finish_def)
  qed
next
  case Done
  with assms show ?thesis by (cases e) (auto simp: in_phase_def)
qed

lemma event_loop_phase: "event_loop pv es p = Some q \<Longrightarrow> in_phase p \<Longrightarrow> in_phase q"
  by (induction es arbitrary: p) (auto simp: bind_eq_Some_conv split: if_splits intro: device_step_phase)

lemma newProgram_phase: "in_phase (newProgram pv sequential content fallback)"
  by (simp add: in_phase_def newProgram_def in_turn_def)


section \<open>Examples\<close>

text \<open>A program for files and streams whose copies take everything written to them.\<close>

definition example_program :: "unit program_env" where
  "example_program = \<lparr>pv_perf = example_env, pv_depth = 1, pv_sections = id, pv_attributes = (\<lambda>_. []),
     pv_canSeek = (\<lambda>n pos. 0 \<le> sint pos), pv_unsought = (\<lambda>_ _. []), pv_left = replicate 8 0,
     pv_cpus = \<lparr>nc_online = 0, nc_available = 0\<rparr>, pv_memory = 0, pv_openTemp = True, pv_resetTemp = True,
     pv_write = (\<lambda>_ bs. int (length bs))\<rparr>"

text \<open>The header of a recording on a pipe, in a file, and events behind it.\<close>

definition pipe_header :: bytes where
  "pipe_header = encode 8 BigEndian s_magicSwitched @ encode 8 LittleEndian (16 :: u64)"

lemma pipe_header_read:
  "sequential \<or> devSize = int (length (pipe_header @ bs)) \<Longrightarrow> readHeader junk sequential devSize (pipe_header @ bs) newHeader
    = (HeaderFinished, newHeader\<lparr>h_magic := s_magicSwitched, h_size := 16\<rparr>, bs)"
  using read_pipe_encoded [of sequential devSize junk LittleEndian 16 bs]
  by (auto simp: pipe_header_def readHeader_def magic_of_def pipeHeaderFixedLength_def open_stream_def)

lemma pipe_file_read:
  "\<not> hasFeature BUILD_ID (fst (snd (readHeader junk False (int (length (pipe_header @ bs))) (pipe_header @ bs) newHeader)))"
  by (simp only: pipe_header_read simp_thms fst_conv snd_conv) (simp add: hasFeature_def newHeader_def)


text \<open>
  A file that ends behind the header of a recording on a pipe: nothing is read, as there is nothing available, no
  exit is asked for, and a file signals nothing more. The program never ends.
\<close>

lemma empty_recording_waits:
  "\<exists>p. run_file example_program (ascii ''x86_64'') pipe_header = Some p \<and> pg_exits p = [] \<and> pg_phase p = ReadingData"
proof -
  have "archByName (ascii ''x86_64'') \<noteq> ARCH_INVALID" by code_simp
  then show ?thesis
    using pipe_header_read [where bs = "[]" and sequential = False]
    by (simp add: run_file_def header_read_def newProgram_def header_finished_def start_data_def isPipe_def pipeHeaderFixedLength_def
        call_unwind_def Let_def)
qed

text \<open>
  When the attributes or features of a file cannot be read an exit with an error is asked for, but the data are read all
  the same: when that finishes, an exit without an error is asked for, and that is what the program's status is.
\<close>

lemma empty_data_read:
  assumes "\<not> isPipe (pe_header env)" "sec_offset (h_data (pe_header env)) = 104" "sec_size (h_data (pe_header env)) = 0"
    "seek 104" "104 \<le> length device"
  shows "readRecording depth env False True seek d device = Some (DataFinished, send_progress env 104, d, drop 104 device)"
  using assms by (simp add: readRecording_def doRead_def Let_def dataOffset_def dataSize_def file_loop.simps position_def stream_at_def open_stream_def
      data_signal_of_def)

lemma length_file_header: "length (h_features h) = 4 \<Longrightarrow> length (encode_file_header order h) = 104"
  by (simp add: encode_file_header_def length_concat_encode)

lemma unread_header_ends_well:
  defines "h \<equiv> sample_header\<lparr>h_attrSize := 0, h_data := \<lparr>sec_offset = 104, sec_size = 0\<rparr>\<rparr>"
  shows "\<exists>p. run_file example_program (ascii ''x86_64'') (encode_file_header LittleEndian h @ replicate 8 0) = Some p
    \<and> pg_exits p = [ExitDataError, ExitNoError] \<and> exit_status p = Some ExitNoError"
proof -
  let ?content = "encode_file_header LittleEndian h @ replicate 8 0"
  have "wf_file_header LittleEndian (int (length ?content)) h"
    by (simp add: h_def wf_file_header_def sample_header_def newHeader_def fileHeaderFixedLength_def length_file_header
        pipeHeaderFixedLength_def section_fixedLength_def hasFeature_bit dataOffset_def dataSize_def)
  note r = readHeader_encoded [OF this, of "pe_junk (pv_perf example_program)" False "replicate 8 0"]
  define p where "p = call_unwind [UseByteOrder (byteOrder h)]
      ((newProgram example_program False ?content (ascii ''x86_64''))\<lparr>pg_header := h, pg_rest := replicate 8 0\<rparr>)"
  have "isPipe h = False" "sint (h_attrSize h) < uint SIZE_VER0 + int section_fixedLength"
    by (simp_all add: h_def sample_header_def isPipe_def pipeHeaderFixedLength_def SIZE_VER0_def section_fixedLength_def)
  note h = this
  have "pg_sequential p = False" "pg_header p = h" "pg_file p = ?content" "pg_exits p = []" "pf_arch (pg_features p) = ascii ''x86_64''"
    by (simp_all add: p_def newProgram_def call_unwind_def)
  note p = this
  have start: "run_file example_program (ascii ''x86_64'') ?content = read_file example_program p"
    using r h by (simp add: run_file_def header_read_def header_finished_def p_def newProgram_def call_unwind_def)
  have "archByName (ascii ''x86_64'') \<noteq> ARCH_INVALID" by code_simp
  moreover have "readRecording (pv_depth example_program) (perf_env_of example_program q) False True
        (pv_canSeek example_program (length (encode_file_header LittleEndian h) + 8)) d ?content
      = Some (DataFinished, send_progress (perf_env_of example_program q) 104, d, replicate 8 0)" if "pg_header q = h" for q d
    using that h(1) by (subst empty_data_read)
      (simp_all add: perf_env_of_def h_def sample_header_def example_program_def length_file_header newHeader_def)
  moreover have "pv_left example_program \<noteq> []" by (simp add: example_program_def)
  ultimately show ?thesis
    unfolding start using p h
    by (simp add: read_file_def readFileHeader_def readAttributes_def header_unread_def exit_with_def start_data_def call_unwind_def
       data_read_def with_data_def data_signalled_def Let_def exit_status_def del: split_paired_Ex)
qed


end
