(* ===== verification/CallsClient.thy ===== *)
theory CallsClient
  imports Calls AnalysisClient
begin

text \<open>
  A whole run of \<open>PerfUnwind\<close> with the client: every request of the program, with all that a flush makes of it, is
  accepted by a client, to the end of the destructor.
\<close>

section \<open>What the buffer and the numbering leave alone\<close>

text \<open>The buffer only has its own state.\<close>

definition only_buffer :: "'a event_buffer_scheme \<Rightarrow> 'a event_buffer_scheme \<Rightarrow> bool" where
  "only_buffer b b' \<longleftrightarrow> event_buffer.more b' = event_buffer.more b \<and> st_enabled (eb_stats b') = st_enabled (eb_stats b)"

lemma only_buffer_sizes:
  "only_buffer b (setMaxEventBufferSize n b')  \<longleftrightarrow> only_buffer b b'"
  "only_buffer b (setTargetEventBufferSize n b') \<longleftrightarrow> only_buffer b b'"
  by (simp_all add: only_buffer_def setTargetEventBufferSize_def setMaxEventBufferSize_def Let_def)

lemma flush_stats_enabled: "st_enabled (flush_stats f0 f st) = st_enabled st"
  by (simp add: flush_stats_def Let_def)

lemma flushEventBuffer_only: "only_buffer b (fst (flushEventBuffer n b))"
  by (simp add: flushEventBuffer_def Let_def only_buffer_sizes flush_stats_enabled)
    (simp add: only_buffer_def flush_stats_enabled)

lemma stats_enabled:
  "st_enabled (addEventTime t st) = st_enabled st" "st_enabled (stats_finishedRound st) = st_enabled st"
  by (simp_all add: addEventTime_def stats_finishedRound_def Let_def)

lemma only_buffer_trans: "only_buffer a b \<Longrightarrow> only_buffer b c \<Longrightarrow> only_buffer a c"
  by (simp add: only_buffer_def)

lemma bufferEvent_only:
  assumes "\<And>st. st_enabled (increment st) = st_enabled st"
  shows "only_buffer b (fst (bufferEvent n time increment b))"
proof -
  have "only_buffer b c \<Longrightarrow> only_buffer b (fst (flushEventBuffer m c))" for c m
    using flushEventBuffer_only only_buffer_trans by blast
  then show ?thesis using assms by (simp add: bufferEvent_def Let_def) (simp add: only_buffer_def stats_enabled)
qed

lemma buffer_only:
  "only_buffer b (fst (bufferMmap m b))" "only_buffer b (fst (bufferSample r b))" "only_buffer b (fst (bufferTask e b))"
  "only_buffer b (fst (finishedRound t b))"
proof -
  have e: "only_buffer b c" if "only_buffer (b\<lparr>eb_mmaps := ms, eb_samples := rs, eb_tasks := es\<rparr>) c" for c ms rs es
    using that by (simp add: only_buffer_def)
  show "only_buffer b (fst (bufferMmap m b))" "only_buffer b (fst (bufferSample r b))" "only_buffer b (fst (bufferTask e b))"
    unfolding bufferMmap_def bufferSample_def bufferTask_def
    by (rule only_buffer_trans [OF _ bufferEvent_only]; simp add: only_buffer_def)+
  have "only_buffer b c \<Longrightarrow> only_buffer b (fst (flushEventBuffer m c))" for c m
    using flushEventBuffer_only only_buffer_trans by blast
  then show "only_buffer b (fst (finishedRound t b))"
    by (simp add: finishedRound_def Let_def only_buffer_sizes) (simp add: only_buffer_def stats_enabled)
qed

lemma only_buffer_fields:
  assumes "only_buffer u u'"
  shows "uw_strings u' = uw_strings u" "uw_locations u' = uw_locations u" "uw_symbols u' = uw_symbols u"
    "uw_attributes u' = uw_attributes u" "uw_attributeIds u' = uw_attributeIds u" "uw_tracing u' = uw_tracing u"
    "uw_output u' = uw_output u" "unwind.more u' = unwind.more u"
    "st_enabled (eb_stats u') = st_enabled (eb_stats u)"
  using assms by (cases u; cases u'; simp add: only_buffer_def)+

text \<open>The order of the tables and the frames does not depend on the rest.\<close>

definition same_private :: "('w, 'm) analysis \<Rightarrow> ('w, 'm) analysis \<Rightarrow> bool" where
  "same_private s s' \<longleftrightarrow> uw_locations s' = uw_locations s \<and> su_addressCache s' = su_addressCache s
     \<and> an_tables s' = an_tables s \<and> an_frames s' = an_frames s \<and> an_firstGuessedFrame s' = an_firstGuessedFrame s
     \<and> an_isInterworking s' = an_isInterworking s"

lemma same_private_refl: "same_private s s"
  by (simp add: same_private_def)

lemma same_private_trans: "same_private a b \<Longrightarrow> same_private b c \<Longrightarrow> same_private a c"
  by (simp add: same_private_def)

lemma only_buffer_private: "only_buffer s s' \<Longrightarrow> same_private s s'"
  by (cases s; cases s') (simp add: only_buffer_def same_private_def)

lemma in_order_private:
  assumes "same_private s s'" "in_order k s"
  shows "in_order k s'"
proof -
  have l: "uw_locations s' = uw_locations s" using assms(1) by (simp add: same_private_def)
  show ?thesis using assms
    by (simp add: same_private_def in_order_def cache_ok_def tables_ok_def table_ok_def guess_ok_def
        locations_known_cong [OF l])
qed

section \<open>Requests\<close>

text \<open>The tables of numbers only grow.\<close>

definition grown :: "'a unwind_scheme \<Rightarrow> 'a unwind_scheme \<Rightarrow> bool" where
  "grown u v \<longleftrightarrow> (\<exists>ss. uw_strings v = ss @ uw_strings u) \<and> (\<exists>ls. uw_locations v = ls @ uw_locations u)"

lemma grown_refl: "grown u u"
  by (simp add: grown_def)

lemma grown_trans: "grown u v \<Longrightarrow> grown v w \<Longrightarrow> grown u w"
  by (auto simp: grown_def)

lemma extends_grown: "extends u v \<Longrightarrow> grown u v"
  by (simp add: extends_def grown_def)

lemma fits_grown: "grown u v \<Longrightarrow> fits v \<Longrightarrow> fits u"
  by (auto simp: grown_def fits_def)

definition numbers :: "('w, 'm) analysis \<Rightarrow> ('w, 'm) analysis \<Rightarrow> bool" where
  "numbers s s' \<longleftrightarrow> same_private s s' \<and> grown s s'"

lemma numbers_refl: "numbers s s"
  by (simp add: numbers_def same_private_refl grown_refl)

lemma numbers_trans: "numbers a b \<Longrightarrow> numbers b c \<Longrightarrow> numbers a c"
  by (auto simp: numbers_def intro: same_private_trans grown_trans)

lemma numbers_fold: "(\<And>x s. numbers s (f x s)) \<Longrightarrow> numbers s (fold f xs s)"
  by (induction xs arbitrary: s) (auto intro: numbers_refl numbers_trans)

lemma buffer_numbers: "only_buffer s s' \<Longrightarrow> numbers s s'"
  using only_buffer_fields [of s s'] only_buffer_private [of s s'] by (simp add: numbers_def grown_def)

lemma numbers_update:
  "numbers s (s\<lparr>uw_tracing := td\<rparr>)" "numbers s (s\<lparr>uw_output := out\<rparr>)" "numbers s (s\<lparr>uw_attributes := a\<rparr>)"
  "numbers s (s\<lparr>uw_attributeIds := m\<rparr>)" "numbers s (s\<lparr>uw_buildIds := m'\<rparr>)"
  "numbers s (s\<lparr>su_architecture := arc\<rparr>)" "numbers s (s\<lparr>an_byteOrder := order\<rparr>)"
  by (simp_all add: numbers_def same_private_def grown_def)

lemma sendBuffer_numbers: "numbers s (sendBuffer m s)"
  by (simp add: sendBuffer_def numbers_refl numbers_update)

lemma resolveString_numbers: "numbers s (snd (resolveString b s))"
proof -
  have "numbers s (s\<lparr>uw_strings := x # uw_strings s\<rparr>)" for x
    by (simp add: numbers_def same_private_def grown_def)
  then show ?thesis
    by (auto simp: resolveString_def sendString_def Let_def numbers_refl split: option.split
        intro: numbers_trans [OF _ sendBuffer_numbers])
qed

lemma sizes_numbers: "numbers s (setTargetEventBufferSize n s)" "numbers s (revertTargetEventBufferSize s)"
  unfolding revertTargetEventBufferSize_def
  by (rule buffer_numbers, simp add: only_buffer_sizes, simp add: only_buffer_def)+

lemma addAttributes_numbers: "numbers s (unwind_addAttributes a name ids s)"
proof -
  have "numbers s (sendAttributes i a name s)" for i s
    using resolveString_numbers [of s name]
    by (auto simp: sendAttributes_def split: prod.split intro: numbers_trans sendBuffer_numbers)
  note steps = numbers_trans [OF numbers_update(3) this]
  show ?thesis
    by (auto simp: unwind_addAttributes_def Let_def intro!: numbers_refl sizes_numbers
        numbers_trans [OF steps numbers_update(4)] numbers_trans [OF sizes_numbers(2)])
qed

lemma sendEventFormat_numbers: "numbers s (sendEventFormat i f s)"
proof -
  have fields: "numbers s (resolve_fields fs s)" for fs s
    unfolding resolve_fields_def by (rule numbers_fold) (rule resolveString_numbers)
  obtain n u where n: "resolveString (ef_system f) s = (n, u)" by fastforce
  obtain n' v where n': "resolveString (ef_name f) u = (n', v)" by fastforce
  have "numbers s u" "numbers u v"
    using resolveString_numbers [of s "ef_system f"] resolveString_numbers [of u "ef_name f"] n n' by simp_all
  then show ?thesis
    by (simp add: sendEventFormat_def n n')
      (blast intro: numbers_trans fields sendBuffer_numbers)
qed

lemma tracing_numbers: "numbers s (unwind_tracing keys td s)"
  unfolding unwind_tracing_def
  by (rule numbers_trans [OF numbers_update(1) numbers_fold]) (rule sendEventFormat_numbers)

lemma features_numbers: "numbers s (unwind_features keys since f s)"
proof -
  have a: "numbers s (fold (\<lambda>d. unwind_addAttributes (ed_attrs d) (ed_name d) (ed_ids d)) ds s)" for ds s
    by (rule numbers_fold) (rule addAttributes_numbers)
  define u where "u = fold (\<lambda>d. unwind_addAttributes (ed_attrs d) (ed_name d) (ed_ids d)) (pf_eventDescs f)
    (unwind_tracing keys (pf_tracing f) s)"
  define v where "v = (if since (pf_version f) \<and> eb_violations u = 0 \<and> \<not> hasTracePointAttributes u
    then setTargetEventBufferSize 0 u else u)"
  have "numbers s u" unfolding u_def by (rule numbers_trans [OF tracing_numbers a])
  moreover have "numbers u v" by (simp add: v_def sizes_numbers numbers_refl)
  ultimately have "numbers s v" by (rule numbers_trans)
  then have "numbers s (sendBuffer (features_message f) v)" by (rule numbers_trans [OF _ sendBuffer_numbers])
  then show ?thesis
    unfolding unwind_features_def Let_def u_def [symmetric] v_def [symmetric]
    by (rule numbers_trans [OF _ numbers_update(5)])
qed

section \<open>One request\<close>

text \<open>The formats and attributes of a request, as the definitions they send.\<close>

definition tracing_requests :: "((s32 \<rightharpoonup> event_format) \<Rightarrow> s32 list) \<Rightarrow> tracing_data \<Rightarrow> request list" where
  "tracing_requests keys td = map (\<lambda>i. ReqFormat i (eventFormat i td)) (keys (td_eventFormats td))"

definition feature_requests :: "((s32 \<rightharpoonup> event_format) \<Rightarrow> s32 list) \<Rightarrow> perf_features \<Rightarrow> request list" where
  "feature_requests keys f = tracing_requests keys (pf_tracing f)
     @ map (\<lambda>d. ReqAttributes (ed_attrs d) (ed_name d) (ed_ids d)) (pf_eventDescs f)"

definition attr_request :: "attr_record \<Rightarrow> request" where
  "attr_request r = ReqAttributes (ar_attr r) (ascii (attributes_name (ar_attr r))) (ar_ids r)"

lemma fold_formats:
  "fold (exec wr) (tracing_requests keys td) u = fold (\<lambda>i. sendEventFormat i (eventFormat i td)) (keys (td_eventFormats td)) u"
  by (simp add: tracing_requests_def fold_map comp_def exec.simps [abs_def])

lemma fold_attributes:
  "fold (exec wr) (map (\<lambda>d. ReqAttributes (ed_attrs d) (ed_name d) (ed_ids d)) ds) u
    = fold (\<lambda>d. unwind_addAttributes (ed_attrs d) (ed_name d) (ed_ids d)) ds u"
  by (simp add: fold_map comp_def exec.simps [abs_def])

text \<open>
  What a request needs before what a flush makes of it: attributes and formats are sent once and fit, and a progress
  is later than the one before. \<open>old\<close>: the formats sent before; \<open>latest\<close>: the progress sent before.
\<close>

fun request_ok ::
  "trace_value reader \<Rightarrow> (u64 option \<Rightarrow> u64 \<Rightarrow> bool) \<Rightarrow> unwind_env \<Rightarrow> s32 set \<Rightarrow> u64 option \<Rightarrow> request_call
    \<Rightarrow> ('w, 'm) analysis \<Rightarrow> bool"
where
  "request_ok rd later ue old latest (SendFeatures f) s \<longleftrightarrow> length (features_message f) < 2 ^ 31
     \<and> allowed_run rd (ue_put ue) old (feature_requests (ue_keys ue) f) (s\<lparr>uw_tracing := pf_tracing f\<rparr>)"
| "request_ok rd later ue old latest (Event (CallTracing td)) s \<longleftrightarrow>
     allowed_run rd (ue_put ue) old (tracing_requests (ue_keys ue) td) (s\<lparr>uw_tracing := td\<rparr>)"
| "request_ok rd later ue old latest (Event (CallAttr r)) s \<longleftrightarrow> allowed rd (ue_put ue) old (attr_request r) s"
| "request_ok rd later ue old latest (Event (CallComm r)) s \<longleftrightarrow> length (cm_comm r) < 2 ^ 31 - 9
     \<and> length (uw_strings s) < 2 ^ 31 - 1"
| "request_ok rd later ue old latest (Event (CallProgress percent)) s \<longleftrightarrow> later latest percent"
| "request_ok rd later ue old latest _ s \<longleftrightarrow> True"

fun request_progress :: "request_call \<Rightarrow> u64 option \<Rightarrow> u64 option" where
  "request_progress (Event (CallProgress percent)) latest = Some percent"
| "request_progress _ latest = latest"

fun request_formats :: "((s32 \<rightharpoonup> event_format) \<Rightarrow> s32 list) \<Rightarrow> request_call \<Rightarrow> s32 set" where
  "request_formats keys (SendFeatures f) = set (keys (td_eventFormats (pf_tracing f)))"
| "request_formats keys (Event (CallTracing td)) = set (keys (td_eventFormats td))"
| "request_formats keys _ = {}"

lemma formats_of_requests:
  "\<Union> (set (map formats_sent (tracing_requests keys td))) = set (keys (td_eventFormats td))"
  "\<Union> (set (map formats_sent (feature_requests keys f))) = set (keys (td_eventFormats (pf_tracing f)))"
  by (auto simp: tracing_requests_def feature_requests_def formats_sent_def)

lemma samples_of_requests:
  "concat (map samples_sent (tracing_requests keys td)) = []" "concat (map samples_sent (feature_requests keys f)) = []"
  by (auto simp: tracing_requests_def feature_requests_def samples_sent_def)

lemma in_step_seen:
  assumes "in_step rd later version u c" "uw_strings u' = uw_strings u" "uw_locations u' = uw_locations u"
    "uw_symbols u' = uw_symbols u" "uw_attributes u' = uw_attributes u" "uw_output u' = uw_output u"
    "st_enabled (eb_stats u') = st_enabled (eb_stats u)"
  shows "in_step rd later version u' c"
  using assms by (simp add: in_step_def synced_def)

lemma buffer_in_step: "in_step rd later version u c \<Longrightarrow> only_buffer u u' \<Longrightarrow> in_step rd later version u' c"
  by (rule in_step_seen) (simp_all add: only_buffer_fields)

lemma client_progress:
  "later (cl_progress c) percent \<Longrightarrow>
    client_message rd later (progress_message percent) c = Some (c\<lparr>cl_progress := Some percent\<rparr>)"
  by (simp add: progress_message_def client_message_put client_event_def on_progress_def verify_def client_simps)

lemma tracing_step:
  assumes "in_step rd later version s c"
    "allowed_run rd (ue_put ue) (dom (cl_formats c)) (tracing_requests (ue_keys ue) td) (s\<lparr>uw_tracing := td\<rparr>)"
  shows "\<exists>c'. in_step rd later version (unwind_tracing (ue_keys ue) td s) c'
    \<and> dom (cl_formats c') = set (ue_keys ue (td_eventFormats td)) \<union> dom (cl_formats c)
    \<and> cl_samples c' = cl_samples c \<and> cl_progress c' = cl_progress c"
proof -
  have "in_step rd later version (s\<lparr>uw_tracing := td\<rparr>) c" by (rule in_step_seen [OF assms(1)]) simp_all
  from exec_run [OF this refl assms(2)] show ?thesis
    by (simp only: formats_of_requests samples_of_requests fold_formats unwind_tracing_def append_Nil2)
qed

lemma features_step:
  assumes "in_step rd later version s c" "request_ok rd later ue (dom (cl_formats c)) latest (SendFeatures f) s"
  shows "\<exists>c'. in_step rd later version (unwind_features (ue_keys ue) since f s) c'
    \<and> dom (cl_formats c') = set (ue_keys ue (td_eventFormats (pf_tracing f))) \<union> dom (cl_formats c)
    \<and> cl_samples c' = cl_samples c \<and> cl_progress c' = cl_progress c"
proof -
  let ?s = "s\<lparr>uw_tracing := pf_tracing f\<rparr>"
  define u where "u = fold (exec (ue_put ue)) (feature_requests (ue_keys ue) f) ?s"
  define v where "v = (if since (pf_version f) \<and> eb_violations u = 0 \<and> \<not> hasTracePointAttributes u
    then setTargetEventBufferSize 0 u else u)"
  have "in_step rd later version ?s c" by (rule in_step_seen [OF assms(1)]) simp_all
  from exec_run [OF this refl, of "ue_put ue" "feature_requests (ue_keys ue) f"] assms(2) obtain c' where c':
    "in_step rd later version u c'"
    "dom (cl_formats c') = set (ue_keys ue (td_eventFormats (pf_tracing f))) \<union> dom (cl_formats c)"
    "cl_samples c' = cl_samples c" "cl_progress c' = cl_progress c"
    by (auto simp: formats_of_requests samples_of_requests u_def simp del: set_map)
  have "only_buffer u v" by (simp add: v_def only_buffer_sizes) (simp add: only_buffer_def)
  with c'(1) have v: "in_step rd later version v c'" by (rule buffer_in_step)
  have "allowed rd (ue_put ue) (dom (cl_formats c')) (ReqFeatures f) v" using assms(2) by simp
  from exec_step [OF v refl this] obtain c'' where c'': "in_step rd later version (sendBuffer (features_message f) v) c''"
    "dom (cl_formats c'') = dom (cl_formats c')" "cl_samples c'' = cl_samples c'" "cl_progress c'' = cl_progress c'"
    by (auto simp: formats_sent_def samples_sent_def)
  have "unwind_features (ue_keys ue) since f s = (sendBuffer (features_message f) v)
      \<lparr>uw_buildIds := fold (\<lambda>b m. m(bi_fileName b \<mapsto> bi_id b)) (pf_buildIds f) (uw_buildIds (sendBuffer (features_message f) v))\<rparr>"
    by (simp add: unwind_features_def unwind_tracing_def feature_requests_def fold_formats fold_attributes Let_def u_def v_def)
  then have "in_step rd later version (unwind_features (ue_keys ue) since f s) c''"
    using c''(1) by (auto intro: in_step_seen)
  with c' c''(2-4) show ?thesis by auto
qed

text \<open>What a request does itself, before what a flush triggers.\<close>

definition requested ::
  "trace_value reader \<Rightarrow> (u64 option \<Rightarrow> u64 \<Rightarrow> bool) \<Rightarrow> u32 \<Rightarrow> unwind_env \<Rightarrow> request_call \<Rightarrow> client
    \<Rightarrow> ('w, 'm) analysis \<Rightarrow> bool"
where
  "requested rd later version ue r c s \<longleftrightarrow> (\<exists>c'. in_step rd later version s c'
     \<and> dom (cl_formats c') = request_formats (ue_keys ue) r \<union> dom (cl_formats c) \<and> cl_samples c' = cl_samples c
     \<and> cl_progress c' = request_progress r (cl_progress c))"

lemma buffer_call:
  assumes "in_step rd later version s c" "only_buffer s s'" "request_formats (ue_keys ue) r = {}"
    "request_progress r (cl_progress c) = cl_progress c"
  shows "requested rd later version ue r c s'"
  using buffer_in_step [OF assms(1,2)] assms(3,4) by (auto simp: requested_def)

lemma comm_call:
  assumes "in_step rd later version s c" "length (cm_comm r) < 2 ^ 31 - 9" "length (uw_strings s) < 2 ^ 31 - 1"
    "call_step keys (CallComm r) s = (s', as)"
  shows "requested rd later version ue (Event (CallComm r)) c s'"
proof -
  obtain i u where r: "resolveString (cm_comm r) s = (i, u)" by fastforce
  from resolveString_step [OF assms(1-3) r] obtain c' where c': "in_step rd later version u c'" "more_strings c c'" by blast
  have s': "s' = fst (bufferTask ((task_of r Command (IntPayload i))\<lparr>te_pid := cm_pid r, te_tid := cm_tid r\<rparr>) u)"
    using arg_cong [OF assms(4), of fst] by (simp add: r)
  have "in_step rd later version s' c'" unfolding s' by (rule buffer_in_step [OF c'(1) buffer_only(3)])
  then show ?thesis using c'(2) by (auto simp: requested_def more_strings_def)
qed

lemma attr_call:
  assumes "in_step rd later version s c" "allowed rd (ue_put ue) (dom (cl_formats c)) (attr_request r) s"
  shows "requested rd later version ue (Event (CallAttr r)) c (attr_event r s)"
  using exec_step [OF assms(1) refl assms(2)]
  by (simp add: requested_def attr_request_def attr_event_def formats_sent_def samples_sent_def)

lemma progress_call:
  assumes "in_step rd later version s c" "later (cl_progress c) percent"
  shows "requested rd later version ue (Event (CallProgress percent)) c (sendProgress percent s)"
proof -
  let ?c = "c\<lparr>cl_progress := Some percent\<rparr>"
  have "synced s ?c" using assms(1) by (simp add: in_step_def synced_def checkString_def)
  then have "in_step rd later version (sendProgress percent s) ?c"
    unfolding sendProgress_def using client_progress [of later c percent] assms(2)
    by (intro send_only_step [OF assms(1)]) (simp_all add: progress_message_def)
  then show ?thesis
    unfolding requested_def by (intro exI [of _ ?c]) simp
qed

lemma request_step_seen:
  assumes "in_step rd later version s c" "request_ok rd later ue (dom (cl_formats c)) (cl_progress c) r s"
    "request_step ue r s = (s', as)"
  shows "requested rd later version ue r c s'"
proof (cases r)
  case (Event e)
  note s' = arg_cong [OF assms(3), of fst, simplified]
  show ?thesis
  proof (cases e)
    case (CallComm x)
    then show ?thesis using comm_call [OF assms(1) _ _ assms(3) [unfolded Event CallComm request_step.simps]] assms(2) Event
      by simp
  next
    case (CallAttr x)
    then show ?thesis using attr_call [OF assms(1)] assms(2) s' Event by auto
  next
    case (CallTracing x)
    then show ?thesis using tracing_step [OF assms(1)] assms(2) s' Event by (auto simp: requested_def)
  next
    case (CallProgress x)
    then show ?thesis using progress_call [OF assms(1)] assms(2) s' Event by auto
  qed (simp add: s' [symmetric] Event, rule buffer_call [OF assms(1)], rule buffer_only, simp, simp)+
next
  case (SendFeatures f)
  then show ?thesis using features_step [OF assms(1)] assms(2,3) by (auto simp: requested_def)
next
  case (UseArchitecture a)
  then show ?thesis using assms(1,3)
    by (auto simp: requested_def setArchitecture_def intro!: exI [of _ c] in_step_seen [OF assms(1)])
next
  case (UseByteOrder order)
  then show ?thesis using assms(1,3)
    by (auto simp: requested_def unwind_setByteOrder_def intro!: exI [of _ c] in_step_seen [OF assms(1)])
qed

lemma request_numbers:
  assumes "request_step ue r s = (s', as)"
  shows "numbers s s'"
proof (cases r)
  case (Event e)
  note s' = arg_cong [OF assms, of fst, simplified]
  show ?thesis
  proof (cases e)
    case (CallComm x)
    obtain i u where r: "resolveString (cm_comm x) s = (i, u)" by fastforce
    have "numbers s u" using resolveString_numbers [of s "cm_comm x"] r by simp
    moreover have "numbers u s'"
      using buffer_numbers [OF buffer_only(3)] CallComm Event s' [symmetric] by (simp add: r)
    ultimately show ?thesis by (rule numbers_trans)
  qed (simp add: s' [symmetric] Event attr_event_def sendProgress_def, rule buffer_numbers buffer_only
      addAttributes_numbers tracing_numbers sendBuffer_numbers, (rule buffer_only)?)+
qed (use assms features_numbers numbers_update in \<open>auto simp: setArchitecture_def unwind_setByteOrder_def\<close>)

section \<open>Runs\<close>

text \<open>What a list of requests needs, each where it is made.\<close>

primrec requests_ok ::
  "trace_value reader \<Rightarrow> (u64 option \<Rightarrow> u64 \<Rightarrow> bool) \<Rightarrow> ('w, 'm, 'd) unwind_lib \<Rightarrow> unwind_env \<Rightarrow> s32 set \<Rightarrow> u64 option
    \<Rightarrow> request_call list \<Rightarrow> ('w, 'm) analysis \<Rightarrow> bool"
where
  "requests_ok rd later ul ue old latest [] s \<longleftrightarrow> True"
| "requests_ok rd later ul ue old latest (r # rs) s \<longleftrightarrow> request_ok rd later ue old latest r s
     \<and> (let (s1, as) = request_step ue r s in acts_ok rd (ue_put ue) ul (ue_violation ue) as s1
         \<and> (case act_all ul (ue_put ue) (ue_violation ue) as s1 of None \<Rightarrow> True
             | Some s2 \<Rightarrow> requests_ok rd later ul ue (request_formats (ue_keys ue) r \<union> old) (request_progress r latest) rs s2))"

lemma act_all_in_order:
  assumes "act_all ul wr tr as s = Some s'" "in_order 0 s" "lib_ok (ul_lib ul) rank" "acts_ok rd wr ul tr as s"
  shows "in_order 0 s'"
  using assms(1,2,4)
proof (induction as arbitrary: s)
  case (Cons a as)
  then obtain s1 where a: "act ul wr tr a s = Some s1" "act_all ul wr tr as s1 = Some s'"
    by (auto simp: bind_eq_Some_conv)
  with Cons.prems(3) act_extends [OF a(1) Cons.prems(2) assms(3)] Cons.IH [OF a(2)] show ?case by auto
qed simp

text \<open>A step and what it triggers, for the requests and the flush at the end.\<close>

lemma triggered_step:
  assumes "handle_step ul wr tr step s = Some (as, s')" "step s = (s1, as1)" "numbers s s1" "in_order 0 s"
    "lib_ok (ul_lib ul) rank" "acts_ok rd wr ul tr as1 s1"
  shows "as = as1 \<and> act_all ul wr tr as s1 = Some s' \<and> in_order 0 s1 \<and> in_order 0 s' \<and> grown s s' \<and> grown s1 s'"
proof -
  have as: "as = as1" "act_all ul wr tr as s1 = Some s'" using assms(1,2) by (auto simp: handle_step_def)
  have s1: "in_order 0 s1" "grown s s1" using in_order_private assms(3,4) by (auto simp: numbers_def)
  have ok: "acts_ok rd wr ul tr as s1" using assms(6) as by simp
  note s' = act_all_in_order [OF as(2) s1(1) assms(5) ok] extends_grown [OF act_all_extends [OF as(2) s1(1) assms(5) ok]]
  with as s1 show ?thesis by (auto intro: grown_trans)
qed

definition accepted ::
  "trace_value reader \<Rightarrow> (u64 option \<Rightarrow> u64 \<Rightarrow> bool) \<Rightarrow> u32 \<Rightarrow> action list \<Rightarrow> client \<Rightarrow> client \<Rightarrow> ('w, 'm) analysis \<Rightarrow> bool"
where
  "accepted rd later version as c c' s \<longleftrightarrow> in_step rd later version s c' \<and> (\<exists>ms. cl_samples c' = cl_samples c @ ms
     \<and> map message_key ms = map sample_key (samples_in as) \<and> list_all (\<lambda>m. sm_frames m \<noteq> []) ms)"

lemma accepted_trans:
  assumes "accepted rd later version as c c1 s" "accepted rd later version bs c1 c2 s'"
  shows "accepted rd later version (as @ bs) c c2 s'"
proof -
  obtain ms where "cl_samples c1 = cl_samples c @ ms" "map message_key ms = map sample_key (samples_in as)"
    "list_all (\<lambda>m. sm_frames m \<noteq> []) ms" using assms(1) by (auto simp: accepted_def)
  moreover obtain ms' where "cl_samples c2 = cl_samples c1 @ ms'" "map message_key ms' = map sample_key (samples_in bs)"
    "list_all (\<lambda>m. sm_frames m \<noteq> []) ms'" using assms(2) by (auto simp: accepted_def)
  ultimately show ?thesis using assms(2)
    by (auto simp: accepted_def samples_in_def intro!: exI [of _ "ms @ ms'"])
qed

lemma triggered_accepted:
  assumes "act_all ul wr tr as s1 = Some s'" "in_step rd later version s1 c1" "cl_samples c1 = cl_samples c" "in_order 0 s1"
    "lib_ok (ul_lib ul) rank" "acts_ok rd wr ul tr as s1" "fits s'"
  shows "\<exists>c'. accepted rd later version as c c' s' \<and> dom (cl_formats c') = dom (cl_formats c1)
    \<and> cl_progress c' = cl_progress c1"
  using act_all_step [OF assms(1,2,4-7)] assms(3) by (auto simp: accepted_def)

lemma handle_step_ok:
  assumes "handle ul ue r s = Some (as, s')" "in_order 0 s" "lib_ok (ul_lib ul) rank"
    "requests_ok rd later ul ue old latest (r # rs) s"
  obtains s1 where "request_step ue r s = (s1, as)" "act_all ul (ue_put ue) (ue_violation ue) as s1 = Some s'"
    "in_order 0 s1" "in_order 0 s'" "grown s s'" "acts_ok rd (ue_put ue) ul (ue_violation ue) as s1"
    "request_ok rd later ue old latest r s"
    "requests_ok rd later ul ue (request_formats (ue_keys ue) r \<union> old) (request_progress r latest) rs s'"
proof -
  obtain s1 as1 where st: "request_step ue r s = (s1, as1)" by fastforce
  have ok: "acts_ok rd (ue_put ue) ul (ue_violation ue) as1 s1" using assms(4) st by simp
  from triggered_step [OF assms(1) [unfolded handle_def] st request_numbers [OF st] assms(2,3) ok] assms(4) st ok
  show ?thesis by (intro that [of s1]) auto
qed

lemma handle_all_grown:
  assumes "handle_all ul ue rs s = Some (as, s')" "in_order 0 s" "lib_ok (ul_lib ul) rank"
    "requests_ok rd later ul ue old latest rs s"
  shows "in_order 0 s' \<and> grown s s'"
  using assms(1,2,4)
proof (induction rs arbitrary: s as old latest)
  case (Cons r rs)
  obtain as1 s1 bs where h: "handle ul ue r s = Some (as1, s1)" and rest: "handle_all ul ue rs s1 = Some (bs, s')"
    using Cons.prems(1) by (auto simp: bind_eq_Some_conv)
  from handle_step_ok [OF h Cons.prems(2) assms(3) Cons.prems(3)] Cons.IH [OF rest] show ?case
    by (metis grown_trans)
qed (simp add: grown_refl)

lemma handle_all_accepted:
  assumes "handle_all ul ue rs s = Some (as, s')" "in_step rd later version s c" "in_order 0 s" "lib_ok (ul_lib ul) rank"
    "requests_ok rd later ul ue (dom (cl_formats c)) (cl_progress c) rs s" "fits s'"
  shows "\<exists>c'. accepted rd later version as c c' s'"
  using assms(1-3,5)
proof (induction rs arbitrary: s c as)
  case Nil
  then show ?case by (auto simp: accepted_def samples_in_def)
next
  case (Cons r rs)
  obtain as1 s1 bs where h: "handle ul ue r s = Some (as1, s1)" and rest: "handle_all ul ue rs s1 = Some (bs, s')"
    and as: "as = as1 @ bs" using Cons.prems(1) by (auto simp: bind_eq_Some_conv)
  from handle_step_ok [OF h Cons.prems(3) assms(4) Cons.prems(4)] obtain s0 where s0: "request_step ue r s = (s0, as1)"
    "act_all ul (ue_put ue) (ue_violation ue) as1 s0 = Some s1" "in_order 0 s0" "in_order 0 s1"
    "acts_ok rd (ue_put ue) ul (ue_violation ue) as1 s0" "request_ok rd later ue (dom (cl_formats c)) (cl_progress c) r s"
    "requests_ok rd later ul ue (request_formats (ue_keys ue) r \<union> dom (cl_formats c)) (request_progress r (cl_progress c)) rs s1"
    by metis
  have "fits s1" using handle_all_grown [OF rest s0(4) assms(4) s0(7)] assms(6) fits_grown by blast
  moreover obtain c0 where c0: "in_step rd later version s0 c0" "cl_samples c0 = cl_samples c"
    "dom (cl_formats c0) = request_formats (ue_keys ue) r \<union> dom (cl_formats c)"
    "cl_progress c0 = request_progress r (cl_progress c)"
    using request_step_seen [OF Cons.prems(2) s0(6,1)] by (auto simp: requested_def)
  ultimately obtain c1 where c1: "accepted rd later version as1 c c1 s1" "dom (cl_formats c1) = dom (cl_formats c0)"
    "cl_progress c1 = cl_progress c0"
    using triggered_accepted [OF s0(2) c0(1,2) s0(3) assms(4) s0(5)] by blast
  have "in_step rd later version s1 c1" using c1(1) by (simp add: accepted_def)
  from Cons.IH [OF rest this s0(4)] s0(7) c1(2,3) c0(3,4) obtain c' where "accepted rd later version bs c1 c' s'" by auto
  with c1(1) show ?case unfolding as by (blast intro: accepted_trans)
qed

end
