(* ===== verification/Delivery.thy ===== *)
theory Delivery
  imports CallsClient EventBufferFacts
begin

text \<open>
  A whole recording on \<open>PerfUnwind\<close>, from the first request to the end of the destructor: its event buffer is the one
  of \<open>EventBuffer\<close>, a client accepts the output, and it gets every sample of the recording once.
\<close>

section \<open>The buffer within \<open>PerfUnwind\<close>\<close>

abbreviation buffer_of :: "'a event_buffer_scheme \<Rightarrow> event_buffer" where
  "buffer_of \<equiv> event_buffer.truncate"

lemma buffer_of_more: "event_buffer.extend (buffer_of b) (event_buffer.more b) = b"
  by (simp add: event_buffer.defs)

lemma buffer_of_fields [simp]:
  "eb_samples (buffer_of b) = eb_samples b" "eb_mmaps (buffer_of b) = eb_mmaps b" "eb_tasks (buffer_of b) = eb_tasks b"
  "eb_lastSize (buffer_of b) = eb_lastSize b" "eb_maxSize (buffer_of b) = eb_maxSize b"
  "eb_targetSize (buffer_of b) = eb_targetSize b" "eb_size (buffer_of b) = eb_size b"
  "eb_violations (buffer_of b) = eb_violations b" "eb_lastFlushMaxTime (buffer_of b) = eb_lastFlushMaxTime b"
  "eb_stats (buffer_of b) = eb_stats b" "eb_taskSize (buffer_of b) = eb_taskSize b"
  by (simp_all add: event_buffer.defs)

lemma buffer_of_update [simp]:
  "buffer_of (b\<lparr>eb_samples := x1\<rparr>) = (buffer_of b)\<lparr>eb_samples := x1\<rparr>"
  "buffer_of (b\<lparr>eb_mmaps := x2\<rparr>) = (buffer_of b)\<lparr>eb_mmaps := x2\<rparr>"
  "buffer_of (b\<lparr>eb_tasks := x3\<rparr>) = (buffer_of b)\<lparr>eb_tasks := x3\<rparr>"
  "buffer_of (b\<lparr>eb_lastSize := n1\<rparr>) = (buffer_of b)\<lparr>eb_lastSize := n1\<rparr>"
  "buffer_of (b\<lparr>eb_maxSize := n2\<rparr>) = (buffer_of b)\<lparr>eb_maxSize := n2\<rparr>"
  "buffer_of (b\<lparr>eb_targetSize := n3\<rparr>) = (buffer_of b)\<lparr>eb_targetSize := n3\<rparr>"
  "buffer_of (b\<lparr>eb_size := n4\<rparr>) = (buffer_of b)\<lparr>eb_size := n4\<rparr>"
  "buffer_of (b\<lparr>eb_violations := n5\<rparr>) = (buffer_of b)\<lparr>eb_violations := n5\<rparr>"
  "buffer_of (b\<lparr>eb_lastFlushMaxTime := t\<rparr>) = (buffer_of b)\<lparr>eb_lastFlushMaxTime := t\<rparr>"
  "buffer_of (b\<lparr>eb_stats := st\<rparr>) = (buffer_of b)\<lparr>eb_stats := st\<rparr>"
  by (simp_all add: event_buffer.defs)

lemma buffer_of_size [simp]:
  "buffer_of (setMaxEventBufferSize n b) = setMaxEventBufferSize n (buffer_of b)"
  "buffer_of (setTargetEventBufferSize n b) = setTargetEventBufferSize n (buffer_of b)"
  "buffer_of (revertTargetEventBufferSize b) = revertTargetEventBufferSize (buffer_of b)"
  by (simp_all add: setMaxEventBufferSize_def setTargetEventBufferSize_def revertTargetEventBufferSize_def Let_def)

lemma buffer_of_flush [simp]:
  "map_prod buffer_of id (flushEventBuffer n b) = flushEventBuffer n (buffer_of b)"
  by (simp add: flushEventBuffer_def start_flush_def increased_size_def Let_def)

lemma buffer_of_event [simp]:
  "map_prod buffer_of id (bufferEvent n time increment b) = bufferEvent n time increment (buffer_of b)"
  by (simp add: bufferEvent_def Let_def)

lemma buffer_of_ops [simp]:
  "map_prod buffer_of id (bufferMmap m b) = bufferMmap m (buffer_of b)"
  "map_prod buffer_of id (bufferSample r b) = bufferSample r (buffer_of b)"
  "map_prod buffer_of id (bufferTask e b) = bufferTask e (buffer_of b)"
  "map_prod buffer_of id (finishedRound t b) = finishedRound t (buffer_of b)"
  by (simp_all add: bufferMmap_def bufferSample_def bufferTask_def finishedRound_def Let_def)

section \<open>Requests as operations of the buffer\<close>

text \<open>The buffer goes from one state to the other, with these actions and these samples buffered.\<close>

definition buffers :: "event_buffer \<Rightarrow> event_buffer \<Rightarrow> action list \<Rightarrow> sample_record list \<Rightarrow> bool" where
  "buffers b b' as ss \<longleftrightarrow> (\<exists>ops. buffer_run ops b = (b', as) \<and> op_samples ops = ss)"

lemma buffer_run_append:
  "buffer_run (ops @ ops') b = (let (b, as) = buffer_run ops b; (b, bs) = buffer_run ops' b in (b, as @ bs))"
  by (induction ops arbitrary: b) (simp_all add: split_beta Let_def)

lemma buffers_refl: "buffers b b [] []"
  unfolding buffers_def by (intro exI [of _ "[]"]) (simp add: op_samples_def)

lemma buffers_trans:
  assumes "buffers b b1 as ss" "buffers b1 b2 bs ss'"
  shows "buffers b b2 (as @ bs) (ss @ ss')"
proof -
  obtain ops ops' where "buffer_run ops b = (b1, as)" "op_samples ops = ss" "buffer_run ops' b1 = (b2, bs)" "op_samples ops' = ss'"
    using assms by (auto simp: buffers_def)
  then show ?thesis unfolding buffers_def by (intro exI [of _ "ops @ ops'"]) (simp add: buffer_run_append op_samples_def)
qed

lemma buffers_step: "buffer_step a b = (b', as) \<Longrightarrow> buffers b b' as (op_samples [a])"
  unfolding buffers_def by (intro exI [of _ "[a]"]) (simp add: op_samples_def)

lemma buffers_sizes: "buffers b (setTargetEventBufferSize n b) [] []" "buffers b (revertTargetEventBufferSize b) [] []"
  "buffers b (setMaxEventBufferSize n b) [] []"
  using buffers_step [of "SetTargetSize n" b] buffers_step [of "SetTargetSize (eb_lastSize b)" b] buffers_step [of "SetMaxSize n" b]
  by (simp_all add: op_samples_def revertTargetEventBufferSize_def)

lemma buffer_of_update_more [simp]:
  "buffer_of (u\<lparr>uw_attributes := a\<rparr>) = buffer_of u" "buffer_of (u\<lparr>uw_attributeIds := m\<rparr>) = buffer_of u"
  "buffer_of (u\<lparr>uw_tracing := td\<rparr>) = buffer_of u" "buffer_of (u\<lparr>uw_buildIds := i\<rparr>) = buffer_of u"
  "buffer_of (u\<lparr>uw_output := out\<rparr>) = buffer_of u"
  by (simp_all add: event_buffer.defs)

lemma buffer_of_string [simp]: "buffer_of (snd (resolveString b u)) = buffer_of u"
  using extends_string [of u b] by (simp add: extends_def)

lemma buffers_fields: "buffer_of (resolve_fields fs u) = buffer_of u"
  unfolding resolve_fields_def by (induction fs arbitrary: u) simp_all

lemma buffer_of_format: "buffer_of (sendEventFormat i f u) = buffer_of u"
proof -
  obtain n v where n: "resolveString (ef_system f) u = (n, v)" by fastforce
  obtain n' w where n': "resolveString (ef_name f) v = (n', w)" by fastforce
  have "buffer_of v = buffer_of u" "buffer_of w = buffer_of v"
    using buffer_of_string [of "ef_system f" u] buffer_of_string [of "ef_name f" v] n n' by simp_all
  then show ?thesis by (simp add: sendEventFormat_def n n' buffers_fields)
qed

lemma buffer_of_formats: "buffer_of (fold (\<lambda>i. sendEventFormat i (g i)) ks u) = buffer_of u"
  by (induction ks arbitrary: u) (simp_all add: buffer_of_format)

lemma buffer_of_tracing: "buffer_of (unwind_tracing keys td u) = buffer_of u"
  by (simp add: unwind_tracing_def buffer_of_formats)

lemma buffer_of_attributes: "buffer_of (sendAttributes i a name u) = buffer_of u"
  using buffer_of_string [of name u] by (simp add: sendAttributes_def split_beta)

lemma buffers_attributes: "buffers (buffer_of u) (buffer_of (unwind_addAttributes a name ids u)) [] []"
  by (simp add: unwind_addAttributes_def Let_def buffer_of_attributes buffers_refl buffers_sizes)

lemma buffers_all_attributes:
  "buffers (buffer_of u) (buffer_of (fold (\<lambda>d. unwind_addAttributes (ed_attrs d) (ed_name d) (ed_ids d)) ds u)) [] []"
proof (induction ds arbitrary: u)
  case (Cons d ds)
  from buffers_trans [OF buffers_attributes Cons.IH] show ?case by simp
qed (simp add: buffers_refl)

lemma buffers_features: "buffers (buffer_of u) (buffer_of (unwind_features keys since f u)) [] []"
proof -
  define v where "v = fold (\<lambda>d. unwind_addAttributes (ed_attrs d) (ed_name d) (ed_ids d)) (pf_eventDescs f)
    (unwind_tracing keys (pf_tracing f) u)"
  have "buffers (buffer_of u) (buffer_of v) [] []"
    unfolding v_def using buffers_all_attributes [of "unwind_tracing keys (pf_tracing f) u"] by (simp add: buffer_of_tracing)
  moreover have "buffers (buffer_of v) (buffer_of (unwind_features keys since f u)) [] []"
    using buffers_sizes(1) [of "buffer_of v" 0] buffers_refl [of "buffer_of v"]
    by (simp add: unwind_features_def Let_def v_def [symmetric])
  ultimately show ?thesis using buffers_trans by fastforce
qed

fun request_samples :: "request_call \<Rightarrow> sample_record list" where
  "request_samples (Event (CallSample r)) = [r]"
| "request_samples _ = []"

lemma buffers_buffered:
  assumes "f u = (v, as)" "map_prod buffer_of id (f u) = buffer_step a (buffer_of u)"
  shows "buffers (buffer_of u) (buffer_of v) as (op_samples [a])"
  using assms by (intro buffers_step) (metis id_apply map_prod_simp)

lemma buffers_task: "bufferTask e u = (v, as) \<Longrightarrow> buffers (buffer_of u) (buffer_of v) as []"
  by (drule buffers_buffered [where f = "bufferTask e" and a = "BufferTask e"]) (simp_all add: op_samples_def)

lemma buffers_mmap: "bufferMmap m u = (v, as) \<Longrightarrow> buffers (buffer_of u) (buffer_of v) as []"
  by (drule buffers_buffered [where f = "bufferMmap m" and a = "BufferMmap m"]) (simp_all add: op_samples_def)

lemma buffers_sample: "bufferSample r u = (v, as) \<Longrightarrow> buffers (buffer_of u) (buffer_of v) as [r]"
  by (drule buffers_buffered [where f = "bufferSample r" and a = "BufferSample r"]) (simp_all add: op_samples_def)

lemma buffers_round: "finishedRound t u = (v, as) \<Longrightarrow> buffers (buffer_of u) (buffer_of v) as []"
  by (drule buffers_buffered [where f = "finishedRound t" and a = "FinishRound t"]) (simp_all add: op_samples_def)

lemma request_buffers:
  assumes "request_step ue r s = (s', as)"
  shows "buffers (buffer_of s) (buffer_of s') as (request_samples r)"
proof (cases r)
  case (Event e)
  show ?thesis
  proof (cases e)
    case (CallComm x)
    obtain i u where r: "resolveString (cm_comm x) s = (i, u)" by fastforce
    have "buffer_of u = buffer_of s" using buffer_of_string [of "cm_comm x" s] by (simp add: r)
    moreover from assms CallComm Event r have
      "bufferTask ((task_of x Command (IntPayload i))\<lparr>te_pid := cm_pid x, te_tid := cm_tid x\<rparr>) u = (s', as)" by simp
    then have "buffers (buffer_of u) (buffer_of s') as []" by (rule buffers_task)
    ultimately show ?thesis using CallComm Event by simp
  next
    case (CallAttr x)
    with assms Event buffers_attributes show ?thesis by (auto simp: attr_event_def)
  next
    case (CallTracing x)
    with assms Event show ?thesis by (auto simp: buffer_of_tracing buffers_refl)
  next
    case (CallProgress x)
    with assms Event show ?thesis by (auto simp: sendProgress_def buffers_refl)
  qed (use assms Event in \<open>auto intro: buffers_task buffers_mmap buffers_sample buffers_round\<close>)
next
  case (SendFeatures f)
  then show ?thesis using buffers_features assms by auto
qed (use assms in \<open>auto simp: setArchitecture_def unwind_setByteOrder_def event_buffer.defs intro: buffers_refl\<close>)

section \<open>A whole recording\<close>

definition recording_samples :: "request_call list \<Rightarrow> sample_record list" where
  "recording_samples rs = concat (map request_samples rs)"

text \<open>The requests, and the destructor.\<close>

definition run_recording ::
  "('w, 'm, 'd) unwind_lib \<Rightarrow> unwind_env \<Rightarrow> request_call list \<Rightarrow> ('w, 'm) analysis \<Rightarrow> (action list \<times> ('w, 'm) analysis) option"
where
  "run_recording ul ue rs s =
     Option.bind (handle_all ul ue rs s) (\<lambda>(as, s). map_option (\<lambda>(bs, s). (as @ bs, s)) (destroy ul ue s))"

text \<open>The last flush is one more step after the last round.\<close>

definition recording_ok ::
  "trace_value reader \<Rightarrow> (u64 option \<Rightarrow> u64 \<Rightarrow> bool) \<Rightarrow> ('w, 'm, 'd) unwind_lib \<Rightarrow> unwind_env \<Rightarrow> request_call list
    \<Rightarrow> ('w, 'm) analysis \<Rightarrow> bool"
where
  "recording_ok rd later ul ue rs s \<longleftrightarrow> requests_ok rd later ul ue {} None (rs @ [Event CallFinishedRound]) s
     \<and> (case handle_all ul ue (rs @ [Event CallFinishedRound]) s of None \<Rightarrow> True
         | Some (as, s') \<Rightarrow> (let (s1, bs) = flushEventBuffer 0 s' in acts_ok rd (ue_put ue) ul (ue_violation ue) bs s1))"

lemma handle_all_append:
  "handle_all ul ue (rs @ rs') s = Option.bind (handle_all ul ue rs s) (\<lambda>(as, s).
     map_option (\<lambda>(bs, s). (as @ bs, s)) (handle_all ul ue rs' s))"
proof (induction rs arbitrary: s)
  case Nil
  then show ?case by (cases "handle_all ul ue rs' s") auto
next
  case (Cons r rs)
  show ?case
  proof (cases "handle ul ue r s")
    case (Some p)
    obtain as1 s1 where h: "handle ul ue r s = Some (as1, s1)" using Some by (cases p) simp
    show ?thesis
    proof (cases "handle_all ul ue rs s1")
      case None
      then show ?thesis by (simp add: Cons.IH h)
    next
      case (Some q)
      obtain as2 s2 where "handle_all ul ue rs s1 = Some (as2, s2)" using Some by (cases q) simp
      then show ?thesis by (cases "handle_all ul ue rs' s2") (auto simp: Cons.IH h)
    qed
  qed simp
qed

lemma run_recording_flush:
  assumes "run_recording ul ue rs s = Some (as, s')"
  obtains as1 s1 bs s2 where "handle_all ul ue (rs @ [Event CallFinishedRound]) s = Some (as1, s1)"
    "handle_step ul (ue_put ue) (ue_violation ue) (flushEventBuffer 0) s1 = Some (bs, s2)" "as = as1 @ bs"
    "s' = (if st_enabled (eb_stats s2) then s2\<lparr>uw_output := uw_output s2 @ stats_text (eb_stats s2)\<rparr> else s2)"
proof -
  obtain as0 s0 cs where h: "handle_all ul ue rs s = Some (as0, s0)" "destroy ul ue s0 = Some (cs, s')" "as = as0 @ cs"
    using assms by (auto simp: run_recording_def bind_eq_Some_conv)
  obtain s2 where f: "finalize_all ul ue s0 = Some (cs, s2)"
    and s': "s' = (if st_enabled (eb_stats s2) then s2\<lparr>uw_output := uw_output s2 @ stats_text (eb_stats s2)\<rparr> else s2)"
  proof (cases "finalize_all ul ue s0")
    case None
    with h(2) show ?thesis by (simp add: destroy_def)
  next
    case (Some x)
    then show ?thesis using h(2) by (cases x) (auto simp: destroy_def intro!: that)
  qed
  obtain as1 s1 bs where "handle ul ue (Event CallFinishedRound) s0 = Some (as1, s1)"
    "handle_step ul (ue_put ue) (ue_violation ue) (flushEventBuffer 0) s1 = Some (bs, s2)" "cs = as1 @ bs"
    using f by (auto simp: finalize_all_def bind_eq_Some_conv)
  then show ?thesis using h s' by (intro that [of "as0 @ as1" s1 bs s2]) (simp_all add: handle_all_append)
qed

lemma handle_all_buffers:
  assumes "handle_all ul ue rs s = Some (as, s')" "in_order 0 s" "lib_ok (ul_lib ul) rank"
    "requests_ok rd later ul ue old latest rs s"
  shows "buffers (buffer_of s) (buffer_of s') as (recording_samples rs)"
  using assms(1,2,4)
proof (induction rs arbitrary: s as old latest)
  case (Cons r rs)
  obtain as1 s1 bs where h: "handle ul ue r s = Some (as1, s1)" and rest: "handle_all ul ue rs s1 = Some (bs, s')"
    and as: "as = as1 @ bs" using Cons.prems(1) by (auto simp: bind_eq_Some_conv)
  from handle_step_ok [OF h Cons.prems(2) assms(3) Cons.prems(3)] obtain s0 where s0: "request_step ue r s = (s0, as1)"
    "act_all ul (ue_put ue) (ue_violation ue) as1 s0 = Some s1" "in_order 0 s0" "in_order 0 s1"
    "acts_ok rd (ue_put ue) ul (ue_violation ue) as1 s0"
    "requests_ok rd later ul ue (request_formats (ue_keys ue) r \<union> old) (request_progress r latest) rs s1" by metis
  have "buffer_of s1 = buffer_of s0"
    using act_all_extends [OF s0(2,3) assms(3) s0(5)] by (simp add: extends_def)
  with request_buffers [OF s0(1)] have "buffers (buffer_of s) (buffer_of s1) as1 (request_samples r)" by simp
  from buffers_trans [OF this Cons.IH [OF rest s0(4,6)]] show ?case by (simp add: as recording_samples_def)
qed (simp add: buffers_refl recording_samples_def)

lemma configured_fields [simp]:
  "uw_output (configured version k False n m frames) = stream_header version"
  "eb_stats (configured version k False n m frames) = newStats"
  by (simp_all add: configured_def setMaxUnwindFrames_def setMaxEventBufferSize_def setTargetEventBufferSize_def
      newAnalysis_def newUnwind_def newEventBuffer_def newStats_def unwind.defs event_buffer.defs Let_def)

lemma configured_in_step: "in_step rd later version (configured version k False n m frames) newClient"
  by (auto simp: in_step_def synced_def newClient_def configured_def setMaxUnwindFrames_def setMaxEventBufferSize_def
      setTargetEventBufferSize_def newAnalysis_def newUnwind_def newEventBuffer_def newStats_def unwind.defs
      event_buffer.defs Let_def intro: exI [of _ "[]"])

lemma configured_in_order: "in_order 0 (configured version k False n m frames)"
  by (simp add: configured_def setMaxUnwindFrames_def setMaxEventBufferSize_def setTargetEventBufferSize_def newAnalysis_def
      in_order_def cache_ok_def tables_ok_def guess_ok_def emptyCache_def newUnwind_def newEventBuffer_def unwind.defs
      event_buffer.defs Let_def)

lemma configured_buffers:
  "buffers (newEventBuffer k False) (buffer_of (configured version k False n m frames :: ('w, 'm) analysis)) [] []"
proof -
  have "buffer_of (configured version k False n m frames :: ('w, 'm) analysis)
      = setMaxEventBufferSize m (setTargetEventBufferSize n (newEventBuffer k False))"
    by (simp add: configured_def setMaxUnwindFrames_def newAnalysis_def newUnwind_def newEventBuffer_def unwind.defs
        event_buffer.defs setMaxEventBufferSize_def setTargetEventBufferSize_def Let_def)
  then show ?thesis using buffers_trans [OF buffers_sizes(1,3)] by simp
qed

lemma samples_in_analysed: "samples_in as = analysed as"
proof (induction as)
  case (Cons a as)
  then show ?case by (cases a) (simp_all add: samples_in_def)
qed (simp add: samples_in_def)

text \<open>The run up to the last flush and the flush, on both sides.\<close>

lemma recording_end:
  assumes "handle_all ul ue (rs @ [Event CallFinishedRound]) s = Some (as1, s1)"
    "handle_step ul (ue_put ue) (ue_violation ue) (flushEventBuffer 0) s1 = Some (bs, s')"
    "in_step rd later version s newClient" "in_order 0 s" "lib_ok (ul_lib ul) rank" "recording_ok rd later ul ue rs s"
    "fits s'" "buffers (newEventBuffer k False) (buffer_of s) [] []"
  shows "\<exists>c ops. accepted rd later version (as1 @ bs) newClient c s'
    \<and> buffer_run ops (newEventBuffer k False) = (buffer_of s1, as1) \<and> op_samples ops = recording_samples rs
    \<and> flushEventBuffer 0 (buffer_of s1) = (buffer_of s', bs)"
proof -
  obtain s2 as2 where f: "flushEventBuffer 0 s1 = (s2, as2)" by fastforce
  have ok: "requests_ok rd later ul ue {} None (rs @ [Event CallFinishedRound]) s"
    "acts_ok rd (ue_put ue) ul (ue_violation ue) as2 s2"
    using assms(1,6) by (simp_all add: recording_ok_def f)
  note g = handle_all_grown [OF assms(1,4,5) ok(1)]
  have "numbers s1 s2" using buffer_numbers [OF flushEventBuffer_only [of s1 0]] by (simp add: f)
  note t = triggered_step [OF assms(2) f this conjunct1 [OF g] assms(5) ok(2)]
  have fits: "fits s1" using t assms(7) fits_grown by blast
  have "requests_ok rd later ul ue (dom (cl_formats newClient)) (cl_progress newClient) (rs @ [Event CallFinishedRound]) s"
    using ok(1) by (simp add: newClient_def)
  from handle_all_accepted [OF assms(1,3-5) this fits] obtain c1 where c1: "accepted rd later version as1 newClient c1 s1" by blast
  then have "in_step rd later version s1 c1" by (simp add: accepted_def)
  then have "in_step rd later version s2 c1" using buffer_in_step flushEventBuffer_only [of s1 0] f by (metis fst_conv)
  moreover have run: "act_all ul (ue_put ue) (ue_violation ue) bs s2 = Some s'" "in_order 0 s2"
    "acts_ok rd (ue_put ue) ul (ue_violation ue) bs s2" "bs = as2" using t ok(2) by auto
  ultimately obtain c where "accepted rd later version bs c1 c s'"
    using triggered_accepted [OF run(1) _ refl run(2) assms(5) run(3) assms(7)] by blast
  with c1 have "accepted rd later version (as1 @ bs) newClient c s'" by (rule accepted_trans)
  moreover have "recording_samples (rs @ [Event CallFinishedRound]) = recording_samples rs"
    by (simp add: recording_samples_def)
  then have "buffers (newEventBuffer k False) (buffer_of s1) as1 (recording_samples rs)"
    using buffers_trans [OF assms(8) handle_all_buffers [OF assms(1,4,5) ok(1)]] by simp
  moreover have "buffer_of s' = buffer_of s2" using act_all_extends [OF run(1,2) assms(5) run(3)] by (simp add: extends_def)
  then have "flushEventBuffer 0 (buffer_of s1) = (buffer_of s', bs)" using buffer_of_flush [of 0 s1] f run(4) by simp
  ultimately show ?thesis by (auto simp: buffers_def)
qed

lemma recording_run:
  assumes "run_recording ul ue rs (configured version k False n m frames) = Some (as, s')"
    "recording_ok rd later ul ue rs (configured version k False n m frames)" "lib_ok (ul_lib ul) rank" "fits s'"
  obtains c ops as1 bs s1 where
    "handle_all ul ue (rs @ [Event CallFinishedRound]) (configured version k False n m frames) = Some (as1, s1)"
    "as = as1 @ bs" "accepted rd later version as newClient c s'"
    "buffer_run ops (newEventBuffer k False) = (buffer_of s1, as1)" "op_samples ops = recording_samples rs"
    "flushEventBuffer 0 (buffer_of s1) = (buffer_of s', bs)"
proof -
  from run_recording_flush [OF assms(1)] obtain as1 s1 bs s2 where r:
    "handle_all ul ue (rs @ [Event CallFinishedRound]) (configured version k False n m frames) = Some (as1, s1)"
    "handle_step ul (ue_put ue) (ue_violation ue) (flushEventBuffer 0) s1 = Some (bs, s2)" "as = as1 @ bs"
    "s' = (if st_enabled (eb_stats s2) then s2\<lparr>uw_output := uw_output s2 @ stats_text (eb_stats s2)\<rparr> else s2)" .
  have "fits s2" using assms(4) r(4) by (auto simp: fits_def split: if_splits)
  from recording_end [OF r(1,2) configured_in_step configured_in_order assms(3,2) this configured_buffers] obtain c ops where
    c: "accepted rd later version as newClient c s2" and ops: "buffer_run ops (newEventBuffer k False) = (buffer_of s1, as1)"
    "op_samples ops = recording_samples rs" "flushEventBuffer 0 (buffer_of s1) = (buffer_of s2, bs)" unfolding r(3) by blast
  have "s' = s2" using c r(4) by (simp add: accepted_def in_step_def)
  with c ops r(1,3) show ?thesis by (intro that [of as1 s1 bs c ops]) simp_all
qed

lemma conserved_start: "conserved (newEventBuffer k False) [] []"
  by (simp add: conserved_def newEventBuffer_fields op_samples_def op_mmaps_def op_tasks_def pending_size_def)

lemma run_conserved:
  assumes "buffer_run ops (newEventBuffer k False) = (b, as)"
  shows "conserved b ops as \<and> \<not> st_enabled (eb_stats b)"
  using conserved.run_keeps [OF conserved_start _ assms] by (simp add: newEventBuffer_fields)



section \<open>An example\<close>

text \<open>A recording of one sample, on a machine with an unwinder that never ends, with a limit of one frame.\<close>

definition example_unwind_env :: unwind_env where
  "example_unwind_env = \<lparr>ue_keys = \<lambda>_. [], ue_since3_17 = \<lambda>_. False, ue_put = \<lambda>_. [], ue_violation = \<lambda>_ _. []\<rparr>"

definition example_attr :: attr_record where
  "example_attr = \<lparr>r_header = noEventHeader, r_sampleId = newSampleId 0 False, ar_attr = noAttributes, ar_ids = [], \<dots> = ()\<rparr>"

definition example_recording :: "request_call list" where
  "example_recording = [UseArchitecture ARCH_X86, Event (CallAttr example_attr),
     Event (CallSample (example_sample\<lparr>sr_userStack := []\<rparr>)), Event (CallProgress 7)]"

definition example_setup :: "(unit, unit) analysis" where
  "example_setup = configured 17 40 False 1000 2000 1"

definition example_later :: "u64 option \<Rightarrow> u64 \<Rightarrow> bool" where
  "example_later p percent \<longleftrightarrow> (case p of None \<Rightarrow> True | Some q \<Rightarrow> q < percent)"

text \<open>Requests that make the buffer do nothing.\<close>

abbreviation request_state :: "unwind_env \<Rightarrow> request_call \<Rightarrow> ('w, 'm) analysis \<Rightarrow> ('w, 'm) analysis" where
  "request_state ue r s \<equiv> fst (request_step ue r s)"

primrec quiet :: "unwind_env \<Rightarrow> request_call list \<Rightarrow> ('w, 'm) analysis \<Rightarrow> bool" where
  "quiet ue [] s \<longleftrightarrow> True"
| "quiet ue (r # rs) s \<longleftrightarrow> snd (request_step ue r s) = [] \<and> quiet ue rs (request_state ue r s)"

lemma quiet_run: "quiet ue rs s \<Longrightarrow> handle_all ul ue rs s = Some ([], fold (request_state ue) rs s)"
  by (induction rs arbitrary: s) (simp_all add: handle_def handle_step_def split_beta)

lemma quiet_ok:
  assumes "snd (request_step ue r s) = []" "request_ok rd later ue old latest r s"
    "requests_ok rd later ul ue (request_formats (ue_keys ue) r \<union> old) (request_progress r latest) rs (request_state ue r s)"
  shows "requests_ok rd later ul ue old latest (r # rs) s"
  using assms by (simp add: split_beta)

definition example_last :: "(unit, unit) analysis" where
  "example_last = fold (request_state example_unwind_env) (example_recording @ [Event CallFinishedRound]) example_setup"

lemma example_quiet: "quiet example_unwind_env (example_recording @ [Event CallFinishedRound]) example_setup"
  by code_simp

lemma example_steps:
  "handle_all example_unwinder example_unwind_env (example_recording @ [Event CallFinishedRound]) example_setup = Some ([], example_last)"
  "requests_ok example_get example_later example_unwinder example_unwind_env {} None (example_recording @ [Event CallFinishedRound]) example_setup"
proof -
  note q = example_quiet
  show "handle_all example_unwinder example_unwind_env (example_recording @ [Event CallFinishedRound]) example_setup = Some ([], example_last)"
    unfolding example_last_def by (rule quiet_run [OF q])
  have "length (uw_strings (request_state example_unwind_env (UseArchitecture ARCH_X86) example_setup)) = 0"
    "length (uw_attributes (request_state example_unwind_env (UseArchitecture ARCH_X86) example_setup)) = 0" by code_simp+
  moreover have "attributes_name noAttributes \<noteq> ''''" "length (attributes_name noAttributes) < 100" by code_simp+
  ultimately show "requests_ok example_get example_later example_unwinder example_unwind_env {} None
      (example_recording @ [Event CallFinishedRound]) example_setup"
    using q unfolding example_recording_def append_Cons append_Nil
    by (intro quiet_ok)
      (simp_all del: request_step.simps add: attr_request_def example_attr_def example_later_def ascii_def)
qed

lemma example_flush:
  "snd (flushEventBuffer 0 example_last) = [Analyze (example_sample\<lparr>sr_userStack := []\<rparr>)]"
  "eb_violations example_last = 0" "total_size (buffer_of example_last) = 40"
  "map_option (\<lambda>(as, s). (as, eb_violations s, length (uw_strings s), length (uw_locations s), list_all (\<lambda>p. length (fst p) < 20) (uw_strings s)))
     (run_recording example_unwinder example_unwind_env example_recording example_setup)
   = Some ([Analyze (example_sample\<lparr>sr_userStack := []\<rparr>)], 0, 2, 4, True)"
  by code_simp+

lemma example_flushed_ready: "ready_for (example_sample\<lparr>sr_userStack := []\<rparr>) (fst (flushEventBuffer 0 example_last))"
  "an_maxFrames (fst (flushEventBuffer 0 example_last)) = 1"
  by code_simp+

lemma example_recording_ok:
  "recording_ok example_get example_later example_unwinder example_unwind_env example_recording example_setup"
proof -
  obtain s bs where s: "flushEventBuffer 0 example_last = (s, bs)" by fastforce
  have "in_order 0 example_setup" unfolding example_setup_def by (rule configured_in_order)
  then have "in_order 0 example_last" using handle_all_grown [OF example_steps(1) _ example_lib_ok example_steps(2)] by blast
  then have "in_order 0 s"
    using in_order_private only_buffer_private [OF flushEventBuffer_only [of example_last 0]] s by fastforce
  then have "act_ok example_get (\<lambda>_. []) example_unwinder (\<lambda>_ _. []) (Analyze (example_sample\<lparr>sr_userStack := []\<rparr>)) s"
    using example_flushed_ready s by (intro example_analyze_ok) simp_all
  moreover have "bs = [Analyze (example_sample\<lparr>sr_userStack := []\<rparr>)]" using example_flush(1) s by simp
  ultimately show ?thesis
    using example_steps(2) by (simp add: recording_ok_def example_steps(1) s) (simp add: example_unwind_env_def)
qed

lemma example_recording_runs:
  obtains s' where "run_recording example_unwinder example_unwind_env example_recording (configured 17 40 False 1000 2000 1)
      = Some ([Analyze (example_sample\<lparr>sr_userStack := []\<rparr>)], s')" "fits s'" "eb_violations s' = 0"
proof -
  obtain s' where "run_recording example_unwinder example_unwind_env example_recording example_setup
      = Some ([Analyze (example_sample\<lparr>sr_userStack := []\<rparr>)], s')" "eb_violations s' = 0"
    "length (uw_strings s') = 2" "length (uw_locations s') = 4" "list_all (\<lambda>p. length (fst p) < 20) (uw_strings s')"
    using example_flush(4) by auto
  then show ?thesis by (intro that) (auto simp: example_setup_def fits_def list_all_iff)
qed



end
