(* ===== verification/StreamCopy.thy ===== *)
theory StreamCopy
  imports ProgramFacts Delivery
begin

text \<open>
  A recording with a file header that comes in a stream is copied, with zeros in place of its header, and the copy is
  read when the stream closes. As long as the recording does not refer to its header, the program does with it what it
  does with the same recording in a file.
\<close>

section \<open>The copy\<close>

text \<open>A device that takes at least a byte of what is written to it takes everything.\<close>

lemma writeBytes_all:
  assumes "\<And>target bs. bs \<noteq> [] \<Longrightarrow> 0 < put target bs"
  shows "writeBytes put target bs = Some (True, target @ bs)"
proof (induction "length bs" arbitrary: target bs rule: less_induct)
  case less
  show ?case
  proof (cases "bs = []")
    case True
    then show ?thesis by (simp add: writeBytes.simps)
  next
    case False
    let ?n = "nat (put target bs)"
    have n: "0 < ?n" "\<not> put target bs < 0" using assms [OF False, of target] by simp_all
    then have "length (drop ?n bs) < length bs" using False by simp
    from less [OF this] False n show ?thesis by (simp add: writeBytes.simps [of put target bs])
  qed
qed

definition takes_writes :: "'z program_env \<Rightarrow> bool" where
  "takes_writes pv \<longleftrightarrow> pv_openTemp pv \<and> pv_resetTemp pv \<and> (\<forall>target bs. bs \<noteq> [] \<longrightarrow> 0 < pv_write pv target bs)"

lemma copy_to_temp_all:
  "takes_writes pv \<Longrightarrow> copy_to_temp pv bs goOn p = goOn (p\<lparr>pg_temp := pg_temp p @ bs\<rparr>)"
  by (simp add: takes_writes_def copy_to_temp_def writeBytes_all)

text \<open>Pieces that are not larger than the buffer are copied one after the other.\<close>

lemma buffered_pieces:
  assumes "takes_writes pv" "\<forall>bs \<in> set chunks. length bs \<le> s_bufferSize"
  shows "pg_phase p = Buffering \<Longrightarrow> pg_exits p = [] \<Longrightarrow> pg_rest p = []
    \<Longrightarrow> event_loop pv (map Arrived chunks @ es) p = event_loop pv es (p\<lparr>pg_temp := pg_temp p @ concat chunks\<rparr>)"
  using assms(2)
proof (induction chunks arbitrary: p)
  case (Cons bs chunks)
  have "device_step pv (Arrived bs) p = Some (p\<lparr>pg_temp := pg_temp p @ bs\<rparr>)"
    using Cons.prems assms(1) by (simp add: Let_def bufferSequentialData_def copy_to_temp_all)
  with Cons show ?case by simp
qed simp

section \<open>What is read of the copy\<close>

lemma read_attribute_loop_more:
  assumes "\<And>pos bs. seek pos = Some bs \<Longrightarrow> seek' pos = Some bs"
  shows "read_attribute_loop junk seek h is attrs p = (True, a) \<Longrightarrow> read_attribute_loop junk seek' h is attrs p = (True, a)"
proof (induction "is" arbitrary: attrs p)
  case (Cons i "is")
  then obtain bs where bs: "seek (sec_offset (h_attrs h) + h_attrSize h * of_nat i) = Some bs"
    by (auto split: option.splits)
  obtain attrs' s where 1: "run_state (read_event_attributes attrs) (stream_at junk (byteOrder h) bs) = (attrs', s)" by fastforce
  obtain ids s' where 2: "run_state read_section s = (ids, s')" by fastforce
  show ?case
    using Cons.prems Cons.IH assms by (auto simp: bs assms [OF bs] 1 2 Let_def split: if_splits option.splits prod.splits)
qed simp

lemma readAttributes_more:
  assumes "readAttributes junk seek h p = (True, a)" "\<And>pos bs. seek pos = Some bs \<Longrightarrow> seek' pos = Some bs"
  shows "readAttributes junk seek' h p = (True, a)"
  using assms read_attribute_loop_more [of seek seek'] by (simp add: readAttributes_def split: if_splits)

lemma create_features_cong:
  "\<forall>(i, section) \<in> set table. from (sec_offset section) = from' (sec_offset section)
    \<Longrightarrow> create_features conv junk from order table f = create_features conv junk from' order table f"
proof (induction table arbitrary: f)
  case (Cons e table)
  obtain i sec where e: "e = (i, sec)" by fastforce
  with Cons.prems have "createFeature conv junk from order i sec = createFeature conv junk from' order i sec"
    by (intro ext) (simp add: createFeature_def section_stream_def)
  with Cons e show ?case by (cases "createFeature conv junk from' order i sec f") simp_all
qed simp

text \<open>The part of a file behind a header; nothing the recording refers to is in the header.\<close>

definition behind :: "nat \<Rightarrow> s64 \<Rightarrow> bool" where
  "behind n pos \<longleftrightarrow> int n \<le> sint pos"

definition section_table :: "'z program_env \<Rightarrow> perf_header \<Rightarrow> bytes \<Rightarrow> (feature \<times> file_section) list" where
  "section_table pv h content = result (stream_at (pe_junk (pv_perf pv)) (byteOrder h) (stream_from pv content (featureOffset h)))
     (read_section_table h all_features)"

definition attributes_at :: "'z program_env \<Rightarrow> perf_header \<Rightarrow> (s64 \<Rightarrow> bytes option) \<Rightarrow> bool \<times> perf_attributes" where
  "attributes_at pv h seek = readAttributes (pe_junk (pv_perf pv)) seek h newAttributes"

definition self_contained :: "'z program_env \<Rightarrow> perf_header \<Rightarrow> nat \<Rightarrow> bytes \<Rightarrow> bool" where
  "self_contained pv h n content \<longleftrightarrow>
     fst (attributes_at pv h (\<lambda>pos. if behind n pos then content_at pv content pos else None))
     \<and> behind n (dataOffset h)
     \<and> (\<forall>pos \<in> insert (featureOffset h) ((sec_offset \<circ> snd) ` set (section_table pv h content)).
          behind n pos \<and> pv_canSeek pv (length content) pos)"

lemma content_at_behind:
  "length start = n \<Longrightarrow> length start' = n \<Longrightarrow> behind n pos
    \<Longrightarrow> content_at pv (start @ rest) pos = content_at pv (start' @ rest) pos"
  by (auto simp: content_at_def behind_def)

lemma stream_from_behind:
  "length start = n \<Longrightarrow> length start' = n \<Longrightarrow> behind n pos \<Longrightarrow> pv_canSeek pv (n + length rest) pos
    \<Longrightarrow> stream_from pv (start @ rest) pos = stream_from pv (start' @ rest) pos"
  by (simp add: stream_from_def content_at_behind [of start n start']) (simp add: content_at_def)

section \<open>The same steps on both\<close>

text \<open>Two programs that only differ in the first bytes of their files.\<close>

definition same_program :: "'z program_env \<Rightarrow> nat \<Rightarrow> 'z program \<Rightarrow> 'z program \<Rightarrow> bool" where
  "same_program pv n p q \<longleftrightarrow> pg_header q = pg_header p \<and> pg_features q = pg_features p \<and> pg_data q = pg_data p
     \<and> pg_calls q = pg_calls p \<and> pg_exits q = pg_exits p \<and> \<not> pg_sequential p \<and> \<not> pg_sequential q
     \<and> pg_rest p \<noteq> [] \<and> pg_rest q \<noteq> [] \<and> \<not> isPipe (pg_header p) \<and> behind n (dataOffset (pg_header p))
     \<and> (\<exists>start start' rest. pg_file p = start @ rest \<and> pg_file q = start' @ rest \<and> length start = n \<and> length start' = n)"

definition outcome :: "'z program \<Rightarrow> request_call list \<times> exit_code list" where
  "outcome p = (pg_calls p, pg_exits p)"

lemma readRecording_behind:
  assumes "\<not> isPipe (pe_header env)" "behind n (dataOffset (pe_header env))" "length start = n" "length start' = n"
  shows "map_option (\<lambda>(sig, cs, d, rest). (sig, cs, d)) (readRecording depth env False True seek d (start @ rest))
    = map_option (\<lambda>(sig, cs, d, rest). (sig, cs, d)) (readRecording depth env False True seek d (start' @ rest))"
proof -
  have "drop (nat (sint (dataOffset (pe_header env)))) (start @ rest) = drop (nat (sint (dataOffset (pe_header env)))) (start' @ rest)"
    using assms(2-4) by (auto simp: behind_def)
  then show ?thesis
    using assms by (simp add: readRecording_def doRead_def Let_def option.map_comp comp_def case_prod_unfold)
qed

lemma data_read_same:
  assumes "same_program pv n p q"
  shows "map_option outcome (data_read pv p) = map_option outcome (data_read pv q)"
proof -
  obtain start start' rest where f: "pg_file p = start @ rest" "pg_file q = start' @ rest" "length start = n" "length start' = n"
    using assms by (auto simp: same_program_def)
  have out: "outcome (data_signalled sig (call_unwind (map Event cs) (r\<lparr>pg_data := d, pg_rest := l\<rparr>)))
      = (pg_calls r @ map Event cs, pg_exits r @ (case sig of DataWaiting \<Rightarrow> [] | DataFinished \<Rightarrow> [ExitNoError] | DataError \<Rightarrow> [ExitDataError]))"
    for sig cs d l and r :: "'a program"
    by (cases sig) (simp_all add: outcome_def data_signalled_def call_unwind_def exit_with_def)
  define g where "g = (\<lambda>(sig, cs, d :: 'a perf_data). (pg_calls p @ map Event cs, pg_exits p
     @ (case sig of DataWaiting \<Rightarrow> [] | DataFinished \<Rightarrow> [ExitNoError] | DataError \<Rightarrow> [ExitDataError])))"
  have "map_option outcome (data_read pv r) = map_option g (map_option (\<lambda>(sig, cs, d, rest). (sig, cs, d))
      (readRecording (pv_depth pv) (perf_env_of pv p) False True (pv_canSeek pv (n + length rest)) (pg_data p) (pg_file r)))"
    if "same_program pv n p r \<or> r = p" "length (pg_file r) = n + length rest" for r
    using that assms by (auto simp: data_read_def with_data_def same_program_def option.map_comp comp_def case_prod_unfold out g_def perf_env_of_def)
  from this [of p] this [of q] assms f readRecording_behind [of "perf_env_of pv p" n start start']
  show ?thesis by (simp add: same_program_def perf_env_of_def)
qed

lemma start_data_same:
  assumes "same_program pv n p q"
  shows "map_option outcome (start_data pv p) = map_option outcome (start_data pv q)"
proof -
  let ?next = "\<lambda>p :: 'a program. (call_unwind [UseArchitecture (archByName (pf_arch (pg_features p)))] p)\<lparr>pg_phase := ReadingData\<rparr>"
  have "same_program pv n (?next p) (?next q)" using assms by (simp add: same_program_def call_unwind_def)
  from data_read_same [OF this] assms show ?thesis
    by (simp add: start_data_def Let_def same_program_def) (simp add: outcome_def exit_with_def call_unwind_def)
qed

lemma send_header_same:
  "same_program pv n p q \<Longrightarrow> same_program pv n (send_header pv p) (send_header pv q)"
  by (simp add: same_program_def send_header_def Let_def split_beta perf_env_of_def call_unwind_def exit_with_def)

text \<open>Attributes and features are the same in both files.\<close>

lemma attributes_behind:
  assumes "self_contained pv h n (start @ rest)" "length start = n" "length start' = n"
  obtains a where "attributes_at pv h (content_at pv (start @ rest)) = (True, a)"
    "attributes_at pv h (content_at pv (start' @ rest)) = (True, a)"
proof -
  let ?seek = "\<lambda>pos. if behind n pos then content_at pv (start @ rest) pos else None"
  obtain a where a: "attributes_at pv h ?seek = (True, a)"
    using assms(1) unfolding self_contained_def by (cases "attributes_at pv h ?seek") simp
  have 1: "content_at pv (start @ rest) pos = Some bs" "content_at pv (start' @ rest) pos = Some bs" if "?seek pos = Some bs" for pos bs
    using that content_at_behind [OF assms(2,3), of pos pv rest] by (auto split: if_splits)
  show thesis
    by (rule that; unfold attributes_at_def; rule readAttributes_more [OF a [unfolded attributes_at_def]]; erule 1)
qed

lemma features_behind:
  assumes "self_contained pv h n (start @ rest)" "length start = n" "length start' = n" "\<And>t. set (pv_sections pv t) \<subseteq> set t"
  obtains r where
    "\<forall>file \<in> {start @ rest, start' @ rest}. readFeatures (pv_sections pv) (pe_conv (pv_perf pv)) (pe_junk (pv_perf pv))
       (\<lambda>pos. content_at pv file pos \<noteq> None) (stream_from pv file) h f = map_option (Pair True) r"
proof -
  let ?table = "section_table pv h (start @ rest)"
  have at: "behind n pos" "pv_canSeek pv (n + length rest) pos"
    if "pos = featureOffset h \<or> pos \<in> (sec_offset \<circ> snd) ` set ?table" for pos
    using that assms(1,2) by (auto simp: self_contained_def)
  note same = stream_from_behind [OF assms(2,3) at]
  have table: "section_table pv h (start' @ rest) = ?table"
    using same [of "featureOffset h"] by (simp add: section_table_def)
  have "stream_from pv (start' @ rest) (sec_offset (snd e)) = stream_from pv (start @ rest) (sec_offset (snd e))"
    if "e \<in> set (pv_sections pv ?table)" for e
  proof -
    have "sec_offset (snd e) \<in> (sec_offset \<circ> snd) ` set ?table" using that assms(4) [of ?table] by auto
    then show ?thesis using same by simp
  qed
  then have "create_features conv junk (stream_from pv (start' @ rest)) order (pv_sections pv ?table) f
      = create_features conv junk (stream_from pv (start @ rest)) order (pv_sections pv ?table) f" for conv junk order
    by (intro create_features_cong) (simp add: case_prod_unfold)
  moreover have "content_at pv bs (featureOffset h) \<noteq> None" if "length bs = n + length rest" for bs
    using at(2) [of "featureOffset h"] that by (simp add: content_at_def)
  then have "content_at pv (start @ rest) (featureOffset h) \<noteq> None" "content_at pv (start' @ rest) (featureOffset h) \<noteq> None"
    using assms(2,3) by simp_all
  ultimately show thesis
    using table unfolding section_table_def
    by (intro that [of "create_features (pe_conv (pv_perf pv)) (pe_junk (pv_perf pv))
        (stream_from pv (start @ rest)) (byteOrder h) (pv_sections pv ?table) f"])
      (simp add: readFeatures_def Let_def section_table_def del: not_None_eq)
qed

lemma read_file_same:
  assumes "self_contained pv h n (start @ rest)" "\<And>t. set (pv_sections pv t) \<subseteq> set t"
    "length start = n" "length start' = n" "pg_file p = start @ rest" "pg_file q = start' @ rest"
    "same_program pv n p q" "pg_header p = h" "pd_attributes (pg_data p) = newAttributes"
  shows "map_option outcome (read_file pv p) = map_option outcome (read_file pv q)"
proof -
  obtain a where a: "attributes_at pv h (content_at pv (start @ rest)) = (True, a)"
    "attributes_at pv h (content_at pv (start' @ rest)) = (True, a)"
    using attributes_behind [OF assms(1,3,4)] .
  obtain r where r: "\<forall>file \<in> {start @ rest, start' @ rest}. readFeatures (pv_sections pv) (pe_conv (pv_perf pv))
      (pe_junk (pv_perf pv)) (\<lambda>pos. content_at pv file pos \<noteq> None) (stream_from pv file) h (pg_features p) = map_option (Pair True) r"
    using features_behind [OF assms(1,3,4,2), where f = "pg_features p"] .
  let ?with = "\<lambda>p f. p\<lparr>pg_data := (pg_data p)\<lparr>pd_attributes := a\<rparr>, pg_features := f\<rparr>"
  have read: "readFileHeader pv x = map_option (\<lambda>f. send_header pv (?with x f)) r"
    if "x = p \<or> x = q" for x
    using that assms(5-9) a r by (auto simp: readFileHeader_def same_program_def attributes_at_def Let_def option.map_comp comp_def)
  have "same_program pv n (send_header pv (?with p f)) (send_header pv (?with q f))" for f
    using assms(7) by (intro send_header_same) (simp add: same_program_def)
  then have "map_option outcome (start_data pv (send_header pv (?with p f))) = map_option outcome (start_data pv (send_header pv (?with q f)))" for f
    by (rule start_data_same)
  then show ?thesis using read by (cases r) (simp_all add: read_file_def)
qed

section \<open>The whole run\<close>

lemma event_loop_end [simp]: "Option.bind r (event_loop pv []) = r"
  by (cases r) simp_all

lemma readHeader_sequential: "readHeader junk True size1 bs h = readHeader junk True size2 bs h"
  by (simp only: readHeader_def read_pipe_header_def read_extended_header_def simp_thms if_False)

lemma stream_outcome:
  assumes "wf_file_header order (int (length content)) h" "content = encode_file_header order h @ rest" "rest \<noteq> []"
    "self_contained pv h fileHeaderFixedLength content" "takes_writes pv" "\<And>t. set (pv_sections pv t) \<subseteq> set t"
    "concat (first # chunks) = content" "fileHeaderFixedLength \<le> length first" "\<forall>bs \<in> set (first # chunks). length bs \<le> s_bufferSize"
  shows "map_option outcome (run_stream pv fallback (map Arrived (first # chunks) @ [Closing]))
    = map_option outcome (run_file pv fallback content)"
proof -
  have size: "h_size h = 104" "length (h_features h) = 4" "fileHeaderFixedLength = 104" "isPipe h = False"
    using assms(1) by (simp_all add: wf_file_header_def fileHeaderFixedLength_def pipeHeaderFixedLength_def section_fixedLength_def isPipe_def)
  note len = length_file_header [OF size(2), of order]
  have temp: "pv_openTemp pv" "pv_resetTemp pv" using assms(5) by (simp_all add: takes_writes_def)
  define part where "part = drop 104 first"
  have whole: "first @ concat chunks = encode_file_header order h @ rest" using assms(2,7) by simp
  have "take 104 first = encode_file_header order h"
    using arg_cong [OF whole, of "take 104"] assms(8) len size(3) by simp
  then have first: "first = encode_file_header order h @ part"
    unfolding part_def by (metis append_take_drop_id)
  then have rest: "rest = part @ concat chunks" using whole by simp
  let ?n = "newProgram pv True [] fallback" and ?zeros = "replicate 104 0 :: bytes"
  define copied where "copied temp = ?n\<lparr>pg_header := h, pg_rest := [], pg_calls := [UseByteOrder (byteOrder h)], pg_temp := temp, pg_phase := Buffering\<rparr>" for temp
  have "device_step pv (Arrived first) ?n = header_finished pv (?n\<lparr>pg_header := h, pg_rest := part\<rparr>)"
    using readHeader_encoded [OF assms(1), of _ True part] readHeader_sequential [of _ 0 "encode_file_header order h @ part" _ "int (length content)"]
    by (simp add: newProgram_def header_read_def first)
  also have "\<dots> = Some (copied (?zeros @ part))"
    using assms(9) size assms(5) temp first by (simp add: header_finished_def start_buffering_def copy_to_temp_all bufferSequentialData_def
        newProgram_def call_unwind_def copied_def Let_def)
  finally have "run_stream pv fallback (map Arrived (first # chunks) @ [Closing])
      = event_loop pv (map Arrived chunks @ [Closing]) (copied (?zeros @ part))"
    by (simp add: run_stream_def newProgram_def)
  also have "\<dots> = event_loop pv [Closing] ((copied (?zeros @ part))\<lparr>pg_temp := (?zeros @ part) @ concat chunks\<rparr>)"
    using assms(9) by (subst buffered_pieces [OF assms(5)]) (simp_all add: copied_def newProgram_def)
  also have "\<dots> = read_file pv ((copied (?zeros @ rest))\<lparr>pg_sequential := False, pg_file := ?zeros @ rest, pg_rest := ?zeros @ rest\<rparr>)"
    using temp by (simp add: copied_def newProgram_def end_buffering_def rest Let_def)
  finally have stream: "run_stream pv fallback (map Arrived (first # chunks) @ [Closing]) = \<dots>" .
  let ?p = "(newProgram pv False content fallback)\<lparr>pg_header := h, pg_rest := rest, pg_calls := [UseByteOrder (byteOrder h)]\<rparr>"
  have "run_file pv fallback content = read_file pv ?p"
    using readHeader_encoded [OF assms(1), of _ False rest] assms(2) size(4)
    by (simp add: run_file_def header_read_def newProgram_def header_finished_def call_unwind_def Let_def)
  moreover have "map_option outcome (read_file pv ?p)
      = map_option outcome (read_file pv ((copied (?zeros @ rest))\<lparr>pg_sequential := False, pg_file := ?zeros @ rest, pg_rest := ?zeros @ rest\<rparr>))"
  proof (rule read_file_same [where h = h and n = 104 and start = "encode_file_header order h" and start' = ?zeros and rest = rest])
    show "same_program pv 104 ?p ((copied (?zeros @ rest))\<lparr>pg_sequential := False, pg_file := ?zeros @ rest, pg_rest := ?zeros @ rest\<rparr>)"
      using assms(3,4) size len unfolding same_program_def
      by (intro conjI exI [of _ "encode_file_header order h"] exI [of _ ?zeros] exI [of _ rest])
        (simp_all add: copied_def newProgram_def self_contained_def assms(2))
  qed (use assms(2,4,6) size len in \<open>simp_all add: copied_def newProgram_def newPerfData_def\<close>)
  ultimately show ?thesis using stream by simp
qed

text \<open>What the program returns and writes: \<open>main\<close> leaves its event loop, and \<open>PerfUnwind\<close> is destroyed.\<close>

definition program_result ::
  "('w, 'm, 'd) unwind_lib \<Rightarrow> unwind_env \<Rightarrow> ('w, 'm) analysis \<Rightarrow> 'z program option \<Rightarrow> (exit_code option \<times> bytes) option"
where
  "program_result ul ue s run = Option.bind run (\<lambda>p.
     map_option (\<lambda>(as, s). (exit_status p, uw_output s)) (run_recording ul ue (pg_calls p) s))"

lemma program_result_outcome:
  assumes "map_option outcome run1 = map_option outcome run2"
  shows "program_result ul ue s run1 = program_result ul ue s run2"
proof (cases run1)
  case None
  with assms show ?thesis by (simp add: program_result_def)
next
  case (Some p)
  with assms obtain q where "run2 = Some q" "outcome p = outcome q" by (cases run2) auto
  with Some show ?thesis by (simp add: program_result_def outcome_def exit_status_def)
qed

text \<open>
  C4: a recording that comes in a stream is read like the same recording in a file. Take a recording with a well-formed
  file header in either byte order and something behind it, that refers to nothing inside its header, and let it
  arrive in pieces of at most 32 MiB, the first of which has the whole header. When the copy takes what is written to
  it, the program returns the same and writes the same, byte by byte, to its output as for the
  file, whatever its settings are: the zeros in place of the header make no difference.
\<close>
theorem stream_as_file:
  assumes "wf_file_header order (int (length content)) h" "content = encode_file_header order h @ rest" "rest \<noteq> []"
    "self_contained pv h fileHeaderFixedLength content" "takes_writes pv" "\<And>t. set (pv_sections pv t) \<subseteq> set t"
    "concat (first # chunks) = content" "fileHeaderFixedLength \<le> length first" "\<forall>bs \<in> set (first # chunks). length bs \<le> s_bufferSize"
  shows "program_result ul ue s (run_stream pv fallback (map Arrived (first # chunks) @ [Closing]))
    = program_result ul ue s (run_file pv fallback content)"
  by (rule program_result_outcome [OF stream_outcome [OF assms]])

text \<open>
  A recording with one event in its data and the name of the host behind it, in three pieces; the second cuts the
  section of the name.
\<close>

definition copied_header :: perf_header where
  "copied_header = sample_header\<lparr>h_attrs := \<lparr>sec_offset = 104, sec_size = 0\<rparr>, h_data := \<lparr>sec_offset = 104, sec_size = 8\<rparr>\<rparr>"

definition copied_rest :: bytes where
  "copied_rest = encode_event_header LittleEndian \<lparr>eh_type = 68, eh_misc = 0, eh_size = 8\<rparr>
     @ encode_section LittleEndian \<lparr>sec_offset = 128, sec_size = 8\<rparr> @ encode 4 LittleEndian (4 :: u32) @ [97, 98, 0, 0]"

definition copied_pieces :: "bytes list" where
  "copied_pieces = [encode_file_header LittleEndian copied_header @ take 3 copied_rest, take 20 (drop 3 copied_rest), drop 23 copied_rest]"

lemma copied_table:
  "section_table example_program copied_header (encode_file_header LittleEndian copied_header @ copied_rest)
    = [(HOSTNAME, \<lparr>sec_offset = 128, sec_size = 8\<rparr>)]"
  by code_simp

lemma copied_recording:
  "wf_file_header LittleEndian (int (length (encode_file_header LittleEndian copied_header @ copied_rest))) copied_header"
  "self_contained example_program copied_header fileHeaderFixedLength (encode_file_header LittleEndian copied_header @ copied_rest)"
  "concat copied_pieces = encode_file_header LittleEndian copied_header @ copied_rest"
  "takes_writes example_program"
proof -
  have rest: "length copied_rest = 32" by (simp add: copied_rest_def encode_event_header_def)
  show "wf_file_header LittleEndian (int (length (encode_file_header LittleEndian copied_header @ copied_rest))) copied_header"
    by (simp add: rest copied_header_def wf_file_header_def sample_header_def newHeader_def fileHeaderFixedLength_def length_file_header
        pipeHeaderFixedLength_def section_fixedLength_def hasFeature_bit dataOffset_def dataSize_def)
  have "fst (attributes_at example_program copied_header seek)" for seek
    by (simp add: attributes_at_def readAttributes_def numAttrs_def copied_header_def sample_header_def SIZE_VER0_def section_fixedLength_def)
  then show "self_contained example_program copied_header fileHeaderFixedLength (encode_file_header LittleEndian copied_header @ copied_rest)"
    unfolding self_contained_def copied_table
    by (simp add: behind_def dataOffset_def featureOffset_def copied_header_def fileHeaderFixedLength_def pipeHeaderFixedLength_def
        section_fixedLength_def example_program_def)
  show "concat copied_pieces = encode_file_header LittleEndian copied_header @ copied_rest"
    using append_take_drop_id [of 20 "drop 3 copied_rest"] by (simp add: copied_pieces_def)
  show "takes_writes example_program" by (simp add: takes_writes_def example_program_def)
qed

theorem stream_as_file_witness:
  "program_result example_unwinder example_unwind_env example_setup
      (run_stream example_program (ascii ''x86_64'') (map Arrived copied_pieces @ [Closing]))
    = program_result example_unwinder example_unwind_env example_setup (run_file example_program (ascii ''x86_64'') (encode_file_header LittleEndian copied_header @ copied_rest))"
proof -
  have "length copied_rest = 32" by (simp add: copied_rest_def encode_event_header_def)
  then show ?thesis
    using copied_recording(3) unfolding copied_pieces_def
    by (intro stream_as_file [OF copied_recording(1) refl _ copied_recording(2,4)])
      (auto simp: example_program_def copied_rest_def length_file_header copied_header_def sample_header_def s_bufferSize_def
        fileHeaderFixedLength_def pipeHeaderFixedLength_def section_fixedLength_def newHeader_def)
qed

text \<open>
  Only one buffer is read each time something arrives. What is more than that and not read when the stream closes is lost:
  the copy is read without it.
\<close>

lemma large_piece_lost:
  assumes "takes_writes pv" "pg_phase p = Buffering" "pg_exits p = []" "pg_rest p = []"
  shows "event_loop pv [Arrived bs, Closing] p = read_file pv (p\<lparr>pg_temp := pg_temp p @ take s_bufferSize bs, pg_sequential := False,
    pg_file := pg_temp p @ take s_bufferSize bs, pg_rest := pg_temp p @ take s_bufferSize bs\<rparr>)"
  using assms takes_writes_def [of pv]
  by (simp add: Let_def bufferSequentialData_def copy_to_temp_all end_buffering_def del: event_loop.simps(1))

end
